(* ===== verification/Prelude.thy ===== *)
theory Prelude
  imports Main "HOL-Library.Multiset" "HOL-Library.AList" "HOL-Library.Word"
begin

text \<open>
  What every component shares: the collections of rewrite rules the component theories fill,
  the names of the model's basic types, signed 64-bit arithmetic, and the facts on association
  lists and on iteration orders that the proofs about Go maps use.
\<close>

named_theorems codec \<open>encode/decode pairs: decoding what was encoded\<close>
named_theorems text_simps \<open>equations on formatted text and object keys\<close>
named_theorems io_simps \<open>unfolding of the store and error combinators\<close>
named_theorems store_rules \<open>what a storage operation does to the visible objects\<close>

section \<open>Machine integers and time\<close>

text \<open>
  A Go \<open>int64\<close> is an \<open>int\<close>; where an operation can leave the 64-bit range the model applies
  \<open>wrap64\<close>, the two's complement value of the low 64 bits. A \<open>time.Time\<close> is its instant in
  nanoseconds since the Unix epoch, a \<open>time.Duration\<close> a signed number of nanoseconds.
\<close>

type_synonym instant = int
type_synonym duration = int

definition wrap64 :: "int \<Rightarrow> int" where
  "wrap64 x = sint (word_of_int x :: 64 word)"

definition in_int64 :: "int \<Rightarrow> bool" where
  "in_int64 x \<longleftrightarrow> - (2 ^ 63) \<le> x \<and> x < 2 ^ 63"

lemma wrap64_id [simp]: "in_int64 x \<Longrightarrow> wrap64 x = x"
  by (simp add: wrap64_def in_int64_def sint_sbintrunc' signed_take_bit_int_eq_self)

lemma in_int64_wrap64 [simp, intro]: "in_int64 (wrap64 x)"
  using sint_ge [of "word_of_int x :: 64 word"] sint_lt [of "word_of_int x :: 64 word"]
  by (simp add: wrap64_def in_int64_def)

abbreviation "microsecond \<equiv> (1000 :: int)"
abbreviation "millisecond \<equiv> (1000000 :: int)"
abbreviation "second \<equiv> (1000000000 :: int)"
abbreviation "minute \<equiv> (60000000000 :: int)"
abbreviation "hour \<equiv> (3600000000000 :: int)"

text \<open>
  \<open>t.Sub(u)\<close> saturates at the ends of the duration range; \<open>zero_time\<close> is \<open>time.Time{}\<close>,
  midnight of January 1 of year 1 (UTC).
\<close>

definition time_sub :: "instant \<Rightarrow> instant \<Rightarrow> duration" where
  "time_sub t u = max (- (2 ^ 63)) (min (2 ^ 63 - 1) (t - u))"

definition zero_time :: instant where
  "zero_time = - 62135596800 * second"

lemma time_sub_in_range [simp]: "in_int64 (t - u) \<Longrightarrow> time_sub t u = t - u"
  by (simp add: time_sub_def in_int64_def)

lemma time_sub_mono: "t \<le> t' \<Longrightarrow> time_sub t u \<le> time_sub t' u"
  by (simp add: time_sub_def)

text \<open>Go's \<open>/\<close> on signed integers truncates towards zero.\<close>

definition quot :: "int \<Rightarrow> int \<Rightarrow> int" where
  "quot a b = sgn a * sgn b * (\<bar>a\<bar> div \<bar>b\<bar>)"

definition remi :: "int \<Rightarrow> int \<Rightarrow> int" where
  "remi a b = a - quot a b * b"

lemma quot_nonneg [simp]: "0 \<le> a \<Longrightarrow> 0 < b \<Longrightarrow> quot a b = a div b"
  by (cases "a = 0") (auto simp: quot_def)

lemma remi_nonneg [simp]: "0 \<le> a \<Longrightarrow> 0 < b \<Longrightarrow> remi a b = a mod b"
  by (simp add: remi_def minus_div_mult_eq_mod)

section \<open>Go maps\<close>

text \<open>
  A Go map is an association list with distinct keys: \<open>map_of\<close> reads it, \<open>AList.update\<close> and
  \<open>AList.delete\<close> write it. A \<open>range\<close> over a map visits the entries in an order the language
  leaves open, so a definition that ranges over a map takes the order as an argument \<open>ord\<close>
  that permutes the entries.
\<close>

type_synonym ('k, 'v) gomap = "('k \<times> 'v) list"

abbreviation keys_distinct :: "('k, 'v) gomap \<Rightarrow> bool" where
  "keys_distinct m \<equiv> distinct (map fst m)"

definition iteration_order :: "('a list \<Rightarrow> 'a list) \<Rightarrow> bool" where
  "iteration_order ord \<longleftrightarrow> (\<forall>xs. mset (ord xs) = mset xs)"

lemma iteration_order_id [simp]: "iteration_order (\<lambda>xs. xs)"
  by (simp add: iteration_order_def)

lemma iteration_order_identity [simp]: "iteration_order id"
  by (simp add: id_def)

lemma iteration_order_rev [simp]: "iteration_order rev"
  by (simp add: iteration_order_def)

lemma iteration_order_mset [simp]: "iteration_order ord \<Longrightarrow> mset (ord xs) = mset xs"
  by (simp add: iteration_order_def)

lemma iteration_order_set [simp]: "iteration_order ord \<Longrightarrow> set (ord xs) = set xs"
  by (metis iteration_order_def mset_eq_setD)

lemma iteration_order_length [simp]: "iteration_order ord \<Longrightarrow> length (ord xs) = length xs"
  by (metis iteration_order_def mset_eq_length)

lemma keys_distinct_perm:
  "mset xs = mset ys \<Longrightarrow> keys_distinct xs \<longleftrightarrow> keys_distinct ys"
  by (metis mset_map mset_eq_imp_distinct_iff)

lemma map_of_perm:
  assumes "mset xs = mset ys" and "keys_distinct ys"
  shows "map_of xs = map_of ys"
proof -
  have "keys_distinct xs" using assms keys_distinct_perm by blast
  moreover have "set xs = set ys" using assms(1) by (rule mset_eq_setD)
  ultimately show ?thesis using assms(2) by (simp add: map_of_inject_set)
qed

lemma keys_distinct_update [simp]: "keys_distinct m \<Longrightarrow> keys_distinct (AList.update k v m)"
  by (rule distinct_update)

lemma keys_distinct_delete [simp]: "keys_distinct m \<Longrightarrow> keys_distinct (AList.delete k m)"
  by (rule distinct_delete)

lemma map_of_update [simp]: "map_of (AList.update k v m) = (map_of m)(k \<mapsto> v)"
  by (rule update_conv')

lemma map_of_delete [simp]: "map_of (AList.delete k m) = (map_of m)(k := None)"
  by (rule delete_conv')

lemma set_update_subset: "set (AList.update k v m) \<subseteq> insert (k, v) (set m)"
  by (induction m) auto

text \<open>Writing every entry of a map into another one.\<close>

lemma map_of_fold_update:
  "map_of (fold (\<lambda>(k, v). AList.update k v) kvs m) = map_of m ++ map_of (rev kvs)"
  by (induction kvs arbitrary: m) (auto simp: map_add_def fun_eq_iff split: option.splits)

lemma keys_distinct_fold_update:
  "keys_distinct m \<Longrightarrow> keys_distinct (fold (\<lambda>(k, v). AList.update k v) kvs m)"
  by (induction kvs arbitrary: m) auto

lemma map_of_rev_distinct: "keys_distinct kvs \<Longrightarrow> map_of (rev kvs) = map_of kvs"
  by (rule map_of_perm) auto

section \<open>Lists\<close>

lemma list_all_fold_invariant:
  assumes "P s" and "\<And>x s. x \<in> set xs \<Longrightarrow> P s \<Longrightarrow> P (f x s)"
  shows "P (fold f xs s)"
  using assms by (induction xs arbitrary: s) auto

lemma sorted_snoc_all_le:
  fixes xs :: "'a::linorder list"
  shows "sorted (xs @ [x]) \<longleftrightarrow> sorted xs \<and> (\<forall>y \<in> set xs. y \<le> x)"
  by (auto simp: sorted_append)

lemma last_sorted_max:
  fixes xs :: "'a::linorder list"
  assumes "sorted xs" and "xs \<noteq> []"
  shows "last xs = Max (set xs)"
proof -
  have "\<And>y. y \<in> set xs \<Longrightarrow> y \<le> last xs"
    using assms by (metis append_butlast_last_id sorted_snoc_all_le order_refl
        in_set_conv_decomp_first rotate1.simps(2) set_ConsD set_rotate1)
  then show ?thesis using assms(2) by (intro Max_eqI [symmetric]) auto
qed

end
