(* ===== verification/GoFloat.thy ===== *)
theory GoFloat
  imports Prelude Complex_Main "HOL-Library.Log_Nat"
begin

text \<open>
  Go's \<open>float64\<close>, as far as the code computes with it: a finite value is the rational it denotes,
  rounded to 53 significant bits (round half to even) after every operation; infinities and NaN
  are values of their own. Not modelled: the sign of zero and the loss of precision below
  \<open>2 ^ (-1022)\<close>, which no computation of the modelled code reaches.
\<close>

datatype f64 = Fin rat | PInf | NInf | NaN

definition pow2 :: "int \<Rightarrow> rat" where
  "pow2 k = (if 0 \<le> k then 2 ^ nat k else 1 / 2 ^ nat (- k))"

lemma pow2_pos [simp]: "0 < pow2 k"
  by (simp add: pow2_def)

lemma pow2_nonneg [simp]: "0 \<le> pow2 k"
  using pow2_pos [of k] by (rule less_imp_le)

lemma pow2_nonzero [simp]: "pow2 k \<noteq> 0"
  using pow2_pos [of k] by (metis less_irrefl)

lemma pow2_powi: "pow2 k = 2 powi k"
  by (simp add: pow2_def power_int_def power_one_over inverse_eq_divide)

lemma pow2_add: "pow2 (a + b) = pow2 a * pow2 b"
  by (simp add: pow2_powi power_int_add)

lemma pow2_nat [simp]: "pow2 (int n) = 2 ^ n"
  by (simp add: pow2_def)

lemma pow2_diff: "pow2 (a - b) = pow2 a / pow2 b"
  by (simp add: pow2_powi power_int_diff)

lemma pow2_strict_mono: "a < b \<Longrightarrow> pow2 a < pow2 b"
  unfolding pow2_powi by (rule power_int_strict_increasing) simp_all

lemma pow2_less_iff: "pow2 a < pow2 b \<longleftrightarrow> a < b"
  using pow2_strict_mono [of a b] pow2_strict_mono [of b a] by (cases a b rule: linorder_cases) auto

section \<open>Rounding\<close>

definition round_half_even :: "rat \<Rightarrow> int" where
  "round_half_even m =
     (let f = \<lfloor>m\<rfloor>; d = m - of_int f
      in if d < 1 / 2 then f else if 1 / 2 < d then f + 1 else if even f then f else f + 1)"

text \<open>The exponent \<open>e\<close> with \<open>2 ^ e \<le> x < 2 ^ (e + 1)\<close>, from the bit lengths of the fraction.\<close>

definition exponent_of :: "rat \<Rightarrow> int" where
  "exponent_of x =
     (let (p, q) = quotient_of x; k = bitlen p - bitlen q in if pow2 k \<le> x then k else k - 1)"

definition f64_round_pos :: "rat \<Rightarrow> rat" where
  "f64_round_pos x =
     (let s = pow2 (exponent_of x - 52) in of_int (round_half_even (x / s)) * s)"

definition f64_round :: "rat \<Rightarrow> rat" where
  "f64_round x =
     (if x = 0 then 0 else if 0 < x then f64_round_pos x else - f64_round_pos (- x))"

lemma exponent_of_bounds:
  assumes "0 < x"
  shows "pow2 (exponent_of x) \<le> x \<and> x < pow2 (exponent_of x + 1)"
proof -
  obtain p q where pq: "quotient_of x = (p, q)" by (cases "quotient_of x")
  have q: "0 < q" using pq by (rule quotient_of_denom_pos)
  have x: "x = of_int p / of_int q" using pq by (rule quotient_of_div)
  have p: "0 < p" using assms q unfolding x by (simp add: zero_less_divide_iff)
  have b: "2 ^ nat (bitlen n - 1) \<le> n \<and> n < 2 ^ nat (bitlen n)" if "0 < n" for n
    using bitlen_bounds [OF that] .
  have bl: "1 \<le> bitlen n" if "0 < n" for n
    using bitlen_bounds [OF that] that bitlen_nonneg [of n] by (cases "bitlen n = 0") auto
  have lo: "pow2 (bitlen n - 1) \<le> of_int n" if "0 < n" for n
  proof -
    have "(of_int (2 ^ nat (bitlen n - 1)) :: rat) \<le> of_int n"
      using b [OF that] unfolding of_int_le_iff by blast
    with bl [OF that] show ?thesis by (simp add: pow2_def)
  qed
  have hi: "(of_int n :: rat) < pow2 (bitlen n)" if "0 < n" for n
  proof -
    have "(of_int n :: rat) < of_int (2 ^ nat (bitlen n))"
      using b [OF that] unfolding of_int_less_iff by blast
    then show ?thesis using bitlen_nonneg [of n] by (simp add: pow2_def)
  qed
  have "x < pow2 (bitlen p) / pow2 (bitlen q - 1)"
    unfolding x using hi [OF p] lo [OF q] p q by (intro frac_less) auto
  also have "\<dots> = pow2 (bitlen p - bitlen q + 1)"
    unfolding pow2_diff [symmetric] by (simp add: algebra_simps)
  finally have upper: "x < pow2 (bitlen p - bitlen q + 1)" .
  have "pow2 (bitlen p - 1) / pow2 (bitlen q) \<le> x"
    unfolding x using lo [OF p] hi [OF q] p q by (intro frac_le) auto
  also have "pow2 (bitlen p - 1) / pow2 (bitlen q) = pow2 (bitlen p - bitlen q - 1)"
    unfolding pow2_diff [symmetric] by (simp add: algebra_simps)
  finally have "pow2 (bitlen p - bitlen q - 1) \<le> x" .
  with upper show ?thesis by (simp add: exponent_of_def pq Let_def)
qed

lemma round_half_even_int [simp]: "round_half_even (of_int n) = n"
  by (simp add: round_half_even_def)

lemma round_half_even_error: "\<bar>of_int (round_half_even m) - m\<bar> \<le> 1 / 2"
proof -
  define f where "f = \<lfloor>m\<rfloor>"
  have "of_int f \<le> m" and "m < of_int f + 1" unfolding f_def by linarith+
  then show ?thesis unfolding round_half_even_def Let_def f_def [symmetric] by auto
qed

lemma round_half_even_nonneg: "0 \<le> m \<Longrightarrow> 0 \<le> round_half_even m"
  by (simp add: round_half_even_def Let_def)

text \<open>A value with at most 53 significant bits is represented exactly.\<close>

lemma f64_round_pos_exact:
  assumes "0 < n" and "n < 2 ^ 53" and x: "x = of_int n * pow2 j"
  shows "f64_round_pos x = x"
proof -
  have "0 < x" using assms by simp
  then have "pow2 (exponent_of x) \<le> x" using exponent_of_bounds by blast
  also have "x < pow2 (53 + j)"
  proof -
    have "(of_int n :: rat) < of_int (2 ^ 53)" using assms(2) by (simp only: of_int_less_iff)
    also have "of_int (2 ^ 53) = pow2 53" by (simp add: pow2_def)
    finally show ?thesis unfolding pow2_add x by (rule mult_strict_right_mono) simp
  qed
  finally have "exponent_of x < 53 + j" by (simp add: pow2_less_iff)
  define i where "i = nat (j - (exponent_of x - 52))"
  have i: "pow2 j = pow2 (int i + (exponent_of x - 52))" using \<open>exponent_of x < 53 + j\<close> by (simp add: i_def)
  define s where "s = pow2 (exponent_of x - 52)"
  have s: "s \<noteq> 0" by (simp add: s_def)
  have j: "pow2 j = 2 ^ i * s" unfolding i pow2_add s_def by simp
  have xs: "x = of_int (n * 2 ^ i) * s" using x unfolding j by simp
  with s have "x / s = of_int (n * 2 ^ i)" by simp
  then have "f64_round_pos x = of_int (n * 2 ^ i) * s"
    unfolding f64_round_pos_def Let_def s_def [symmetric] by (simp only: round_half_even_int)
  with xs show ?thesis by simp
qed

lemma f64_round_exact:
  assumes "\<bar>n\<bar> < 2 ^ 53"
  shows "f64_round (of_int n * pow2 j) = of_int n * pow2 j"
proof -
  consider "n = 0" | "0 < n" | "n < 0" by linarith
  then show ?thesis
  proof cases
    case 2
    then show ?thesis using assms f64_round_pos_exact [of n _ j] by (simp add: f64_round_def)
  next
    case 3
    then have "f64_round_pos (of_int (- n) * pow2 j) = of_int (- n) * pow2 j"
      using assms by (intro f64_round_pos_exact) auto
    moreover have "(of_int n :: rat) * pow2 j < 0" using 3 by (simp add: mult_less_0_iff)
    ultimately show ?thesis by (simp add: f64_round_def)
  qed (simp add: f64_round_def)
qed

lemma f64_round_int [simp]: "\<bar>n\<bar> < 2 ^ 53 \<Longrightarrow> f64_round (of_int n) = of_int n"
  using f64_round_exact [of n 0] by (simp add: pow2_def)

lemma f64_round_nonneg [simp]: "0 \<le> x \<Longrightarrow> 0 \<le> f64_round x"
  by (auto simp: f64_round_def f64_round_pos_def Let_def intro!: mult_nonneg_nonneg
      round_half_even_nonneg)

lemma f64_round_error:
  assumes "0 \<le> x"
  shows "\<bar>f64_round x - x\<bar> \<le> x / 2 ^ 53"
proof (cases "x = 0")
  case False
  with assms have "0 < x" by simp
  define s where "s = pow2 (exponent_of x - 52)"
  have s: "0 < s" by (simp add: s_def)
  have "f64_round x - x = (of_int (round_half_even (x / s)) - x / s) * s"
    using \<open>0 < x\<close> s by (simp add: f64_round_def f64_round_pos_def s_def [symmetric] Let_def field_simps)
  then have "\<bar>f64_round x - x\<bar> \<le> 1 / 2 * s"
    using round_half_even_error [of "x / s"] s by (simp add: abs_mult mult_right_mono)
  also have "1 / 2 * s = pow2 (exponent_of x) / 2 ^ 53"
    by (simp add: s_def pow2_diff) (simp add: pow2_def)
  also have "\<dots> \<le> x / 2 ^ 53"
    using exponent_of_bounds [OF \<open>0 < x\<close>] by (simp add: divide_right_mono)
  finally show ?thesis .
qed (simp add: f64_round_def)

lemma f64_round_upper: "0 \<le> x \<Longrightarrow> f64_round x \<le> x * (1 + 1 / 2 ^ 53)"
  using f64_round_error [of x] abs_ge_self [of "f64_round x - x"]
  unfolding distrib_left mult_1_right times_divide_eq_right by linarith

section \<open>Operations\<close>

definition f64_of :: "rat \<Rightarrow> f64" where
  "f64_of x = (let r = f64_round x in if 2 ^ 1024 \<le> r then PInf else if r \<le> - (2 ^ 1024) then NInf else Fin r)"

definition f64_of_int :: "int \<Rightarrow> f64" where
  "f64_of_int n = f64_of (of_int n)"

fun f64_mul :: "f64 \<Rightarrow> f64 \<Rightarrow> f64" where
  "f64_mul (Fin a) (Fin b) = f64_of (a * b)"
| "f64_mul NaN _ = NaN"
| "f64_mul _ NaN = NaN"
| "f64_mul (Fin a) y = (if a = 0 then NaN else if (0 < a) = (y = PInf) then PInf else NInf)"
| "f64_mul y (Fin a) = (if a = 0 then NaN else if (0 < a) = (y = PInf) then PInf else NInf)"
| "f64_mul x y = (if x = y then PInf else NInf)"

fun f64_div :: "f64 \<Rightarrow> f64 \<Rightarrow> f64" where
  "f64_div (Fin a) (Fin b) =
     (if b = 0 then (if a = 0 then NaN else if 0 < a then PInf else NInf) else f64_of (a / b))"
| "f64_div NaN _ = NaN"
| "f64_div _ NaN = NaN"
| "f64_div (Fin _) _ = Fin 0"
| "f64_div x (Fin b) = (if (x = PInf) = (0 \<le> b) then PInf else NInf)"
| "f64_div _ _ = NaN"

text \<open>\<open>x < y\<close>; every comparison with NaN is false.\<close>

fun f64_less :: "f64 \<Rightarrow> f64 \<Rightarrow> bool" where
  "f64_less (Fin a) (Fin b) \<longleftrightarrow> a < b"
| "f64_less NaN _ \<longleftrightarrow> False"
| "f64_less _ NaN \<longleftrightarrow> False"
| "f64_less x y \<longleftrightarrow> x \<noteq> y \<and> (x = NInf \<or> y = PInf)"

text \<open>
  \<open>math.Pow\<close> with a non-negative integral exponent: square and multiply, as the library does it.
\<close>

function f64_pow_loop :: "f64 \<Rightarrow> f64 \<Rightarrow> nat \<Rightarrow> f64" where
  "f64_pow_loop a x i =
     (if i = 0 then a
      else f64_pow_loop (if odd i then f64_mul a x else a) (f64_mul x x) (i div 2))"
  by pat_completeness auto
termination by (relation "measure (\<lambda>(a, x, i). i)") auto

declare f64_pow_loop.simps [simp del]

definition f64_pow :: "f64 \<Rightarrow> nat \<Rightarrow> f64" where
  "f64_pow x n = f64_pow_loop (Fin 1) x n"

text \<open>
  The conversion \<open>int64(x)\<close> truncates towards zero. Outside the 64-bit range, and for NaN, the
  result is implementation-dependent: it is the argument \<open>oob\<close>.
\<close>

definition trunc :: "rat \<Rightarrow> int" where
  "trunc r = (if 0 \<le> r then \<lfloor>r\<rfloor> else - \<lfloor>- r\<rfloor>)"

fun int64_of_f64 :: "int \<Rightarrow> f64 \<Rightarrow> int" where
  "int64_of_f64 oob (Fin r) = (if in_int64 (trunc r) then trunc r else oob)"
| "int64_of_f64 oob _ = oob"

lemma trunc_int [simp]: "trunc (of_int n) = n"
  by (simp add: trunc_def)

lemma f64_of_exact:
  assumes "\<bar>n\<bar> < 2 ^ 53" and "0 \<le> j" and "j \<le> 970"
  shows "f64_of (of_int n * 2 ^ nat j) = Fin (of_int n * 2 ^ nat j)"
proof -
  have r: "f64_round (of_int n * 2 ^ nat j) = of_int n * 2 ^ nat j"
    using f64_round_exact [OF assms(1), of j] assms(2) by (simp add: pow2_def)
  have "\<bar>n * 2 ^ nat j\<bar> < 2 ^ 53 * 2 ^ nat j"
    using assms(1) by (simp add: abs_mult)
  also have "(2::int) ^ 53 * 2 ^ nat j = 2 ^ (53 + nat j)" by (simp only: power_add)
  also have "\<dots> \<le> 2 ^ 1024" using assms(3) by (intro power_increasing) auto
  finally have "\<bar>n * 2 ^ nat j\<bar> < 2 ^ 1024" .
  then have "of_int \<bar>n * 2 ^ nat j\<bar> < (of_int (2 ^ 1024) :: rat)" by (simp only: of_int_less_iff)
  then have "\<bar>of_int n * 2 ^ nat j\<bar> < (2 ^ 1024 :: rat)" by simp
  then have "\<not> 2 ^ 1024 \<le> (of_int n * 2 ^ nat j :: rat)" and "\<not> of_int n * 2 ^ nat j \<le> - (2 ^ 1024 :: rat)"
    by (simp_all only: abs_less_iff not_le) auto
  then show ?thesis unfolding f64_of_def Let_def r by simp
qed

lemma f64_of_int_exact [simp]: "\<bar>n\<bar> < 2 ^ 53 \<Longrightarrow> f64_of_int n = Fin (of_int n)"
  using f64_of_exact [of n 0] by (simp add: f64_of_int_def)

end
