(* ===== verification/GoFmt.thy ===== *)
theory GoFmt
  imports GoText GoFloat
begin

text \<open>
  More of \<open>fmt\<close> and \<open>time\<close>: \<open>%v\<close> of a string slice, \<open>Duration.String()\<close>, and fixed-point
  formatting of a double (\<open>%.nf\<close>), which rounds the exact value half to even.
\<close>

section \<open>Slices\<close>

fun join :: "string \<Rightarrow> string list \<Rightarrow> string" where
  "join sep [] = []"
| "join sep [x] = x"
| "join sep (x # y # ys) = x @ sep @ join sep (y # ys)"

definition slice_text :: "string list \<Rightarrow> string" where
  "slice_text xs = ''['' @ join '' '' xs @ '']''"

definition squoted :: "string \<Rightarrow> string" where
  "squoted s = [CHR 0x27] @ s @ [CHR 0x27]"

definition bool_text :: "bool \<Rightarrow> string" where
  "bool_text b = (if b then ''true'' else ''false'')"

section \<open>Durations\<close>

text \<open>\<open>fmtFrac\<close>: the last \<open>prec\<close> digits of \<open>v\<close> after a point, without trailing zeros.\<close>

fun frac_digits :: "nat \<Rightarrow> nat \<Rightarrow> string" where
  "frac_digits 0 v = []"
| "frac_digits (Suc prec) v = frac_digits prec (v div 10) @ [digit (v mod 10)]"

definition frac_text :: "nat \<Rightarrow> nat \<Rightarrow> string" where
  "frac_text prec v =
     (let ds = rev (dropWhile (\<lambda>c. c = CHR ''0'') (rev (frac_digits prec v)))
      in if ds = [] then [] else ''.'' @ ds)"

definition duration_text :: "duration \<Rightarrow> string" where
  "duration_text d =
     (let u = nat \<bar>d\<bar>;
          body =
            (if u = 0 then ''0s''
             else if u < 1000 then dec_nat u @ ''ns''
             else if u < 1000000 then dec_nat (u div 1000) @ frac_text 3 u @ [CHR 0xC2, CHR 0xB5, CHR ''s'']
             else if u < 1000000000 then dec_nat (u div 1000000) @ frac_text 6 u @ ''ms''
             else let s = u div 1000000000;
                      secs = dec_nat (s mod 60) @ frac_text 9 u @ ''s'';
                      m = s div 60
                  in if m = 0 then secs
                     else if m div 60 = 0 then dec_nat (m mod 60) @ ''m'' @ secs
                     else dec_nat (m div 60) @ ''h'' @ dec_nat (m mod 60) @ ''m'' @ secs)
      in if d < 0 then CHR ''-'' # body else body)"

section \<open>Fixed-point numbers\<close>

text \<open>\<open>%.nf\<close>.\<close>

definition fixed_text :: "nat \<Rightarrow> f64 \<Rightarrow> string" where
  "fixed_text n x =
     (case x of
        NaN \<Rightarrow> ''NaN'' | PInf \<Rightarrow> ''+Inf'' | NInf \<Rightarrow> ''-Inf''
      | Fin r \<Rightarrow>
          let v = nat (round_half_even (\<bar>r\<bar> * 10 ^ n));
              body = dec_nat (v div 10 ^ n) @ (if n = 0 then [] else ''.'' @ frac_digits n v)
          in if r < 0 then CHR ''-'' # body else body)"

section \<open>More double operations\<close>

fun f64_neg :: "f64 \<Rightarrow> f64" where
  "f64_neg (Fin a) = Fin (- a)"
| "f64_neg NaN = NaN"
| "f64_neg PInf = NInf"
| "f64_neg NInf = PInf"

fun f64_add :: "f64 \<Rightarrow> f64 \<Rightarrow> f64" where
  "f64_add (Fin a) (Fin b) = f64_of (a + b)"
| "f64_add NaN _ = NaN"
| "f64_add _ NaN = NaN"
| "f64_add (Fin a) y = y"
| "f64_add x (Fin b) = x"
| "f64_add x y = (if x = y then x else NaN)"

definition f64_sub :: "f64 \<Rightarrow> f64 \<Rightarrow> f64" where
  "f64_sub x y = f64_add x (f64_neg y)"

definition f64_le :: "f64 \<Rightarrow> f64 \<Rightarrow> bool" where
  "f64_le x y \<longleftrightarrow> f64_less x y \<or> (x = y \<and> x \<noteq> NaN)"

text \<open>A quotient of counts \<open>0 \<le> a \<le> b\<close> is a number between 0 and 1.\<close>

definition ratio :: "int \<Rightarrow> int \<Rightarrow> f64" where
  "ratio a b = (if 0 < b then f64_div (f64_of_int a) (f64_of_int b) else Fin 0)"

end
