(* ===== verification/Json.thy ===== *)
theory Json
  imports GoText
begin

text \<open>
  The text format of every stored object: Go's \<open>encoding/json\<close> as the code uses it. Values are
  trees that keep numbers as their literals, as the decoder does. \<open>json_marshal\<close> is
  \<open>json.Marshal\<close> (with its HTML escaping and the replacement of invalid UTF-8), \<open>json_indent\<close> is
  \<open>json.MarshalIndent(v, "", "  ")\<close>, \<open>json_unmarshal\<close> checks and reads one value,
  \<open>json_stream\<close> the values a \<open>json.Decoder\<close> reads one after the other. What was written is read
  back (\<open>json_unmarshal_marshal\<close>, \<open>json_stream_lines\<close>). Not modelled: the decoder's nesting limit
  of 10000 levels.
\<close>

datatype json =
    JNull
  | JBool bool
  | JNum string
  | JStr string
  | JArr "json list"
  | JObj "(string \<times> json) list"

section \<open>UTF-8\<close>

abbreviation byte :: "char \<Rightarrow> nat" where
  "byte c \<equiv> of_char c"

definition cont_byte :: "char \<Rightarrow> bool" where
  "cont_byte c \<longleftrightarrow> 128 \<le> byte c \<and> byte c \<le> 191"

text \<open>
  The length of the rune a string starts with, 0 when its first bytes are not the encoding of a
  rune (\<open>utf8.DecodeRune\<close> returns \<open>RuneError\<close> and width 1 then).
\<close>

fun rune_len :: "string \<Rightarrow> nat" where
  "rune_len [] = 0"
| "rune_len (a # s) =
     (if byte a < 128 then 1
      else if 194 \<le> byte a \<and> byte a \<le> 223
      then (case s of b # _ \<Rightarrow> if cont_byte b then 2 else 0 | _ \<Rightarrow> 0)
      else if 224 \<le> byte a \<and> byte a \<le> 239
      then (case s of
              b # c # _ \<Rightarrow>
                if cont_byte b \<and> cont_byte c \<and> (byte a = 224 \<longrightarrow> 160 \<le> byte b)
                   \<and> (byte a = 237 \<longrightarrow> byte b \<le> 159) then 3 else 0
            | _ \<Rightarrow> 0)
      else if 240 \<le> byte a \<and> byte a \<le> 244
      then (case s of
              b # c # d # _ \<Rightarrow>
                if cont_byte b \<and> cont_byte c \<and> cont_byte d \<and> (byte a = 240 \<longrightarrow> 144 \<le> byte b)
                   \<and> (byte a = 244 \<longrightarrow> byte b \<le> 143) then 4 else 0
            | _ \<Rightarrow> 0)
      else 0)"

definition utf8_encode :: "nat \<Rightarrow> string" where
  "utf8_encode n =
     (if n < 128 then [char_of n]
      else if n < 2048 then [char_of (192 + n div 64), char_of (128 + n mod 64)]
      else if n < 65536 then
        [char_of (224 + n div 4096), char_of (128 + n div 64 mod 64), char_of (128 + n mod 64)]
      else [char_of (240 + n div 262144), char_of (128 + n div 4096 mod 64),
            char_of (128 + n div 64 mod 64), char_of (128 + n mod 64)])"

definition rune_error :: nat where
  "rune_error = 65533"

function valid_utf8 :: "string \<Rightarrow> bool" where
  "valid_utf8 s =
     (if s = [] then True
      else if rune_len s = 0 then False
      else valid_utf8 (drop (rune_len s) s))"
  by pat_completeness auto
termination by (relation "measure length") auto

declare valid_utf8.simps [simp del]

lemma rune_len_le: "rune_len s \<le> length s"
  by (cases s) (auto split: list.splits)

lemma rune_len_take:
  assumes "rune_len s = n" and "n \<noteq> 0"
  shows "rune_len (take n s @ r) = n"
  using assms by (cases s) (auto split: list.splits if_splits simp: numeral_eq_Suc)

lemma rune_len_ascii [simp]: "byte c < 128 \<Longrightarrow> rune_len (c # s) = 1"
  by simp

lemma rune_len_first: "rune_len (c # s) \<noteq> 1 \<Longrightarrow> 128 \<le> byte c"
  by (auto split: if_splits)

declare rune_len.simps(2) [simp del]

lemma valid_utf8_Nil [simp]: "valid_utf8 []"
  by (simp add: valid_utf8.simps)

lemma valid_utf8_rune:
  assumes "valid_utf8 s" and "s \<noteq> []"
  shows "rune_len s \<noteq> 0" and "valid_utf8 (drop (rune_len s) s)"
  using assms by (subst (asm) valid_utf8.simps, simp split: if_splits)+

lemma valid_utf8_ascii_Cons [simp]: "byte c < 128 \<Longrightarrow> valid_utf8 (c # s) = valid_utf8 s"
  by (subst valid_utf8.simps) simp

lemma valid_utf8_ascii: "list_all (\<lambda>c. byte c < 128) s \<Longrightarrow> valid_utf8 s"
  by (induction s) simp_all

lemma valid_utf8_append:
  "valid_utf8 s \<Longrightarrow> valid_utf8 t \<Longrightarrow> valid_utf8 (s @ t)"
proof (induction s rule: valid_utf8.induct)
  case (1 s)
  show ?case
  proof (cases "s = []")
    case False
    let ?n = "rune_len s"
    have n: "?n \<noteq> 0" "valid_utf8 (drop ?n s)" using valid_utf8_rune [OF 1(2) False] by auto
    have "?n \<le> length s" by (rule rune_len_le)
    then have "s @ t = take ?n s @ (drop ?n s @ t)" by simp
    then have "rune_len (s @ t) = ?n" using rune_len_take [OF refl n(1)] by metis
    moreover have "valid_utf8 (drop ?n s @ t)" using 1 n False by blast
    ultimately show ?thesis using n(1) \<open>?n \<le> length s\<close> by (subst valid_utf8.simps) simp
  qed (use 1 in simp)
qed

section \<open>Strings\<close>

definition hexdigit :: "nat \<Rightarrow> char" where
  "hexdigit n = (if n < 10 then char_of (48 + n) else char_of (87 + n))"

definition hexval :: "char \<Rightarrow> nat option" where
  "hexval c =
     (let b = byte c
      in if 48 \<le> b \<and> b \<le> 57 then Some (b - 48)
         else if 97 \<le> b \<and> b \<le> 102 then Some (b - 87)
         else if 65 \<le> b \<and> b \<le> 70 then Some (b - 55)
         else None)"

lemma hexval_hexdigit [simp]: "n < 16 \<Longrightarrow> hexval (hexdigit n) = Some n"
  by (auto simp: hexval_def hexdigit_def)

definition escape_unicode :: "nat \<Rightarrow> string" where
  "escape_unicode n =
     [CHR 0x5C, CHR ''u'', hexdigit (n div 4096 mod 16), hexdigit (n div 256 mod 16),
      hexdigit (n div 16 mod 16), hexdigit (n mod 16)]"

text \<open>How \<open>appendString\<close> writes one byte below 128.\<close>

definition escape_ascii :: "char \<Rightarrow> string" where
  "escape_ascii c =
     (let b = byte c
      in if b = 34 \<or> b = 92 then [CHR 0x5C, c]
         else if b = 8 then [CHR 0x5C, CHR ''b'']
         else if b = 12 then [CHR 0x5C, CHR ''f'']
         else if b = 10 then [CHR 0x5C, CHR ''n'']
         else if b = 13 then [CHR 0x5C, CHR ''r'']
         else if b = 9 then [CHR 0x5C, CHR ''t'']
         else if b < 32 \<or> b = 38 \<or> b = 60 \<or> b = 62 then escape_unicode b
         else [c])"

function quote_body :: "string \<Rightarrow> string" where
  "quote_body [] = []"
| "quote_body (c # s) =
     (if byte c < 128 then escape_ascii c @ quote_body s
      else let n = rune_len (c # s)
           in if n = 0 then escape_unicode rune_error @ quote_body s
              else if map byte (take 3 (c # s)) = [226, 128, 168]
              then escape_unicode 8232 @ quote_body (drop n (c # s))
              else if map byte (take 3 (c # s)) = [226, 128, 169]
              then escape_unicode 8233 @ quote_body (drop n (c # s))
              else take n (c # s) @ quote_body (drop n (c # s)))"
  by pat_completeness auto
termination by (relation "measure length") auto

declare quote_body.simps(2) [simp del]

definition quote :: "string \<Rightarrow> string" where
  "quote s = [CHR 0x22] @ quote_body s @ [CHR 0x22]"

text \<open>The four hexadecimal digits after \<open>\u\<close>.\<close>

fun hex4 :: "string \<Rightarrow> nat option" where
  "hex4 (a # b # c # d # _) =
     (case (hexval a, hexval b, hexval c, hexval d) of
        (Some w, Some x, Some y, Some z) \<Rightarrow> Some (((w * 16 + x) * 16 + y) * 16 + z)
      | _ \<Rightarrow> None)"
| "hex4 _ = None"

definition is_surrogate :: "nat \<Rightarrow> bool" where
  "is_surrogate n \<longleftrightarrow> 55296 \<le> n \<and> n < 57344"

text \<open>
  The rune after \<open>\u\<close> and how much of the text it takes: a surrogate needs its other half, and
  stands for \<open>RuneError\<close> without it.
\<close>

definition unescape_unicode :: "string \<Rightarrow> (nat \<times> nat) option" where
  "unescape_unicode s =
     (case hex4 s of
        None \<Rightarrow> None
      | Some n \<Rightarrow>
          if is_surrogate n
          then (case drop 4 s of
                  x # y # r \<Rightarrow>
                    (case (if byte x = 92 \<and> y = CHR ''u'' then hex4 r else None) of
                       Some m \<Rightarrow>
                         if n < 56320 \<and> 56320 \<le> m \<and> m < 57344
                         then Some ((n - 55296) * 1024 + (m - 56320) + 65536, 10)
                         else Some (rune_error, 4)
                     | None \<Rightarrow> Some (rune_error, 4))
                | _ \<Rightarrow> Some (rune_error, 4))
          else Some (n, 4))"

definition unescape_char :: "char \<Rightarrow> char option" where
  "unescape_char c =
     (if c = CHR 0x22 \<or> c = CHR 0x5C \<or> c = CHR ''/'' then Some c
      else if c = CHR ''b'' then Some (char_of (8::nat))
      else if c = CHR ''f'' then Some (char_of (12::nat))
      else if c = CHR ''n'' then Some (char_of (10::nat))
      else if c = CHR ''r'' then Some (char_of (13::nat))
      else if c = CHR ''t'' then Some (char_of (9::nat))
      else None)"

text \<open>Reading a string after its opening quote: its bytes and the text after the closing quote.\<close>

function unquote :: "string \<Rightarrow> (string \<times> string) option" where
  "unquote [] = None"
| "unquote (c # s) =
     (if byte c = 34 then Some ([], s)
      else if byte c < 32 then None
      else if byte c = 92
      then (case s of
              [] \<Rightarrow> None
            | e # r \<Rightarrow>
                if e = CHR ''u''
                then (case unescape_unicode r of
                        None \<Rightarrow> None
                      | Some (n, k) \<Rightarrow> map_option (apfst (append (utf8_encode n))) (unquote (drop k r)))
                else (case unescape_char e of
                        None \<Rightarrow> None
                      | Some x \<Rightarrow> map_option (apfst (Cons x)) (unquote r)))
      else if byte c < 128 then map_option (apfst (Cons c)) (unquote s)
      else let n = rune_len (c # s)
           in if n = 0 then map_option (apfst (append (utf8_encode rune_error))) (unquote s)
              else map_option (apfst (append (take n (c # s)))) (unquote (drop n (c # s))))"
  by pat_completeness auto
termination by (relation "measure length") auto

declare unquote.simps(2) [simp del]

lemma hex_digits: "((n div 4096 * 16 + n div 256 mod 16) * 16 + n div 16 mod 16) * 16 + n mod 16 = (n::nat)"
proof -
  have a: "n div 16 div 16 = n div 256" and b: "n div 256 div 16 = n div 4096"
    by (simp_all add: div_mult2_eq [symmetric])
  have "n div 256 = n div 4096 * 16 + n div 256 mod 16" unfolding b [symmetric] by simp
  moreover have "n div 16 = n div 256 * 16 + n div 16 mod 16" unfolding a [symmetric] by simp
  ultimately show ?thesis by simp
qed

lemma hex4_escape: "n < 65536 \<Longrightarrow> hex4 (drop 2 (escape_unicode n) @ r) = Some n"
  using hex_digits [of n] by (simp add: escape_unicode_def)

lemma unquote_escape_unicode:
  assumes "n < 65536" and "\<not> is_surrogate n"
  shows "unquote (escape_unicode n @ r) = map_option (apfst (append (utf8_encode n))) (unquote r)"
proof -
  have "unescape_unicode (drop 2 (escape_unicode n) @ r) = Some (n, 4)"
    unfolding unescape_unicode_def hex4_escape [OF assms(1)] using assms(2) by simp
  then show ?thesis by (simp add: escape_unicode_def unquote.simps)
qed

lemma unquote_escape_ascii:
  assumes "byte c < 128"
  shows "unquote (escape_ascii c @ r) = map_option (apfst (Cons c)) (unquote r)"
proof -
  have plain: "(@) [c] = (#) c" by (simp add: fun_eq_iff)
  have enc: "utf8_encode (byte c) = [c]" using assms by (simp add: utf8_encode_def)
  have c: "c = char_of (byte c)" by simp
  consider (short) "byte c \<in> {34, 92, 8, 12, 10, 13, 9}"
    | (long) "byte c \<notin> {34, 92, 8, 12, 10, 13, 9}" "byte c < 32 \<or> byte c \<in> {38, 60, 62}"
    | (plain) "byte c \<notin> {34, 92, 8, 12, 10, 13, 9}" "\<not> (byte c < 32 \<or> byte c \<in> {38, 60, 62})"
    by blast
  then show ?thesis
  proof cases
    case short
    then have "c \<in> {char_of (34::nat), char_of (92::nat), char_of (8::nat), char_of (12::nat),
                    char_of (10::nat), char_of (13::nat), char_of (9::nat)}"
      using c by (metis insert_iff empty_iff)
    moreover have "char_of (34::nat) = CHR 0x22" "char_of (92::nat) = CHR 0x5C"
      by (simp_all add: char_of_eq_iff)
    ultimately show ?thesis
      by (auto simp: escape_ascii_def unquote.simps unescape_char_def)
  next
    case long
    then have "escape_ascii c = escape_unicode (byte c)" by (auto simp: escape_ascii_def Let_def)
    with assms enc unquote_escape_unicode [of "byte c" r] show ?thesis
      by (simp add: plain is_surrogate_def)
  next
    case plain
    then have "escape_ascii c = [c]" by (auto simp: escape_ascii_def Let_def)
    with plain assms show ?thesis by (simp add: unquote.simps)
  qed
qed

text \<open>A string of valid UTF-8 is read back as it was.\<close>

lemma unquote_quote_body:
  "valid_utf8 s \<Longrightarrow> unquote (quote_body s @ CHR 0x22 # r) = Some (s, r)"
proof (induction s rule: quote_body.induct)
  case 1
  show ?case by (simp add: unquote.simps)
next
  case (2 c s)
  show ?case
  proof (cases "byte c < 128")
    case True
    then have "unquote (quote_body s @ CHR 0x22 # r) = Some (s, r)" using 2(1,6) by simp
    then show ?thesis using True
      by (subst quote_body.simps) (simp add: unquote_escape_ascii)
  next
    case False
    define n where "n = rune_len (c # s)"
    define rest where "rest = quote_body (drop n (c # s)) @ CHR 0x22 # r"
    have n: "n \<noteq> 0" "valid_utf8 (drop n (c # s))"
      unfolding n_def using valid_utf8_rune [OF 2(6)] by simp_all
    have le: "n \<le> length (c # s)" unfolding n_def by (rule rune_len_le)
    consider (sep) k where "k \<in> {168, 169}" "map byte (take 3 (c # s)) = [226, 128, k]"
      | (other) "\<forall>k \<in> {168, 169}. map byte (take 3 (c # s)) \<noteq> [226, 128, k]"
      by metis
    then show ?thesis
    proof cases
      case sep
      then obtain b d t where s: "s = b # d # t" and b: "byte c = 226" "byte b = 128" "byte d = k"
        by (cases s; cases "tl s") auto
      have c3: "n = 3" unfolding n_def s using b sep(1) by (auto simp: rune_len.simps cont_byte_def)
      have IH: "unquote rest = Some (drop n (c # s), r)"
      proof (cases "k = 168")
        case True
        show ?thesis
          using 2(3) [OF False n_def] n sep(2) unfolding True rest_def by simp
      next
        case False
        then have "k = 169" using sep(1) by simp
        then show ?thesis
          using 2(4) [OF \<open>\<not> byte c < 128\<close> n_def] n sep(2) unfolding rest_def by simp
      qed
      have "c = char_of (226::nat)" "b = char_of (128::nat)" "d = char_of k"
        using b by (metis char_of_char)+
      then have enc: "utf8_encode (8064 + k) = take 3 (c # s)"
        using sep(1) unfolding s by (auto simp: utf8_encode_def)
      have "quote_body (c # s) = escape_unicode (8064 + k) @ quote_body (drop n (c # s))"
        using False n sep(1,2) unfolding n_def by (subst quote_body.simps) (auto simp: Let_def)
      then have "unquote (quote_body (c # s) @ CHR 0x22 # r)
                 = map_option (apfst (append (utf8_encode (8064 + k)))) (unquote rest)"
        using sep(1) unfolding rest_def by (auto intro!: unquote_escape_unicode simp: is_surrogate_def)
      then show ?thesis unfolding enc IH using c3 by simp
    next
      case other
      have IH: "unquote rest = Some (drop n (c # s), r)"
        using 2(5) [OF False refl] n other unfolding n_def rest_def by simp
      have "quote_body (c # s) @ CHR 0x22 # r = take n (c # s) @ rest"
        using False n other unfolding n_def rest_def by (subst quote_body.simps) (auto simp: Let_def)
      moreover have "rune_len (take n (c # s) @ rest) = n"
        using rune_len_take [OF n_def [symmetric] n(1)] .
      moreover have "take n (c # s) @ rest = c # (take (n - 1) s @ rest)"
        using n(1) by (cases n) auto
      moreover have "unquote (c # (take (n - 1) s @ rest))
          = map_option (apfst (append (take n (c # (take (n - 1) s @ rest)))))
              (unquote (drop n (c # (take (n - 1) s @ rest))))"
        if "rune_len (c # (take (n - 1) s @ rest)) = n"
        using that n(1) False by (simp add: unquote.simps Let_def)
      ultimately have "unquote (quote_body (c # s) @ CHR 0x22 # r)
          = map_option (apfst (append (take n (take n (c # s) @ rest)))) (unquote (drop n (take n (c # s) @ rest)))"
        by simp
      also have "\<dots> = Some (c # s, r)"
        using le IH by simp
      finally show ?thesis .
    qed
  qed
qed

section \<open>Numbers\<close>

definition is_num_char :: "char \<Rightarrow> bool" where
  "is_num_char c \<longleftrightarrow>
     is_digit c \<or> c = CHR ''-'' \<or> c = CHR ''+'' \<or> c = CHR ''.'' \<or> c = CHR ''e'' \<or> c = CHR ''E''"

definition valid_exp :: "string \<Rightarrow> bool" where
  "valid_exp t =
     (case t of
        [] \<Rightarrow> True
      | e # u \<Rightarrow>
          (e = CHR ''e'' \<or> e = CHR ''E'')
          \<and> (let u1 = (case u of [] \<Rightarrow> [] | c # w \<Rightarrow> if c = CHR ''+'' \<or> c = CHR ''-'' then w else u)
             in u1 \<noteq> [] \<and> list_all is_digit u1))"

definition valid_frac :: "string \<Rightarrow> bool" where
  "valid_frac t =
     (case t of
        [] \<Rightarrow> True
      | c # u \<Rightarrow>
          if c = CHR ''.''
          then (case u of [] \<Rightarrow> False | d # w \<Rightarrow> is_digit d \<and> valid_exp (dropWhile is_digit w))
          else valid_exp t)"

definition valid_number :: "string \<Rightarrow> bool" where
  "valid_number s =
     (let s1 = (case s of [] \<Rightarrow> [] | c # t \<Rightarrow> if c = CHR ''-'' then t else s)
      in case s1 of
           [] \<Rightarrow> False
         | c # t \<Rightarrow> is_digit c \<and> valid_frac (if c = CHR ''0'' then t else dropWhile is_digit t))"

lemma digit_zero [simp]: "digit 0 = CHR ''0''"
  by (simp add: digit_def char_of_eq_iff)

lemma dec_nat_hd: "0 < n \<Longrightarrow> hd (dec_nat n) \<noteq> CHR ''0''"
proof (induction n rule: dec_nat.induct)
  case (1 n)
  show ?case
  proof (cases "n < 10")
    case True
    then have "hd (dec_nat n) = digit n" by (subst dec_nat.simps) simp
    moreover have "digit n \<noteq> digit 0" using 1(2) True digit_val_digit by (metis less_irrefl zero_less_numeral)
    ultimately show ?thesis by simp
  next
    case False
    with 1 have "hd (dec_nat (n div 10)) \<noteq> CHR ''0''" by simp
    with False show ?thesis by (subst dec_nat.simps) simp
  qed
qed

lemma valid_number_digits:
  assumes "list_all is_digit ds" and "ds = [CHR ''0''] \<or> (ds \<noteq> [] \<and> hd ds \<noteq> CHR ''0'')"
  shows "valid_number ds" and "valid_number (CHR ''-'' # ds)"
proof -
  obtain c cs where ds: "ds = c # cs" using assms(2) by (cases ds) auto
  with assms have c: "is_digit c" "list_all is_digit cs" "c = CHR ''0'' \<longrightarrow> cs = []" by auto
  from c(2) have "dropWhile is_digit cs = []" by (simp add: list_all_iff dropWhile_eq_Nil_conv)
  then have "valid_frac (dropWhile is_digit cs)" and "valid_frac []"
    by (simp_all only: valid_frac_def list.case)
  with c show "valid_number ds" and "valid_number (CHR ''-'' # ds)"
    unfolding ds valid_number_def using is_digit_not_special [OF c(1)] by auto
qed

lemma valid_number_dec [simp]: "valid_number (dec n)"
proof -
  have "dec_nat m = [CHR ''0''] \<or> (dec_nat m \<noteq> [] \<and> hd (dec_nat m) \<noteq> CHR ''0'')" for m
  proof (cases "m = 0")
    case True
    then show ?thesis by (subst dec_nat.simps) simp
  qed (use dec_nat_hd in simp)
  then show ?thesis unfolding dec_def using valid_number_digits dec_nat_digits by auto
qed

lemma num_chars_dec: "list_all is_num_char (dec n)"
  using dec_nat_digits [of "nat n"] dec_nat_digits [of "nat (- n)"]
  by (auto simp: dec_def is_num_char_def list_all_iff)

lemma parse_int_dec [simp, codec]: "in_int64 n \<Longrightarrow> parse_int (dec n) = Some n"
proof -
  assume n: "in_int64 n"
  show ?thesis
  proof (cases "n < 0")
    case True
    with n dec_nat_digits [of "nat (- n)"] show ?thesis
      by (simp add: dec_def parse_int_def)
  next
    case False
    with n dec_nat_digits [of "nat n"] show ?thesis
      by (simp add: dec_def parse_int_digits)
  qed
qed

section \<open>Printing\<close>

text \<open>
  \<open>nl d\<close> is what is written before an element at depth \<open>d\<close>, \<open>cl\<close> what stands between a key and
  its value: nothing and a colon for \<open>json.Marshal\<close>, a line break with two spaces per level and
  a colon with a space for \<open>MarshalIndent\<close>.
\<close>

fun print_value :: "(nat \<Rightarrow> string) \<Rightarrow> string \<Rightarrow> nat \<Rightarrow> json \<Rightarrow> string"
  and print_elems :: "(nat \<Rightarrow> string) \<Rightarrow> string \<Rightarrow> nat \<Rightarrow> json list \<Rightarrow> string"
  and print_members :: "(nat \<Rightarrow> string) \<Rightarrow> string \<Rightarrow> nat \<Rightarrow> (string \<times> json) list \<Rightarrow> string" where
  "print_value nl cl d JNull = ''null''"
| "print_value nl cl d (JBool b) = (if b then ''true'' else ''false'')"
| "print_value nl cl d (JNum s) = s"
| "print_value nl cl d (JStr s) = quote s"
| "print_value nl cl d (JArr []) = ''[]''"
| "print_value nl cl d (JArr (x # xs)) =
     ''['' @ nl (d + 1) @ print_value nl cl (d + 1) x @ print_elems nl cl (d + 1) xs @ nl d @ '']''"
| "print_value nl cl d (JObj []) = ''{}''"
| "print_value nl cl d (JObj ((k, v) # kvs)) =
     ''{'' @ nl (d + 1) @ quote k @ cl @ print_value nl cl (d + 1) v
     @ print_members nl cl (d + 1) kvs @ nl d @ ''}''"
| "print_elems nl cl d [] = []"
| "print_elems nl cl d (x # xs) = '','' @ nl d @ print_value nl cl d x @ print_elems nl cl d xs"
| "print_members nl cl d [] = []"
| "print_members nl cl d ((k, v) # kvs) =
     '','' @ nl d @ quote k @ cl @ print_value nl cl d v @ print_members nl cl d kvs"

definition json_marshal :: "json \<Rightarrow> string" where
  "json_marshal v = print_value (\<lambda>_. []) '':'' 0 v"

definition json_indent :: "json \<Rightarrow> string" where
  "json_indent v = print_value (\<lambda>d. CHR 0x0A # replicate (2 * d) (CHR '' '')) '': '' 0 v"

section \<open>Parsing\<close>

definition is_ws :: "char \<Rightarrow> bool" where
  "is_ws c \<longleftrightarrow> c = CHR '' '' \<or> c = CHR 0x0A \<or> c = CHR 0x0D \<or> c = CHR 0x09"

definition skip_ws :: "string \<Rightarrow> string" where
  "skip_ws s = dropWhile is_ws s"

definition parse_number :: "string \<Rightarrow> (json \<times> string) option" where
  "parse_number s =
     (let num = takeWhile is_num_char s
      in if valid_number num then Some (JNum num, dropWhile is_num_char s) else None)"

text \<open>A member's key and the colon after it.\<close>

definition parse_key :: "string \<Rightarrow> (string \<times> string) option" where
  "parse_key s =
     (case skip_ws s of
        [] \<Rightarrow> None
      | c # r \<Rightarrow>
          if byte c = 34
          then (case unquote r of
                  None \<Rightarrow> None
                | Some (k, r1) \<Rightarrow>
                    (case skip_ws r1 of [] \<Rightarrow> None | x # r2 \<Rightarrow> if x = CHR '':'' then Some (k, r2) else None))
          else None)"

text \<open>The first argument bounds the recursion; the length of the text is enough.\<close>

fun parse_value :: "nat \<Rightarrow> string \<Rightarrow> (json \<times> string) option"
  and parse_elems :: "nat \<Rightarrow> string \<Rightarrow> (json list \<times> string) option"
  and parse_members :: "nat \<Rightarrow> string \<Rightarrow> ((string \<times> json) list \<times> string) option" where
  "parse_value 0 s = None"
| "parse_value (Suc n) s =
     (case skip_ws s of
        [] \<Rightarrow> None
      | c # r \<Rightarrow>
          if c = CHR ''['' then
            (if take 1 (skip_ws r) = '']'' then Some (JArr [], drop 1 (skip_ws r))
             else case parse_value n r of
                    None \<Rightarrow> None
                  | Some (v, r1) \<Rightarrow> map_option (apfst (\<lambda>vs. JArr (v # vs))) (parse_elems n r1))
          else if c = CHR ''{'' then
            (if take 1 (skip_ws r) = ''}'' then Some (JObj [], drop 1 (skip_ws r))
             else case parse_key r of
                    None \<Rightarrow> None
                  | Some (k, r1) \<Rightarrow>
                      (case parse_value n r1 of
                         None \<Rightarrow> None
                       | Some (v, r2) \<Rightarrow> map_option (apfst (\<lambda>kvs. JObj ((k, v) # kvs))) (parse_members n r2)))
          else if byte c = 34 then map_option (apfst JStr) (unquote r)
          else if has_prefix (c # r) ''null'' then Some (JNull, drop 4 (c # r))
          else if has_prefix (c # r) ''true'' then Some (JBool True, drop 4 (c # r))
          else if has_prefix (c # r) ''false'' then Some (JBool False, drop 5 (c # r))
          else parse_number (c # r))"
| "parse_elems 0 s = None"
| "parse_elems (Suc n) s =
     (case skip_ws s of
        [] \<Rightarrow> None
      | c # r \<Rightarrow>
          if c = CHR '']'' then Some ([], r)
          else if c = CHR '','' then
            (case parse_value n r of
               None \<Rightarrow> None
             | Some (v, r1) \<Rightarrow> map_option (apfst (Cons v)) (parse_elems n r1))
          else None)"
| "parse_members 0 s = None"
| "parse_members (Suc n) s =
     (case skip_ws s of
        [] \<Rightarrow> None
      | c # r \<Rightarrow>
          if c = CHR ''}'' then Some ([], r)
          else if c = CHR '','' then
            (case parse_key r of
               None \<Rightarrow> None
             | Some (k, r1) \<Rightarrow>
                 (case parse_value n r1 of
                    None \<Rightarrow> None
                  | Some (v, r2) \<Rightarrow> map_option (apfst (Cons (k, v))) (parse_members n r2)))
          else None)"

definition json_unmarshal :: "string \<Rightarrow> json option" where
  "json_unmarshal s =
     (case parse_value (length s) s of
        Some (v, r) \<Rightarrow> if skip_ws r = [] then Some v else None
      | None \<Rightarrow> None)"

text \<open>
  A \<open>json.Decoder\<close> loop \<open>for dec.More() { dec.Decode(&v) }\<close>: \<open>More\<close> is false at the end of the
  input and before a closing bracket. \<open>None\<close> when a value does not parse.
\<close>

fun json_stream :: "nat \<Rightarrow> string \<Rightarrow> json list option" where
  "json_stream 0 s = (if skip_ws s = [] then Some [] else None)"
| "json_stream (Suc n) s =
     (case skip_ws s of
        [] \<Rightarrow> Some []
      | c # r \<Rightarrow>
          if c = CHR '']'' \<or> c = CHR ''}'' then Some []
          else (case parse_value (length s) s of
                  None \<Rightarrow> None
                | Some (v, r1) \<Rightarrow> map_option (Cons v) (json_stream n r1)))"

fun wf_json :: "json \<Rightarrow> bool"
  and wf_elems :: "json list \<Rightarrow> bool"
  and wf_members :: "(string \<times> json) list \<Rightarrow> bool" where
  "wf_json JNull = True"
| "wf_json (JBool b) = True"
| "wf_json (JNum s) = (valid_number s \<and> list_all is_num_char s)"
| "wf_json (JStr s) = valid_utf8 s"
| "wf_json (JArr xs) = wf_elems xs"
| "wf_json (JObj kvs) = wf_members kvs"
| "wf_elems [] = True"
| "wf_elems (x # xs) = (wf_json x \<and> wf_elems xs)"
| "wf_members [] = True"
| "wf_members ((k, v) # kvs) = (valid_utf8 k \<and> wf_json v \<and> wf_members kvs)"

lemma wf_members_iff: "wf_members kvs \<longleftrightarrow> (\<forall>(k, v) \<in> set kvs. valid_utf8 k \<and> wf_json v)"
  by (induction kvs) auto

lemma wf_elems_iff: "wf_elems xs \<longleftrightarrow> (\<forall>x \<in> set xs. wf_json x)"
  by (induction xs) auto

section \<open>The round trip\<close>

lemma skip_ws_append: "list_all is_ws w \<Longrightarrow> skip_ws (w @ s) = skip_ws s"
  by (induction w) (auto simp: skip_ws_def)

lemma skip_ws_idem [simp]: "skip_ws (skip_ws s) = skip_ws s"
  by (simp add: skip_ws_def)

lemma parse_value_ws: "list_all is_ws w \<Longrightarrow> parse_value n (w @ s) = parse_value n s"
  by (cases n) (simp_all add: skip_ws_append)

lemma parse_key_ws: "list_all is_ws w \<Longrightarrow> parse_key (w @ s) = parse_key s"
  by (simp add: parse_key_def skip_ws_append)

lemma parse_key_quote:
  "valid_utf8 k \<Longrightarrow> list_all is_ws w \<Longrightarrow> parse_key (quote k @ CHR '':'' # w @ s) = Some (k, w @ s)"
  by (simp add: parse_key_def quote_def skip_ws_def is_ws_def unquote_quote_body)

definition ends_value :: "string \<Rightarrow> bool" where
  "ends_value r \<longleftrightarrow> r = [] \<or> \<not> is_num_char (hd r)"

lemma parse_number_text:
  assumes "valid_number s" and "list_all is_num_char s" and "ends_value r"
  shows "parse_number (s @ r) = Some (JNum s, r)"
proof -
  have "takeWhile is_num_char (s @ r) = s" and "dropWhile is_num_char (s @ r) = r"
    using assms(2,3) by (auto simp: takeWhile_append dropWhile_append list_all_iff ends_value_def
        intro: takeWhile_eq_Nil_iff [THEN iffD2] dropWhile_eq_self_iff [THEN iffD2])
  with assms(1) show ?thesis by (simp add: parse_number_def)
qed

lemma valid_number_start:
  "valid_number s \<Longrightarrow> \<exists>c t. s = c # t \<and> (is_digit c \<or> c = CHR ''-'')"
  by (cases s) (auto simp: valid_number_def split: list.splits if_splits)

lemma digit_not_punct:
  "is_digit c \<Longrightarrow> \<not> is_ws c \<and> c \<noteq> CHR ''['' \<and> c \<noteq> CHR '']'' \<and> c \<noteq> CHR ''{'' \<and> c \<noteq> CHR ''}'' \<and> c \<noteq> CHR 0x22
     \<and> c \<noteq> CHR ''n'' \<and> c \<noteq> CHR ''t'' \<and> c \<noteq> CHR ''f''"
  by (auto simp: is_digit_def is_ws_def)

lemma print_value_start:
  assumes "wf_json v"
  shows "\<exists>c t. print_value nl cl d v = c # t \<and> \<not> is_ws c \<and> c \<noteq> CHR '']'' \<and> c \<noteq> CHR ''}''"
proof (cases v)
  case (JNum s)
  with assms have "valid_number s" by simp
  then obtain c t where "s = c # t" "is_digit c \<or> c = CHR ''-''"
    using valid_number_start by blast
  with JNum show ?thesis using digit_not_punct [of c] by (auto simp: is_ws_def)
next
  case (JArr xs)
  then show ?thesis by (cases xs) (auto simp: is_ws_def)
next
  case (JObj kvs)
  then show ?thesis by (cases kvs) (auto simp: is_ws_def)
qed (auto simp: is_ws_def quote_def)

lemma skip_ws_print:
  assumes "wf_json v"
  shows "skip_ws (print_value nl cl d v @ r) = print_value nl cl d v @ r"
    and "take 1 (print_value nl cl d v @ r) \<noteq> '']''"
  using print_value_start [OF assms, of nl cl d] by (auto simp: skip_ws_def)

lemma ends_value_ws:
  "list_all is_ws w \<Longrightarrow> c = CHR '']'' \<or> c = CHR ''}'' \<or> c = CHR '','' \<Longrightarrow> ends_value (w @ c # r)"
  by (cases w) (auto simp: ends_value_def is_ws_def is_num_char_def is_digit_def)

lemma ends_value_elems:
  "list_all is_ws w \<Longrightarrow> ends_value (print_elems nl cl d xs @ w @ CHR '']'' # r)"
  using ends_value_ws [of w "CHR '']''"] ends_value_ws [of "[]" "CHR '',''"] by (cases xs) simp_all

lemma ends_value_members:
  "list_all is_ws w \<Longrightarrow> ends_value (print_members nl cl d kvs @ w @ CHR ''}'' # r)"
  using ends_value_ws [of w "CHR ''}''"] ends_value_ws [of "[]" "CHR '',''"]
  by (cases kvs) (simp, case_tac a, simp)

lemma parse_value_number:
  assumes "valid_number s" and "list_all is_num_char s" and "ends_value r"
  shows "parse_value (Suc n) (s @ r) = Some (JNum s, r)"
proof -
  obtain c t where s: "s = c # t" and c: "is_digit c \<or> c = CHR ''-''"
    using valid_number_start [OF assms(1)] by blast
  have nc: "\<not> is_ws c" "c \<noteq> CHR ''[''" "c \<noteq> CHR ''{''" "byte c \<noteq> 34"
       "c \<noteq> CHR ''n''" "c \<noteq> CHR ''t''" "c \<noteq> CHR ''f''"
    using c by (auto simp: is_ws_def is_digit_def)
  then have pre: "\<not> has_prefix (c # t @ r) ''null''" "\<not> has_prefix (c # t @ r) ''true''"
      "\<not> has_prefix (c # t @ r) ''false''"
    by (simp_all add: has_prefix_iff)
  have ws: "skip_ws (s @ r) = c # t @ r" using nc(1) by (simp add: s skip_ws_def)
  have "parse_number (c # t @ r) = Some (JNum s, r)"
    using parse_number_text [OF assms] unfolding s by (simp only: append_Cons)
  then show ?thesis
    unfolding parse_value.simps ws list.case using nc pre by (simp only: if_False simp_thms)
qed

lemma length_quote: "2 \<le> length (quote s)"
  by (simp add: quote_def)

definition layout_ws :: "(nat \<Rightarrow> string) \<Rightarrow> string \<Rightarrow> bool" where
  "layout_ws nl cl \<longleftrightarrow> (\<forall>d. list_all is_ws (nl d)) \<and> (\<exists>w. cl = CHR '':'' # w \<and> list_all is_ws w)"

lemma parse_key_layout:
  assumes "layout_ws nl cl" and "valid_utf8 k"
  shows "\<exists>w. list_all is_ws w \<and> (\<forall>s. parse_key (nl d @ quote k @ cl @ s) = Some (k, w @ s))"
proof -
  obtain w where w: "cl = CHR '':'' # w" "list_all is_ws w" and nl: "list_all is_ws (nl d)"
    using assms(1) by (auto simp: layout_ws_def)
  have "parse_key (nl d @ quote k @ cl @ s) = Some (k, w @ s)" for s
    using parse_key_ws [OF nl] parse_key_quote [OF assms(2) w(2)] by (simp add: w(1))
  with w(2) show ?thesis by blast
qed

lemma parse_value_nl: "layout_ws nl cl \<Longrightarrow> parse_value n (nl d @ s) = parse_value n s"
  by (simp add: layout_ws_def parse_value_ws)

lemma skip_ws_nl: "layout_ws nl cl \<Longrightarrow> skip_ws (nl d @ s) = skip_ws s"
  by (simp add: layout_ws_def skip_ws_append)

lemma skip_ws_punct [simp]:
  "skip_ws (CHR ''['' # s) = CHR ''['' # s" "skip_ws (CHR '']'' # s) = CHR '']'' # s"
  "skip_ws (CHR ''{'' # s) = CHR ''{'' # s" "skip_ws (CHR ''}'' # s) = CHR ''}'' # s"
  "skip_ws (CHR '','' # s) = CHR '','' # s" "skip_ws (quote k @ s) = quote k @ s"
  by (simp_all add: skip_ws_def is_ws_def quote_def)

lemma parse_array_step:
  assumes "layout_ws nl cl" and "wf_json x"
    and "parse_value n (print_value nl cl d x @ s) = Some (x, s)" and "parse_elems n s = Some (xs, r)"
  shows "parse_value (Suc n) (CHR ''['' # nl d @ print_value nl cl d x @ s) = Some (JArr (x # xs), r)"
  using assms(3,4) skip_ws_print [OF assms(2), of nl cl d s]
  by (simp add: skip_ws_nl [OF assms(1)] parse_value_nl [OF assms(1)])

lemma parse_object_step:
  assumes "layout_ws nl cl" and "valid_utf8 k"
    and "parse_value n s = Some (v, s')" and "parse_members n s' = Some (kvs, r)"
  shows "parse_value (Suc n) (CHR ''{'' # nl d @ quote k @ cl @ s) = Some (JObj ((k, v) # kvs), r)"
proof -
  obtain w where w: "list_all is_ws w" "\<And>s. parse_key (nl d @ quote k @ cl @ s) = Some (k, w @ s)"
    using parse_key_layout [OF assms(1,2)] by metis
  have "take 1 (quote k @ cl @ s) \<noteq> ''}''" by (simp add: quote_def)
  then show ?thesis
    using assms(3,4) by (simp add: w(2) skip_ws_nl [OF assms(1)] parse_value_ws [OF w(1)])
qed

lemma parse_member_step:
  assumes "layout_ws nl cl" and "valid_utf8 k"
    and "parse_value n s = Some (v, s')" and "parse_members n s' = Some (kvs, r)"
  shows "parse_members (Suc n) (CHR '','' # nl d @ quote k @ cl @ s) = Some ((k, v) # kvs, r)"
proof -
  obtain w where w: "list_all is_ws w" "\<And>s. parse_key (nl d @ quote k @ cl @ s) = Some (k, w @ s)"
    using parse_key_layout [OF assms(1,2)] by metis
  then show ?thesis using assms(3,4) by (simp add: parse_value_ws [OF w(1)])
qed

lemma parse_print_value:
  "layout_ws nl cl \<Longrightarrow> wf_json v \<Longrightarrow> ends_value r \<Longrightarrow> length (print_value nl cl d v) \<le> n \<Longrightarrow>
     parse_value n (print_value nl cl d v @ r) = Some (v, r)"
  and parse_print_elems:
  "layout_ws nl cl \<Longrightarrow> wf_elems xs \<Longrightarrow> list_all is_ws w \<Longrightarrow> length (print_elems nl cl d xs) + 1 \<le> n \<Longrightarrow>
     parse_elems n (print_elems nl cl d xs @ w @ CHR '']'' # r) = Some (xs, r)"
  and parse_print_members:
  "layout_ws nl cl \<Longrightarrow> wf_members kvs \<Longrightarrow> list_all is_ws w \<Longrightarrow> length (print_members nl cl d kvs) + 1 \<le> n \<Longrightarrow>
     parse_members n (print_members nl cl d kvs @ w @ CHR ''}'' # r) = Some (kvs, r)"
proof (induction nl cl d v and nl cl d xs and nl cl d kvs arbitrary: n r and n r w and n r w
    rule: print_value_print_elems_print_members.induct)
  case (3 nl cl d s)
  then obtain m where "n = Suc m" using valid_number_start [of s] by (cases n) auto
  with 3 show ?case using parse_value_number by simp
next
  case (4 nl cl d s)
  then obtain m where "n = Suc m" using length_quote [of s] by (cases n) auto
  with 4 show ?case by (simp add: quote_def skip_ws_def is_ws_def unquote_quote_body)
next
  case (6 nl cl d x xs)
  from 6(6) obtain m where m: "n = Suc m" by (cases n) auto
  define s where "s = print_elems nl cl (d + 1) xs @ nl d @ CHR '']'' # r"
  have ws: "list_all is_ws (nl d)" using 6(3) by (simp add: layout_ws_def)
  have "parse_elems m s = Some (xs, r)"
    unfolding s_def using 6(4,6) m by (intro 6(2) [OF 6(3) _ ws]) auto
  moreover have "parse_value m (print_value nl cl (d + 1) x @ s) = Some (x, s)"
    using 6(4,6) m ends_value_elems [OF ws] by (intro 6(1) [OF 6(3)]) (auto simp: s_def)
  ultimately show ?case
    using parse_array_step [OF 6(3), of x m "d + 1" s xs r] 6(4) by (simp add: m s_def)
next
  case (8 nl cl d k v kvs)
  from 8(6) obtain m where m: "n = Suc m" by (cases n) auto
  define s where "s = print_members nl cl (d + 1) kvs @ nl d @ CHR ''}'' # r"
  have ws: "list_all is_ws (nl d)" using 8(3) by (simp add: layout_ws_def)
  have "parse_members m s = Some (kvs, r)"
    unfolding s_def using 8(4,6) m by (intro 8(2) [OF 8(3) _ ws]) auto
  moreover have "parse_value m (print_value nl cl (d + 1) v @ s) = Some (v, s)"
    using 8(4,6) m ends_value_members [OF ws] by (intro 8(1) [OF 8(3)]) (auto simp: s_def)
  ultimately show ?case
    using parse_object_step [OF 8(3), of k m "print_value nl cl (d + 1) v @ s" v s kvs r "d + 1"] 8(4)
    by (simp add: m s_def)
next
  case (9 nl cl d)
  then obtain m where "n = Suc m" by (cases n) auto
  with 9 show ?case by (simp add: skip_ws_append)
next
  case (10 nl cl d x xs)
  from 10(6) obtain m where m: "n = Suc m" by (cases n) auto
  define s where "s = print_elems nl cl d xs @ w @ CHR '']'' # r"
  have "parse_elems m s = Some (xs, r)"
    unfolding s_def using 10(4-6) m by (intro 10(2) [OF 10(3)]) auto
  moreover have "parse_value m (print_value nl cl d x @ s) = Some (x, s)"
    using 10(4,6) m ends_value_elems [OF 10(5)] by (intro 10(1) [OF 10(3)]) (auto simp: s_def)
  ultimately show ?case
    using parse_value_nl [OF 10(3)] by (simp add: m s_def)
next
  case (11 nl cl d)
  then obtain m where "n = Suc m" by (cases n) auto
  with 11 show ?case by (simp add: skip_ws_append)
next
  case (12 nl cl d k v kvs)
  from 12(6) obtain m where m: "n = Suc m" by (cases n) auto
  define s where "s = print_members nl cl d kvs @ w @ CHR ''}'' # r"
  have "parse_members m s = Some (kvs, r)"
    unfolding s_def using 12(4-6) m by (intro 12(2) [OF 12(3)]) auto
  moreover have "parse_value m (print_value nl cl d v @ s) = Some (v, s)"
    using 12(4,6) m ends_value_members [OF 12(5)] by (intro 12(1) [OF 12(3)]) (auto simp: s_def)
  ultimately show ?case
    using parse_member_step [OF 12(3), of k m "print_value nl cl d v @ s" v s kvs r d] 12(4)
    by (simp add: m s_def)
qed (case_tac [!] n, auto simp: skip_ws_def is_ws_def has_prefix_def split: if_splits)

text \<open>A whole document.\<close>

lemma json_unmarshal_print:
  assumes "layout_ws nl cl" and "wf_json v" and "list_all is_ws w"
  shows "json_unmarshal (print_value nl cl d v @ w) = Some v"
proof -
  have "ends_value w" using assms(3)
    by (cases w) (auto simp: ends_value_def is_ws_def is_num_char_def is_digit_def)
  then have "parse_value (length (print_value nl cl d v @ w)) (print_value nl cl d v @ w) = Some (v, w)"
    using assms(1,2) by (intro parse_print_value) auto
  moreover have "skip_ws w = []" using skip_ws_append [OF assms(3), of "[]"] by (simp add: skip_ws_def)
  ultimately show ?thesis by (simp add: json_unmarshal_def)
qed

lemma layout_compact: "layout_ws (\<lambda>_. []) '':''"
  by (simp add: layout_ws_def)

lemma layout_indent: "layout_ws (\<lambda>d. CHR 0x0A # replicate (2 * d) (CHR '' '')) '': ''"
  by (auto simp: layout_ws_def is_ws_def list_all_iff)

lemma json_unmarshal_marshal [simp, codec]: "wf_json v \<Longrightarrow> json_unmarshal (json_marshal v) = Some v"
  using json_unmarshal_print [OF layout_compact, of v "[]" 0] by (simp add: json_marshal_def)

lemma json_unmarshal_indent [simp, codec]: "wf_json v \<Longrightarrow> json_unmarshal (json_indent v) = Some v"
  using json_unmarshal_print [OF layout_indent, of v "[]" 0] by (simp add: json_indent_def)

text \<open>One value per line, as \<open>Encoder.Encode\<close> writes them, and the decoder's loop over them.\<close>

definition json_lines :: "json list \<Rightarrow> string" where
  "json_lines vs = concat (map (\<lambda>v. json_marshal v @ [CHR 0x0A]) vs)"

definition json_decode_all :: "string \<Rightarrow> json list option" where
  "json_decode_all s = json_stream (length s) s"

lemma json_stream_lines:
  "list_all wf_json vs \<Longrightarrow> length vs \<le> n \<Longrightarrow> list_all is_ws w \<Longrightarrow>
   json_stream n (w @ json_lines vs) = Some vs"
proof (induction vs arbitrary: n w)
  case Nil
  then have "skip_ws w = []" using skip_ws_append [of w "[]"] by (simp add: skip_ws_def)
  then show ?case by (cases n) (simp_all add: json_lines_def)
next
  case (Cons v vs)
  then obtain m where n: "n = Suc m" by (cases n) auto
  let ?nl = "CHR 0x0A" and ?s = "w @ json_lines (v # vs)"
  have wf: "wf_json v" using Cons.prems(1) by simp
  obtain c t where ct: "json_marshal v = c # t" "\<not> is_ws c" "c \<noteq> CHR '']''" "c \<noteq> CHR ''}''"
    using print_value_start [OF wf, of "\<lambda>_. []" "'':''" 0] unfolding json_marshal_def by blast
  have s: "?s = w @ json_marshal v @ ?nl # json_lines vs" by (simp add: json_lines_def)
  have "skip_ws ?s = c # t @ ?nl # json_lines vs"
    unfolding s skip_ws_append [OF Cons.prems(3)] using ct(1,2) by (simp add: skip_ws_def)
  moreover have "parse_value (length ?s) ?s = Some (v, ?nl # json_lines vs)"
    unfolding s parse_value_ws [OF Cons.prems(3)] json_marshal_def
    by (rule parse_print_value [OF layout_compact wf])
       (auto simp: ends_value_def is_num_char_def is_digit_def)
  moreover have "json_stream m ([?nl] @ json_lines vs) = Some vs"
    using Cons.prems n by (intro Cons.IH) (auto simp: is_ws_def)
  ultimately show ?case using ct(3,4) unfolding n by simp
qed

lemma json_decode_lines [simp, codec]:
  assumes "list_all wf_json vs"
  shows "json_decode_all (json_lines vs) = Some vs"
proof -
  have "length vs \<le> length (json_lines vs)" by (induction vs) (auto simp: json_lines_def)
  then show ?thesis using json_stream_lines [OF assms, of _ "[]"] by (simp add: json_decode_all_def)
qed

end
