(* ===== verification/JsonCodec.thy ===== *)
theory JsonCodec
  imports Json
begin

text \<open>
  How Go's reflection reads a JSON tree into a value that already exists, and writes one: a null
  leaves a value alone, an object's members are matched to a struct's fields by name (exactly,
  else ignoring case), unknown members are skipped, a type that does not fit is an error
  (\<open>None\<close>). A decoder takes the tree and the value to decode into. Nil maps, slices and pointers
  are \<open>None\<close>. Not modelled: elements of an old slice reused by a second array for the same field.
\<close>

section \<open>Decoders\<close>

type_synonym 'a into = "json \<Rightarrow> 'a \<Rightarrow> 'a option"

fun fold_opt :: "('a \<Rightarrow> 's \<Rightarrow> 's option) \<Rightarrow> 'a list \<Rightarrow> 's \<Rightarrow> 's option" where
  "fold_opt f [] s = Some s"
| "fold_opt f (x # xs) s = (case f x s of None \<Rightarrow> None | Some s' \<Rightarrow> fold_opt f xs s')"

definition into_string :: "string into" where
  "into_string j x = (case j of JStr s \<Rightarrow> Some s | JNull \<Rightarrow> Some x | _ \<Rightarrow> None)"

definition into_int64 :: "int into" where
  "into_int64 j x = (case j of JNum s \<Rightarrow> parse_int s | JNull \<Rightarrow> Some x | _ \<Rightarrow> None)"

definition into_bool :: "bool into" where
  "into_bool j x = (case j of JBool b \<Rightarrow> Some b | JNull \<Rightarrow> Some x | _ \<Rightarrow> None)"

definition into_ptr :: "'a \<Rightarrow> 'a into \<Rightarrow> 'a option into" where
  "into_ptr zero f j x =
     (if j = JNull then Some None
      else map_option Some (f j (case x of None \<Rightarrow> zero | Some a \<Rightarrow> a)))"

definition into_slice :: "'a \<Rightarrow> 'a into \<Rightarrow> 'a list option into" where
  "into_slice zero f j x =
     (case j of
        JNull \<Rightarrow> Some None
      | JArr vs \<Rightarrow> map_option Some (those (map (\<lambda>v. f v zero) vs))
      | _ \<Rightarrow> None)"

definition into_map :: "'a \<Rightarrow> 'a into \<Rightarrow> (string, 'a) gomap option into" where
  "into_map zero f j x =
     (case j of
        JNull \<Rightarrow> Some None
      | JObj kvs \<Rightarrow>
          map_option Some
            (fold_opt (\<lambda>(k, v) m. map_option (\<lambda>a. AList.update k a m) (f v zero)) kvs
               (case x of None \<Rightarrow> [] | Some m \<Rightarrow> m))
      | _ \<Rightarrow> None)"

definition fold_name :: "string \<Rightarrow> string" where
  "fold_name s = map lower_char s"

definition find_field :: "(string \<times> 'a) list \<Rightarrow> string \<Rightarrow> 'a option" where
  "find_field fs k =
     (case map_of fs k of
        Some f \<Rightarrow> Some f
      | None \<Rightarrow> map_option snd (find (\<lambda>(n, f). fold_name n = fold_name k) fs))"

definition into_struct :: "(string \<times> 'r into) list \<Rightarrow> 'r into" where
  "into_struct fs j r =
     (case j of
        JNull \<Rightarrow> Some r
      | JObj kvs \<Rightarrow>
          fold_opt (\<lambda>(k, v) r. case find_field fs k of None \<Rightarrow> Some r | Some f \<Rightarrow> f v r) kvs r
      | _ \<Rightarrow> None)"

text \<open>A record field: its selector, its update and the decoder of its type.\<close>

definition fld :: "('r \<Rightarrow> 'x) \<Rightarrow> (('x \<Rightarrow> 'x) \<Rightarrow> 'r \<Rightarrow> 'r) \<Rightarrow> 'x into \<Rightarrow> 'r into" where
  "fld get upd f j r = map_option (\<lambda>x. upd (\<lambda>_. x) r) (f j (get r))"

section \<open>Encoders\<close>

definition enc_int :: "int \<Rightarrow> json" where
  "enc_int n = JNum (dec n)"

definition enc_ptr :: "('a \<Rightarrow> json) \<Rightarrow> 'a option \<Rightarrow> json" where
  "enc_ptr f x = (case x of None \<Rightarrow> JNull | Some a \<Rightarrow> f a)"

definition enc_slice :: "('a \<Rightarrow> json) \<Rightarrow> 'a list option \<Rightarrow> json" where
  "enc_slice f x = (case x of None \<Rightarrow> JNull | Some xs \<Rightarrow> JArr (map f xs))"

text \<open>Maps are written in the order of their keys.\<close>

definition enc_map :: "('a \<Rightarrow> json) \<Rightarrow> (string, 'a) gomap option \<Rightarrow> json" where
  "enc_map f x =
     (case x of None \<Rightarrow> JNull | Some m \<Rightarrow> JObj (map (\<lambda>(k, v). (k, f v)) (sort_key fst m)))"

text \<open>\<open>omitempty\<close>.\<close>

definition opt_member :: "bool \<Rightarrow> string \<Rightarrow> json \<Rightarrow> (string \<times> json) list" where
  "opt_member present k v = (if present then [(k, v)] else [])"

definition nonempty_map :: "('k, 'v) gomap option \<Rightarrow> bool" where
  "nonempty_map x = (case x of None \<Rightarrow> False | Some m \<Rightarrow> m \<noteq> [])"

section \<open>Round trips of the parts\<close>

definition wf_map :: "(string, 'a) gomap option \<Rightarrow> bool" where
  "wf_map x \<longleftrightarrow> (case x of None \<Rightarrow> True | Some m \<Rightarrow> keys_distinct m \<and> sorted (map fst m))"

definition text_map :: "(string, string) gomap option \<Rightarrow> bool" where
  "text_map x \<longleftrightarrow> wf_map x \<and> (case x of None \<Rightarrow> True | Some m \<Rightarrow> \<forall>(k, v) \<in> set m. valid_utf8 k \<and> valid_utf8 v)"

lemma into_string_enc [simp, codec]: "into_string (JStr s) x = Some s"
  by (simp add: into_string_def)

lemma into_int64_enc [simp, codec]: "in_int64 n \<Longrightarrow> into_int64 (enc_int n) x = Some n"
  by (simp add: into_int64_def enc_int_def)

lemma into_bool_enc [simp, codec]: "into_bool (JBool b) x = Some b"
  by (simp add: into_bool_def)

lemma wf_json_enc_int [simp]: "wf_json (enc_int n)"
  by (simp add: enc_int_def num_chars_dec)

lemma into_ptr_enc:
  assumes "\<And>a. x = Some a \<Longrightarrow> f (enc a) zero = Some a \<and> enc a \<noteq> JNull"
  shows "into_ptr zero f (enc_ptr enc x) None = Some x"
  using assms by (cases x) (auto simp: into_ptr_def enc_ptr_def)

lemma those_map_enc: "(\<And>a. a \<in> set xs \<Longrightarrow> f (enc a) = Some a) \<Longrightarrow> those (map (\<lambda>a. f (enc a)) xs) = Some xs"
  by (induction xs) auto

lemma into_slice_enc:
  assumes "\<And>a xs. x = Some xs \<Longrightarrow> a \<in> set xs \<Longrightarrow> f (enc a) zero = Some a"
  shows "into_slice zero f (enc_slice enc x) y = Some x"
proof (cases x)
  case (Some xs)
  have "those (map (\<lambda>a. f (enc a) zero) xs) = Some xs"
    using assms Some by (intro those_map_enc [of xs "\<lambda>v. f v zero"]) auto
  then show ?thesis by (simp add: into_slice_def enc_slice_def Some comp_def)
qed (simp add: into_slice_def enc_slice_def)

lemma update_new_key: "k \<notin> fst ` set m \<Longrightarrow> AList.update k v m = m @ [(k, v)]"
  by (induction m) auto

lemma fold_opt_update:
  assumes "\<And>k a. (k, a) \<in> set kvs \<Longrightarrow> f (enc a) zero = Some a" and "keys_distinct (m @ kvs)"
  shows "fold_opt (\<lambda>(k, v) m. map_option (\<lambda>a. AList.update k a m) (f v zero)) (map (\<lambda>(k, v). (k, enc v)) kvs) m
         = Some (m @ kvs)"
  using assms
proof (induction kvs arbitrary: m)
  case (Cons kv kvs)
  obtain k a where kv: "kv = (k, a)" by (cases kv)
  have "f (enc a) zero = Some a" using Cons.prems(1) kv by auto
  moreover have "AList.update k a m = m @ [(k, a)]"
    using Cons.prems(2) kv by (intro update_new_key) (auto simp: image_iff)
  ultimately show ?case using Cons.IH [of "m @ [(k, a)]"] Cons.prems kv by auto
qed simp

lemma into_map_enc:
  assumes "wf_map x" and "\<And>m k a. x = Some m \<Longrightarrow> (k, a) \<in> set m \<Longrightarrow> f (enc a) zero = Some a"
  shows "into_map zero f (enc_map enc x) None = Some x"
proof (cases x)
  case (Some m)
  with assms(1) have m: "keys_distinct m" "sort_key fst m = m"
    by (simp_all add: wf_map_def sort_key_id_if_sorted)
  then show ?thesis
    using fold_opt_update [of m f enc zero "[]"] assms(2) Some
    by (simp add: into_map_def enc_map_def)
qed (simp add: into_map_def enc_map_def)

lemma into_string_map_enc [simp, codec]: "wf_map x \<Longrightarrow> into_map [] into_string (enc_map JStr x) None = Some x"
  by (rule into_map_enc) auto

lemma into_string_slice_enc [simp, codec]: "into_slice [] into_string (enc_slice JStr x) y = Some x"
  by (rule into_slice_enc) auto

lemma wf_json_string_map [simp]: "text_map x \<Longrightarrow> wf_json (enc_map JStr x)"
  by (auto simp: enc_map_def text_map_def wf_members_iff split: option.splits)

lemma wf_json_string_slice [simp]:
  "wf_json (enc_slice JStr x) \<longleftrightarrow> (case x of None \<Rightarrow> True | Some xs \<Rightarrow> list_all valid_utf8 xs)"
  by (auto simp: enc_slice_def wf_elems_iff list_all_iff split: option.splits)

lemma wf_members_append [simp]: "wf_members (xs @ ys) \<longleftrightarrow> wf_members xs \<and> wf_members ys"
  by (auto simp: wf_members_iff)

lemma wf_members_opt [simp]: "wf_members (opt_member p k v) \<longleftrightarrow> (p \<longrightarrow> valid_utf8 k \<and> wf_json v)"
  by (simp add: opt_member_def)

lemma fold_opt_append [simp]:
  "fold_opt f (xs @ ys) s = (case fold_opt f xs s of None \<Rightarrow> None | Some s' \<Rightarrow> fold_opt f ys s')"
  by (induction xs arbitrary: s) (auto split: option.splits)

lemma fold_opt_opt_member [simp]:
  "fold_opt f (opt_member p k v) s = (if p then f (k, v) s else Some s)"
  by (simp add: opt_member_def split: option.splits)

lemma find_field_exact: "map_of fs k = Some f \<Longrightarrow> find_field fs k = Some f"
  by (simp add: find_field_def)

end
