(* ===== verification/GoTime.thy ===== *)
theory GoTime
  imports GoFmt JsonCodec
begin

text \<open>
  time.Time in text: the calendar, \<open>RFC3339Nano\<close> as \<open>time.Time\<close> writes it to JSON, and the strict
  parser \<open>UnmarshalJSON\<close> uses. The process runs in UTC, so a time is written with the zone \<open>Z\<close>.
  Days are counted from March 1 of year 0, so that a leap day ends its year. Proved: an instant of the
  years 0 to 9999 is read back from its text.
\<close>

section \<open>The calendar\<close>

definition days_before :: "int \<Rightarrow> int" where
  "days_before y = 365 * y + y div 4 - y div 100 + y div 400"

definition march_year :: "int \<Rightarrow> int" where
  "march_year d = (let e = (400 * d + 700) div 146097 in if days_before e \<le> d then e else e - 1)"

definition civil_of_days :: "int \<Rightarrow> int \<times> int \<times> int" where
  "civil_of_days n =
     (let d = n + 719468; y = march_year d; doy = d - days_before y;
          mp = (5 * doy + 2) div 153; day = doy - (153 * mp + 2) div 5 + 1
      in if mp < 10 then (y, mp + 3, day) else (y + 1, mp - 9, day))"

definition days_of_civil :: "int \<times> int \<times> int \<Rightarrow> int" where
  "days_of_civil = (\<lambda>(y, m, d).
     let (y', mp) = (if 2 < m then (y, m - 3) else (y - 1, m + 9))
     in days_before y' + (153 * mp + 2) div 5 + d - 1 - 719468)"

definition leap :: "int \<Rightarrow> bool" where
  "leap y \<longleftrightarrow> 4 dvd y \<and> (\<not> 100 dvd y \<or> 400 dvd y)"

definition days_in :: "int \<Rightarrow> int \<Rightarrow> int" where
  "days_in m y = (if m = 2 then if leap y then 29 else 28 else if m \<in> {4, 6, 9, 11} then 30 else 31)"

section \<open>Text\<close>

definition day_second :: int where
  "day_second = 86400"

definition time_text :: "instant \<Rightarrow> string" where
  "time_text t =
     (let s = t div second; (y, m, d) = civil_of_days (s div day_second); r = s mod day_second
      in dec_pad 4 y @ ''-'' @ dec_pad 2 m @ ''-'' @ dec_pad 2 d @ ''T'' @ dec_pad 2 (r div 3600) @ '':''
         @ dec_pad 2 (r div 60 mod 60) @ '':'' @ dec_pad 2 (r mod 60) @ frac_text 9 (nat (t mod second)) @ ''Z'')"

text \<open>\<open>MarshalJSON\<close> refuses a year outside 0 to 9999.\<close>

definition time_year :: "instant \<Rightarrow> int" where
  "time_year t = fst (civil_of_days (t div second div day_second))"

definition marshal_time :: "instant \<Rightarrow> json option" where
  "marshal_time t = (if 0 \<le> time_year t \<and> time_year t \<le> 9999 then Some (JStr (time_text t)) else None)"

definition take_num :: "nat \<Rightarrow> string \<Rightarrow> (int \<times> string) option" where
  "take_num k s =
     (if k \<le> length s \<and> list_all is_digit (take k s) then Some (int (digits_val (take k s)), drop k s) else None)"

definition take_char :: "char \<Rightarrow> string \<Rightarrow> string option" where
  "take_char c s = (case s of [] \<Rightarrow> None | x # xs \<Rightarrow> if x = c then Some xs else None)"

definition nanos_of :: "string \<Rightarrow> int" where
  "nanos_of ds = int (digits_val (take 9 (ds @ replicate 9 (CHR ''0''))))"

definition take_frac :: "string \<Rightarrow> (int \<times> string) option" where
  "take_frac s =
     (case s of
        [] \<Rightarrow> Some (0, s)
      | x # xs \<Rightarrow>
          if x \<noteq> CHR ''.'' then Some (0, s)
          else let ds = takeWhile is_digit xs
               in if ds = [] then None
                  else Some (nanos_of ds, dropWhile is_digit xs))"

definition take_zone :: "string \<Rightarrow> int option" where
  "take_zone s =
     (case s of
        [] \<Rightarrow> None
      | x # xs \<Rightarrow>
          if x = CHR ''Z'' then (if xs = [] then Some 0 else None)
          else if x = CHR ''+'' \<or> x = CHR ''-''
          then Option.bind (take_num 2 xs) (\<lambda>(h, xs).
               Option.bind (take_char (CHR '':'') xs) (\<lambda>xs.
               Option.bind (take_num 2 xs) (\<lambda>(m, xs).
               if xs = [] \<and> h \<le> 23 \<and> m \<le> 59
               then Some (if x = CHR ''-'' then - (3600 * h + 60 * m) else 3600 * h + 60 * m) else None)))
          else None)"

definition parse_time :: "string \<Rightarrow> instant option" where
  "parse_time s =
     Option.bind (take_num 4 s) (\<lambda>(y, s).
     Option.bind (take_char (CHR ''-'') s) (\<lambda>s.
     Option.bind (take_num 2 s) (\<lambda>(mo, s).
     Option.bind (take_char (CHR ''-'') s) (\<lambda>s.
     Option.bind (take_num 2 s) (\<lambda>(d, s).
     Option.bind (take_char (CHR ''T'') s) (\<lambda>s.
     Option.bind (take_num 2 s) (\<lambda>(h, s).
     Option.bind (take_char (CHR '':'') s) (\<lambda>s.
     Option.bind (take_num 2 s) (\<lambda>(mi, s).
     Option.bind (take_char (CHR '':'') s) (\<lambda>s.
     Option.bind (take_num 2 s) (\<lambda>(sec, s).
     Option.bind (take_frac s) (\<lambda>(ns, s).
     Option.bind (take_zone s) (\<lambda>off.
     if 1 \<le> mo \<and> mo \<le> 12 \<and> 1 \<le> d \<and> d \<le> days_in mo y \<and> h \<le> 23 \<and> mi \<le> 59 \<and> sec \<le> 59
     then Some ((days_of_civil (y, mo, d) * day_second + h * 3600 + mi * 60 + sec - off) * second + ns)
     else None)))))))))))))"

definition into_time :: "instant into" where
  "into_time j t = (case j of JStr s \<Rightarrow> parse_time s | JNull \<Rightarrow> Some t | _ \<Rightarrow> None)"

section \<open>The calendar is right\<close>

lemma div_bounds:
  fixes y k :: int
  assumes "0 < k"
  shows "k * (y div k) \<le> y" and "y < k * (y div k) + k"
  using assms mult_div_mod_eq [of k y] pos_mod_bound [of k y] pos_mod_sign [of k y] by linarith+

lemma div_succ:
  fixes y k :: int
  assumes "0 < k"
  shows "(y + 1) div k = y div k + (if k dvd y + 1 then 1 else 0)"
proof (cases "k dvd y + 1")
  case True
  then obtain q where q: "y + 1 = k * q" by blast
  have "y div k = q - 1"
    by (rule int_div_pos_eq [of _ _ _ "k - 1"]) (use q assms in \<open>simp_all add: algebra_simps\<close>)
  then show ?thesis using q True assms by simp
next
  case False
  have "y mod k \<noteq> k - 1"
  proof
    assume "y mod k = k - 1"
    then have "y + 1 = k * (y div k) + k" using mult_div_mod_eq [of k y] by linarith
    then have "y + 1 = k * (y div k + 1)" by (simp only: distrib_left mult_1_right)
    then show False using False by (metis dvd_triv_left)
  qed
  then have "y mod k + 1 < k" using pos_mod_bound [OF assms, of y] by simp
  then have "(y + 1) div k = y div k"
    using mult_div_mod_eq [of k y] pos_mod_sign [OF assms, of y]
    by (intro int_div_pos_eq [of _ _ _ "y mod k + 1"]) linarith+
  then show ?thesis using False by simp
qed

lemma march_year_bounds: "days_before (march_year d) \<le> d" "d < days_before (march_year d + 1)"
proof -
  define e where "e = (400 * d + 700) div 146097"
  have e: "146097 * e \<le> 400 * d + 700" "400 * d + 700 < 146097 * e + 146097"
    unfolding e_def using div_bounds [of 146097 "400 * d + 700"] by simp_all
  have lower: "146097 * y - 699 \<le> 400 * days_before y" and upper: "400 * days_before y \<le> 146097 * y + 396" for y
    using div_bounds [of 4 y] div_bounds [of 100 y] div_bounds [of 400 y] unfolding days_before_def by simp_all
  show "days_before (march_year d) \<le> d" "d < days_before (march_year d + 1)"
    using e lower [of "e + 1"] upper [of "e - 1"]
    unfolding march_year_def e_def [symmetric] Let_def by auto
qed

lemma leap_cases:
  fixes n :: int
  assumes "n = 365 + (if P then 1 else 0) - (if Q then 1 else 0) + (if R then 1 else 0)" and "R \<Longrightarrow> Q" and "Q \<Longrightarrow> P"
  shows "n = (if P \<and> (\<not> Q \<or> R) then 366 else 365)"
  using assms by (cases P; cases Q; cases R) simp_all

lemma days_before_succ: "days_before (y + 1) - days_before y = (if leap (y + 1) then 366 else 365)"
proof -
  have dvds: "400 dvd y + 1 \<Longrightarrow> 100 dvd y + 1" "100 dvd y + 1 \<Longrightarrow> 4 dvd y + 1"
    by (erule dvd_trans [rotated], simp)+
  have "days_before (y + 1) - days_before y
        = 365 + (if 4 dvd y + 1 then 1 else 0) - (if 100 dvd y + 1 then 1 else 0) + (if 400 dvd y + 1 then 1 else 0)"
  proof -
    obtain a b c :: int where abc: "a = (if 4 dvd y + 1 then 1 else 0)" "b = (if 100 dvd y + 1 then 1 else 0)"
      "c = (if 400 dvd y + 1 then 1 else 0)" by blast
    have "(y + 1) div 4 = y div 4 + a" "(y + 1) div 100 = y div 100 + b" "(y + 1) div 400 = y div 400 + c"
      unfolding abc by (rule div_succ, simp)+
    then show ?thesis unfolding days_before_def abc [symmetric] distrib_left by linarith
  qed
  then show ?thesis unfolding leap_def using dvds by (rule leap_cases)
qed

lemma day_of_year: "0 \<le> d - days_before (march_year d)" "d - days_before (march_year d) \<le> 365"
  using days_before_succ [of "march_year d"] march_year_bounds [of d] by (auto split: if_splits)

lemma month_of_day:
  fixes doy :: int
  assumes "0 \<le> doy" and "doy \<le> 365"
  shows "0 \<le> (5 * doy + 2) div 153" and "(5 * doy + 2) div 153 \<le> 11"
  using assms div_bounds [of 153 "5 * doy + 2"] by linarith+

lemma day_of_month:
  fixes doy :: int
  assumes "0 \<le> doy" and "doy \<le> 365" and "mp = (5 * doy + 2) div 153"
  shows "1 \<le> doy - (153 * mp + 2) div 5 + 1"
    and "doy - (153 * mp + 2) div 5 + 1 \<le> (153 * (mp + 1) + 2) div 5 - (153 * mp + 2) div 5"
proof -
  have mp: "153 * mp \<le> 5 * doy + 2" "5 * doy + 2 < 153 * mp + 153"
    using div_bounds [of 153 "5 * doy + 2"] assms(3) by simp_all
  show "1 \<le> doy - (153 * mp + 2) div 5 + 1" using mp div_bounds [of 5 "153 * mp + 2"] by linarith
  obtain Y where Y: "(153 * (mp + 1) + 2) div 5 = Y" by blast
  then have "153 * (mp + 1) + 2 < 5 * Y + 5" using div_bounds [of 5 "153 * (mp + 1) + 2"] by simp
  then have "5 * doy < 5 * Y" using mp unfolding distrib_left by linarith
  then show "doy - (153 * mp + 2) div 5 + 1 \<le> (153 * (mp + 1) + 2) div 5 - (153 * mp + 2) div 5" unfolding Y by simp
qed

lemma civil_roundtrip: "days_of_civil (civil_of_days n) = n"
proof -
  define d y where "d = n + 719468" and "y = march_year d"
  define doy where "doy = d - days_before y"
  define mp where "mp = (5 * doy + 2) div 153"
  have "0 \<le> mp" and "mp \<le> 11"
    using day_of_year [of d] month_of_day(1,2) [of doy] by (simp_all add: mp_def doy_def y_def)
  then show ?thesis
    by (simp add: days_of_civil_def civil_of_days_def Let_def d_def [symmetric] y_def [symmetric] doy_def [symmetric]
        mp_def [symmetric]) (simp add: d_def doy_def)
qed

lemma small_int_cases:
  fixes x :: int
  assumes "0 \<le> x" and "x \<le> 11"
  shows "x \<in> {0, 1, 2, 3, 4, 5} \<or> x \<in> {6, 7, 8, 9, 10, 11}"
proof (cases "x \<le> 5")
  case True
  then have "x \<in> {0, 1, 2, 3, 4, 5}" using assms by auto
  then show ?thesis ..
next
  case False
  then have "x \<in> {6, 7, 8, 9, 10, 11}" using assms by auto
  then show ?thesis ..
qed

definition month_length :: "int \<Rightarrow> int" where
  "month_length mp = (153 * (mp + 1) + 2) div 5 - (153 * mp + 2) div 5"

lemma month_length_value:
  assumes "0 \<le> mp" and "mp \<le> 11" and "mp \<noteq> 11"
  shows "month_length mp = (if mp \<in> {1, 3, 6, 8} then 30 else 31)"
  using small_int_cases [OF assms(1,2)] assms(3) by (auto simp: month_length_def)

lemma civil_valid:
  assumes "civil_of_days n = (y, m, d)"
  shows "1 \<le> m" and "m \<le> 12" and "1 \<le> d" and "d \<le> days_in m y"
proof -
  define a where "a = n + 719468"
  define y0 where "y0 = march_year a"
  define doy where "doy = a - days_before y0"
  define mp where "mp = (5 * doy + 2) div 153"
  define D where "D = doy - (153 * mp + 2) div 5 + 1"
  have doy: "0 \<le> doy" "doy \<le> 365" unfolding doy_def y0_def by (rule day_of_year)+
  have mp: "0 \<le> mp" "mp \<le> 11" unfolding mp_def by (rule month_of_day [OF doy])+
  have D: "1 \<le> D" "D \<le> month_length mp"
    unfolding D_def month_length_def by (rule day_of_month [OF doy mp_def])+
  have civil: "(y, m, d) = (if mp < 10 then (y0, mp + 3, D) else (y0 + 1, mp - 9, D))"
    using assms by (simp only: civil_of_days_def Let_def a_def [symmetric] y0_def [symmetric] doy_def [symmetric]
        mp_def [symmetric] D_def [symmetric])
  then show "1 \<le> m" and "m \<le> 12" and "1 \<le> d" using mp D(1) by (simp_all split: if_splits)
  have last: "mp = 11 \<Longrightarrow> D \<le> (if leap (y0 + 1) then 29 else 28)"
  proof -
    assume "mp = 11"
    then have "D = doy - 336" by (simp add: D_def)
    moreover have "doy < days_before (y0 + 1) - days_before y0" using march_year_bounds(2) [of a] by (simp add: doy_def y0_def)
    ultimately show ?thesis unfolding days_before_succ by (simp split: if_splits)
  qed
  show "d \<le> days_in m y"
  proof (cases "mp = 11")
    case True
    then show ?thesis using civil last by (simp add: days_in_def)
  next
    case False
    then have len: "month_length mp = (if mp \<in> {1, 3, 6, 8} then 30 else 31)" using month_length_value mp by simp
    show ?thesis
    proof (cases "mp < 10")
      case True
      then have "m = mp + 3" "d = D" using civil by simp_all
      then show ?thesis using D(2) mp unfolding len days_in_def by (auto split: if_splits)
    next
      case False
      then have "mp = 10" using mp \<open>mp \<noteq> 11\<close> by simp
      then show ?thesis using civil D(2) unfolding len days_in_def by simp
    qed
  qed
qed

section \<open>What is written is read back\<close>

lemma length_dec_nat: "n < 10 ^ k \<Longrightarrow> 0 < k \<Longrightarrow> length (dec_nat n) \<le> k"
proof (induction n arbitrary: k rule: dec_nat.induct)
  case (1 n)
  show ?case
  proof (cases "n < 10")
    case True
    then show ?thesis using 1 by (simp add: dec_nat.simps)
  next
    case False
    obtain j where k: "k = Suc j" using 1 by (cases k) auto
    have "0 < j" using 1 False k by (cases j) auto
    have "n div 10 < 10 ^ j" using 1 k by (simp add: less_mult_imp_div_less mult.commute)
    then show ?thesis using 1(1) [OF False] \<open>0 < j\<close> False k by (subst dec_nat.simps) auto
  qed
qed

lemma length_dec_pad: "0 \<le> n \<Longrightarrow> n < 10 ^ k \<Longrightarrow> 0 < k \<Longrightarrow> length (dec_pad k n) = k"
  using length_dec_nat [of "nat n" k] by (simp add: dec_pad_def Let_def nat_less_iff)

lemma take_num_pad:
  assumes "0 \<le> n" and "n < 10 ^ k" and "0 < k"
  shows "take_num k (dec_pad k n @ s) = Some (n, s)"
  using assms by (simp add: take_num_def length_dec_pad dec_pad_digits digits_val_dec_pad)

lemma length_frac_digits: "length (frac_digits k v) = k"
  by (induction k arbitrary: v) simp_all

lemma frac_digits_digits: "list_all is_digit (frac_digits k v)"
  by (induction k arbitrary: v) simp_all

lemma digits_val_frac: "digits_val (frac_digits k v) = v mod 10 ^ k"
proof (induction k arbitrary: v)
  case (Suc k)
  have "v mod (10 * 10 ^ k) = 10 * (v div 10 mod 10 ^ k) + v mod 10" by (rule mod_mult2_eq)
  then show ?case by (simp add: Suc)
qed simp

lemma drop_zeros: "\<exists>j. ds = rev (dropWhile (\<lambda>c. c = z) (rev ds)) @ replicate j z"
proof -
  define zs where "zs = takeWhile (\<lambda>c. c = z) (rev ds)"
  have "x = z" if "x \<in> set zs" for x using that set_takeWhileD unfolding zs_def by metis
  then have "zs = replicate (length zs) z" by (simp add: replicate_length_same)
  moreover have "rev ds = zs @ dropWhile (\<lambda>c. c = z) (rev ds)" by (simp add: zs_def)
  then have "ds = rev (dropWhile (\<lambda>c. c = z) (rev ds)) @ rev zs" by (metis rev_append rev_rev_ident)
  ultimately have "ds = rev (dropWhile (\<lambda>c. c = z) (rev ds)) @ replicate (length zs) z" by (metis rev_replicate)
  then show ?thesis by blast
qed

lemma take_replicate_pad: "length ds + j = k \<Longrightarrow> take k (ds @ replicate k z) = ds @ replicate j z"
  by (simp add: take_replicate)

lemma take_frac_text:
  assumes "v < 10 ^ 9" and "s = [] \<or> (hd s \<noteq> CHR ''.'' \<and> \<not> is_digit (hd s))"
  shows "take_frac (frac_text 9 v @ s) = Some (int v, s)"
proof -
  define full where "full = frac_digits 9 v"
  define ds where "ds = rev (dropWhile (\<lambda>c. c = CHR ''0'') (rev full))"
  obtain j where j: "full = ds @ replicate j (CHR ''0'')" using drop_zeros [of full "CHR ''0''"] unfolding ds_def by (elim exE)
  have val: "digits_val full = v" unfolding full_def digits_val_frac using assms(1) by (rule mod_less)
  have "length full = 9" unfolding full_def by (rule length_frac_digits)
  then have "length ds + j = 9" unfolding j by simp
  then have "take 9 (ds @ replicate 9 (CHR ''0'')) = full" unfolding j by (rule take_replicate_pad)
  then have nanos: "nanos_of ds = int v" unfolding nanos_of_def by (simp only: val)
  have "list_all is_digit full" unfolding full_def by (rule frac_digits_digits)
  then have digits: "list_all is_digit ds" unfolding j by simp
  have shape: "frac_text 9 v = (if ds = [] then [] else ''.'' @ ds)"
    unfolding frac_text_def full_def [symmetric] ds_def [symmetric] Let_def ..
  show ?thesis
  proof (cases "ds = []")
    case True
    have "v = digits_val (replicate j (CHR ''0'') @ [])" unfolding val [symmetric] j by (simp only: True append_Nil append_Nil2)
    then have "v = 0" by (simp only: digits_val_zeros digits_val_Nil)
    moreover have "take_frac s = Some (0, s)" using assms(2) by (cases s) (simp_all add: take_frac_def)
    ultimately show ?thesis using True unfolding shape by simp
  next
    case False
    have stop: "takeWhile is_digit (ds @ s) = ds" "dropWhile is_digit (ds @ s) = s"
      using digits assms(2) by (cases s; simp add: list_all_iff)+
    show ?thesis
      using False stop nanos unfolding shape by (simp add: take_frac_def Let_def del: replicate.simps)
  qed
qed

lemma parse_time_parts:
  assumes "0 \<le> y" "y < 10 ^ 4" "1 \<le> m" "m \<le> 12" "1 \<le> d" "d \<le> days_in m y"
    and "0 \<le> h" "h \<le> 23" "0 \<le> mi" "mi \<le> 59" "0 \<le> sec" "sec \<le> 59"
    and frac: "take_frac f = Some (ns, z)" and zone: "take_zone z = Some off"
  shows "parse_time (dec_pad 4 y @ CHR ''-'' # dec_pad 2 m @ CHR ''-'' # dec_pad 2 d @ CHR ''T'' # dec_pad 2 h @ CHR '':'' #
      dec_pad 2 mi @ CHR '':'' # dec_pad 2 sec @ f) =
      Some ((days_of_civil (y, m, d) * day_second + h * 3600 + mi * 60 + sec - off) * second + ns)"
proof -
  have tc: "take_char c (c # xs) = Some xs" for c xs by (simp add: take_char_def)
  have four: "take_num 4 (dec_pad 4 y @ xs) = Some (y, xs)" for xs using assms(1,2) by (intro take_num_pad) simp_all
  have two: "take_num 2 (dec_pad 2 x @ xs) = Some (x, xs)" if "0 \<le> x" "x \<le> 59" for x xs
    using that by (intro take_num_pad) simp_all
  have "days_in m y \<le> 31" by (simp add: days_in_def)
  then have small: "0 \<le> m" "m \<le> 59" "0 \<le> d" "d \<le> 59" "h \<le> 59" using assms by linarith+
  note nums = four two [OF small(1,2)] two [OF small(3,4)] two [OF assms(7) small(5)] two [OF assms(9,10)] two [OF assms(11,12)]
  have ok: "1 \<le> m \<and> m \<le> 12 \<and> 1 \<le> d \<and> d \<le> days_in m y \<and> h \<le> 23 \<and> mi \<le> 59 \<and> sec \<le> 59"
    using assms by blast
  show ?thesis
    unfolding parse_time_def nums tc frac zone bind.bind_lunit prod.case using ok by (simp only: simp_thms if_True)
qed

lemma clock_parts:
  fixes r :: int
  assumes "0 \<le> r" and "r < 86400"
  shows "0 \<le> r div 3600" "r div 3600 \<le> 23" "0 \<le> r div 60 mod 60" "r div 60 mod 60 \<le> 59" "0 \<le> r mod 60" "r mod 60 \<le> 59"
    and "r div 3600 * 3600 + r div 60 mod 60 * 60 + r mod 60 = r"
proof -
  have "r div 3600 < 24" using assms by (simp add: div_less_iff_less_mult)
  then show "r div 3600 \<le> 23" by simp
  show "r div 60 mod 60 \<le> 59" "r mod 60 \<le> 59"
    using pos_mod_bound [of 60 "r div 60"] pos_mod_bound [of 60 r] by simp_all
  have "r div 3600 = r div 60 div 60" by (simp add: zdiv_zmult2_eq)
  then show "r div 3600 * 3600 + r div 60 mod 60 * 60 + r mod 60 = r"
    using mult_div_mod_eq [of 60 "r div 60"] mult_div_mod_eq [of 60 r] by linarith
qed (use assms in simp_all)

text \<open>The year has four digits.\<close>

lemma parse_time_text:
  assumes "0 \<le> time_year t" and "time_year t \<le> 9999"
  shows "parse_time (time_text t) = Some t"
proof -
  define s where "s = t div second"
  define r where "r = s mod day_second"
  define ns where "ns = nat (t mod second)"
  obtain y m d where civil: "civil_of_days (s div day_second) = (y, m, d)" by (metis surj_pair)
  have y: "0 \<le> y" "y < 10 ^ 4" using assms civil by (simp_all add: time_year_def s_def)
  have "0 \<le> r" "r < 86400" unfolding r_def day_second_def by simp_all
  note clock = clock_parts [OF this]
  have "ns < 10 ^ 9" by (simp add: ns_def nat_less_iff)
  then have frac: "take_frac (frac_text 9 ns @ ''Z'') = Some (int ns, ''Z'')"
    by (rule take_frac_text) (simp add: is_digit_def)
  have zone: "take_zone ''Z'' = Some 0" by (simp add: take_zone_def)
  have shape: "time_text t = dec_pad 4 y @ CHR ''-'' # dec_pad 2 m @ CHR ''-'' # dec_pad 2 d @ CHR ''T'' # dec_pad 2 (r div 3600) @ CHR '':'' #
      dec_pad 2 (r div 60 mod 60) @ CHR '':'' # dec_pad 2 (r mod 60) @ (frac_text 9 ns @ ''Z'')"
    unfolding time_text_def s_def [symmetric] ns_def [symmetric] Let_def civil prod.case r_def [symmetric] append_Cons append_Nil
      append_assoc ..
  have "days_of_civil (y, m, d) = s div day_second" using civil_roundtrip [of "s div day_second"] civil by simp
  then have "days_of_civil (y, m, d) * day_second + r = s" unfolding r_def by simp
  then have sum: "days_of_civil (y, m, d) * day_second + r div 3600 * 3600 + r div 60 mod 60 * 60 + r mod 60 - 0 = s"
    using clock(7) by linarith
  have "s * second + int ns = t" unfolding s_def ns_def by simp
  then show ?thesis
    unfolding shape parse_time_parts [OF y civil_valid [OF civil] clock(1-6) frac zone] sum by simp
qed

lemma into_marshal_time [simp, codec]: "marshal_time t = Some j \<Longrightarrow> into_time j x = Some t"
  by (auto simp: marshal_time_def into_time_def parse_time_text split: if_splits)

text \<open>Encoders and decoders of a struct with a time use these.\<close>

definition time_ok :: "instant \<Rightarrow> bool" where
  "time_ok t \<longleftrightarrow> 0 \<le> time_year t \<and> time_year t \<le> 9999"

definition enc_time :: "instant \<Rightarrow> json" where
  "enc_time t = JStr (time_text t)"

lemma into_enc_time [simp, codec]: "time_ok t \<Longrightarrow> into_time (enc_time t) x = Some t"
  by (simp add: time_ok_def enc_time_def into_time_def parse_time_text)

lemma valid_utf8_digits: "list_all is_digit s \<Longrightarrow> valid_utf8 s"
  by (rule valid_utf8_ascii) (auto simp: list_all_iff is_digit_def)

lemma frac_text_utf8: "valid_utf8 (frac_text n v)"
proof -
  have "list_all is_digit (rev (dropWhile (\<lambda>c. c = CHR ''0'') (rev (frac_digits n v))))"
    using frac_digits_digits [of n v] by (auto simp: list_all_iff dest: set_dropWhileD)
  then show ?thesis by (simp add: frac_text_def Let_def valid_utf8_digits)
qed

lemma wf_enc_time [simp]: "time_ok t \<Longrightarrow> wf_json (enc_time t)"
proof -
  assume t: "time_ok t"
  obtain y m d where c: "civil_of_days (t div second div day_second) = (y, m, d)" by (metis surj_pair)
  have "0 \<le> y" using t c by (simp add: time_ok_def time_year_def)
  moreover have "0 \<le> m" "0 \<le> d" using civil_valid [OF c] by simp_all
  moreover have "0 \<le> t div second mod day_second" by (simp add: day_second_def)
  ultimately show ?thesis
    by (simp add: enc_time_def time_text_def c Let_def valid_utf8_append valid_utf8_digits dec_pad_digits frac_text_utf8)
qed

end
