(* ===== verification/GoRegex.thy ===== *)
theory GoRegex
  imports Json
begin

text \<open>
  The part of package regexp the source uses: anchored expressions over the runes of a string, matched by
  derivatives. \<open>accepts\<close> is the meaning of an expression; the matcher is proved equivalent to it.
\<close>

datatype re = Empty | Epsilon | Sym "string \<Rightarrow> bool" | Seq re re | Alt re re | Star re

text \<open>The runes of a string; a byte that starts none is one of its own.\<close>

function runes :: "string \<Rightarrow> string list" where
  "runes s = (if s = [] then [] else let k = max 1 (rune_len s) in take k s # runes (drop k s))"
  by pat_completeness auto
termination by (relation "measure length") auto

declare runes.simps [simp del]

inductive accepts :: "re \<Rightarrow> string list \<Rightarrow> bool" where
  accepts_eps: "accepts Epsilon []"
| accepts_sym: "P c \<Longrightarrow> accepts (Sym P) [c]"
| accepts_seq: "accepts r s \<Longrightarrow> accepts q t \<Longrightarrow> accepts (Seq r q) (s @ t)"
| accepts_altl: "accepts r s \<Longrightarrow> accepts (Alt r q) s"
| accepts_altr: "accepts q s \<Longrightarrow> accepts (Alt r q) s"
| accepts_star0: "accepts (Star r) []"
| accepts_star: "accepts r s \<Longrightarrow> accepts (Star r) t \<Longrightarrow> accepts (Star r) (s @ t)"

inductive_simps accepts_simps [simp]: "accepts Empty s" "accepts Epsilon s" "accepts (Sym P) s" "accepts (Alt r q) s"

inductive_cases accepts_seqE [consumes 1]: "accepts (Seq r q) s"
inductive_cases accepts_starE: "accepts (Star r) s"

fun nullable :: "re \<Rightarrow> bool" where
  "nullable Empty = False"
| "nullable Epsilon = True"
| "nullable (Sym P) = False"
| "nullable (Seq r q) = (nullable r \<and> nullable q)"
| "nullable (Alt r q) = (nullable r \<or> nullable q)"
| "nullable (Star r) = True"

fun seq :: "re \<Rightarrow> re \<Rightarrow> re" where
  "seq Empty q = Empty"
| "seq Epsilon q = q"
| "seq r q = Seq r q"

fun alt :: "re \<Rightarrow> re \<Rightarrow> re" where
  "alt Empty q = q"
| "alt r Empty = r"
| "alt r q = Alt r q"

fun deriv :: "string \<Rightarrow> re \<Rightarrow> re" where
  "deriv c Empty = Empty"
| "deriv c Epsilon = Empty"
| "deriv c (Sym P) = (if P c then Epsilon else Empty)"
| "deriv c (Seq r q) = (if nullable r then alt (seq (deriv c r) q) (deriv c q) else seq (deriv c r) q)"
| "deriv c (Alt r q) = alt (deriv c r) (deriv c q)"
| "deriv c (Star r) = seq (deriv c r) (Star r)"

definition re_match :: "re \<Rightarrow> string \<Rightarrow> bool" where
  "re_match r s = nullable (foldl (\<lambda>r c. deriv c r) r (runes s))"

section \<open>Expressions\<close>

definition ascii :: "(char \<Rightarrow> bool) \<Rightarrow> re" where
  "ascii P = Sym (\<lambda>c. case c of [x] \<Rightarrow> byte x < 128 \<and> P x | _ \<Rightarrow> False)"

definition none_of :: "string \<Rightarrow> re" where
  "none_of xs = Sym (\<lambda>c. c \<notin> set (map (\<lambda>x. [x]) xs))"

definition lit :: "string \<Rightarrow> re" where
  "lit s = foldr (\<lambda>c r. Seq (Sym (\<lambda>x. x = [c])) r) s Epsilon"

definition plus_re :: "re \<Rightarrow> re" where
  "plus_re r = Seq r (Star r)"

definition opt_re :: "re \<Rightarrow> re" where
  "opt_re r = Alt Epsilon r"

fun times_re :: "nat \<Rightarrow> re \<Rightarrow> re" where
  "times_re 0 r = Epsilon"
| "times_re (Suc n) r = Seq r (times_re n r)"

fun upto_re :: "nat \<Rightarrow> re \<Rightarrow> re" where
  "upto_re 0 r = Epsilon"
| "upto_re (Suc n) r = opt_re (Seq r (upto_re n r))"

definition seqs :: "re list \<Rightarrow> re" where
  "seqs rs = foldr Seq rs Epsilon"

section \<open>The matcher is right\<close>

lemma accepts_seq_iff: "accepts (Seq r q) s \<longleftrightarrow> (\<exists>u v. s = u @ v \<and> accepts r u \<and> accepts q v)"
  by (auto elim!: accepts_seqE intro: accepts_seq)

lemma accepts_nil: "accepts r [] \<longleftrightarrow> nullable r"
  by (induction r) (auto simp: accepts_seq_iff intro: accepts_star0)

lemma accepts_seq_smart [simp]: "accepts (seq r q) s \<longleftrightarrow> accepts (Seq r q) s"
  by (cases "(r, q)" rule: seq.cases) (auto simp: accepts_seq_iff)

lemma accepts_alt_smart [simp]: "accepts (alt r q) s \<longleftrightarrow> accepts r s \<or> accepts q s"
  by (cases "(r, q)" rule: alt.cases) auto

lemma accepts_star_Cons:
  "accepts (Star r) (c # s) \<longleftrightarrow> (\<exists>u v. s = u @ v \<and> accepts r (c # u) \<and> accepts (Star r) v)"
proof
  assume "accepts (Star r) (c # s)"
  then show "\<exists>u v. s = u @ v \<and> accepts r (c # u) \<and> accepts (Star r) v"
  proof (induction "Star r" "c # s" rule: accepts.induct)
    case (accepts_star u v)
    then show ?case by (cases u) auto
  qed
next
  assume "\<exists>u v. s = u @ v \<and> accepts r (c # u) \<and> accepts (Star r) v"
  then show "accepts (Star r) (c # s)" by (metis accepts_star append_Cons)
qed

lemma accepts_seq_Cons:
  "accepts (Seq r q) (c # s) \<longleftrightarrow>
    (\<exists>u v. s = u @ v \<and> accepts r (c # u) \<and> accepts q v) \<or> (nullable r \<and> accepts q (c # s))"
proof -
  have "accepts (Seq r q) (c # s) \<longleftrightarrow>
      (\<exists>u v. s = u @ v \<and> accepts r (c # u) \<and> accepts q v) \<or> (accepts r [] \<and> accepts q (c # s))"
    unfolding accepts_seq_iff Cons_eq_append_conv by blast
  then show ?thesis unfolding accepts_nil .
qed

lemma accepts_deriv: "accepts (deriv c r) s \<longleftrightarrow> accepts r (c # s)"
proof (induction r arbitrary: s)
  case (Seq r q)
  have "accepts (seq (deriv c r) q) s \<longleftrightarrow> (\<exists>u v. s = u @ v \<and> accepts r (c # u) \<and> accepts q v)"
    unfolding accepts_seq_smart accepts_seq_iff Seq.IH(1) ..
  then show ?case unfolding accepts_seq_Cons deriv.simps using Seq.IH(2) by simp
next
  case (Star r)
  have "accepts (seq (deriv c r) (Star r)) s \<longleftrightarrow> (\<exists>u v. s = u @ v \<and> accepts r (c # u) \<and> accepts (Star r) v)"
    unfolding accepts_seq_smart accepts_seq_iff Star.IH ..
  then show ?case unfolding accepts_star_Cons deriv.simps .
qed auto

lemma re_match_iff: "re_match r s \<longleftrightarrow> accepts r (runes s)"
proof -
  have "nullable (foldl (\<lambda>r c. deriv c r) r cs) \<longleftrightarrow> accepts r cs" for cs
    by (induction cs arbitrary: r) (simp_all add: accepts_nil accepts_deriv)
  then show ?thesis by (simp add: re_match_def)
qed

end
