(* ===== verification/GoShow.thy ===== *)
theory GoShow
  imports GoTime GoRegex
begin

text \<open>
  More of the standard library: a double as \<open>%v\<close> prints it (the shortest decimal that rounds back to it),
  and whether \<open>time.Parse\<close> accepts a text with one of the layouts the validation tries.
\<close>

section \<open>The shortest decimal\<close>

text \<open>How often a positive number below 1 has to be multiplied by ten to reach 1.\<close>

fun scale_up :: "nat \<Rightarrow> rat \<Rightarrow> nat" where
  "scale_up 0 x = 0"
| "scale_up (Suc n) x = (if 1 \<le> x then 0 else Suc (scale_up n (10 * x)))"

text \<open>The position of the decimal point: \<open>10 ^ (e - 1) \<le> x < 10 ^ e\<close>; doubles need at most 324 steps.\<close>

definition decimal_point :: "rat \<Rightarrow> int" where
  "decimal_point x = (if 1 \<le> x then int (length (dec_nat (nat \<lfloor>x\<rfloor>))) else 1 - int (scale_up 330 x))"

definition ten_to :: "int \<Rightarrow> rat" where
  "ten_to k = (if 0 \<le> k then 10 ^ nat k else 1 / 10 ^ nat (- k))"

definition with_digits :: "rat \<Rightarrow> int \<Rightarrow> nat \<Rightarrow> int" where
  "with_digits x e n = round_half_even (x * ten_to (int n - e))"

text \<open>The digits (without trailing zeros) and the decimal point of a positive double; 17 digits always suffice.\<close>

definition strip_zeros :: "string \<Rightarrow> string" where
  "strip_zeros ds = rev (dropWhile (\<lambda>c. c = CHR ''0'') (rev ds))"

fun shortest_from :: "rat \<Rightarrow> int \<Rightarrow> nat list \<Rightarrow> string \<times> int" where
  "shortest_from x e [] = (let m = with_digits x e 17; ds = dec_nat (nat m) in (strip_zeros ds, e + int (length ds) - 17))"
| "shortest_from x e (n # ns) =
     (let m = with_digits x e n; ds = dec_nat (nat m)
      in if f64_of (of_int m * ten_to (e - int n)) = Fin x then (strip_zeros ds, e + int (length ds) - int n)
         else shortest_from x e ns)"

definition shortest :: "rat \<Rightarrow> string \<times> int" where
  "shortest x = shortest_from x (decimal_point x) [1..<17]"

definition zeros :: "int \<Rightarrow> string" where
  "zeros n = replicate (nat n) (CHR ''0'')"

text \<open>\<open>%e\<close> and \<open>%f\<close> of the digits.\<close>

definition fmt_e :: "string \<Rightarrow> int \<Rightarrow> string" where
  "fmt_e ds dp =
     take 1 ds @ (if length ds \<le> 1 then [] else ''.'' @ drop 1 ds) @ ''e'' @ (if dp - 1 < 0 then ''-'' else ''+'') @ dec_pad 2 \<bar>dp - 1\<bar>"

definition fmt_f :: "string \<Rightarrow> int \<Rightarrow> string" where
  "fmt_f ds dp =
     (if 0 < dp then take (nat dp) ds @ zeros (dp - int (length ds)) else ''0'')
     @ (if int (length ds) \<le> dp then [] else ''.'' @ zeros (- dp) @ drop (nat dp) ds)"

definition pos_float_text :: "int \<Rightarrow> rat \<Rightarrow> string" where
  "pos_float_text limit x = (let (ds, dp) = shortest x in if dp - 1 < -4 \<or> limit \<le> dp - 1 then fmt_e ds dp else fmt_f ds dp)"

text \<open>\<open>%v\<close> is \<open>%g\<close>: the exponent form below 10^-4 and from 10^6 on.\<close>

definition float_text :: "f64 \<Rightarrow> string" where
  "float_text v =
     (case v of
        NaN \<Rightarrow> ''NaN'' | PInf \<Rightarrow> ''+Inf'' | NInf \<Rightarrow> ''-Inf''
      | Fin r \<Rightarrow> if r = 0 then ''0'' else if r < 0 then CHR ''-'' # pos_float_text 6 (- r) else pos_float_text 6 r)"

section \<open>Layouts of time.Parse\<close>

datatype time_layout = LayoutRFC3339 | LayoutDate | LayoutDateT | LayoutDateSpace

text \<open>\<open>getnum\<close>: two digits, or one when not \<open>fixed\<close>.\<close>

definition get_num :: "bool \<Rightarrow> string \<Rightarrow> (int \<times> string) option" where
  "get_num fixed s =
     (case s of
        [] \<Rightarrow> None
      | a # r \<Rightarrow>
          if \<not> is_digit a then None
          else if r \<noteq> [] \<and> is_digit (hd r) then Some (int (digits_val [a, hd r]), tl r)
          else if fixed then None else Some (int (digit_val a), r))"

definition date_part :: "string \<Rightarrow> ((int \<times> int \<times> int) \<times> string) option" where
  "date_part s =
     Option.bind (take_num 4 s) (\<lambda>(y, s).
     Option.bind (take_char (CHR ''-'') s) (\<lambda>s.
     Option.bind (get_num True s) (\<lambda>(mo, s).
     if mo < 1 \<or> 12 < mo then None else
     Option.bind (take_char (CHR ''-'') s) (\<lambda>s.
     Option.bind (get_num True s) (\<lambda>(d, s). Some ((y, mo, d), s))))))"

text \<open>A fraction of a second is accepted after the seconds even though the layout has none.\<close>

definition skip_fraction :: "string \<Rightarrow> string" where
  "skip_fraction s =
     (case s of
        a # b # r \<Rightarrow> if (a = CHR ''.'' \<or> a = CHR '','') \<and> is_digit b then dropWhile is_digit (b # r) else s
      | _ \<Rightarrow> s)"

definition clock_part :: "string \<Rightarrow> string option" where
  "clock_part s =
     Option.bind (get_num False s) (\<lambda>(h, s).
     if 24 \<le> h then None else
     Option.bind (take_char (CHR '':'') s) (\<lambda>s.
     Option.bind (get_num True s) (\<lambda>(mi, s).
     if 60 \<le> mi then None else
     Option.bind (take_char (CHR '':'') s) (\<lambda>s.
     Option.bind (get_num True s) (\<lambda>(sec, s). if 60 \<le> sec then None else Some (skip_fraction s))))))"

definition zone_part :: "string \<Rightarrow> string option" where
  "zone_part s =
     (case s of
        [] \<Rightarrow> None
      | c # r \<Rightarrow>
          if c = CHR ''Z'' then Some r
          else if length s < 6 \<or> s ! 3 \<noteq> CHR '':'' \<or> (c \<noteq> CHR ''+'' \<and> c \<noteq> CHR ''-'') then None
          else case (get_num True (take 2 (drop 1 s)), get_num True (take 2 (drop 4 s))) of
                 (Some (h, _), Some (m, _)) \<Rightarrow> if 24 < h \<or> 60 < m then None else Some (drop 6 s)
               | _ \<Rightarrow> None)"

text \<open>A blank of the layout stands for any number of blanks of the text.\<close>

definition skip_space :: "string \<Rightarrow> string option" where
  "skip_space s = (if s \<noteq> [] \<and> hd s \<noteq> CHR '' '' then None else Some (dropWhile (\<lambda>c. c = CHR '' '') s))"

definition after_date :: "time_layout \<Rightarrow> string \<Rightarrow> string option" where
  "after_date l s =
     (case l of
        LayoutDate \<Rightarrow> Some s
      | LayoutRFC3339 \<Rightarrow> Option.bind (take_char (CHR ''T'') s) (\<lambda>s. Option.bind (clock_part s) zone_part)
      | LayoutDateT \<Rightarrow> Option.bind (take_char (CHR ''T'') s) clock_part
      | LayoutDateSpace \<Rightarrow> Option.bind (skip_space s) clock_part)"

definition time_accepts :: "time_layout \<Rightarrow> string \<Rightarrow> bool" where
  "time_accepts l s =
     (case date_part s of
        None \<Rightarrow> False
      | Some ((y, mo, d), r) \<Rightarrow> after_date l r = Some [] \<and> 1 \<le> d \<and> d \<le> days_in mo y)"

end
