(* ===== verification/Sha256.thy ===== *)
theory Sha256
  imports GoText
begin

unbundle bit_operations_syntax

text \<open>
  crypto/sha256, which \<open>Schema.ComputeHash\<close> and the backup checksums use: padding, message
  schedule and compression over 32-bit words, and the hexadecimal form \<open>%x\<close>. Proved: a digest has 32
  bytes; the hexadecimal form determines the bytes.
\<close>

type_synonym w32 = "32 word"

definition rotr :: "nat \<Rightarrow> w32 \<Rightarrow> w32" where
  "rotr n x = drop_bit n x OR push_bit (32 - n) x"

text \<open>
  The constants are the first 32 bits of the fractional parts of the cube roots of the first 64 primes,
  and of the square roots of the first 8: \<open>root_bits k n b r\<close> adds to \<open>r\<close> the bits below \<open>b\<close> of
  the \<open>k\<close>-th root of \<open>n\<close>.
\<close>

fun root_bits :: "nat \<Rightarrow> nat \<Rightarrow> nat \<Rightarrow> nat \<Rightarrow> nat" where
  "root_bits k n 0 r = r"
| "root_bits k n (Suc b) r = root_bits k n b (if (r + 2 ^ b) ^ k \<le> n then r + 2 ^ b else r)"

definition small_primes :: "nat list" where
  "small_primes = filter (\<lambda>p. list_all (\<lambda>d. p mod d \<noteq> 0) [2..<p]) [2..<312]"

definition sha_k :: "w32 list" where
  "sha_k = map (\<lambda>p. of_nat (root_bits 3 (p * 2 ^ 96) 36 0)) small_primes"

definition sha_init :: "w32 list" where
  "sha_init = map (\<lambda>p. of_nat (root_bits 2 (p * 2 ^ 64) 36 0)) [2, 3, 5, 7, 11, 13, 17, 19]"

definition be_bytes :: "nat \<Rightarrow> nat \<Rightarrow> string" where
  "be_bytes k n = map (\<lambda>i. char_of (n div 256 ^ (k - 1 - i) mod 256)) [0..<k]"

definition sha_pad :: "string \<Rightarrow> string" where
  "sha_pad m =
     m @ CHR 0x80 # replicate ((119 - length m mod 64) mod 64) (CHR 0x00) @ be_bytes 8 (8 * length m mod 2 ^ 64)"

definition be_word :: "string \<Rightarrow> w32" where
  "be_word s = foldl (\<lambda>a c. a * 256 + of_nat (of_char c)) 0 s"

fun chunks :: "nat \<Rightarrow> nat \<Rightarrow> string \<Rightarrow> string list" where
  "chunks 0 k s = []"
| "chunks (Suc n) k s = take k s # chunks n k (drop k s)"

text \<open>The schedule, kept newest word first.\<close>

fun sha_extend :: "nat \<Rightarrow> w32 list \<Rightarrow> w32 list" where
  "sha_extend 0 ws = ws"
| "sha_extend (Suc n) ws =
     (let a = ws ! 14; b = ws ! 1;
          s0 = (rotr 7 a XOR rotr 18 a) XOR drop_bit 3 a;
          s1 = (rotr 17 b XOR rotr 19 b) XOR drop_bit 10 b
      in sha_extend n ((ws ! 15 + s0 + ws ! 6 + s1) # ws))"

fun sha_round :: "w32 list \<Rightarrow> w32 \<times> w32 \<Rightarrow> w32 list" where
  "sha_round [a, b, c, d, e, f, g, h] (k, w) =
     (let t1 = h + (rotr 6 e XOR rotr 11 e XOR rotr 25 e) + ((e AND f) XOR (NOT e AND g)) + k + w;
          t2 = (rotr 2 a XOR rotr 13 a XOR rotr 22 a) + ((a AND b) XOR (a AND c) XOR (b AND c))
      in [t1 + t2, a, b, c, d + t1, e, f, g])"
| "sha_round s x = s"

definition sha_block :: "w32 list \<Rightarrow> string \<Rightarrow> w32 list" where
  "sha_block s block =
     (let ws = rev (sha_extend 48 (rev (map be_word (chunks 16 4 block))))
      in map2 (+) s (foldl sha_round s (zip sha_k ws)))"

definition sha256 :: "string \<Rightarrow> string" where
  "sha256 m =
     (let p = sha_pad m
      in concat (map (\<lambda>w. be_bytes 4 (unat w)) (foldl sha_block sha_init (chunks (length p div 64) 64 p))))"

definition hex_digit :: "nat \<Rightarrow> char" where
  "hex_digit n = (if n < 10 then char_of (48 + n) else char_of (87 + n))"

definition hex_text :: "string \<Rightarrow> string" where
  "hex_text s = concat (map (\<lambda>c. [hex_digit (of_char c div 16), hex_digit (of_char c mod 16)]) s)"

section \<open>Sizes\<close>

lemma length_sha_pad: "64 dvd length (sha_pad m)"
proof -
  have "length (sha_pad m) = length m + 9 + (119 - length m mod 64) mod 64"
    by (simp add: sha_pad_def be_bytes_def)
  moreover have "64 dvd n + 9 + (119 - n mod 64) mod 64" for n :: nat
  proof -
    define q r where "q = n div 64" and "r = n mod 64"
    have n: "n = 64 * q + r" and r: "r < 64" by (simp_all add: q_def r_def)
    have "\<exists>k. r + 9 + (119 - r) mod 64 = 64 * k"
    proof (cases "r \<le> 55")
      case True
      then have split: "119 - r = 64 + (55 - r)" by linarith
      have small: "55 - r < 64" by linarith
      have "(119 - r) mod 64 = 55 - r" by (simp only: split mod_add_self1 mod_less [OF small])
      then have "r + 9 + (119 - r) mod 64 = 64 * 1" using True by linarith
      then show ?thesis by blast
    next
      case False
      then have small: "119 - r < 64" by linarith
      have "r + 9 + (119 - r) mod 64 = 64 * 2" unfolding mod_less [OF small] using r by linarith
      then show ?thesis by blast
    qed
    moreover obtain z where z: "(119 - r) mod 64 = z" by blast
    ultimately obtain k where "r + 9 + z = 64 * k" by auto
    then have "n + 9 + z = 64 * (q + k)" using n by (simp add: distrib_left)
    then show ?thesis using z unfolding r_def by (metis dvdI)
  qed
  ultimately show ?thesis by (simp only:)
qed

lemma length_sha_round: "length s = 8 \<Longrightarrow> length (sha_round s x) = 8"
  by (cases "(s, x)" rule: sha_round.cases) (auto simp: Let_def)

lemma length_sha_rounds: "length s = 8 \<Longrightarrow> length (foldl sha_round s xs) = 8"
  by (induction xs arbitrary: s) (auto simp: length_sha_round)

lemma length_sha_blocks: "length s = 8 \<Longrightarrow> length (foldl sha_block s bs) = 8"
  by (induction bs arbitrary: s) (auto simp: sha_block_def Let_def length_sha_rounds)

lemma length_sha256 [simp]: "length (sha256 m) = 32"
proof -
  have "length (concat (map (\<lambda>w. be_bytes 4 (unat w)) (xs :: w32 list))) = 4 * length xs" for xs
    by (induction xs) (simp_all add: be_bytes_def)
  moreover have "length (foldl sha_block sha_init bs) = 8" for bs by (rule length_sha_blocks) (simp add: sha_init_def)
  ultimately show ?thesis by (simp add: sha256_def Let_def)
qed

lemma hex_digit_inject: "m < 16 \<Longrightarrow> n < 16 \<Longrightarrow> hex_digit m = hex_digit n \<longleftrightarrow> m = n"
  by (auto simp: hex_digit_def char_of_eq_iff take_bit_eq_mod split: if_splits dest!: arg_cong [of _ _ "of_char :: char \<Rightarrow> nat"])

lemma length_hex_text: "length (hex_text s) = 2 * length s"
  by (induction s) (simp_all add: hex_text_def)

lemma of_char_lt_256: "(of_char c :: nat) < 256"
  by (cases c) (simp add: char_of_char)

lemma hex_text_inject: "hex_text s = hex_text t \<longleftrightarrow> s = t"
proof
  show "hex_text s = hex_text t \<Longrightarrow> s = t"
  proof (induction s arbitrary: t)
    case Nil
    then show ?case by (cases t) (simp_all add: hex_text_def)
  next
    case (Cons c s)
    then obtain d t' where t: "t = d # t'" by (cases t) (simp_all add: hex_text_def)
    have b: "(of_char c :: nat) div 16 < 16" "(of_char d :: nat) div 16 < 16"
      using of_char_lt_256 [of c] of_char_lt_256 [of d] by (auto intro: less_mult_imp_div_less)
    have "(of_char c :: nat) div 16 = of_char d div 16" and "(of_char c :: nat) mod 16 = of_char d mod 16"
      and rest: "hex_text s = hex_text t'"
      using Cons.prems t b by (simp_all add: hex_text_def hex_digit_inject)
    then have "(of_char c :: nat) = of_char d" by (metis div_mult_mod_eq)
    then show ?case using Cons.IH [OF rest] t by simp
  qed
qed simp

end
