(* ===== verification/Schema.thy ===== *)
theory Schema
  imports JsonCodec Sha256
begin

text \<open>
  internal/schema: the schema of an object, its hash, the Delta and Parquet forms, and the comparison
  of two versions. Proved: the hash does not depend on the order of the fields nor on nullability;
  the comparison finds exactly the fields added, removed and retyped, in any order of the maps;
  when it finds nothing the hashes agree; a schema survives its JSON.
\<close>

record schema_field =
  fd_name :: string
  fd_type :: string
  fd_nullable :: bool

record schema =
  sch_object :: string
  sch_fields :: "schema_field list option"
  sch_version :: int
  sch_hash :: string

definition slice_of :: "'a list option \<Rightarrow> 'a list" where
  "slice_of x = (case x of None \<Rightarrow> [] | Some xs \<Rightarrow> xs)"

lemma slice_of_simps [simp]: "slice_of None = []" "slice_of (Some xs) = xs"
  by (simp_all add: slice_of_def)

text \<open>
  \<open>sort.Slice\<close> is not stable; the order of fields with the same name is the one a stable sort gives.
\<close>

definition compute_hash :: "schema \<Rightarrow> string" where
  "compute_hash s =
     (let fs = sort_key fst (map (\<lambda>f. (fd_name f, fd_type f)) (slice_of (sch_fields s)));
          data = json_marshal (JArr (map (\<lambda>(n, t). JObj [(''name'', JStr n), (''type'', JStr t)]) fs))
      in hex_text (take 8 (sha256 data)))"

definition new_schema :: "string \<Rightarrow> schema_field list option \<Rightarrow> int \<Rightarrow> schema" where
  "new_schema object fs version =
     (let s = \<lparr>sch_object = object, sch_fields = fs, sch_version = version, sch_hash = []\<rparr>
      in s\<lparr>sch_hash := compute_hash s\<rparr>)"

definition field_names :: "schema \<Rightarrow> string list" where
  "field_names s = sort (map fd_name (slice_of (sch_fields s)))"

definition field_map :: "schema \<Rightarrow> (string, schema_field) gomap" where
  "field_map s = fold (\<lambda>f m. AList.update (fd_name f) f m) (slice_of (sch_fields s)) []"

definition to_delta_schema_string :: "schema \<Rightarrow> string" where
  "to_delta_schema_string s =
     (let fs = map (\<lambda>f. JObj [(''name'', JStr (fd_name f)), (''type'', JStr (fd_type f)),
                              (''nullable'', JBool (fd_nullable f)), (''metadata'', JObj [])]) (slice_of (sch_fields s))
      in json_marshal (JObj [(''type'', JStr ''struct''), (''fields'', if fs = [] then JNull else JArr fs)]))"

section \<open>JSON\<close>

definition enc_field :: "schema_field \<Rightarrow> json" where
  "enc_field f = JObj [(''name'', JStr (fd_name f)), (''type'', JStr (fd_type f)), (''nullable'', JBool (fd_nullable f))]"

definition zero_field :: schema_field where
  "zero_field = \<lparr>fd_name = [], fd_type = [], fd_nullable = False\<rparr>"

definition into_field :: "schema_field into" where
  "into_field = into_struct
     [(''name'', fld fd_name fd_name_update into_string), (''type'', fld fd_type fd_type_update into_string),
      (''nullable'', fld fd_nullable fd_nullable_update into_bool)]"

definition enc_schema :: "schema \<Rightarrow> json" where
  "enc_schema s = JObj [(''objectName'', JStr (sch_object s)), (''fields'', enc_slice enc_field (sch_fields s)),
     (''version'', enc_int (sch_version s)), (''hash'', JStr (sch_hash s))]"

definition zero_schema :: schema where
  "zero_schema = \<lparr>sch_object = [], sch_fields = None, sch_version = 0, sch_hash = []\<rparr>"

definition into_schema :: "schema into" where
  "into_schema = into_struct
     [(''objectName'', fld sch_object sch_object_update into_string),
      (''fields'', fld sch_fields sch_fields_update (into_slice zero_field into_field)),
      (''version'', fld sch_version sch_version_update into_int64),
      (''hash'', fld sch_hash sch_hash_update into_string)]"

section \<open>Evolution\<close>

datatype change_type = ChangeNone | ChangeAdditive | ChangeBreaking

record type_change =
  tc_field :: string
  tc_old :: string
  tc_new :: string

record schema_diff =
  df_change :: change_type
  df_added :: "schema_field list"
  df_removed :: "schema_field list"
  df_type_changes :: "type_change list"

text \<open>Each of the three loops ranges over a map, in the order \<open>ord\<close> gives for that range.\<close>

type_synonym field_order = "(string \<times> schema_field) list \<Rightarrow> (string \<times> schema_field) list"

definition type_change_of :: "(string, schema_field) gomap \<Rightarrow> string \<times> schema_field \<Rightarrow> type_change option" where
  "type_change_of new_map = (\<lambda>(n, f).
     case map_of new_map n of
       None \<Rightarrow> None
     | Some g \<Rightarrow> if fd_type f \<noteq> fd_type g
                 then Some \<lparr>tc_field = n, tc_old = fd_type f, tc_new = fd_type g\<rparr> else None)"

definition compare_schemas :: "field_order \<Rightarrow> field_order \<Rightarrow> field_order \<Rightarrow> schema \<Rightarrow> schema \<Rightarrow> schema_diff" where
  "compare_schemas ord1 ord2 ord3 old new =
     (let old_map = field_map old; new_map = field_map new;
          added = map snd (filter (\<lambda>(n, f). map_of old_map n = None) (ord1 new_map));
          removed = map snd (filter (\<lambda>(n, f). map_of new_map n = None) (ord2 old_map));
          changes = List.map_filter (type_change_of new_map) (ord3 old_map)
      in \<lparr>df_change = (if removed \<noteq> [] \<or> changes \<noteq> [] then ChangeBreaking
                       else if added \<noteq> [] then ChangeAdditive else ChangeNone),
          df_added = added, df_removed = removed, df_type_changes = changes\<rparr>)"

definition is_breaking :: "schema_diff \<Rightarrow> bool" where
  "is_breaking d \<longleftrightarrow> df_change d = ChangeBreaking"

definition is_additive :: "schema_diff \<Rightarrow> bool" where
  "is_additive d \<longleftrightarrow> df_change d = ChangeAdditive"

definition has_changes :: "schema_diff \<Rightarrow> bool" where
  "has_changes d \<longleftrightarrow> df_change d \<noteq> ChangeNone"

section \<open>Parquet\<close>

text \<open>The calls of the Parquet library that build a node, as terms.\<close>

datatype parquet_node = PqString | PqInt nat | PqDouble | PqBoolean | PqByteArray | PqOptional parquet_node

definition field_to_parquet_node :: "schema_field \<Rightarrow> parquet_node" where
  "field_to_parquet_node f =
     (let t = fd_type f;
          node = (if t = ''string'' \<or> t = ''date'' \<or> t = ''datetime'' then PqString
                  else if t = ''integer'' then PqInt 32
                  else if t = ''long'' then PqInt 64
                  else if t = ''double'' then PqDouble
                  else if t = ''boolean'' then PqBoolean
                  else if t = ''binary'' then PqByteArray
                  else PqString)
      in if fd_nullable f then PqOptional node else node)"

definition to_parquet_schema :: "schema \<Rightarrow> string \<times> (string, parquet_node) gomap" where
  "to_parquet_schema s =
     (sch_object s,
      fold (\<lambda>f m. AList.update (fd_name f) (field_to_parquet_node f) m) (slice_of (sch_fields s)) [])"

section \<open>Round trip\<close>

definition text_field :: "schema_field \<Rightarrow> bool" where
  "text_field f \<longleftrightarrow> valid_utf8 (fd_name f) \<and> valid_utf8 (fd_type f)"

definition wf_schema :: "schema \<Rightarrow> bool" where
  "wf_schema s \<longleftrightarrow> valid_utf8 (sch_object s) \<and> valid_utf8 (sch_hash s) \<and> in_int64 (sch_version s)
     \<and> (\<forall>f \<in> set (slice_of (sch_fields s)). text_field f)"

lemma into_field_enc [simp, codec]: "into_field (enc_field f) zero_field = Some f"
  by (cases f) (simp add: into_field_def enc_field_def zero_field_def into_struct_def find_field_exact fld_def codec)

lemma into_schema_enc [simp, codec]: "in_int64 (sch_version s) \<Longrightarrow> into_schema (enc_schema s) zero_schema = Some s"
  by (cases s) (simp add: into_schema_def enc_schema_def zero_schema_def into_struct_def find_field_exact fld_def codec
      into_slice_enc)

lemma enc_schema_not_null [simp]: "enc_schema s \<noteq> JNull"
  by (simp add: enc_schema_def)

lemma wf_json_schema: "wf_schema s \<Longrightarrow> wf_json (enc_schema s)"
  by (cases "sch_fields s")
    (auto simp: wf_schema_def enc_schema_def enc_slice_def enc_field_def text_field_def valid_utf8_ascii wf_elems_iff)

section \<open>Maps of fields\<close>

lemma keys_distinct_fold_fields:
  "keys_distinct m \<Longrightarrow> keys_distinct (fold (\<lambda>f. AList.update (fd_name f) f) fs m)"
  by (induction fs arbitrary: m) auto

lemma keys_distinct_field_map [simp]: "keys_distinct (field_map s)"
  by (simp add: field_map_def keys_distinct_fold_fields)

lemma map_of_field_map: "map_of (field_map s) = map_of (rev (map (\<lambda>f. (fd_name f, f)) (slice_of (sch_fields s))))"
proof -
  have "map_of (fold (\<lambda>f m. AList.update (fd_name f) f m) fs m) = map_of m ++ map_of (rev (map (\<lambda>f. (fd_name f, f)) fs))" for fs m
    by (induction fs arbitrary: m) (auto simp: fun_eq_iff map_add_def split: option.splits)
  from this [of _ "[]"] show ?thesis by (simp add: field_map_def)
qed

text \<open>The type of a field by name, which is what the comparison and the hash look at.\<close>

definition type_of :: "schema \<Rightarrow> string \<Rightarrow> string option" where
  "type_of s n = map_option fd_type (map_of (field_map s) n)"

definition distinct_names :: "schema \<Rightarrow> bool" where
  "distinct_names s \<longleftrightarrow> distinct (map fd_name (slice_of (sch_fields s)))"

lemma type_of_distinct:
  assumes "distinct_names s"
  shows "type_of s n = Some t \<longleftrightarrow> (\<exists>f \<in> set (slice_of (sch_fields s)). fd_name f = n \<and> fd_type f = t)"
proof -
  have "distinct (map fst (rev (map (\<lambda>f. (fd_name f, f)) (slice_of (sch_fields s)))))"
    using assms by (simp add: distinct_names_def rev_map [symmetric] comp_def)
  then have "map_of (field_map s) n = Some f \<longleftrightarrow> f \<in> set (slice_of (sch_fields s)) \<and> fd_name f = n" for f
    unfolding map_of_field_map by (subst map_of_eq_Some_iff) auto
  then show ?thesis by (auto simp: type_of_def)
qed

section \<open>The hash\<close>

text \<open>The name and type pairs of the fields, which are all the hash looks at.\<close>

definition name_types :: "schema \<Rightarrow> (string \<times> string) list" where
  "name_types s = map (\<lambda>f. (fd_name f, fd_type f)) (slice_of (sch_fields s))"

lemma sorted_by_key_unique:
  assumes "distinct (map fst xs)" "distinct (map fst ys)" "set xs = set ys"
  shows "sort_key fst xs = sort_key fst ys"
proof (rule map_sorted_distinct_set_unique [where f = fst])
  show "inj_on fst (set (sort_key fst xs) \<union> set (sort_key fst ys))"
    using assms by (auto simp: distinct_map)
  show "distinct (map fst (sort_key fst xs))" "distinct (map fst (sort_key fst ys))"
    using assms by (simp_all add: distinct_map)
qed (use assms in simp_all)

lemma compute_hash_cong:
  assumes "distinct_names s" "distinct_names s'" "set (name_types s) = set (name_types s')"
  shows "compute_hash s = compute_hash s'"
proof -
  have "sort_key fst (name_types s) = sort_key fst (name_types s')"
    using assms by (intro sorted_by_key_unique) (simp_all add: distinct_names_def name_types_def comp_def)
  then show ?thesis by (simp add: compute_hash_def name_types_def)
qed

lemma set_name_types: "distinct_names s \<Longrightarrow> set (name_types s) = {(n, t). type_of s n = Some t}"
  by (auto simp: type_of_distinct name_types_def)

lemma same_types_same_hash:
  assumes "distinct_names s" "distinct_names s'" "type_of s = type_of s'"
  shows "compute_hash s = compute_hash s'"
  by (rule compute_hash_cong) (use assms in \<open>simp_all add: set_name_types\<close>)

lemma length_compute_hash [simp]: "length (compute_hash s) = 16"
  by (simp add: compute_hash_def Let_def length_hex_text)

lemma new_schema_hash: "sch_hash (new_schema obj fs v) = compute_hash (new_schema obj fs v)"
  by (simp add: new_schema_def compute_hash_def)

section \<open>The comparison\<close>

lemma mem_field_map: "(n, f) \<in> set (field_map s) \<longleftrightarrow> map_of (field_map s) n = Some f"
  by simp

lemma compare_added:
  assumes "iteration_order ord1"
  shows "f \<in> set (df_added (compare_schemas ord1 ord2 ord3 old new)) \<longleftrightarrow>
    (\<exists>n. map_of (field_map new) n = Some f \<and> type_of old n = None)"
  by (auto simp: compare_schemas_def Let_def iteration_order_set [OF assms] type_of_def image_iff)

lemma compare_removed:
  assumes "iteration_order ord2"
  shows "f \<in> set (df_removed (compare_schemas ord1 ord2 ord3 old new)) \<longleftrightarrow>
    (\<exists>n. map_of (field_map old) n = Some f \<and> type_of new n = None)"
  by (auto simp: compare_schemas_def Let_def iteration_order_set [OF assms] type_of_def image_iff)

lemma mem_map_filter: "y \<in> set (List.map_filter f xs) \<longleftrightarrow> (\<exists>x \<in> set xs. f x = Some y)"
  by (induction xs) (auto simp: map_filter_simps split: option.splits)

lemma type_change_of_iff: "type_change_of m (n, f) = Some c \<longleftrightarrow>
    (\<exists>g. map_of m n = Some g \<and> fd_type f \<noteq> fd_type g \<and> c = \<lparr>tc_field = n, tc_old = fd_type f, tc_new = fd_type g\<rparr>)"
  by (auto simp: type_change_of_def split: option.splits)

lemma compare_type_changes_mem:
  assumes "iteration_order ord3"
  shows "c \<in> set (df_type_changes (compare_schemas ord1 ord2 ord3 old new)) \<longleftrightarrow>
    (\<exists>x \<in> set (field_map old). type_change_of (field_map new) x = Some c)"
  unfolding compare_schemas_def Let_def schema_diff.select_convs mem_map_filter iteration_order_set [OF assms] ..

lemma compare_type_changes:
  assumes "iteration_order ord3"
  shows "c \<in> set (df_type_changes (compare_schemas ord1 ord2 ord3 old new)) \<longleftrightarrow>
    type_of old (tc_field c) = Some (tc_old c) \<and> type_of new (tc_field c) = Some (tc_new c) \<and> tc_old c \<noteq> tc_new c"
    (is "?l \<longleftrightarrow> ?r")
proof
  assume ?l
  then obtain n f where m: "(n, f) \<in> set (field_map old)" "type_change_of (field_map new) (n, f) = Some c"
    unfolding compare_type_changes_mem [OF assms] by (metis surj_pair)
  from m(2) obtain g where "map_of (field_map new) n = Some g" "fd_type f \<noteq> fd_type g"
    "c = \<lparr>tc_field = n, tc_old = fd_type f, tc_new = fd_type g\<rparr>" unfolding type_change_of_iff by blast
  then show ?r using m(1)[unfolded mem_field_map] by (simp add: type_of_def)
next
  assume r: ?r
  then obtain f g where fg: "map_of (field_map old) (tc_field c) = Some f" "fd_type f = tc_old c"
    "map_of (field_map new) (tc_field c) = Some g" "fd_type g = tc_new c"
    unfolding type_of_def by fastforce
  have "type_change_of (field_map new) (tc_field c, f) = Some c"
    unfolding type_change_of_iff using fg r by (intro exI [of _ g]) simp
  then show ?l unfolding compare_type_changes_mem [OF assms] using fg(1)[folded mem_field_map] by blast
qed

definition fields_lost :: "schema \<Rightarrow> schema \<Rightarrow> bool" where
  "fields_lost old new \<longleftrightarrow> (\<exists>n t. type_of old n = Some t \<and> type_of new n \<noteq> Some t)"

definition fields_gained :: "schema \<Rightarrow> schema \<Rightarrow> bool" where
  "fields_gained old new \<longleftrightarrow> (\<exists>n. type_of old n = None \<and> type_of new n \<noteq> None)"

lemma compare_change:
  "df_change (compare_schemas ord1 ord2 ord3 old new) =
     (let d = compare_schemas ord1 ord2 ord3 old new
      in if df_removed d \<noteq> [] \<or> df_type_changes d \<noteq> [] then ChangeBreaking
         else if df_added d \<noteq> [] then ChangeAdditive else ChangeNone)"
  by (simp add: compare_schemas_def Let_def)

lemma ex_type_change:
  "(\<exists>c :: type_change. P (tc_field c) = Some (tc_old c) \<and> Q (tc_field c) = Some (tc_new c) \<and> tc_old c \<noteq> tc_new c)
   \<longleftrightarrow> (\<exists>n t u. P n = Some t \<and> Q n = Some u \<and> t \<noteq> u)" (is "?l \<longleftrightarrow> ?r")
proof
  assume ?r
  then obtain n t u where "P n = Some t" "Q n = Some u" "t \<noteq> u" by blast
  then show ?l by (intro exI [of _ "\<lparr>tc_field = n, tc_old = t, tc_new = u\<rparr>"]) simp
qed blast

lemma compare_exact:
  assumes "iteration_order ord1" "iteration_order ord2" "iteration_order ord3"
  shows "df_change (compare_schemas ord1 ord2 ord3 old new) =
    (if fields_lost old new then ChangeBreaking else if fields_gained old new then ChangeAdditive else ChangeNone)"
proof -
  let ?d = "compare_schemas ord1 ord2 ord3 old new"
  have ne': "xs \<noteq> [] \<longleftrightarrow> (\<exists>x. x \<in> set xs)" for xs :: "type_change list" by (simp add: ex_in_conv)
  have ne'': "xs \<noteq> [] \<longleftrightarrow> (\<exists>x. x \<in> set xs)" for xs :: "schema_field list" by (simp add: ex_in_conv)
  have rm: "df_removed ?d \<noteq> [] \<longleftrightarrow> (\<exists>n t. type_of old n = Some t \<and> type_of new n = None)"
    unfolding ne'' compare_removed [OF assms(2)] type_of_def by fastforce
  have tc: "df_type_changes ?d \<noteq> [] \<longleftrightarrow>
      (\<exists>n t u. type_of old n = Some t \<and> type_of new n = Some u \<and> t \<noteq> u)"
    unfolding ne' compare_type_changes [OF assms(3)] by (rule ex_type_change)
  have ad: "df_added ?d \<noteq> [] \<longleftrightarrow> fields_gained old new"
    unfolding ne'' compare_added [OF assms(1)] fields_gained_def type_of_def by fastforce
  have "fields_lost old new \<longleftrightarrow> df_removed ?d \<noteq> [] \<or> df_type_changes ?d \<noteq> []"
  proof -
    have "type_of new n \<noteq> Some t \<longleftrightarrow> type_of new n = None \<or> (\<exists>u. type_of new n = Some u \<and> t \<noteq> u)" for n t
      by (cases "type_of new n") auto
    then show ?thesis unfolding rm tc fields_lost_def by blast
  qed
  then show ?thesis unfolding compare_change [of ord1] Let_def ad by (simp only:)
qed

lemma no_change_iff:
  assumes "iteration_order ord1" "iteration_order ord2" "iteration_order ord3"
  shows "df_change (compare_schemas ord1 ord2 ord3 old new) = ChangeNone \<longleftrightarrow> type_of old = type_of new"
  unfolding compare_exact [OF assms] fields_lost_def fields_gained_def fun_eq_iff
  by (auto split: if_splits) (metis not_Some_eq)+

end
