(* ===== verification/GoError.thy ===== *)
theory GoError
  imports GoText GoFloat
begin

text \<open>
  The error values that travel through the program, their \<open>Error()\<close> text, and the combinators
  for operations that change a world and may return an error. The text matters: the retry
  policies decide on it. \<open>Wrap p e\<close> is \<open>fmt.Errorf("p: %w", e)\<close>; the program's own error types
  are the circuit breaker's rejection (internal/retry/circuit_breaker.go) and \<open>SyncError\<close>
  (internal/sync/errors.go).
\<close>

datatype breaker_state = StateClosed | StateOpen | StateHalfOpen

datatype sync_phase =
    PhaseConnect | PhaseDiscover | PhaseExtract | PhaseTransform | PhaseStore | PhaseCommit
  | PhaseValidate

datatype go_error =
    Msg string
  | Wrap string go_error
  | CtxCanceled
  | CtxDeadline
  | BreakerError string breaker_state
  | SyncError (se_phase: sync_phase) (se_object: string) (se_cause: go_error) (se_retryable: bool)
      (se_correlation: string)

fun breaker_state_text :: "breaker_state \<Rightarrow> string" where
  "breaker_state_text StateClosed = ''CLOSED''"
| "breaker_state_text StateOpen = ''OPEN''"
| "breaker_state_text StateHalfOpen = ''HALF_OPEN''"

fun sync_phase_text :: "sync_phase \<Rightarrow> string" where
  "sync_phase_text PhaseConnect = ''connect''"
| "sync_phase_text PhaseDiscover = ''discover''"
| "sync_phase_text PhaseExtract = ''extract''"
| "sync_phase_text PhaseTransform = ''transform''"
| "sync_phase_text PhaseStore = ''store''"
| "sync_phase_text PhaseCommit = ''commit''"
| "sync_phase_text PhaseValidate = ''validate''"

primrec err_text :: "go_error \<Rightarrow> string" where
  "err_text (Msg s) = s"
| "err_text (Wrap p e) = p @ '': '' @ err_text e"
| "err_text CtxCanceled = ''context canceled''"
| "err_text CtxDeadline = ''context deadline exceeded''"
| "err_text (BreakerError n s) = ''circuit breaker '' @ [CHR 0x27] @ n @ [CHR 0x27] @ '' is '' @ breaker_state_text s"
| "err_text (SyncError ph ob c r corr) =
     ''sync error in '' @ sync_phase_text ph @ '' phase for object '' @ ob @ '': '' @ err_text c"

text \<open>\<open>errors.As(err, &syncErr)\<close>: the first \<open>SyncError\<close> of the chain.\<close>

fun as_sync_error :: "go_error \<Rightarrow> go_error option" where
  "as_sync_error (SyncError ph ob c r corr) = Some (SyncError ph ob c r corr)"
| "as_sync_error (Wrap p e) = as_sync_error e"
| "as_sync_error _ = None"

section \<open>Operations on a world\<close>

text \<open>
  An operation takes the world and returns an error or a value, and the world after it: effects
  that happened before an error stay.
\<close>

type_synonym ('w, 'a) io = "'w \<Rightarrow> (go_error + 'a) \<times> 'w"

definition io_ret :: "'a \<Rightarrow> ('w, 'a) io" where
  "io_ret a = (\<lambda>w. (Inr a, w))"

definition io_fail :: "go_error \<Rightarrow> ('w, 'a) io" where
  "io_fail e = (\<lambda>w. (Inl e, w))"

definition io_bind :: "('w, 'a) io \<Rightarrow> ('a \<Rightarrow> ('w, 'b) io) \<Rightarrow> ('w, 'b) io" where
  "io_bind m f = (\<lambda>w. case m w of (Inl e, w') \<Rightarrow> (Inl e, w') | (Inr a, w') \<Rightarrow> f a w')"

text \<open>\<open>if err != nil { return ..., fmt.Errorf("p: %w", err) }\<close>.\<close>

definition io_wrap :: "string \<Rightarrow> ('w, 'a) io \<Rightarrow> ('w, 'a) io" where
  "io_wrap p m = (\<lambda>w. case m w of (Inl e, w') \<Rightarrow> (Inl (Wrap p e), w') | (Inr a, w') \<Rightarrow> (Inr a, w'))"

text \<open>A call whose error the caller inspects instead of returning it.\<close>

definition io_try :: "('w, 'a) io \<Rightarrow> (go_error + 'a \<Rightarrow> ('w, 'b) io) \<Rightarrow> ('w, 'b) io" where
  "io_try m f = (\<lambda>w. case m w of (r, w') \<Rightarrow> f r w')"

text \<open>Running an operation on one component of a larger world.\<close>

definition io_snd :: "('w, 'a) io \<Rightarrow> ('c \<times> 'w, 'a) io" where
  "io_snd m = (\<lambda>(c, w). case m w of (r, w') \<Rightarrow> (r, (c, w')))"

lemmas io_defs = io_ret_def io_fail_def io_bind_def io_wrap_def io_try_def io_snd_def

lemma io_run_ret [simp]: "io_ret a w = (Inr a, w)"
  by (simp add: io_ret_def)

lemma io_run_fail [simp]: "io_fail e w = (Inl e, w)"
  by (simp add: io_fail_def)

lemma io_bind_Inl [simp]: "m w = (Inl e, w') \<Longrightarrow> io_bind m f w = (Inl e, w')"
  by (simp add: io_bind_def)

lemma io_bind_Inr [simp]: "m w = (Inr a, w') \<Longrightarrow> io_bind m f w = f a w'"
  by (simp add: io_bind_def)

lemma io_wrap_Inl [simp]: "m w = (Inl e, w') \<Longrightarrow> io_wrap p m w = (Inl (Wrap p e), w')"
  by (simp add: io_wrap_def)

lemma io_wrap_Inr [simp]: "m w = (Inr a, w') \<Longrightarrow> io_wrap p m w = (Inr a, w')"
  by (simp add: io_wrap_def)

lemma io_try_run [simp]: "m w = (r, w') \<Longrightarrow> io_try m f w = f r w'"
  by (simp add: io_try_def)

lemma io_bind_InrE:
  assumes "io_bind m f w = (Inr b, w')"
  obtains a w1 where "m w = (Inr a, w1)" and "f a w1 = (Inr b, w')"
  using assms by (auto simp: io_bind_def split: prod.splits sum.splits)

lemma io_wrap_InrE:
  assumes "io_wrap p m w = (Inr a, w')"
  obtains "m w = (Inr a, w')"
  using assms by (auto simp: io_wrap_def split: prod.splits sum.splits)

text \<open>An operation keeps a predicate of the world, whatever it returns.\<close>

definition io_keeps :: "('w \<Rightarrow> bool) \<Rightarrow> ('w, 'a) io \<Rightarrow> bool" where
  "io_keeps P m \<longleftrightarrow> (\<forall>w. P w \<longrightarrow> P (snd (m w)))"

lemma io_keepsD: "io_keeps P m \<Longrightarrow> P w \<Longrightarrow> m w = (r, w') \<Longrightarrow> P w'"
  by (metis io_keeps_def snd_conv)

lemma io_keeps_ret [simp, intro]: "io_keeps P (io_ret a)"
  by (simp add: io_keeps_def)

lemma io_keeps_fail [simp, intro]: "io_keeps P (io_fail e)"
  by (simp add: io_keeps_def)

lemma io_keeps_bind [intro]:
  assumes "io_keeps P m" and "\<And>a. io_keeps P (f a)"
  shows "io_keeps P (io_bind m f)"
  using assms by (auto simp: io_keeps_def io_bind_def split: prod.splits sum.splits)

lemma io_keeps_wrap [intro]: "io_keeps P m \<Longrightarrow> io_keeps P (io_wrap p m)"
  by (auto simp: io_keeps_def io_wrap_def split: prod.splits sum.splits)

lemma io_keeps_try [intro]:
  assumes "io_keeps P m" and "\<And>r. io_keeps P (f r)"
  shows "io_keeps P (io_try m f)"
  using assms by (auto simp: io_keeps_def io_try_def split: prod.splits)

section \<open>The language runtime\<close>

text \<open>
  What the code reads from the Go runtime, as operations on the world: \<open>time.Now()\<close>, a random
  fraction from \<open>rand.Float64()\<close>, and the wait \<open>select { case <-ctx.Done(): ... case <-time.After(d): }\<close>,
  which returns the context's error when the context ended first. \<open>rt_f64_oob\<close> is what the
  implementation gives for a float to integer conversion that does not fit.
\<close>

record 'w runtime =
  rt_now :: "'w \<Rightarrow> instant \<times> 'w"
  rt_rand :: "'w \<Rightarrow> rat \<times> 'w"
  rt_wait :: "duration \<Rightarrow> 'w \<Rightarrow> go_error option \<times> 'w"
  rt_f64_oob :: int

definition lift_snd :: "('w \<Rightarrow> 'a \<times> 'w) \<Rightarrow> 'c \<times> 'w \<Rightarrow> 'a \<times> ('c \<times> 'w)" where
  "lift_snd f = (\<lambda>(c, w). case f w of (a, w') \<Rightarrow> (a, (c, w')))"

definition rt_snd :: "'w runtime \<Rightarrow> ('c \<times> 'w) runtime" where
  "rt_snd rt = \<lparr>rt_now = lift_snd (rt_now rt), rt_rand = lift_snd (rt_rand rt),
                rt_wait = (\<lambda>d. lift_snd (rt_wait rt d)), rt_f64_oob = rt_f64_oob rt\<rparr>"

end
