(* ===== verification/RetryPolicy.thy ===== *)
theory RetryPolicy
  imports GoError
begin

text \<open>
  internal/retry/policy.go: the retry policy, the backoff functions, the delay before an attempt
  and the predicates that decide from an error's text whether to try again. A backoff may draw a
  random number, so it runs on the world.
\<close>

type_synonym 'w backoff = "int \<Rightarrow> duration \<Rightarrow> 'w \<Rightarrow> duration \<times> 'w"

record 'w retry_policy =
  rp_max_attempts :: int
  rp_base_delay :: duration
  rp_max_delay :: duration
  rp_backoff :: "'w backoff option"
  rp_retryable :: "(go_error option \<Rightarrow> bool) option"
  rp_on_retry :: "(int \<Rightarrow> go_error \<Rightarrow> 'w \<Rightarrow> 'w) option"
  rp_jitter :: bool

section \<open>Backoff functions\<close>

definition add_jitter :: "'w runtime \<Rightarrow> duration \<Rightarrow> 'w \<Rightarrow> duration \<times> 'w" where
  "add_jitter rt delay w =
     (let jitter_range = f64_mul (f64_of_int delay) (f64_of (1 / 10));
          (u, w') = rt_rand rt w;
          jitter = f64_mul (Fin u) jitter_range
      in (wrap64 (delay + int64_of_f64 (rt_f64_oob rt) jitter), w'))"

definition power_backoff :: "f64 \<Rightarrow> int \<Rightarrow> int \<Rightarrow> duration \<Rightarrow> duration" where
  "power_backoff b oob attempt base_delay =
     (if attempt \<le> 0 then base_delay
      else let multiplier = f64_pow b (nat (attempt - 1))
           in int64_of_f64 oob (f64_mul (f64_of_int base_delay) multiplier))"

definition exponential_backoff :: "'w runtime \<Rightarrow> 'w backoff" where
  "exponential_backoff rt attempt base_delay w =
     (power_backoff (Fin 2) (rt_f64_oob rt) attempt base_delay, w)"

definition linear_backoff :: "'w backoff" where
  "linear_backoff attempt base_delay w =
     (if attempt \<le> 0 then base_delay else wrap64 (base_delay * attempt), w)"

definition fixed_backoff :: "'w backoff" where
  "fixed_backoff attempt base_delay w = (base_delay, w)"

definition exponential_backoff_with_jitter :: "'w runtime \<Rightarrow> 'w backoff" where
  "exponential_backoff_with_jitter rt attempt base_delay w =
     (let (delay, w') = exponential_backoff rt attempt base_delay w in add_jitter rt delay w')"

definition api_rate_limit_backoff :: "'w runtime \<Rightarrow> 'w backoff" where
  "api_rate_limit_backoff rt attempt base_delay w =
     (power_backoff (Fin 3) (rt_f64_oob rt) attempt base_delay, w)"

definition network_backoff :: "'w runtime \<Rightarrow> 'w backoff" where
  "network_backoff rt attempt base_delay w =
     (power_backoff (Fin (3 / 2)) (rt_f64_oob rt) attempt base_delay, w)"

definition calculate_delay :: "'w runtime \<Rightarrow> 'w retry_policy \<Rightarrow> int \<Rightarrow> 'w \<Rightarrow> duration \<times> 'w" where
  "calculate_delay rt p attempt w =
     (case rp_backoff p of
        None \<Rightarrow> (rp_base_delay p, w)
      | Some backoff \<Rightarrow>
          let (d, w1) = backoff attempt (rp_base_delay p) w;
              d' = (if rp_max_delay p < d then rp_max_delay p else d)
          in if rp_jitter p then add_jitter rt d' w1 else (d', w1))"

lemma f64_pow_loop_two:
  "a + b * i \<le> 970 \<Longrightarrow> f64_pow_loop (Fin (2 ^ a)) (Fin (2 ^ b)) i = Fin (2 ^ (a + b * i))"
proof (induction i arbitrary: a b rule: less_induct)
  case (less i)
  have exact: "f64_mul (Fin (2 ^ m)) (Fin (2 ^ n)) = Fin (2 ^ (m + n))" if "m + n \<le> 970" for m n
    using f64_of_exact [of 1 "int (m + n)"] that by (simp add: power_add nat_add_distrib)
  consider "i = 0" | "i = 1" | "2 \<le> i" by linarith
  then show ?case
  proof cases
    case 1
    then show ?thesis by (simp add: f64_pow_loop.simps)
  next
    case 2
    then show ?thesis using less.prems exact [of a b]
      unfolding 2 by (subst f64_pow_loop.simps, subst f64_pow_loop.simps) simp
  next
    case 3
    have half: "i = 2 * (i div 2) + (if odd i then 1 else 0)" by simp
    have "2 * b \<le> b * i" using 3 by simp
    then have sq: "f64_mul (Fin (2 ^ b)) (Fin (2 ^ b)) = Fin (2 ^ (2 * b))"
      using less.prems exact [of b b] by (simp add: mult_2)
    define a' where "a' = (if odd i then a + b else a)"
    have "b * 1 \<le> b * i" using 3 by (intro mult_le_mono) auto
    then have "a + b \<le> 970" using less.prems by linarith
    then have acc: "(if odd i then f64_mul (Fin (2 ^ a)) (Fin (2 ^ b)) else Fin (2 ^ a)) = Fin (2 ^ a')"
      using exact [of a b] by (simp add: a'_def)
    have sum: "a' + 2 * b * (i div 2) = a + b * i"
      by (subst (2) half) (simp add: a'_def algebra_simps)
    have "f64_pow_loop (Fin (2 ^ a)) (Fin (2 ^ b)) i = f64_pow_loop (Fin (2 ^ a')) (Fin (2 ^ (2 * b))) (i div 2)"
      using 3 acc sq by (simp add: f64_pow_loop.simps [of _ _ i])
    also have "\<dots> = Fin (2 ^ (a' + 2 * b * (i div 2)))"
      using less.prems 3 sum by (intro less.IH) auto
    finally show ?thesis by (simp only: sum)
  qed
qed

lemma f64_pow_two: "n \<le> 970 \<Longrightarrow> f64_pow (Fin 2) n = Fin (2 ^ n)"
  using f64_pow_loop_two [of 0 1 n] by (simp add: f64_pow_def)

text \<open>Exponential backoff doubles exactly as long as the product fits in 64 bits.\<close>

lemma power_backoff_two:
  assumes "0 < attempt" and "0 < d" and "d < 2 ^ 53" and "d * 2 ^ nat (attempt - 1) < 2 ^ 63"
  shows "power_backoff (Fin 2) oob attempt d = d * 2 ^ nat (attempt - 1)"
proof -
  define n where "n = nat (attempt - 1)"
  have "(2::int) ^ n \<le> d * 2 ^ n" using assms(2) by simp
  with assms(4) have "(2::int) ^ n < 2 ^ 63" unfolding n_def by linarith
  then have n: "n < 63" by (metis power_strict_increasing_iff one_less_numeral_iff semiring_norm(76))
  have "f64_mul (Fin (of_int d)) (Fin (2 ^ n)) = Fin (of_int (d * 2 ^ n))"
    using assms(2,3) n f64_of_exact [of d "int n"] by simp
  moreover have "in_int64 (d * 2 ^ n)"
    using assms(2,4) unfolding n_def in_int64_def by (smt (verit) mult_pos_pos zero_less_power)
  ultimately show ?thesis
    using assms(1-3) n unfolding power_backoff_def Let_def n_def [symmetric]
    by (simp add: f64_pow_two del: of_int_mult of_int_power)
qed

section \<open>Jitter\<close>

lemma f64_of_fin: "0 \<le> r \<Longrightarrow> r < 2 ^ 1000 \<Longrightarrow> f64_of r = Fin (f64_round r)"
proof -
  assume r: "0 \<le> r" "r < 2 ^ 1000"
  have "f64_round r \<le> r * (1 + 1 / 2 ^ 53)" using r(1) by (rule f64_round_upper)
  also have "\<dots> \<le> r * 2" using r(1) by (intro mult_left_mono) auto
  also have "\<dots> < 2 ^ 1000 * 2" using r(2) by simp
  also have "\<dots> \<le> (2 ^ 1024 :: rat)" by simp
  finally have "f64_round r < 2 ^ 1024" .
  moreover have "- (2 ^ 1024) < f64_round r"
    using f64_round_nonneg [OF r(1)] by (rule less_le_trans [rotated]) simp
  ultimately show ?thesis unfolding f64_of_def Let_def by (simp only: not_le [symmetric] if_False)
qed

text \<open>The jitter added to a delay \<open>d\<close> is at most a tenth of it, give or take one nanosecond.\<close>

lemma jitter_bounds:
  assumes d: "0 \<le> d" "d < 2 ^ 53" and u: "0 \<le> u" "u \<le> 1"
  shows "\<exists>j. f64_mul (Fin u) (f64_mul (f64_of_int d) (f64_of (1 / 10))) = Fin j
             \<and> 0 \<le> j \<and> j < of_int (d div 10) + 2"
proof -
  define e :: rat where "e = 1 + 1 / 2 ^ 53"
  have e: "1 < e" by (simp add: e_def)
  define t where "t = f64_round (1 / 10)"
  have t: "0 \<le> t" "t \<le> e / 10" using f64_round_upper [of "1 / 10"] by (simp_all add: t_def e_def)
  have dd: "0 \<le> (of_int d :: rat)" "(of_int d :: rat) < 2 ^ 53"
    using d by (simp, metis of_int_less_iff of_int_numeral of_int_power)
  define r where "r = f64_round (of_int d * t)"
  have dt: "of_int d * t \<le> of_int d * (e / 10)" using t dd by (intro mult_left_mono)
  have dt0: "0 \<le> of_int d * t" using t dd by simp
  have small: "of_int d * (e / 10) < 2 ^ 53"
  proof -
    have "of_int d * (e / 10) \<le> of_int d * 1" using dd by (intro mult_left_mono) (simp_all add: e_def)
    with dd show ?thesis by linarith
  qed
  have "r \<le> of_int d * t * e" unfolding r_def e_def by (rule f64_round_upper [OF dt0])
  also have "\<dots> \<le> of_int d * (e / 10) * e" using dt e by (intro mult_right_mono) auto
  finally have r: "r \<le> of_int d * (e / 10) * e" .
  have r0: "0 \<le> r" unfolding r_def using dt0 by simp
  have big: "(2 :: rat) ^ 53 < 2 ^ 1000" by simp
  have m1: "f64_mul (f64_of_int d) (f64_of (1 / 10)) = Fin r"
    using d dt dt0 small big unfolding r_def t_def
    by (simp add: f64_of_fin [of "1 / 10"]) (rule f64_of_fin, auto)
  define j where "j = f64_round (u * r)"
  have ur0: "0 \<le> u * r" using u r0 by simp
  have ur: "u * r \<le> r" using u r0 by (simp add: mult_left_le_one_le)
  have r_small: "r < 2 ^ 54"
  proof -
    have "of_int d * (e / 10) * e \<le> of_int d * (e / 10) * 2" using dd e by (intro mult_left_mono) (simp_all add: e_def)
    with r have "r \<le> of_int d * (e / 10) * 2" by linarith
    with small have "r < 2 ^ 53 * 2" by linarith
    then show ?thesis by simp
  qed
  have m2: "f64_mul (Fin u) (Fin r) = Fin j"
    using ur0 ur r_small unfolding j_def by simp (rule f64_of_fin, auto)
  have "j \<le> u * r * e" unfolding j_def e_def by (rule f64_round_upper [OF ur0])
  also have "\<dots> \<le> r * e" using ur e by (intro mult_right_mono) auto
  also have "\<dots> \<le> of_int d * (e / 10) * e * e" using r e by (intro mult_right_mono) auto
  also have "\<dots> = of_int d / 10 + of_int d * ((e ^ 3 - 1) / 10)" by (simp add: power3_eq_cube field_simps)
  also have "\<dots> < of_int d / 10 + 1"
  proof -
    have "of_int d * ((e ^ 3 - 1) / 10) \<le> 2 ^ 53 * ((e ^ 3 - 1) / 10)"
      using dd by (intro mult_right_mono) (simp_all add: e_def)
    also have "\<dots> < 1" by (simp add: e_def power3_eq_cube)
    finally show ?thesis by simp
  qed
  also have "of_int d / 10 < (of_int (d div 10) + 1 :: rat)"
  proof -
    have "d < d div 10 * 10 + 10" by linarith
    then have "(of_int d :: rat) < of_int (d div 10 * 10 + 10)" by (simp only: of_int_less_iff)
    then show ?thesis by simp
  qed
  finally have "j < of_int (d div 10) + 2" by simp
  moreover have "0 \<le> j" unfolding j_def using ur0 by simp
  ultimately show ?thesis using m1 m2 by auto
qed

text \<open>What \<open>addJitter\<close> returns lies between the delay and a tenth above it.\<close>

lemma add_jitter_bounds:
  assumes "0 \<le> d" "d < 2 ^ 53" and u: "rt_rand rt w = (u, w')" "0 \<le> u" "u \<le> 1"
  shows "\<exists>j. add_jitter rt d w = (d + j, w') \<and> 0 \<le> j \<and> j \<le> d div 10 + 1"
proof -
  obtain r where r: "f64_mul (Fin u) (f64_mul (f64_of_int d) (f64_of (1 / 10))) = Fin r"
    and r0: "0 \<le> r" and r1: "r < of_int (d div 10) + 2"
    using jitter_bounds [OF assms(1,2) u(2,3)] by blast
  define j where "j = trunc r"
  have j: "0 \<le> j" "j \<le> d div 10 + 1"
    using r0 r1 unfolding j_def trunc_def by (simp_all add: floor_less_iff flip: zle_iff_zadd)
      (simp add: floor_le_iff)
  have "in_int64 j" and "in_int64 (d + j)"
    using j assms(1,2) by (auto simp: in_int64_def)
  then have "add_jitter rt d w = (d + j, w')"
    using u(1) r by (simp add: add_jitter_def j_def)
  with j show ?thesis by blast
qed

section \<open>Which errors are tried again\<close>

definition match_at :: "string \<Rightarrow> string \<Rightarrow> nat \<Rightarrow> bool" where
  "match_at s sub i \<longleftrightarrow> list_all (\<lambda>j. s ! (i + j) = sub ! j) [0..<length sub]"

definition string_contains :: "string \<Rightarrow> string \<Rightarrow> bool" where
  "string_contains s sub =
     (if length s < length sub then False
      else list_ex (match_at s sub) [0..<length s - length sub + 1])"

definition to_lower :: "string \<Rightarrow> string" where
  "to_lower s = map lower_char s"

definition contains_fold :: "string \<Rightarrow> string \<Rightarrow> bool" where
  "contains_fold s sub = string_contains (to_lower s) (to_lower sub)"

definition default_patterns :: "string list" where
  "default_patterns =
     [''connection reset'', ''connection refused'', ''timeout'', ''temporary failure'',
      ''service unavailable'', ''too many requests'', ''rate limit'', ''throttled'',
      ''internal server error'', ''bad gateway'', ''service temporarily unavailable'',
      ''gateway timeout'']"

definition s3_retryable_patterns :: "string list" where
  "s3_retryable_patterns =
     [''RequestTimeout'', ''ServiceUnavailable'', ''Throttling'', ''ProvisionedThroughputExceeded'',
      ''SlowDown'', ''InternalError'', ''RequestTimeTooSkewed'']"

definition s3_non_retryable_patterns :: "string list" where
  "s3_non_retryable_patterns =
     [''NoSuchBucket'', ''NoSuchKey'', ''AccessDenied'', ''InvalidArgument'', ''InvalidBucketName'',
      ''BucketAlreadyExists'', ''BucketNotEmpty'']"

definition api_retryable_patterns :: "string list" where
  "api_retryable_patterns = [''status 429'', ''status 500'', ''status 502'', ''status 503'', ''status 504'']"

definition api_non_retryable_patterns :: "string list" where
  "api_non_retryable_patterns =
     [''status 400'', ''status 401'', ''status 403'', ''status 404'', ''status 409'', ''status 410'',
      ''status 422'']"

definition matches_any :: "string \<Rightarrow> string list \<Rightarrow> bool" where
  "matches_any s ps = list_ex (contains_fold s) ps"

fun default_retryable :: "go_error option \<Rightarrow> bool" where
  "default_retryable None = False"
| "default_retryable (Some e) =
     (if e = CtxCanceled \<or> e = CtxDeadline then False else matches_any (err_text e) default_patterns)"

fun s3_retryable :: "go_error option \<Rightarrow> bool" where
  "s3_retryable None = False"
| "s3_retryable (Some e) =
     (if e = CtxCanceled \<or> e = CtxDeadline then False
      else if matches_any (err_text e) s3_retryable_patterns then True
      else if matches_any (err_text e) s3_non_retryable_patterns then False
      else default_retryable (Some e))"

fun api_retryable :: "go_error option \<Rightarrow> bool" where
  "api_retryable None = False"
| "api_retryable (Some e) =
     (if e = CtxCanceled \<or> e = CtxDeadline then False
      else if matches_any (err_text e) api_retryable_patterns then True
      else if matches_any (err_text e) api_non_retryable_patterns then False
      else default_retryable (Some e))"

definition is_retryable :: "'w retry_policy \<Rightarrow> go_error option \<Rightarrow> bool" where
  "is_retryable p e = (case rp_retryable p of None \<Rightarrow> default_retryable e | Some f \<Rightarrow> f e)"

lemma match_at_iff: "i + length sub \<le> length s \<Longrightarrow> match_at s sub i \<longleftrightarrow> take (length sub) (drop i s) = sub"
  unfolding match_at_def list_all_iff
  by (auto simp: list_eq_iff_nth_eq [of "take (length sub) (drop i s)" sub])

text \<open>The hand-written search loop is \<open>strings.Contains\<close>.\<close>

lemma string_contains_iff: "string_contains s sub \<longleftrightarrow> str_contains s sub"
proof
  assume "string_contains s sub"
  then obtain i where i: "length sub \<le> length s" "i \<le> length s - length sub" "match_at s sub i"
    by (auto simp: string_contains_def list_ex_iff less_Suc_eq_le simp del: upt_Suc split: if_splits)
  then have "take (length sub) (drop i s) = sub" by (subst match_at_iff [symmetric]) auto
  then have "s = take i s @ sub @ drop (length sub) (drop i s)" by (metis append_take_drop_id)
  then show "str_contains s sub" unfolding str_contains_iff by blast
next
  assume "str_contains s sub"
  then obtain u v where s: "s = u @ sub @ v" unfolding str_contains_iff by blast
  then have "match_at s sub (length u)" by (subst match_at_iff) auto
  then show "string_contains s sub" using s by (auto simp: string_contains_def list_ex_iff less_Suc_eq_le simp del: upt_Suc
        intro!: bexI [of _ "length u"])
qed

lemma to_lower_append [simp]: "to_lower (s @ t) = to_lower s @ to_lower t"
  by (simp add: to_lower_def)

text \<open>Wrapping an error with more context never hides a retryable pattern of its text.\<close>

lemma contains_fold_append: "contains_fold t p \<Longrightarrow> contains_fold (s @ t) p"
  unfolding contains_fold_def string_contains_iff str_contains_iff by simp (metis append_assoc)

lemma matches_any_append: "matches_any t ps \<Longrightarrow> matches_any (s @ t) ps"
  by (auto simp: matches_any_def list_ex_iff intro: contains_fold_append)

lemma matches_any_err_text_Wrap: "matches_any (err_text e) ps \<Longrightarrow> matches_any (err_text (Wrap p e)) ps"
  using matches_any_append [of "err_text e" ps "p @ '': ''"] by simp

section \<open>Predefined policies\<close>

definition default_retry_policy :: "'w runtime \<Rightarrow> 'w retry_policy" where
  "default_retry_policy rt =
     \<lparr>rp_max_attempts = 3, rp_base_delay = second, rp_max_delay = 30 * second,
      rp_backoff = Some (exponential_backoff rt), rp_retryable = Some default_retryable,
      rp_on_retry = None, rp_jitter = True\<rparr>"

definition new_retry_policy :: "'w runtime \<Rightarrow> int \<Rightarrow> duration \<Rightarrow> duration \<Rightarrow> 'w retry_policy" where
  "new_retry_policy rt max_attempts base_delay max_delay =
     \<lparr>rp_max_attempts = max_attempts, rp_base_delay = base_delay, rp_max_delay = max_delay,
      rp_backoff = Some (exponential_backoff rt), rp_retryable = Some default_retryable,
      rp_on_retry = None, rp_jitter = True\<rparr>"

definition with_backoff :: "'w backoff option \<Rightarrow> 'w retry_policy \<Rightarrow> 'w retry_policy" where
  "with_backoff b p = p\<lparr>rp_backoff := b\<rparr>"

definition with_retryable_func :: "(go_error option \<Rightarrow> bool) option \<Rightarrow> 'w retry_policy \<Rightarrow> 'w retry_policy" where
  "with_retryable_func f p = p\<lparr>rp_retryable := f\<rparr>"

definition with_on_retry :: "(int \<Rightarrow> go_error \<Rightarrow> 'w \<Rightarrow> 'w) option \<Rightarrow> 'w retry_policy \<Rightarrow> 'w retry_policy" where
  "with_on_retry f p = p\<lparr>rp_on_retry := f\<rparr>"

definition with_jitter :: "bool \<Rightarrow> 'w retry_policy \<Rightarrow> 'w retry_policy" where
  "with_jitter b p = p\<lparr>rp_jitter := b\<rparr>"

definition s3_policy :: "'w runtime \<Rightarrow> 'w retry_policy" where
  "s3_policy rt =
     \<lparr>rp_max_attempts = 5, rp_base_delay = 2 * second, rp_max_delay = 120 * second,
      rp_backoff = Some (exponential_backoff rt), rp_retryable = Some s3_retryable,
      rp_on_retry = None, rp_jitter = True\<rparr>"

definition api_policy :: "'w runtime \<Rightarrow> 'w retry_policy" where
  "api_policy rt =
     \<lparr>rp_max_attempts = 3, rp_base_delay = second, rp_max_delay = 30 * second,
      rp_backoff = Some (api_rate_limit_backoff rt), rp_retryable = Some api_retryable,
      rp_on_retry = None, rp_jitter = True\<rparr>"

definition network_policy :: "'w runtime \<Rightarrow> 'w retry_policy" where
  "network_policy rt =
     \<lparr>rp_max_attempts = 4, rp_base_delay = 500 * millisecond, rp_max_delay = 10 * second,
      rp_backoff = Some (network_backoff rt), rp_retryable = Some default_retryable,
      rp_on_retry = None, rp_jitter = True\<rparr>"

definition database_policy :: "'w retry_policy" where
  "database_policy =
     \<lparr>rp_max_attempts = 3, rp_base_delay = second, rp_max_delay = 15 * second,
      rp_backoff = Some linear_backoff, rp_retryable = Some default_retryable,
      rp_on_retry = None, rp_jitter = False\<rparr>"

end
