(* ===== verification/CircuitBreaker.thy ===== *)
theory CircuitBreaker
  imports GoError
begin

text \<open>
  internal/retry/circuit_breaker.go: the breaker's state, its operations one lock section at a
  time, the sequential \<open>Execute\<close> built from them, the step relation of several goroutines sharing
  one breaker, and the registry of named breakers. Callbacks run in goroutines of their own; the
  model records which notifications were started.
\<close>

record breaker =
  cb_name :: string
  cb_max_failures :: int
  cb_reset_timeout :: duration
  cb_state :: breaker_state
  cb_failure_count :: int
  cb_last_failure_time :: instant
  cb_last_success_time :: instant
  cb_request_count :: int
  cb_success_count :: int
  cb_has_callback :: bool
  cb_notified :: "(string \<times> breaker_state \<times> breaker_state) list"

definition new_circuit_breaker :: "string \<Rightarrow> int \<Rightarrow> duration \<Rightarrow> breaker" where
  "new_circuit_breaker name max_failures reset_timeout =
     \<lparr>cb_name = name, cb_max_failures = max_failures, cb_reset_timeout = reset_timeout,
      cb_state = StateClosed, cb_failure_count = 0, cb_last_failure_time = zero_time,
      cb_last_success_time = zero_time, cb_request_count = 0, cb_success_count = 0,
      cb_has_callback = False, cb_notified = []\<rparr>"

definition with_state_change_callback :: "breaker \<Rightarrow> breaker" where
  "with_state_change_callback cb = cb\<lparr>cb_has_callback := True\<rparr>"

definition set_state :: "breaker_state \<Rightarrow> breaker \<Rightarrow> breaker" where
  "set_state new_state cb =
     (let old_state = cb_state cb;
          cb1 = cb\<lparr>cb_state := new_state\<rparr>
      in if cb_has_callback cb
         then cb1\<lparr>cb_notified := cb_notified cb @ [(cb_name cb, old_state, new_state)]\<rparr>
         else cb1)"

section \<open>Lock sections\<close>

text \<open>The section of \<open>canExecute\<close> that takes the write lock and tests the state again.\<close>

definition try_half_open :: "instant \<Rightarrow> breaker \<Rightarrow> breaker" where
  "try_half_open now cb =
     (if cb_state cb = StateOpen \<and> cb_reset_timeout cb < time_sub now (cb_last_failure_time cb)
      then set_state StateHalfOpen cb else cb)"

definition record_result :: "go_error option \<Rightarrow> instant \<Rightarrow> breaker \<Rightarrow> breaker" where
  "record_result err now cb0 =
     (let cb = cb0\<lparr>cb_request_count := cb_request_count cb0 + 1\<rparr>
      in case err of
           Some _ \<Rightarrow>
             (let cb1 = cb\<lparr>cb_failure_count := cb_failure_count cb + 1, cb_last_failure_time := now\<rparr>
              in if cb_state cb1 = StateHalfOpen then set_state StateOpen cb1
                 else if cb_state cb1 = StateClosed \<and> cb_max_failures cb1 \<le> cb_failure_count cb1
                 then set_state StateOpen cb1
                 else cb1)
         | None \<Rightarrow>
             (let cb1 = cb\<lparr>cb_success_count := cb_success_count cb + 1, cb_last_success_time := now\<rparr>
              in if cb_state cb1 = StateHalfOpen
                 then set_state StateClosed (cb1\<lparr>cb_failure_count := 0\<rparr>)
                 else cb1))"

definition reset_breaker :: "breaker \<Rightarrow> breaker" where
  "reset_breaker cb =
     (let old_state = cb_state cb;
          cb1 = cb\<lparr>cb_state := StateClosed, cb_failure_count := 0, cb_request_count := 0,
                  cb_success_count := 0, cb_last_failure_time := zero_time,
                  cb_last_success_time := zero_time\<rparr>
      in if old_state \<noteq> StateClosed \<and> cb_has_callback cb
         then cb1\<lparr>cb_notified := cb_notified cb @ [(cb_name cb, old_state, StateClosed)]\<rparr>
         else cb1)"

section \<open>Sequential use\<close>

definition can_execute :: "'w runtime \<Rightarrow> breaker \<times> 'w \<Rightarrow> bool \<times> (breaker \<times> 'w)" where
  "can_execute rt = (\<lambda>(cb, w).
     case cb_state cb of
       StateClosed \<Rightarrow> (True, (cb, w))
     | StateOpen \<Rightarrow>
         (let (now, w1) = rt_now rt w
          in if cb_reset_timeout cb < time_sub now (cb_last_failure_time cb)
             then (let (now', w2) = rt_now rt w1 in (True, (try_half_open now' cb, w2)))
             else (False, (cb, w1)))
     | StateHalfOpen \<Rightarrow> (True, (cb, w)))"

text \<open>\<open>Execute\<close>: a rejected call returns \<open>*CircuitBreakerError\<close> without running \<open>fn\<close>.\<close>

definition cb_execute :: "'w runtime \<Rightarrow> ('w, 'a) io \<Rightarrow> (breaker \<times> 'w, 'a) io" where
  "cb_execute rt fn = (\<lambda>s.
     case can_execute rt s of
       (False, (cb, w)) \<Rightarrow> (Inl (BreakerError (cb_name cb) (cb_state cb)), (cb, w))
     | (True, (cb, w)) \<Rightarrow>
         (case fn w of (r, w1) \<Rightarrow>
            (let (now, w2) = rt_now rt w1;
                 err = (case r of Inl e \<Rightarrow> Some e | Inr _ \<Rightarrow> None)
             in (r, (record_result err now cb, w2)))))"

fun is_circuit_breaker_error :: "go_error \<Rightarrow> bool" where
  "is_circuit_breaker_error (BreakerError _ _) = True"
| "is_circuit_breaker_error _ = False"

record breaker_metrics =
  bm_name :: string
  bm_state :: breaker_state
  bm_request_count :: int
  bm_failure_count :: int
  bm_success_count :: int
  bm_failure_rate :: f64
  bm_success_rate :: f64
  bm_last_failure_time :: instant
  bm_last_success_time :: instant

definition breaker_metrics_of :: "breaker \<Rightarrow> breaker_metrics" where
  "breaker_metrics_of cb =
     (let rate = (\<lambda>n. if 0 < cb_request_count cb
                      then f64_div (f64_of_int n) (f64_of_int (cb_request_count cb)) else Fin 0)
      in \<lparr>bm_name = cb_name cb, bm_state = cb_state cb, bm_request_count = cb_request_count cb,
          bm_failure_count = cb_failure_count cb, bm_success_count = cb_success_count cb,
          bm_failure_rate = rate (cb_failure_count cb), bm_success_rate = rate (cb_success_count cb),
          bm_last_failure_time = cb_last_failure_time cb,
          bm_last_success_time = cb_last_success_time cb\<rparr>)"

section \<open>The invariant\<close>

text \<open>
  A breaker is closed exactly while it has counted fewer failures than its limit, and the
  counters never count a request twice.
\<close>

definition breaker_inv :: "breaker \<Rightarrow> bool" where
  "breaker_inv cb \<longleftrightarrow>
     0 < cb_max_failures cb
     \<and> (cb_state cb = StateClosed \<longleftrightarrow> cb_failure_count cb < cb_max_failures cb)
     \<and> 0 \<le> cb_failure_count cb \<and> 0 \<le> cb_success_count cb
     \<and> cb_failure_count cb + cb_success_count cb \<le> cb_request_count cb"

lemma set_state_fields [simp]:
  "cb_state (set_state st cb) = st"
  "cb_name (set_state st cb) = cb_name cb"
  "cb_max_failures (set_state st cb) = cb_max_failures cb"
  "cb_reset_timeout (set_state st cb) = cb_reset_timeout cb"
  "cb_failure_count (set_state st cb) = cb_failure_count cb"
  "cb_success_count (set_state st cb) = cb_success_count cb"
  "cb_request_count (set_state st cb) = cb_request_count cb"
  "cb_last_failure_time (set_state st cb) = cb_last_failure_time cb"
  by (simp_all add: set_state_def Let_def)

lemma breaker_inv_new: "0 < n \<Longrightarrow> breaker_inv (new_circuit_breaker name n t)"
  by (simp add: breaker_inv_def new_circuit_breaker_def)

lemma breaker_inv_try_half_open: "breaker_inv cb \<Longrightarrow> breaker_inv (try_half_open now cb)"
  by (auto simp: breaker_inv_def try_half_open_def)

lemma breaker_inv_record_result: "breaker_inv cb \<Longrightarrow> breaker_inv (record_result err now cb)"
  by (cases "cb_state cb"; cases err) (auto simp: breaker_inv_def record_result_def Let_def)

lemma breaker_inv_reset: "breaker_inv cb \<Longrightarrow> breaker_inv (reset_breaker cb)"
  by (simp add: breaker_inv_def reset_breaker_def Let_def)

lemmas breaker_inv_ops =
  breaker_inv_new breaker_inv_try_half_open breaker_inv_record_result breaker_inv_reset

lemma record_result_config [simp]:
  "cb_max_failures (record_result err now cb) = cb_max_failures cb"
  "cb_reset_timeout (record_result err now cb) = cb_reset_timeout cb"
  "cb_name (record_result err now cb) = cb_name cb"
  by (cases err; simp add: record_result_def Let_def)+

lemma can_execute_inv:
  assumes "breaker_inv (fst s)" and "can_execute rt s = (b, s')"
  shows "breaker_inv (fst s')"
proof -
  obtain cb w where s: "s = (cb, w)" by (cases s)
  show ?thesis
    using assms unfolding s can_execute_def
    by (auto simp: breaker_inv_try_half_open split: breaker_state.splits prod.splits if_splits)
qed

lemma can_execute_inv_pair:
  "can_execute rt (cb, w) = (b, (cb', w')) \<Longrightarrow> breaker_inv cb \<Longrightarrow> breaker_inv cb'"
  using can_execute_inv [of "(cb, w)" rt b "(cb', w')"] by simp

lemma cb_execute_inv: "io_keeps (\<lambda>s. breaker_inv (fst s)) (cb_execute rt fn)"
  unfolding io_keeps_def cb_execute_def
  by (auto simp: breaker_inv_record_result split: prod.splits bool.splits
      dest: can_execute_inv_pair)

text \<open>While the breaker is open and its timeout has not passed, a call is rejected unrun.\<close>

lemma cb_execute_open:
  assumes "cb_state cb = StateOpen" and "rt_now rt w = (now, w')"
    and "time_sub now (cb_last_failure_time cb) \<le> cb_reset_timeout cb"
  shows "cb_execute rt fn (cb, w) = (Inl (BreakerError (cb_name cb) StateOpen), (cb, w'))"
  using assms by (simp add: cb_execute_def can_execute_def)

section \<open>Several goroutines\<close>

text \<open>
  A goroutine in \<open>Execute\<close> reads the state, decides outside the lock, may take the lock to test
  again, runs the function and records the result. Any number of goroutines interleave between
  these sections while the clock advances.
\<close>

datatype cb_pc = Outside | Snapshot breaker_state instant | Expired | Running

record cb_sys =
  sys_cb :: breaker
  sys_pc :: "nat \<Rightarrow> cb_pc"
  sys_now :: instant

inductive cb_step :: "cb_sys \<Rightarrow> cb_sys \<Rightarrow> bool" where
  tick: "sys_now s \<le> t \<Longrightarrow> cb_step s (s\<lparr>sys_now := t\<rparr>)"
| read_state: "sys_pc s i = Outside \<Longrightarrow>
    cb_step s (s\<lparr>sys_pc := (sys_pc s)(i := Snapshot (cb_state (sys_cb s)) (cb_last_failure_time (sys_cb s)))\<rparr>)"
| admit: "sys_pc s i = Snapshot st l \<Longrightarrow> st \<noteq> StateOpen \<Longrightarrow>
    cb_step s (s\<lparr>sys_pc := (sys_pc s)(i := Running)\<rparr>)"
| reject: "sys_pc s i = Snapshot StateOpen l \<Longrightarrow>
    time_sub (sys_now s) l \<le> cb_reset_timeout (sys_cb s) \<Longrightarrow>
    cb_step s (s\<lparr>sys_pc := (sys_pc s)(i := Outside)\<rparr>)"
| expire: "sys_pc s i = Snapshot StateOpen l \<Longrightarrow>
    cb_reset_timeout (sys_cb s) < time_sub (sys_now s) l \<Longrightarrow>
    cb_step s (s\<lparr>sys_pc := (sys_pc s)(i := Expired)\<rparr>)"
| relock: "sys_pc s i = Expired \<Longrightarrow>
    cb_step s (s\<lparr>sys_cb := try_half_open (sys_now s) (sys_cb s), sys_pc := (sys_pc s)(i := Running)\<rparr>)"
| finish: "sys_pc s i = Running \<Longrightarrow>
    cb_step s (s\<lparr>sys_cb := record_result err (sys_now s) (sys_cb s), sys_pc := (sys_pc s)(i := Outside)\<rparr>)"
| reset: "cb_step s (s\<lparr>sys_cb := reset_breaker (sys_cb s)\<rparr>)"

inductive cb_reachable :: "string \<Rightarrow> int \<Rightarrow> duration \<Rightarrow> cb_sys \<Rightarrow> bool" for name n t where
  init: "cb_reachable name n t
     \<lparr>sys_cb = new_circuit_breaker name n t, sys_pc = (\<lambda>_. Outside), sys_now = t0\<rparr>"
| step: "cb_reachable name n t s \<Longrightarrow> cb_step s s' \<Longrightarrow> cb_reachable name n t s'"

inductive_cases cb_stepE: "cb_step s s'"

lemma cb_step_inv: "cb_step s s' \<Longrightarrow> breaker_inv (sys_cb s) \<Longrightarrow> breaker_inv (sys_cb s')"
  by (induction rule: cb_step.induct) (auto intro: breaker_inv_ops)

lemma cb_reachable_inv: "cb_reachable name n t s \<Longrightarrow> 0 < n \<Longrightarrow> breaker_inv (sys_cb s)"
  by (induction rule: cb_reachable.induct) (auto intro: breaker_inv_new cb_step_inv)

text \<open>
  A failure recorded while half-open opens the circuit again, whoever recorded it; only a success
  recorded while half-open, or a reset, closes it.
\<close>

lemma cb_step_closes:
  assumes "cb_step s s'" and "cb_state (sys_cb s) \<noteq> StateClosed" and "cb_state (sys_cb s') = StateClosed"
  shows "(cb_state (sys_cb s) = StateHalfOpen
           \<and> cb_success_count (sys_cb s') = cb_success_count (sys_cb s) + 1)
         \<or> sys_cb s' = reset_breaker (sys_cb s)"
  using assms
  by (induction rule: cb_step.induct)
     (auto simp: try_half_open_def record_result_def Let_def split: option.splits if_splits)

section \<open>Registry\<close>

type_synonym cb_registry = "(string, breaker) gomap"

definition cbr_get_or_create :: "string \<Rightarrow> int \<Rightarrow> duration \<Rightarrow> cb_registry \<Rightarrow> breaker \<times> cb_registry" where
  "cbr_get_or_create name n t reg =
     (case map_of reg name of
        Some cb \<Rightarrow> (cb, reg)
      | None \<Rightarrow> (let cb = new_circuit_breaker name n t in (cb, AList.update name cb reg)))"

definition cbr_get :: "string \<Rightarrow> cb_registry \<Rightarrow> breaker option" where
  "cbr_get name reg = map_of reg name"

definition cbr_list :: "(breaker list \<Rightarrow> breaker list) \<Rightarrow> cb_registry \<Rightarrow> breaker list" where
  "cbr_list ord reg = ord (map snd reg)"

definition cbr_metrics :: "cb_registry \<Rightarrow> (string, breaker_metrics) gomap" where
  "cbr_metrics reg = map (\<lambda>(name, cb). (name, breaker_metrics_of cb)) reg"

definition cbr_reset :: "cb_registry \<Rightarrow> cb_registry" where
  "cbr_reset reg = map (\<lambda>(name, cb). (name, reset_breaker cb)) reg"

definition cbr_remove :: "string \<Rightarrow> cb_registry \<Rightarrow> cb_registry" where
  "cbr_remove name reg = AList.delete name reg"

text \<open>Asking twice gives the same breaker: the later call's limits are ignored.\<close>

lemma cbr_get_or_create_twice:
  assumes "cbr_get_or_create name n t reg = (cb, reg1)"
  shows "cbr_get_or_create name n' t' reg1 = (cb, reg1)"
  using assms by (auto simp: cbr_get_or_create_def Let_def split: option.splits)

lemma cbr_keys_distinct:
  "keys_distinct reg \<Longrightarrow> keys_distinct (snd (cbr_get_or_create name n t reg))"
  "keys_distinct reg \<Longrightarrow> keys_distinct (cbr_reset reg)"
  "keys_distinct reg \<Longrightarrow> keys_distinct (cbr_remove name reg)"
  by (auto simp: cbr_get_or_create_def cbr_reset_def cbr_remove_def comp_def case_prod_beta Let_def
      split: option.splits)

end
