(* ===== verification/RetryExec.thy ===== *)
theory RetryExec
  imports RetryPolicy CircuitBreaker
begin

text \<open>
  internal/retry/executor.go: the retry loop, the loop with statistics, the combination with a
  circuit breaker, and the batch executor with its semaphore. An operation runs on the world; the
  loop ends because the attempt number grows to \<open>MaxAttempts\<close>.
\<close>

section \<open>The retry loop\<close>

definition attempts_exhausted :: "'w retry_policy \<Rightarrow> go_error option \<Rightarrow> go_error" where
  "attempts_exhausted p last_err =
     (let prefix = ''operation failed after '' @ dec (rp_max_attempts p) @ '' attempts''
      in case last_err of None \<Rightarrow> Msg (prefix @ '': %!w(<nil>)'') | Some e \<Rightarrow> Wrap prefix e)"

definition non_retryable :: "int \<Rightarrow> go_error \<Rightarrow> go_error" where
  "non_retryable attempt e = Wrap (''non-retryable error on attempt '' @ dec attempt) e"

text \<open>
  Between two attempts: the callback, the delay, and the wait the context can cut short. The
  delay is returned with the context's error, if any.
\<close>

definition before_next_attempt ::
  "'w runtime \<Rightarrow> 'w retry_policy \<Rightarrow> int \<Rightarrow> go_error \<Rightarrow> 'w \<Rightarrow> (duration \<times> go_error option) \<times> 'w" where
  "before_next_attempt rt p attempt err w =
     (let w1 = (case rp_on_retry p of None \<Rightarrow> w | Some f \<Rightarrow> f attempt err w);
          (delay, w2) = calculate_delay rt p attempt w1;
          (ended, w3) = rt_wait rt delay w2
      in ((delay, ended), w3))"

function execute_loop ::
  "'w runtime \<Rightarrow> 'w retry_policy \<Rightarrow> ('w, 'a) io \<Rightarrow> int \<Rightarrow> go_error option \<Rightarrow> ('w, 'a) io" where
  "execute_loop rt p operation attempt last_err w =
     (if attempt \<le> rp_max_attempts p
      then (case operation w of
              (Inr result, w1) \<Rightarrow> (Inr result, w1)
            | (Inl err, w1) \<Rightarrow>
                if \<not> is_retryable p (Some err) then (Inl (non_retryable attempt err), w1)
                else if attempt = rp_max_attempts p then (Inl (attempts_exhausted p (Some err)), w1)
                else (case before_next_attempt rt p attempt err w1 of
                        ((delay, Some e), w2) \<Rightarrow> (Inl e, w2)
                      | ((delay, None), w2) \<Rightarrow>
                          execute_loop rt p operation (attempt + 1) (Some err) w2))
      else (Inl (attempts_exhausted p last_err), w))"
  by pat_completeness auto
termination
  by (relation "measure (\<lambda>(rt, p, operation, attempt, last_err, w). nat (rp_max_attempts p + 1 - attempt))")
     auto

declare execute_loop.simps [simp del]

definition execute :: "'w runtime \<Rightarrow> 'w retry_policy \<Rightarrow> ('w, 'a) io \<Rightarrow> ('w, 'a) io" where
  "execute rt p operation = execute_loop rt p operation 1 None"

definition execute_void :: "'w runtime \<Rightarrow> 'w retry_policy \<Rightarrow> ('w, unit) io \<Rightarrow> ('w, unit) io" where
  "execute_void rt p operation = execute rt p operation"

text \<open>
  What the loop promises, as a relation: \<open>retried rt p op i w j w'\<close> holds when attempts \<open>i\<close> to
  \<open>j - 1\<close>, started in world \<open>w\<close>, all failed with retryable errors, every wait ended, and attempt
  \<open>j\<close> starts in \<open>w'\<close>.
\<close>

inductive retried ::
  "'w runtime \<Rightarrow> 'w retry_policy \<Rightarrow> ('w, 'a) io \<Rightarrow> int \<Rightarrow> 'w \<Rightarrow> int \<Rightarrow> 'w \<Rightarrow> bool"
  for rt p operation where
  start: "retried rt p operation i w i w"
| again: "operation w = (Inl err, w1) \<Longrightarrow> is_retryable p (Some err) \<Longrightarrow> i < rp_max_attempts p \<Longrightarrow>
    before_next_attempt rt p i err w1 = ((delay, None), w2) \<Longrightarrow>
    retried rt p operation (i + 1) w2 j w3 \<Longrightarrow> retried rt p operation i w j w3"

inductive_cases retriedE: "retried rt p operation i w j w'"

text \<open>How one attempt ends the loop.\<close>

definition final_attempt ::
  "'w runtime \<Rightarrow> 'w retry_policy \<Rightarrow> ('w, 'a) io \<Rightarrow> int \<Rightarrow> 'w \<Rightarrow> (go_error + 'a) \<times> 'w \<Rightarrow> bool" where
  "final_attempt rt p operation j w out \<longleftrightarrow>
     (case operation w of
        (Inr a, w') \<Rightarrow> out = (Inr a, w')
      | (Inl e, w1) \<Rightarrow>
          (\<not> is_retryable p (Some e) \<and> out = (Inl (non_retryable j e), w1))
          \<or> (is_retryable p (Some e) \<and> j = rp_max_attempts p
             \<and> out = (Inl (attempts_exhausted p (Some e)), w1))
          \<or> (is_retryable p (Some e) \<and> j < rp_max_attempts p
             \<and> (\<exists>d c w2. before_next_attempt rt p j e w1 = ((d, Some c), w2) \<and> out = (Inl c, w2))))"

lemma execute_loop_retried:
  assumes "retried rt p operation i w j w1" and "j \<le> rp_max_attempts p"
  shows "\<exists>last'. execute_loop rt p operation i last_err w = execute_loop rt p operation j last' w1"
  using assms
proof (induction arbitrary: last_err rule: retried.induct)
  case (again w err wa i d w2 j w3)
  then show ?case by (subst execute_loop.simps) (auto split: prod.splits)
qed auto

lemma execute_loop_final:
  assumes "final_attempt rt p operation j w out" and "j \<le> rp_max_attempts p"
  shows "execute_loop rt p operation j last_err w = out"
  using assms by (subst execute_loop.simps)
    (auto simp: final_attempt_def split: prod.splits sum.splits option.splits)

lemma execute_loop_ends:
  assumes "i \<le> rp_max_attempts p"
  shows "\<exists>j w1. retried rt p operation i w j w1 \<and> i \<le> j \<and> j \<le> rp_max_attempts p
                \<and> final_attempt rt p operation j w1 (execute_loop rt p operation i last_err w)"
  using assms
proof (induction "nat (rp_max_attempts p - i)" arbitrary: i w last_err rule: less_induct)
  case less
  have last: ?case if "final_attempt rt p operation i w (execute_loop rt p operation i last_err w)"
    using that less.prems by (intro exI [of _ i] exI [of _ w]) (simp add: retried.start)
  obtain r w1 where op: "operation w = (r, w1)" by (cases "operation w")
  show ?case
  proof (cases r)
    case (Inr a)
    with op less.prems show ?thesis
      by (intro last) (subst execute_loop.simps, simp add: final_attempt_def)
  next
    case (Inl e)
    show ?thesis
    proof (cases "is_retryable p (Some e) \<and> i < rp_max_attempts p")
      case False
      with op Inl less.prems show ?thesis
        by (intro last) (subst execute_loop.simps, auto simp: final_attempt_def)
    next
      case True
      obtain d c w2 where bn: "before_next_attempt rt p i e w1 = ((d, c), w2)"
        by (metis surj_pair)
      show ?thesis
      proof (cases c)
        case (Some ce)
        with True op Inl bn show ?thesis
          by (intro last) (subst execute_loop.simps, auto simp: final_attempt_def)
      next
        case None
        have step: "execute_loop rt p operation i last_err w
                    = execute_loop rt p operation (i + 1) (Some e) w2"
          using True op Inl bn None by (subst execute_loop.simps) auto
        have "nat (rp_max_attempts p - (i + 1)) < nat (rp_max_attempts p - i)" using True by simp
        then obtain j w3 where "retried rt p operation (i + 1) w2 j w3" "i + 1 \<le> j" "j \<le> rp_max_attempts p"
            "final_attempt rt p operation j w3 (execute_loop rt p operation (i + 1) (Some e) w2)"
          using less.hyps [of "i + 1" w2 "Some e"] True by auto
        moreover from this have "retried rt p operation i w j w3"
          using op Inl bn None True retried.again by metis
        ultimately show ?thesis unfolding step by (metis add_le_cancel_left zle_add1_eq_le
              order_trans zle_iff_zadd le_add_same_cancel1 zero_le_one)
      qed
    qed
  qed
qed

text \<open>With at least one attempt, \<open>Execute\<close> ends with the outcome of one of the attempts.\<close>

lemma execute_final:
  assumes "1 \<le> rp_max_attempts p"
  obtains j w1 where "retried rt p operation 1 w j w1" and "1 \<le> j" and "j \<le> rp_max_attempts p"
    and "final_attempt rt p operation j w1 (execute rt p operation w)"
  using execute_loop_ends [OF assms] unfolding execute_def by metis

lemma execute_success_iff:
  "execute rt p operation w = (Inr a, w')
   \<longleftrightarrow> (\<exists>j w1. retried rt p operation 1 w j w1 \<and> j \<le> rp_max_attempts p \<and> operation w1 = (Inr a, w'))"
proof
  assume run: "execute rt p operation w = (Inr a, w')"
  have "1 \<le> rp_max_attempts p"
    by (rule ccontr) (use run in \<open>simp add: execute_def execute_loop.simps\<close>)
  then obtain j w1 where "retried rt p operation 1 w j w1" "j \<le> rp_max_attempts p"
      "final_attempt rt p operation j w1 (Inr a, w')"
    using execute_final [of p rt operation w] run by metis
  then show "\<exists>j w1. retried rt p operation 1 w j w1 \<and> j \<le> rp_max_attempts p \<and> operation w1 = (Inr a, w')"
    by (auto simp: final_attempt_def split: prod.splits sum.splits)
next
  assume "\<exists>j w1. retried rt p operation 1 w j w1 \<and> j \<le> rp_max_attempts p \<and> operation w1 = (Inr a, w')"
  then obtain j w1 where "retried rt p operation 1 w j w1" "j \<le> rp_max_attempts p" "operation w1 = (Inr a, w')"
    by blast
  then show "execute rt p operation w = (Inr a, w')"
    using execute_loop_retried [of rt p operation 1 w j w1 None]
      execute_loop_final [of rt p operation j w1 "(Inr a, w')"]
    by (auto simp: execute_def final_attempt_def)
qed

text \<open>Without an attempt to make, the operation is not called and the error wraps nothing.\<close>

lemma execute_no_attempts:
  "rp_max_attempts p < 1 \<Longrightarrow> execute rt p operation w = (Inl (attempts_exhausted p None), w)"
  by (simp add: execute_def execute_loop.simps)

section \<open>How often the operation runs\<close>

text \<open>Policies and operations on a world with one more component.\<close>

definition policy_snd :: "'w retry_policy \<Rightarrow> ('c \<times> 'w) retry_policy" where
  "policy_snd p =
     \<lparr>rp_max_attempts = rp_max_attempts p, rp_base_delay = rp_base_delay p,
      rp_max_delay = rp_max_delay p,
      rp_backoff = map_option (\<lambda>b n d. lift_snd (b n d)) (rp_backoff p),
      rp_retryable = rp_retryable p,
      rp_on_retry = map_option (\<lambda>f n e (c, w). (c, f n e w)) (rp_on_retry p),
      rp_jitter = rp_jitter p\<rparr>"

definition counted :: "('w, 'a) io \<Rightarrow> (nat \<times> 'w, 'a) io" where
  "counted m = (\<lambda>(n, w). case m w of (r, w') \<Rightarrow> (r, (n + 1, w')))"

lemma policy_snd_simps [simp]:
  "rp_max_attempts (policy_snd p) = rp_max_attempts p"
  "rp_base_delay (policy_snd p) = rp_base_delay p"
  "rp_max_delay (policy_snd p) = rp_max_delay p"
  "rp_jitter (policy_snd p) = rp_jitter p"
  "is_retryable (policy_snd p) = is_retryable p"
  by (simp_all add: policy_snd_def is_retryable_def fun_eq_iff)

lemma rt_snd_simps [simp]:
  "rt_now (rt_snd rt) = lift_snd (rt_now rt)"
  "rt_rand (rt_snd rt) = lift_snd (rt_rand rt)"
  "rt_wait (rt_snd rt) d = lift_snd (rt_wait rt d)"
  "rt_f64_oob (rt_snd rt) = rt_f64_oob rt"
  by (simp_all add: rt_snd_def)

lemma add_jitter_snd: "add_jitter (rt_snd rt) d (c, w) = lift_snd (add_jitter rt d) (c, w)"
  by (simp add: add_jitter_def lift_snd_def split: prod.splits)

lemma calculate_delay_snd:
  "calculate_delay (rt_snd rt) (policy_snd p) n (c, w) = lift_snd (calculate_delay rt p n) (c, w)"
  by (auto simp: calculate_delay_def policy_snd_def lift_snd_def [abs_def] add_jitter_snd Let_def
      split: option.splits prod.splits)

lemma before_next_attempt_snd:
  "before_next_attempt (rt_snd rt) (policy_snd p) n e (c, w)
   = lift_snd (before_next_attempt rt p n e) (c, w)"
proof -
  define w1 where "w1 = (case rp_on_retry p of None \<Rightarrow> w | Some f \<Rightarrow> f n e w)"
  have "(case rp_on_retry (policy_snd p) of None \<Rightarrow> (c, w) | Some f \<Rightarrow> f n e (c, w)) = (c, w1)"
    by (simp add: policy_snd_def w1_def split: option.splits)
  then show ?thesis
    by (simp add: before_next_attempt_def calculate_delay_snd lift_snd_def w1_def split: prod.splits)
qed

lemma execute_loop_counted:
  "\<exists>k. execute_loop (rt_snd rt) (policy_snd p) (counted m) i last_err (n, w)
       = (case execute_loop rt p m i last_err w of (r, w') \<Rightarrow> (r, (n + k, w')))
     \<and> int k \<le> max 0 (rp_max_attempts p + 1 - i) \<and> (i \<le> rp_max_attempts p \<longrightarrow> 1 \<le> k)"
proof (induction rt p m i last_err w arbitrary: n rule: execute_loop.induct)
  case (1 rt p m i last_err w)
  have exhausted: "attempts_exhausted (policy_snd p) = attempts_exhausted p"
    by (simp add: attempts_exhausted_def fun_eq_iff)
  obtain r w1 where m: "m w = (r, w1)" by (cases "m w")
  consider (over) "rp_max_attempts p < i"
    | (ok) a where "i \<le> rp_max_attempts p" "r = Inr a"
    | (stop) e where "i \<le> rp_max_attempts p" "r = Inl e" "\<not> is_retryable p (Some e)"
    | (last) e where "i = rp_max_attempts p" "r = Inl e" "is_retryable p (Some e)"
    | (more) e where "i < rp_max_attempts p" "r = Inl e" "is_retryable p (Some e)"
    by (cases r) (metis not_le_imp_less order_le_less)+
  then show ?case
  proof cases
    case more
    obtain d c w2 where b: "before_next_attempt rt p i e w1 = ((d, c), w2)" by (metis surj_pair)
    show ?thesis
    proof (cases c)
      case None
      have IH: "\<And>n. \<exists>k. execute_loop (rt_snd rt) (policy_snd p) (counted m) (i + 1) (Some e) (n, w2)
         = (case execute_loop rt p m (i + 1) (Some e) w2 of (r, w') \<Rightarrow> (r, (n + k, w')))
         \<and> int k \<le> max 0 (rp_max_attempts p + 1 - (i + 1))
         \<and> (i + 1 \<le> rp_max_attempts p \<longrightarrow> 1 \<le> k)"
        using 1 [OF _ m [symmetric] more(2) _ _ b [symmetric] refl None] more by simp
      then obtain k where
        "execute_loop (rt_snd rt) (policy_snd p) (counted m) (i + 1) (Some e) (n + 1, w2)
         = (case execute_loop rt p m (i + 1) (Some e) w2 of (r, w') \<Rightarrow> (r, (n + 1 + k, w')))"
        "int k \<le> max 0 (rp_max_attempts p + 1 - (i + 1))" by blast
      with more m b None show ?thesis
        by (intro exI [of _ "k + 1"], subst execute_loop.simps, subst (2) execute_loop.simps)
           (simp add: counted_def before_next_attempt_snd lift_snd_def split: prod.splits)
    next
      case (Some ce)
      with more m b show ?thesis
        by (intro exI [of _ 1], subst execute_loop.simps, subst (2) execute_loop.simps)
           (simp add: counted_def before_next_attempt_snd lift_snd_def)
    qed
  qed (use m in \<open>subst execute_loop.simps, subst (2) execute_loop.simps,
         auto simp: counted_def exhausted intro: exI [of _ 0] exI [of _ 1]\<close>)+
qed

lemma execute_counted:
  "\<exists>k. execute (rt_snd rt) (policy_snd p) (counted m) (0, w)
       = (fst (execute rt p m w), (k, snd (execute rt p m w)))
     \<and> int k \<le> max 0 (rp_max_attempts p) \<and> (1 \<le> rp_max_attempts p \<longrightarrow> 1 \<le> k)"
  using execute_loop_counted [of rt p m 1 None 0 w] unfolding execute_def case_prod_beta by simp

section \<open>With a circuit breaker\<close>

definition execute_with_circuit_breaker :: "'w runtime \<Rightarrow> ('w, 'a) io \<Rightarrow> (breaker \<times> 'w, 'a) io" where
  "execute_with_circuit_breaker rt operation = (\<lambda>s.
     case cb_execute rt operation s of
       (Inl err, s') \<Rightarrow> (Inl err, s')
     | (Inr result, s') \<Rightarrow> (Inr result, s'))"

definition execute_with_retry_and_circuit_breaker ::
  "'w runtime \<Rightarrow> 'w retry_policy \<Rightarrow> ('w, 'a) io \<Rightarrow> (breaker \<times> 'w, 'a) io" where
  "execute_with_retry_and_circuit_breaker rt p operation =
     execute (rt_snd rt) (policy_snd p) (execute_with_circuit_breaker rt operation)"

lemma execute_with_circuit_breaker_eq [simp]:
  "execute_with_circuit_breaker rt operation = cb_execute rt operation"
  by (auto simp: execute_with_circuit_breaker_def fun_eq_iff split: prod.splits sum.splits)

lemma execute_loop_keeps:
  assumes "io_keeps P operation" and "\<And>n e. io_keeps P (\<lambda>w. (Inr (), snd (before_next_attempt rt p n e w)))"
  shows "io_keeps P (execute_loop rt p operation i last_err)"
proof -
  have "P w \<longrightarrow> P (snd (execute_loop rt p operation i last_err w))" for w
    using assms
  proof (induction rt p operation i last_err w rule: execute_loop.induct)
    case (1 rt p operation i last_err w)
    have bn: "P w \<Longrightarrow> P w'" if "before_next_attempt rt p n e w = (x, w')" for n e w x w'
      using 1(3) [of n e] that by (force simp: io_keeps_def)
    have opk: "P w \<Longrightarrow> P w'" if "operation w = (x, w')" for w x w'
      using 1(2) that by (force simp: io_keeps_def)
    have IH: "P w2 \<Longrightarrow> P (snd (execute_loop rt p operation (i + 1) (Some e) w2))"
      if "i \<le> rp_max_attempts p" "operation w = (Inl e, w1)" "is_retryable p (Some e)"
        "i \<noteq> rp_max_attempts p" "before_next_attempt rt p i e w1 = ((d, None), w2)" for e w1 d w2
      using 1(1) [OF that(1) that(2) [symmetric] refl _ that(4) that(5) [symmetric] refl refl 1(2,3)] that(3)
      by simp
    show ?case
      by (subst execute_loop.simps)
        (auto split: prod.splits sum.splits option.splits intro: IH dest: bn opk)
  qed
  then show ?thesis by (simp add: io_keeps_def)
qed

lemma execute_with_retry_and_circuit_breaker_inv:
  "io_keeps (\<lambda>s. breaker_inv (fst s)) (execute_with_retry_and_circuit_breaker rt p operation)"
  unfolding execute_with_retry_and_circuit_breaker_def execute_def execute_with_circuit_breaker_eq
proof (rule execute_loop_keeps [OF cb_execute_inv])
  show "io_keeps (\<lambda>s. breaker_inv (fst s))
          (\<lambda>w. (Inr (), snd (before_next_attempt (rt_snd rt) (policy_snd p) n e w)))" for n e
    by (auto simp: io_keeps_def before_next_attempt_snd lift_snd_def split: prod.splits)
qed

lemma retry_stops_at_open_breaker:
  assumes "cb_state cb = StateOpen" and "rt_now rt w = (now, w')"
    and "time_sub now (cb_last_failure_time cb) \<le> cb_reset_timeout cb"
    and "\<not> is_retryable p (Some (BreakerError (cb_name cb) StateOpen))" and "1 \<le> rp_max_attempts p"
  shows "execute_with_retry_and_circuit_breaker rt p operation (cb, w)
         = (Inl (non_retryable 1 (BreakerError (cb_name cb) StateOpen)), (cb, w'))"
  using assms(4,5) cb_execute_open [OF assms(1-3), of operation]
  by (simp add: execute_with_retry_and_circuit_breaker_def execute_def execute_loop.simps)

text \<open>
  What every call of the operation and every wait does to the world, the whole execution does;
  and a success is the operation's own.
\<close>

lemma retried_rel:
  assumes "retried rt p operation i w j w1"
    and "reflp Q" and "transp Q"
    and "\<And>w r w'. operation w = (r, w') \<Longrightarrow> Q w w'"
    and "\<And>n e w x w'. before_next_attempt rt p n e w = (x, w') \<Longrightarrow> Q w w'"
  shows "Q w w1"
  using assms(1)
proof (induction rule: retried.induct)
  case (start i w)
  show ?case using assms(2) by (rule reflpD)
next
  case (again w err w1 i d w2 j w3)
  then have "Q w w1" and "Q w1 w2" and "Q w2 w3" using assms(4,5) by blast+
  then show ?case using transpD [OF assms(3)] by blast
qed

lemma execute_rel:
  assumes run: "execute rt p operation w = (r, w')"
    and Q: "reflp Q" "transp Q"
    and op: "\<And>w r w'. operation w = (r, w') \<Longrightarrow> Q w w'"
    and bn: "\<And>n e w x w'. before_next_attempt rt p n e w = (x, w') \<Longrightarrow> Q w w'"
  shows "Q w w'" and "r = Inr a \<Longrightarrow> \<exists>w1. Q w w1 \<and> operation w1 = (Inr a, w')"
proof -
  show "Q w w'"
  proof (cases "1 \<le> rp_max_attempts p")
    case True
    then obtain j w1 where r: "retried rt p operation 1 w j w1"
      and f: "final_attempt rt p operation j w1 (r, w')"
      using execute_final [of p rt operation w] run by metis
    have "Q w w1" using retried_rel [OF r Q op bn] .
    moreover have "Q w1 w'" using f op bn transpD [OF Q(2)]
      by (auto simp: final_attempt_def split: prod.splits sum.splits) blast+
    ultimately show ?thesis using transpD [OF Q(2)] by blast
  next
    case False
    then have "w' = w" using run by (simp add: execute_no_attempts)
    then show ?thesis using reflpD [OF Q(1)] by simp
  qed
  assume "r = Inr a"
  with run have "execute rt p operation w = (Inr a, w')" by simp
  then obtain j w1 where r: "retried rt p operation 1 w j w1" and s: "operation w1 = (Inr a, w')"
    unfolding execute_success_iff by blast
  have "Q w w1" using retried_rel [OF r Q op bn] .
  with s show "\<exists>w1. Q w w1 \<and> operation w1 = (Inr a, w')" by blast
qed

lemma cb_execute_rel:
  assumes run: "cb_execute rt fn (cb, w) = (r, (cb', w'))"
    and Q: "reflp Q" "transp Q" and fn: "\<And>w r w'. fn w = (r, w') \<Longrightarrow> Q w w'"
    and now: "\<And>w t w'. rt_now rt w = (t, w') \<Longrightarrow> Q w w'"
  shows "Q w w'" and "r = Inr a \<Longrightarrow> \<exists>w1 w2. Q w w1 \<and> fn w1 = (Inr a, w2) \<and> Q w2 w'"
proof -
  obtain b cb1 w1 where ce: "can_execute rt (cb, w) = (b, (cb1, w1))" by (metis surj_pair)
  have "Q w w1"
    using ce now reflpD [OF Q(1)] transpD [OF Q(2)] unfolding can_execute_def
    by (cases "cb_state cb") (auto split: prod.splits if_splits, blast+)
  moreover have "(b \<and> (\<exists>w2. fn w1 = (r, w2) \<and> Q w2 w')) \<or> ((\<exists>e. r = Inl e) \<and> w' = w1)"
    using run ce now by (cases b) (auto simp: cb_execute_def split: prod.splits)
  ultimately show "Q w w'" and "r = Inr a \<Longrightarrow> \<exists>w1 w2. Q w w1 \<and> fn w1 = (Inr a, w2) \<and> Q w2 w'"
    using fn transpD [OF Q(2)] by blast+
qed

lemma execute_with_retry_and_circuit_breaker_rel:
  assumes run: "execute_with_retry_and_circuit_breaker rt p fn (cb, w) = (r, (cb', w'))"
    and Q: "reflp Q" "transp Q" and fn: "\<And>w r w'. fn w = (r, w') \<Longrightarrow> Q w w'"
    and now: "\<And>w t w'. rt_now rt w = (t, w') \<Longrightarrow> Q w w'"
    and bn: "\<And>n e w x w'. before_next_attempt rt p n e w = (x, w') \<Longrightarrow> Q w w'"
  shows "Q w w'" and "r = Inr a \<Longrightarrow> \<exists>w1 w2. Q w w1 \<and> fn w1 = (Inr a, w2) \<and> Q w2 w'"
proof -
  let ?Q = "\<lambda>s s'. Q (snd s) (snd s')"
  have QQ: "reflp ?Q" "transp ?Q"
    using reflpD [OF Q(1)] transpD [OF Q(2)] by (auto intro!: reflpI transpI)
  have run': "execute (rt_snd rt) (policy_snd p) (cb_execute rt fn) (cb, w) = (r, (cb', w'))"
    using run by (simp add: execute_with_retry_and_circuit_breaker_def)
  have op: "?Q s s'" if "cb_execute rt fn s = (x, s')" for s x s'
  proof -
    have "cb_execute rt fn (fst s, snd s) = (x, (fst s', snd s'))" using that by simp
    from cb_execute_rel(1) [OF this Q fn now] show ?thesis .
  qed
  have bnd: "?Q s s'" if "before_next_attempt (rt_snd rt) (policy_snd p) n e s = (x, s')" for n e s x s'
    using that bn [of n e "snd s" x "snd s'"]
    by (cases s) (auto simp: before_next_attempt_snd lift_snd_def split: prod.splits)
  show "Q w w'" using execute_rel(1) [OF run' QQ op bnd] by simp
  assume r: "r = Inr a"
  have "\<exists>s1. ?Q (cb, w) s1 \<and> cb_execute rt fn s1 = (Inr a, (cb', w'))"
    by (rule execute_rel(2) [OF run' QQ _ _ r]) (use op bnd in blast)+
  then obtain s1 where s1: "Q w (snd s1)" "cb_execute rt fn s1 = (Inr a, (cb', w'))" by auto
  then have c: "cb_execute rt fn (fst s1, snd s1) = (Inr a, (cb', w'))" by simp
  have "\<exists>w1 w2. Q (snd s1) w1 \<and> fn w1 = (Inr a, w2) \<and> Q w2 w'"
    by (rule cb_execute_rel(2) [OF c Q _ _ refl]) (use fn now in blast)+
  then obtain w1 w2 where "Q (snd s1) w1" "fn w1 = (Inr a, w2)" "Q w2 w'" by blast
  then show "\<exists>w1 w2. Q w w1 \<and> fn w1 = (Inr a, w2) \<and> Q w2 w'"
    using s1(1) transpD [OF Q(2)] by blast
qed

text \<open>Waiting keeps what the clock, the random source and the timer keep, if the policy has no callback.\<close>

lemma add_jitter_rel:
  assumes "add_jitter rt d w = (d', w')" and "\<And>w u w'. rt_rand rt w = (u, w') \<Longrightarrow> Q w w'"
  shows "Q w w'"
  using assms by (auto simp: add_jitter_def split: prod.splits)

definition pure_backoff :: "'w backoff \<Rightarrow> bool" where
  "pure_backoff b \<longleftrightarrow> (\<forall>n d w. snd (b n d w) = w)"

lemma pure_backoffs [simp]:
  "pure_backoff (exponential_backoff rt)" "pure_backoff linear_backoff" "pure_backoff fixed_backoff"
  "pure_backoff (api_rate_limit_backoff rt)" "pure_backoff (network_backoff rt)"
  by (simp_all add: pure_backoff_def exponential_backoff_def linear_backoff_def fixed_backoff_def
      api_rate_limit_backoff_def network_backoff_def)

lemma before_next_attempt_rel:
  assumes run: "before_next_attempt rt p n e w = (x, w')" and Q: "reflp Q" "transp Q"
    and p: "rp_on_retry p = None" "\<And>b. rp_backoff p = Some b \<Longrightarrow> pure_backoff b"
    and rand: "\<And>w u w'. rt_rand rt w = (u, w') \<Longrightarrow> Q w w'"
    and wait: "\<And>d w c w'. rt_wait rt d w = (c, w') \<Longrightarrow> Q w w'"
  shows "Q w w'"
proof -
  obtain d w1 where cd: "calculate_delay rt p n w = (d, w1)" by (metis surj_pair)
  have "Q w w1"
  proof (cases "rp_backoff p")
    case None
    then show ?thesis using cd reflpD [OF Q(1)] by (simp add: calculate_delay_def)
  next
    case (Some b)
    then have "snd (b n (rp_base_delay p) w) = w" using p(2) by (simp add: pure_backoff_def)
    then show ?thesis
      using cd Some add_jitter_rel [of rt _ w d w1 Q, OF _ rand] reflpD [OF Q(1)]
      by (auto simp: calculate_delay_def Let_def split: prod.splits if_splits)
  qed
  moreover have "Q w1 w'" using run p(1) cd wait by (auto simp: before_next_attempt_def split: prod.splits)
  ultimately show ?thesis using transpD [OF Q(2)] by blast
qed

section \<open>With statistics\<close>

record 'a execution_result =
  er_outcome :: "go_error + 'a"
  er_attempts :: int
  er_total_duration :: duration
  er_last_delay :: duration

definition stats_result ::
  "'w runtime \<Rightarrow> instant \<Rightarrow> go_error + 'a \<Rightarrow> int \<Rightarrow> duration \<Rightarrow> 'w \<Rightarrow> 'a execution_result \<times> 'w" where
  "stats_result rt start_time outcome attempts last_delay w =
     (let (now, w') = rt_now rt w
      in (\<lparr>er_outcome = outcome, er_attempts = attempts,
           er_total_duration = time_sub now start_time, er_last_delay = last_delay\<rparr>, w'))"

function stats_loop ::
  "'w runtime \<Rightarrow> 'w retry_policy \<Rightarrow> ('w, 'a) io \<Rightarrow> instant \<Rightarrow> int \<Rightarrow> go_error option \<Rightarrow> duration \<Rightarrow> 'w
   \<Rightarrow> 'a execution_result \<times> 'w" where
  "stats_loop rt p operation start_time attempt last_err last_delay w =
     (if attempt \<le> rp_max_attempts p
      then (case operation w of
              (Inr result, w1) \<Rightarrow> stats_result rt start_time (Inr result) attempt last_delay w1
            | (Inl err, w1) \<Rightarrow>
                if \<not> is_retryable p (Some err)
                then stats_result rt start_time (Inl (non_retryable attempt err)) attempt last_delay w1
                else if attempt = rp_max_attempts p
                then stats_result rt start_time (Inl (attempts_exhausted p (Some err)))
                       (rp_max_attempts p) last_delay w1
                else (case before_next_attempt rt p attempt err w1 of
                        ((delay, Some e), w2) \<Rightarrow> stats_result rt start_time (Inl e) attempt delay w2
                      | ((delay, None), w2) \<Rightarrow>
                          stats_loop rt p operation start_time (attempt + 1) (Some err) delay w2))
      else stats_result rt start_time (Inl (attempts_exhausted p last_err)) (rp_max_attempts p)
             last_delay w)"
  by pat_completeness auto
termination
  by (relation "measure (\<lambda>(rt, p, operation, start_time, attempt, last_err, last_delay, w).
                           nat (rp_max_attempts p + 1 - attempt))") auto

declare stats_loop.simps [simp del]

definition execute_with_stats ::
  "'w runtime \<Rightarrow> 'w retry_policy \<Rightarrow> ('w, 'a) io \<Rightarrow> 'w \<Rightarrow> 'a execution_result \<times> 'w" where
  "execute_with_stats rt p operation w =
     (let (start_time, w1) = rt_now rt w in stats_loop rt p operation start_time 1 None 0 w1)"

text \<open>The statistics are about the same run as \<open>Execute\<close>, when reading the clock changes nothing.\<close>

lemma stats_loop_outcome:
  assumes "\<And>w. snd (rt_now rt w) = w"
  shows "er_outcome (fst (stats_loop rt p operation s i last_err d w))
           = fst (execute_loop rt p operation i last_err w)
         \<and> snd (stats_loop rt p operation s i last_err d w)
           = snd (execute_loop rt p operation i last_err w)"
  using assms
proof (induction rt p operation s i last_err d w rule: stats_loop.induct)
  case (1 rt p operation s i last_err d w)
  have fin: "er_outcome (fst (stats_result rt s out n dl w1)) = out
             \<and> snd (stats_result rt s out n dl w1) = w1" for out :: "go_error + 'b" and n dl w1
    using 1(2) [of w1] by (auto simp: stats_result_def Let_def split: prod.splits)
  have IH: "er_outcome (fst (stats_loop rt p operation s (i + 1) (Some e) dl w2))
              = fst (execute_loop rt p operation (i + 1) (Some e) w2)
            \<and> snd (stats_loop rt p operation s (i + 1) (Some e) dl w2)
              = snd (execute_loop rt p operation (i + 1) (Some e) w2)"
    if "i \<le> rp_max_attempts p" "operation w = (Inl e, w1)" "is_retryable p (Some e)"
      "i \<noteq> rp_max_attempts p" "before_next_attempt rt p i e w1 = ((dl, None), w2)" for e w1 dl w2
    using 1(1) [OF that(1) that(2) [symmetric] refl _ that(4) that(5) [symmetric] refl refl 1(2)] that(3)
    by simp
  show ?case
    by (subst (1 2) stats_loop.simps, subst (1 2) execute_loop.simps)
       (auto simp: fin IH split: prod.splits sum.splits option.splits)
qed

lemma stats_loop_attempts:
  assumes "1 \<le> i" and "i \<le> rp_max_attempts p"
  shows "i \<le> er_attempts (fst (stats_loop rt p operation s i last_err d w))
         \<and> er_attempts (fst (stats_loop rt p operation s i last_err d w)) \<le> rp_max_attempts p"
  using assms
proof (induction rt p operation s i last_err d w rule: stats_loop.induct)
  case (1 rt p operation s i last_err d w)
  have fin: "er_attempts (fst (stats_result rt s out n dl w1)) = n"
    for out :: "go_error + 'b" and n dl w1
    by (simp add: stats_result_def split: prod.splits)
  have IH: "i + 1 \<le> er_attempts (fst (stats_loop rt p operation s (i + 1) (Some e) dl w2))
            \<and> er_attempts (fst (stats_loop rt p operation s (i + 1) (Some e) dl w2)) \<le> rp_max_attempts p"
    if "operation w = (Inl e, w1)" "is_retryable p (Some e)"
      "i \<noteq> rp_max_attempts p" "before_next_attempt rt p i e w1 = ((dl, None), w2)" for e w1 dl w2
    using 1(1) [OF 1(3) that(1) [symmetric] refl _ that(3) that(4) [symmetric] refl refl] that 1(2,3)
    by simp
  have IH': "i \<le> er_attempts (fst (stats_loop rt p operation s (i + 1) (Some e) dl w2))"
    if "operation w = (Inl e, w1)" "is_retryable p (Some e)"
      "i \<noteq> rp_max_attempts p" "before_next_attempt rt p i e w1 = ((dl, None), w2)" for e w1 dl w2
    using IH [OF that] by simp
  show ?case
    using 1(2,3) by (subst (1 2) stats_loop.simps)
       (auto simp: fin IH IH' split: prod.splits sum.splits option.splits)
qed

lemma execute_with_stats_outcome:
  assumes "\<And>w. snd (rt_now rt w) = w"
  shows "er_outcome (fst (execute_with_stats rt p operation w)) = fst (execute rt p operation w)"
    and "snd (execute_with_stats rt p operation w) = snd (execute rt p operation w)"
  by (simp_all add: execute_with_stats_def execute_def Let_def case_prod_beta assms
      stats_loop_outcome [OF assms])

section \<open>Wrappers\<close>

record ('w, 'a) retryable_wrapper =
  rw_policy :: "'w retry_policy"
  rw_operation :: "('w, 'a) io"

definition new_retryable_wrapper :: "'w retry_policy \<Rightarrow> ('w, 'a) io \<Rightarrow> ('w, 'a) retryable_wrapper" where
  "new_retryable_wrapper p operation = \<lparr>rw_policy = p, rw_operation = operation\<rparr>"

definition rw_execute :: "'w runtime \<Rightarrow> ('w, 'a) retryable_wrapper \<Rightarrow> ('w, 'a) io" where
  "rw_execute rt rw = execute rt (rw_policy rw) (rw_operation rw)"

definition rw_execute_with_stats ::
  "'w runtime \<Rightarrow> ('w, 'a) retryable_wrapper \<Rightarrow> 'w \<Rightarrow> 'a execution_result \<times> 'w" where
  "rw_execute_with_stats rt rw = execute_with_stats rt (rw_policy rw) (rw_operation rw)"

definition rw_update_policy :: "'w retry_policy \<Rightarrow> ('w, 'a) retryable_wrapper \<Rightarrow> ('w, 'a) retryable_wrapper" where
  "rw_update_policy p rw = rw\<lparr>rw_policy := p\<rparr>"

section \<open>Batches\<close>

text \<open>
  \<open>ExecuteBatch\<close> starts one goroutine per operation. Each acquires a slot of the semaphore, runs
  \<open>Execute\<close>, sends its result on a channel with room for all of them, and releases its slot. The
  step relation lets the goroutines interleave; \<open>may_return i r\<close> says that running operation
  \<open>i\<close> can give \<open>r\<close>. The caller receives the results in the order they were sent.
\<close>

datatype worker = Waiting | Acquired | Sent | Finished

record 'a batch =
  ba_workers :: "worker list"
  ba_chan :: "(nat \<times> 'a) list"

definition effective_concurrency :: "int \<Rightarrow> nat \<Rightarrow> int" where
  "effective_concurrency max_concurrency n = (if max_concurrency \<le> 0 then int n else max_concurrency)"

definition batch_start :: "nat \<Rightarrow> 'a batch" where
  "batch_start n = \<lparr>ba_workers = replicate n Waiting, ba_chan = []\<rparr>"

definition holds_slot :: "worker \<Rightarrow> bool" where
  "holds_slot wk \<longleftrightarrow> wk = Acquired \<or> wk = Sent"

definition slots_used :: "'a batch \<Rightarrow> nat" where
  "slots_used b = length (filter holds_slot (ba_workers b))"

inductive batch_step :: "int \<Rightarrow> (nat \<Rightarrow> 'a \<Rightarrow> bool) \<Rightarrow> 'a batch \<Rightarrow> 'a batch \<Rightarrow> bool"
  for limit may_return where
  acquire: "i < length (ba_workers b) \<Longrightarrow> ba_workers b ! i = Waiting \<Longrightarrow> int (slots_used b) < limit \<Longrightarrow>
    batch_step limit may_return b (b\<lparr>ba_workers := (ba_workers b)[i := Acquired]\<rparr>)"
| send: "i < length (ba_workers b) \<Longrightarrow> ba_workers b ! i = Acquired \<Longrightarrow> may_return i r \<Longrightarrow>
    batch_step limit may_return b
      (b\<lparr>ba_workers := (ba_workers b)[i := Sent], ba_chan := ba_chan b @ [(i, r)]\<rparr>)"
| release: "i < length (ba_workers b) \<Longrightarrow> ba_workers b ! i = Sent \<Longrightarrow>
    batch_step limit may_return b (b\<lparr>ba_workers := (ba_workers b)[i := Finished]\<rparr>)"

inductive batch_reachable :: "int \<Rightarrow> (nat \<Rightarrow> 'a \<Rightarrow> bool) \<Rightarrow> nat \<Rightarrow> 'a batch \<Rightarrow> bool"
  for limit may_return n where
  init: "batch_reachable limit may_return n (batch_start n)"
| step: "batch_reachable limit may_return n b \<Longrightarrow> batch_step limit may_return b b' \<Longrightarrow>
    batch_reachable limit may_return n b'"

text \<open>The collecting loop: the results slice starts with zero values.\<close>

definition collect_results :: "'a \<Rightarrow> nat \<Rightarrow> (nat \<times> 'a) list \<Rightarrow> 'a list" where
  "collect_results zero n received = fold (\<lambda>(i, r) rs. rs[i := r]) received (replicate n zero)"

definition sent_or_done :: "worker \<Rightarrow> bool" where
  "sent_or_done wk \<longleftrightarrow> wk = Sent \<or> wk = Finished"

definition batch_inv :: "int \<Rightarrow> (nat \<Rightarrow> 'a \<Rightarrow> bool) \<Rightarrow> nat \<Rightarrow> 'a batch \<Rightarrow> bool" where
  "batch_inv limit may_return n b \<longleftrightarrow>
     length (ba_workers b) = n \<and> int (slots_used b) \<le> max 0 limit
     \<and> distinct (map fst (ba_chan b))
     \<and> (\<forall>i. i \<in> fst ` set (ba_chan b) \<longleftrightarrow> i < n \<and> sent_or_done (ba_workers b ! i))
     \<and> (\<forall>(i, r) \<in> set (ba_chan b). may_return i r)"

lemma length_filter_update:
  assumes "i < length xs"
  shows "length (filter P (xs[i := x])) + (if P (xs ! i) then 1 else 0)
         = length (filter P xs) + (if P x then 1 else 0)"
  using assms
proof (induction xs arbitrary: i)
  case (Cons y ys)
  then show ?case using Cons.IH [of "i - 1"] by (cases i) auto
qed simp

lemma slots_used_update:
  "i < length (ba_workers b) \<Longrightarrow>
   slots_used (b\<lparr>ba_workers := (ba_workers b)[i := wk]\<rparr>) + (if holds_slot (ba_workers b ! i) then 1 else 0)
   = slots_used b + (if holds_slot wk then 1 else 0)"
  unfolding slots_used_def by (simp add: length_filter_update)

lemma slots_used_chan [simp]: "slots_used (b\<lparr>ba_chan := c\<rparr>) = slots_used b"
  by (simp add: slots_used_def)

lemma batch_inv_start: "batch_inv limit may_return n (batch_start n)"
  by (auto simp: batch_inv_def batch_start_def slots_used_def holds_slot_def sent_or_done_def)

lemma batch_inv_step:
  assumes "batch_step limit may_return b b'" and "batch_inv limit may_return n b"
  shows "batch_inv limit may_return n b'"
  using assms
proof (induction rule: batch_step.induct)
  case (acquire i b)
  then show ?case using slots_used_update [of i b Acquired]
    by (auto simp: batch_inv_def holds_slot_def sent_or_done_def nth_list_update)
next
  case (send i b r)
  then have "i \<notin> fst ` set (ba_chan b)" by (auto simp: batch_inv_def sent_or_done_def)
  moreover have "slots_used (b\<lparr>ba_workers := (ba_workers b)[i := Sent], ba_chan := ba_chan b @ [(i, r)]\<rparr>)
                 = slots_used b"
    using send slots_used_update [of i b Sent] by (simp add: holds_slot_def slots_used_def)
  ultimately show ?case using send
    by (auto simp: batch_inv_def sent_or_done_def nth_list_update)
next
  case (release i b)
  then show ?case using slots_used_update [of i b Finished]
    by (auto simp: batch_inv_def holds_slot_def sent_or_done_def nth_list_update)
qed

lemma batch_reachable_inv:
  "batch_reachable limit may_return n b \<Longrightarrow> batch_inv limit may_return n b"
  by (induction rule: batch_reachable.induct) (auto intro: batch_inv_start batch_inv_step)

lemma collect_results_nth:
  assumes "distinct (map fst kvs)" and "(i, r) \<in> set kvs" and "i < length rs"
  shows "fold (\<lambda>(i, r) rs. rs[i := r]) kvs rs ! i = r"
proof -
  have len: "length (fold (\<lambda>(i, r) rs. rs[i := r]) kvs rs) = length rs" for kvs :: "(nat \<times> 'a) list" and rs
    by (induction kvs arbitrary: rs) auto
  have other: "i \<notin> fst ` set kvs \<Longrightarrow> fold (\<lambda>(i, r) rs. rs[i := r]) kvs rs ! i = rs ! i"
    for kvs :: "(nat \<times> 'a) list" and rs
    by (induction kvs arbitrary: rs) auto
  show ?thesis using assms
    by (induction kvs arbitrary: rs) (auto simp: other)
qed

text \<open>When every goroutine has sent its result, each slot of the slice holds its own operation's result.\<close>

lemma collect_results_complete:
  assumes "batch_inv limit may_return n b" and "length (ba_chan b) = n" and "i < n"
  shows "may_return i (collect_results zero n (ba_chan b) ! i)"
proof -
  have sub: "fst ` set (ba_chan b) \<subseteq> {..<n}" using assms(1) by (auto simp: batch_inv_def)
  have "card (fst ` set (ba_chan b)) = n"
    using assms(1,2) by (metis batch_inv_def distinct_card length_map list.set_map)
  with sub have "fst ` set (ba_chan b) = {..<n}"
    by (metis card_lessThan card_subset_eq finite_lessThan)
  with assms(3) have "i \<in> fst ` set (ba_chan b)" by simp
  then obtain r where r: "(i, r) \<in> set (ba_chan b)" by auto
  have "collect_results zero n (ba_chan b) ! i = r"
    unfolding collect_results_def
    using assms(1,3) r by (intro collect_results_nth) (auto simp: batch_inv_def)
  with r assms(1) show ?thesis by (auto simp: batch_inv_def)
qed

text \<open>As long as an operation has a result to give, the batch never gets stuck before the end.\<close>

lemma batch_progress:
  assumes inv: "batch_inv limit may_return n b" and "0 < limit"
    and total: "\<And>i. i < n \<Longrightarrow> \<exists>r. may_return i r"
    and unfinished: "\<exists>i < n. ba_workers b ! i \<noteq> Finished"
  shows "\<exists>b'. batch_step limit may_return b b'"
proof -
  have len: "length (ba_workers b) = n" using inv by (simp add: batch_inv_def)
  show ?thesis
  proof (cases "\<exists>i < n. holds_slot (ba_workers b ! i)")
    case True
    then show ?thesis using total len by (auto simp: holds_slot_def intro: batch_step.intros)
  next
    case False
    then have "slots_used b = 0"
      using len by (auto simp: slots_used_def filter_empty_conv in_set_conv_nth)
    moreover obtain i where "i < n" "ba_workers b ! i = Waiting"
      using unfinished False by (metis holds_slot_def worker.exhaust)
    ultimately show ?thesis using assms(2) len batch_step.acquire [of i b limit may_return] by auto
  qed
qed

end
