(* ===== verification/RetryConfig.thy ===== *)
theory RetryConfig
  imports RetryExec GoFmt
begin

text \<open>
  internal/retry/config.go: the retry configuration, its validation and defaults, and the policies
  built from it. Proved: a configuration that validates always converts, to policies that run the
  operation at least once and to breakers that keep the breaker invariant; \<open>SetDefaults\<close> is
  idempotent and leaves nothing unset.
\<close>

record policy_config =
  pc_max_attempts :: int
  pc_base_delay :: duration
  pc_max_delay :: duration
  pc_backoff_strategy :: string
  pc_jitter :: bool
  pc_retryable_errors :: "string list"
  pc_non_retryable_errors :: "string list"

record breaker_config =
  bc_failure_threshold :: int
  bc_reset_timeout :: duration
  bc_enabled :: bool

record retry_config =
  rc_default_policy :: policy_config
  rc_circuit_breakers :: "(string, breaker_config) gomap option"
  rc_operation_policies :: "(string, policy_config) gomap option"

definition policy_cfg :: "int \<Rightarrow> duration \<Rightarrow> duration \<Rightarrow> string \<Rightarrow> bool \<Rightarrow> policy_config" where
  "policy_cfg n base mx strategy jitter =
     \<lparr>pc_max_attempts = n, pc_base_delay = base, pc_max_delay = mx, pc_backoff_strategy = strategy,
      pc_jitter = jitter, pc_retryable_errors = [], pc_non_retryable_errors = []\<rparr>"

definition default_retry_config :: retry_config where
  "default_retry_config =
     \<lparr>rc_default_policy = policy_cfg 3 second (30 * second) ''exponential_jitter'' True,
      rc_circuit_breakers = Some
        [(''s3_operations'', \<lparr>bc_failure_threshold = 5, bc_reset_timeout = 60 * second, bc_enabled = True\<rparr>),
         (''connector_auth'', \<lparr>bc_failure_threshold = 3, bc_reset_timeout = 5 * minute, bc_enabled = True\<rparr>),
         (''api_operations'', \<lparr>bc_failure_threshold = 10, bc_reset_timeout = 2 * minute, bc_enabled = True\<rparr>)],
      rc_operation_policies = Some
        [(''s3_upload'', policy_cfg 5 (2 * second) (120 * second) ''exponential'' True),
         (''s3_download'', policy_cfg 5 second (60 * second) ''exponential'' True),
         (''delta_commit'', policy_cfg 3 (500 * millisecond) (10 * second) ''linear'' False),
         (''connector_auth'', policy_cfg 3 (2 * second) (30 * second) ''fixed'' False),
         (''api_request'', policy_cfg 4 second (30 * second) ''api_rate_limit'' True),
         (''database_query'', policy_cfg 3 second (15 * second) ''linear'' False)]\<rparr>"

section \<open>Conversion\<close>

definition parse_backoff_strategy :: "'w runtime \<Rightarrow> string \<Rightarrow> go_error + 'w backoff" where
  "parse_backoff_strategy rt strategy =
     (if strategy = [] \<or> strategy = ''exponential'' then Inr (exponential_backoff rt)
      else if strategy = ''exponential_jitter'' then Inr (exponential_backoff_with_jitter rt)
      else if strategy = ''linear'' then Inr linear_backoff
      else if strategy = ''fixed'' then Inr fixed_backoff
      else if strategy = ''api_rate_limit'' then Inr (api_rate_limit_backoff rt)
      else if strategy = ''network'' then Inr (network_backoff rt)
      else Inl (Msg (''unknown backoff strategy: '' @ strategy)))"

text \<open>The custom predicate: non-retryable patterns first, then retryable ones, then the default.\<close>

fun custom_retryable :: "string list \<Rightarrow> string list \<Rightarrow> go_error option \<Rightarrow> bool" where
  "custom_retryable good bad None = False"
| "custom_retryable good bad (Some e) =
     (let text = to_lower (err_text e)
      in if list_ex (\<lambda>p. contains_fold text (to_lower p)) bad then False
         else if list_ex (\<lambda>p. contains_fold text (to_lower p)) good then True
         else default_retryable (Some e))"

definition to_retry_policy :: "'w runtime \<Rightarrow> policy_config \<Rightarrow> go_error + 'w retry_policy" where
  "to_retry_policy rt pc =
     (case parse_backoff_strategy rt (pc_backoff_strategy pc) of
        Inl e \<Rightarrow> Inl (Wrap (''invalid backoff strategy '' @ squoted (pc_backoff_strategy pc)) e)
      | Inr b \<Rightarrow> Inr
          \<lparr>rp_max_attempts = pc_max_attempts pc, rp_base_delay = pc_base_delay pc, rp_max_delay = pc_max_delay pc,
           rp_backoff = Some b,
           rp_retryable = Some (if pc_retryable_errors pc \<noteq> [] \<or> pc_non_retryable_errors pc \<noteq> []
                                then custom_retryable (pc_retryable_errors pc) (pc_non_retryable_errors pc)
                                else default_retryable),
           rp_on_retry = None, rp_jitter = pc_jitter pc\<rparr>)"

definition to_circuit_breaker :: "string \<Rightarrow> breaker_config \<Rightarrow> breaker" where
  "to_circuit_breaker name bc = new_circuit_breaker name (bc_failure_threshold bc) (bc_reset_timeout bc)"

definition get_operation_policy :: "'w runtime \<Rightarrow> retry_config \<Rightarrow> string \<Rightarrow> go_error + 'w retry_policy" where
  "get_operation_policy rt c operation =
     (case Option.bind (rc_operation_policies c) (\<lambda>m. map_of m operation) of
        Some policy \<Rightarrow> to_retry_policy rt policy
      | None \<Rightarrow> to_retry_policy rt (rc_default_policy c))"

definition get_circuit_breaker_config :: "retry_config \<Rightarrow> string \<Rightarrow> breaker_config option" where
  "get_circuit_breaker_config c name = Option.bind (rc_circuit_breakers c) (\<lambda>m. map_of m name)"

section \<open>Validation\<close>

definition valid_strategies :: "string list" where
  "valid_strategies = [''fixed'', ''linear'', ''exponential'', ''exponential_jitter'', ''api_rate_limit'', ''network'']"

definition validate_policy_config :: "policy_config \<Rightarrow> go_error option" where
  "validate_policy_config pc =
     (if pc_max_attempts pc \<le> 0
      then Some (Msg (''max_attempts must be positive, got '' @ dec (pc_max_attempts pc)))
      else if pc_base_delay pc \<le> 0
      then Some (Msg (''base_delay must be positive, got '' @ duration_text (pc_base_delay pc)))
      else if pc_max_delay pc \<le> 0
      then Some (Msg (''max_delay must be positive, got '' @ duration_text (pc_max_delay pc)))
      else if pc_max_delay pc < pc_base_delay pc
      then Some (Msg (''base_delay ('' @ duration_text (pc_base_delay pc)
             @ '') must be less than or equal to max_delay ('' @ duration_text (pc_max_delay pc) @ '')''))
      else if pc_backoff_strategy pc \<noteq> [] \<and> pc_backoff_strategy pc \<notin> set valid_strategies
      then Some (Msg (''invalid backoff_strategy '' @ squoted (pc_backoff_strategy pc)
             @ '', must be one of: '' @ slice_text valid_strategies))
      else None)"

definition validate_breaker_config :: "breaker_config \<Rightarrow> go_error option" where
  "validate_breaker_config bc =
     (if bc_failure_threshold bc \<le> 0
      then Some (Msg (''failure_threshold must be positive, got '' @ dec (bc_failure_threshold bc)))
      else if bc_reset_timeout bc \<le> 0
      then Some (Msg (''reset_timeout must be positive, got '' @ duration_text (bc_reset_timeout bc)))
      else None)"

text \<open>The first error of a range over a map, in the order the range visits it.\<close>

fun first_error :: "('a \<Rightarrow> go_error option) \<Rightarrow> (string \<Rightarrow> string) \<Rightarrow> (string \<times> 'a) list \<Rightarrow> go_error option" where
  "first_error check what [] = None"
| "first_error check what ((name, x) # xs) =
     (case check x of Some e \<Rightarrow> Some (Wrap (what name) e) | None \<Rightarrow> first_error check what xs)"

definition entries :: "('k, 'v) gomap option \<Rightarrow> ('k \<times> 'v) list" where
  "entries m = (case m of None \<Rightarrow> [] | Some kvs \<Rightarrow> kvs)"

definition validate_retry_config ::
  "((string \<times> breaker_config) list \<Rightarrow> (string \<times> breaker_config) list)
   \<Rightarrow> ((string \<times> policy_config) list \<Rightarrow> (string \<times> policy_config) list) \<Rightarrow> retry_config \<Rightarrow> go_error option" where
  "validate_retry_config ord1 ord2 c =
     (case validate_policy_config (rc_default_policy c) of
        Some e \<Rightarrow> Some (Wrap ''invalid default policy'' e)
      | None \<Rightarrow>
          (case first_error validate_breaker_config (\<lambda>n. ''invalid circuit breaker '' @ squoted n)
                  (ord1 (entries (rc_circuit_breakers c))) of
             Some e \<Rightarrow> Some e
           | None \<Rightarrow> first_error validate_policy_config (\<lambda>n. ''invalid operation policy '' @ squoted n)
                       (ord2 (entries (rc_operation_policies c)))))"

section \<open>Defaults\<close>

definition default_default_policy :: "policy_config \<Rightarrow> policy_config" where
  "default_default_policy p =
     p\<lparr>pc_max_attempts := (if pc_max_attempts p \<le> 0 then 3 else pc_max_attempts p),
       pc_base_delay := (if pc_base_delay p \<le> 0 then second else pc_base_delay p),
       pc_max_delay := (if pc_max_delay p \<le> 0 then 30 * second else pc_max_delay p),
       pc_backoff_strategy := (if pc_backoff_strategy p = [] then ''exponential_jitter'' else pc_backoff_strategy p)\<rparr>"

definition default_breaker_config :: "breaker_config \<Rightarrow> breaker_config" where
  "default_breaker_config b =
     b\<lparr>bc_failure_threshold := (if bc_failure_threshold b \<le> 0 then 5 else bc_failure_threshold b),
       bc_reset_timeout := (if bc_reset_timeout b \<le> 0 then minute else bc_reset_timeout b)\<rparr>"

definition default_operation_policy :: "policy_config \<Rightarrow> policy_config \<Rightarrow> policy_config" where
  "default_operation_policy d p =
     p\<lparr>pc_max_attempts := (if pc_max_attempts p \<le> 0 then pc_max_attempts d else pc_max_attempts p),
       pc_base_delay := (if pc_base_delay p \<le> 0 then pc_base_delay d else pc_base_delay p),
       pc_max_delay := (if pc_max_delay p \<le> 0 then pc_max_delay d else pc_max_delay p),
       pc_backoff_strategy := (if pc_backoff_strategy p = [] then pc_backoff_strategy d else pc_backoff_strategy p)\<rparr>"

text \<open>
  The loops write each entry back under its own name while ranging over the map, so the order plays
  no part.
\<close>

definition set_retry_defaults :: "retry_config \<Rightarrow> retry_config" where
  "set_retry_defaults c =
     (let d = default_default_policy (rc_default_policy c)
      in c\<lparr>rc_default_policy := d,
           rc_circuit_breakers := Some (map (\<lambda>(n, b). (n, default_breaker_config b)) (entries (rc_circuit_breakers c))),
           rc_operation_policies := Some (map (\<lambda>(n, p). (n, default_operation_policy d p)) (entries (rc_operation_policies c)))\<rparr>)"

section \<open>What validation promises\<close>

lemma validate_policy_config_None:
  "validate_policy_config pc = None \<longleftrightarrow>
     0 < pc_max_attempts pc \<and> 0 < pc_base_delay pc \<and> pc_base_delay pc \<le> pc_max_delay pc
     \<and> (pc_backoff_strategy pc = [] \<or> pc_backoff_strategy pc \<in> set valid_strategies)"
  by (auto simp: validate_policy_config_def)

lemma validate_breaker_config_None:
  "validate_breaker_config bc = None \<longleftrightarrow> 0 < bc_failure_threshold bc \<and> 0 < bc_reset_timeout bc"
  by (auto simp: validate_breaker_config_def)

lemma first_error_None: "first_error check what xs = None \<longleftrightarrow> (\<forall>(n, x) \<in> set xs. check x = None)"
  by (induction check what xs rule: first_error.induct) (auto split: option.splits)

lemma error_chain_None:
  "(case a of Some e \<Rightarrow> Some (f e) | None \<Rightarrow> (case b of Some e \<Rightarrow> Some e | None \<Rightarrow> c)) = None
   \<longleftrightarrow> a = None \<and> b = None \<and> c = None"
  by (auto split: option.splits)

lemma parse_backoff_strategy_valid:
  "(\<exists>b. parse_backoff_strategy rt s = Inr b) \<longleftrightarrow> s = [] \<or> s \<in> set valid_strategies"
  by (auto simp: parse_backoff_strategy_def valid_strategies_def)

lemma validated_policy_converts:
  assumes "validate_policy_config pc = None"
  shows "\<exists>p. to_retry_policy rt pc = Inr p \<and> 1 \<le> rp_max_attempts p \<and> rp_max_attempts p = pc_max_attempts pc
             \<and> rp_base_delay p \<le> rp_max_delay p"
proof -
  have pc: "0 < pc_max_attempts pc" "pc_base_delay pc \<le> pc_max_delay pc"
      "pc_backoff_strategy pc = [] \<or> pc_backoff_strategy pc \<in> set valid_strategies"
    using assms validate_policy_config_None by blast+
  obtain b where "parse_backoff_strategy rt (pc_backoff_strategy pc) = Inr b"
    using pc(3) parse_backoff_strategy_valid by blast
  then show ?thesis using pc by (simp add: to_retry_policy_def)
qed

text \<open>Whether a configuration validates does not depend on the iteration order; only the message does.\<close>

lemma validate_retry_config_None:
  assumes "iteration_order ord1" and "iteration_order ord2"
  shows "validate_retry_config ord1 ord2 c = None \<longleftrightarrow>
     validate_policy_config (rc_default_policy c) = None
     \<and> (\<forall>(n, b) \<in> set (entries (rc_circuit_breakers c)). validate_breaker_config b = None)
     \<and> (\<forall>(n, p) \<in> set (entries (rc_operation_policies c)). validate_policy_config p = None)"
  unfolding validate_retry_config_def error_chain_None first_error_None
  by (simp only: iteration_order_set [OF assms(1)] iteration_order_set [OF assms(2)])

lemma validated_operation_policy:
  assumes "validate_retry_config ord1 ord2 c = None" and "iteration_order ord1" and "iteration_order ord2"
  shows "\<exists>p. get_operation_policy rt c operation = Inr p \<and> 1 \<le> rp_max_attempts p \<and> rp_base_delay p \<le> rp_max_delay p"
proof -
  note v = assms(1) [unfolded validate_retry_config_None [OF assms(2,3)]]
  show ?thesis
  proof (cases "Option.bind (rc_operation_policies c) (\<lambda>m. map_of m operation)")
    case None
    then show ?thesis using v validated_policy_converts [of "rc_default_policy c" rt] by (auto simp: get_operation_policy_def)
  next
    case (Some pc)
    then have "(operation, pc) \<in> set (entries (rc_operation_policies c))"
      by (auto simp: entries_def bind_eq_Some_conv dest: map_of_SomeD)
    then have "validate_policy_config pc = None" using v by auto
    from validated_policy_converts [OF this, of rt] Some show ?thesis by (auto simp: get_operation_policy_def)
  qed
qed

lemma validated_breaker_inv:
  assumes "validate_breaker_config bc = None"
  shows "breaker_inv (to_circuit_breaker name bc)"
  using assms by (simp add: validate_breaker_config_None to_circuit_breaker_def breaker_inv_new)

section \<open>What the defaults promise\<close>

lemma set_retry_defaults_idem: "set_retry_defaults (set_retry_defaults c) = set_retry_defaults c"
  by (simp add: set_retry_defaults_def Let_def entries_def default_default_policy_def default_breaker_config_def
      default_operation_policy_def case_prod_beta comp_def split: option.splits)

text \<open>
  After \<open>SetDefaults\<close> only two checks of the validation can still fail: a base delay above the
  maximal delay and an unknown strategy.
\<close>

definition policy_set :: "policy_config \<Rightarrow> bool" where
  "policy_set p \<longleftrightarrow>
     0 < pc_max_attempts p \<and> 0 < pc_base_delay p \<and> 0 < pc_max_delay p \<and> pc_backoff_strategy p \<noteq> []"

lemma policy_set_defaults:
  "policy_set (default_default_policy p)" "policy_set d \<Longrightarrow> policy_set (default_operation_policy d p)"
  by (simp_all add: policy_set_def default_default_policy_def default_operation_policy_def)

lemma set_retry_defaults_positive:
  assumes "p = rc_default_policy (set_retry_defaults c) \<or> (n, p) \<in> set (entries (rc_operation_policies (set_retry_defaults c)))"
  shows "policy_set p"
  using assms by (auto simp: set_retry_defaults_def Let_def entries_def intro: policy_set_defaults)

lemma set_retry_defaults_breakers:
  assumes "(n, b) \<in> set (entries (rc_circuit_breakers (set_retry_defaults c)))"
  shows "validate_breaker_config b = None"
  using assms
  by (auto simp: set_retry_defaults_def Let_def entries_def default_breaker_config_def validate_breaker_config_None)

lemma default_retry_config_valid: "validate_retry_config (\<lambda>x. x) (\<lambda>x. x) default_retry_config = None"
  by (simp add: validate_retry_config_None entries_def default_retry_config_def policy_cfg_def
      validate_policy_config_None validate_breaker_config_None valid_strategies_def)

end
