(* ===== verification/Monitoring.thy ===== *)
theory Monitoring
  imports RetryConfig
begin

text \<open>
  internal/monitoring: rules.go, alerting.go and health_monitor.go. The health rules over a metrics
  snapshot, the error pattern tracker, the alert manager with its cooldown, and the monitor that puts
  them together. A notification channel is what the alert manager calls: a name and an operation on
  the world. Proved: the overall status is the worst the enabled rules ask for, in whatever order the
  rules are checked; an alert in its cooldown sends nothing; otherwise every channel is called once,
  and the call fails exactly when there are channels and all of them failed; the tracker's totals.
\<close>

section \<open>Configuration\<close>

record agent_failure_rate_config =
  af_enabled :: bool
  af_threshold :: f64
  af_window :: duration
  af_severity :: string

record workflow_completion_config =
  wc_enabled :: bool
  wc_min_success_rate :: f64
  wc_window :: duration
  wc_severity :: string

record disk_usage_config =
  du_enabled :: bool
  du_warning :: f64
  du_critical :: f64
  du_severity :: string

record memory_usage_config =
  mu_enabled :: bool
  mu_warning :: f64
  mu_critical :: f64
  mu_severity :: string

record api_response_time_config =
  ar_enabled :: bool
  ar_warning :: duration
  ar_critical :: duration
  ar_severity :: string

record validation_error_rate_config =
  ver_enabled :: bool
  ver_threshold :: f64
  ver_critical :: f64
  ver_severity :: string

record schema_drift_config =
  sd_enabled :: bool
  sd_threshold :: f64
  sd_critical :: f64
  sd_severity :: string

record rules_config =
  rl_agent_failure_rate :: agent_failure_rate_config
  rl_workflow_completion :: workflow_completion_config
  rl_disk_usage :: disk_usage_config
  rl_memory_usage :: memory_usage_config
  rl_api_response_time :: api_response_time_config

record slack_config =
  sl_enabled :: bool
  sl_webhook_url :: string
  sl_channel :: string

record email_config =
  em_enabled :: bool
  em_smtp_host :: string
  em_smtp_port :: int
  em_username :: string
  em_password :: string
  em_from :: string
  em_recipients :: "string list"

record webhook_config =
  wh_enabled :: bool
  wh_url :: string
  wh_method :: string

record notifications_config =
  nt_slack :: slack_config
  nt_email :: email_config
  nt_webhook :: webhook_config

record monitoring_config =
  mn_enabled :: bool
  mn_check_interval :: duration
  mn_alert_cooldown :: duration
  mn_rules :: rules_config
  mn_notifications :: notifications_config

section \<open>Metrics\<close>

record agent_metrics =
  am_active_agents :: int
  am_failure_rate :: f64
  am_completion_rate :: f64
  am_avg_processing_time :: duration
  am_error_count :: int
  am_success_count :: int

record system_metrics =
  sm_disk_usage :: f64
  sm_memory_usage :: f64
  sm_cpu_usage :: f64
  sm_api_response_time :: duration
  sm_breaker_trips :: int

record business_metrics =
  bm_workflow_success_rate :: f64
  bm_pr_creation_rate :: f64
  bm_issue_processing_rate :: f64
  bm_token_usage :: f64

record retry_pattern =
  rt_total :: int
  rt_successful :: int
  rt_failed :: int
  rt_average_delay :: f64

record error_metrics =
  er_sync_error_rate :: f64
  er_recovery_success_rate :: f64
  er_breaker_trips :: int
  er_by_phase :: "(string, int) gomap"
  er_by_object :: "(string, int) gomap"
  er_retry_patterns :: "(string, retry_pattern) gomap"

record metrics_snapshot =
  ms_timestamp :: instant
  ms_agent :: agent_metrics
  ms_system :: system_metrics
  ms_business :: business_metrics
  ms_errors :: error_metrics

section \<open>Health rules\<close>

datatype health_state = HealthOK | HealthWarning | HealthCritical | HealthUnknown

fun health_text :: "health_state \<Rightarrow> string" where
  "health_text HealthOK = ''ok''"
| "health_text HealthWarning = ''warning''"
| "health_text HealthCritical = ''critical''"
| "health_text HealthUnknown = ''unknown''"

text \<open>The implementations of the interface \<open>HealthRule\<close>, each with its configuration.\<close>

datatype health_rule =
    AgentFailureRate agent_failure_rate_config
  | WorkflowCompletion workflow_completion_config
  | DiskUsage disk_usage_config
  | MemoryUsage memory_usage_config
  | ApiResponseTime api_response_time_config
  | ValidationErrorRate validation_error_rate_config
  | SchemaDrift schema_drift_config

fun rule_name :: "health_rule \<Rightarrow> string" where
  "rule_name (AgentFailureRate c) = ''agent_failure_rate''"
| "rule_name (WorkflowCompletion c) = ''workflow_completion''"
| "rule_name (DiskUsage c) = ''disk_usage''"
| "rule_name (MemoryUsage c) = ''memory_usage''"
| "rule_name (ApiResponseTime c) = ''api_response_time''"
| "rule_name (ValidationErrorRate c) = ''validation_error_rate''"
| "rule_name (SchemaDrift c) = ''schema_drift''"

definition or_warning :: "string \<Rightarrow> string" where
  "or_warning severity = (if severity \<noteq> [] then severity else ''warning'')"

fun rule_severity :: "health_rule \<Rightarrow> string" where
  "rule_severity (AgentFailureRate c) = af_severity c"
| "rule_severity (WorkflowCompletion c) = wc_severity c"
| "rule_severity (DiskUsage c) = or_warning (du_severity c)"
| "rule_severity (MemoryUsage c) = or_warning (mu_severity c)"
| "rule_severity (ApiResponseTime c) = or_warning (ar_severity c)"
| "rule_severity (ValidationErrorRate c) = or_warning (ver_severity c)"
| "rule_severity (SchemaDrift c) = or_warning (sd_severity c)"

fun rule_enabled :: "health_rule \<Rightarrow> bool" where
  "rule_enabled (AgentFailureRate c) = af_enabled c"
| "rule_enabled (WorkflowCompletion c) = wc_enabled c"
| "rule_enabled (DiskUsage c) = du_enabled c"
| "rule_enabled (MemoryUsage c) = mu_enabled c"
| "rule_enabled (ApiResponseTime c) = ar_enabled c"
| "rule_enabled (ValidationErrorRate c) = ver_enabled c"
| "rule_enabled (SchemaDrift c) = sd_enabled c"

definition percent_text :: "f64 \<Rightarrow> string" where
  "percent_text r = fixed_text 2 (f64_mul r (Fin 100)) @ ''%''"

definition usage_text :: "f64 \<Rightarrow> string" where
  "usage_text x = fixed_text 1 x @ ''%''"

definition check_agent_failure_rate :: "agent_failure_rate_config \<Rightarrow> metrics_snapshot \<Rightarrow> health_state \<times> string" where
  "check_agent_failure_rate c s =
     (let r = am_failure_rate (ms_agent s)
      in if f64_less (af_threshold c) r
         then (HealthCritical, ''Agent failure rate '' @ percent_text r @ '' exceeds threshold '' @ percent_text (af_threshold c))
         else (HealthOK, ''Agent failure rate '' @ percent_text r @ '' is within threshold''))"

definition check_workflow_completion :: "workflow_completion_config \<Rightarrow> metrics_snapshot \<Rightarrow> health_state \<times> string" where
  "check_workflow_completion c s =
     (let r = bm_workflow_success_rate (ms_business s)
      in if f64_less r (wc_min_success_rate c)
         then (HealthWarning, ''Workflow success rate '' @ percent_text r @ '' is below minimum '' @ percent_text (wc_min_success_rate c))
         else (HealthOK, ''Workflow success rate '' @ percent_text r @ '' is above minimum''))"

definition check_disk_usage :: "disk_usage_config \<Rightarrow> metrics_snapshot \<Rightarrow> health_state \<times> string" where
  "check_disk_usage c s =
     (let u = sm_disk_usage (ms_system s)
      in if f64_less (du_critical c) u
         then (HealthCritical, ''Disk usage '' @ usage_text u @ '' exceeds critical threshold '' @ usage_text (du_critical c))
         else if f64_less (du_warning c) u
         then (HealthWarning, ''Disk usage '' @ usage_text u @ '' exceeds warning threshold '' @ usage_text (du_warning c))
         else (HealthOK, ''Disk usage '' @ usage_text u @ '' is within acceptable limits''))"

definition check_memory_usage :: "memory_usage_config \<Rightarrow> metrics_snapshot \<Rightarrow> health_state \<times> string" where
  "check_memory_usage c s =
     (let u = sm_memory_usage (ms_system s)
      in if f64_less (mu_critical c) u
         then (HealthCritical, ''Memory usage '' @ usage_text u @ '' exceeds critical threshold '' @ usage_text (mu_critical c))
         else if f64_less (mu_warning c) u
         then (HealthWarning, ''Memory usage '' @ usage_text u @ '' exceeds warning threshold '' @ usage_text (mu_warning c))
         else (HealthOK, ''Memory usage '' @ usage_text u @ '' is within acceptable limits''))"

definition check_api_response_time :: "api_response_time_config \<Rightarrow> metrics_snapshot \<Rightarrow> health_state \<times> string" where
  "check_api_response_time c s =
     (let d = sm_api_response_time (ms_system s)
      in if ar_critical c < d
         then (HealthCritical, ''API response time '' @ duration_text d @ '' exceeds critical threshold '' @ duration_text (ar_critical c))
         else if ar_warning c < d
         then (HealthWarning, ''API response time '' @ duration_text d @ '' exceeds warning threshold '' @ duration_text (ar_warning c))
         else (HealthOK, ''API response time '' @ duration_text d @ '' is within acceptable limits''))"

text \<open>No rule returns an error.\<close>

fun rule_check :: "health_rule \<Rightarrow> metrics_snapshot \<Rightarrow> go_error + health_state \<times> string" where
  "rule_check (AgentFailureRate c) s = Inr (check_agent_failure_rate c s)"
| "rule_check (WorkflowCompletion c) s = Inr (check_workflow_completion c s)"
| "rule_check (DiskUsage c) s = Inr (check_disk_usage c s)"
| "rule_check (MemoryUsage c) s = Inr (check_memory_usage c s)"
| "rule_check (ApiResponseTime c) s = Inr (check_api_response_time c s)"
| "rule_check (ValidationErrorRate c) s =
     Inr (HealthOK, ''Validation error rate monitoring not yet implemented in metrics snapshot'')"
| "rule_check (SchemaDrift c) s =
     Inr (HealthOK, ''Schema drift monitoring not yet implemented in metrics snapshot'')"

lemma rule_check_total: "\<exists>st msg. rule_check r s = Inr (st, msg)"
  by (cases r) (metis rule_check.simps surj_pair)+

section \<open>The error pattern tracker\<close>

record error_tracker =
  et_errors :: "(string, int) gomap"
  et_phases :: "(string, int) gomap"
  et_objects :: "(string, int) gomap"
  et_retries :: "(string, retry_pattern) gomap"

definition new_error_tracker :: error_tracker where
  "new_error_tracker = \<lparr>et_errors = [], et_phases = [], et_objects = [], et_retries = []\<rparr>"

text \<open>\<open>m[k]++\<close> on a map of counters.\<close>

definition bump :: "'k \<Rightarrow> ('k, int) gomap \<Rightarrow> ('k, int) gomap" where
  "bump k m = AList.update k (wrap64 ((case map_of m k of None \<Rightarrow> 0 | Some n \<Rightarrow> n) + 1)) m"

definition record_error :: "string \<Rightarrow> string \<Rightarrow> string \<Rightarrow> error_tracker \<Rightarrow> error_tracker" where
  "record_error phase object error_type t =
     t\<lparr>et_errors := bump error_type (et_errors t), et_phases := bump phase (et_phases t),
       et_objects := bump object (et_objects t)\<rparr>"

definition zero_pattern :: retry_pattern where
  "zero_pattern = \<lparr>rt_total = 0, rt_successful = 0, rt_failed = 0, rt_average_delay = Fin 0\<rparr>"

definition add_retry :: "bool \<Rightarrow> f64 \<Rightarrow> retry_pattern \<Rightarrow> retry_pattern" where
  "add_retry success delay_ms p =
     (let n = wrap64 (rt_total p + 1)
      in \<lparr>rt_total = n,
          rt_successful = (if success then wrap64 (rt_successful p + 1) else rt_successful p),
          rt_failed = (if success then rt_failed p else wrap64 (rt_failed p + 1)),
          rt_average_delay =
            (if n = 1 then delay_ms
             else f64_div (f64_add (f64_mul (rt_average_delay p) (f64_of_int (n - 1))) delay_ms) (f64_of_int n))\<rparr>)"

definition record_retry :: "string \<Rightarrow> bool \<Rightarrow> f64 \<Rightarrow> error_tracker \<Rightarrow> error_tracker" where
  "record_retry operation success delay_ms t =
     (let p = (case map_of (et_retries t) operation of None \<Rightarrow> zero_pattern | Some p \<Rightarrow> p)
      in t\<lparr>et_retries := AList.update operation (add_retry success delay_ms p) (et_retries t)\<rparr>)"

definition wrap_sum :: "int list \<Rightarrow> int" where
  "wrap_sum xs = foldl (\<lambda>a x. wrap64 (a + x)) 0 xs"

definition get_error_metrics :: "error_tracker \<Rightarrow> error_metrics" where
  "get_error_metrics t =
     (let errors = wrap_sum (map snd (et_errors t));
          retries = wrap_sum (map (rt_total \<circ> snd) (et_retries t));
          successes = wrap_sum (map (rt_successful \<circ> snd) (et_retries t))
      in \<lparr>er_sync_error_rate = f64_div (f64_of_int errors) (Fin 100),
          er_recovery_success_rate = ratio successes retries, er_breaker_trips = 0,
          er_by_phase = et_phases t, er_by_object = et_objects t, er_retry_patterns = et_retries t\<rparr>)"

section \<open>Alerts\<close>

datatype alert_status = AlertFiring | AlertResolved

fun alert_status_text :: "alert_status \<Rightarrow> string" where
  "alert_status_text AlertFiring = ''firing''"
| "alert_status_text AlertResolved = ''resolved''"

record alert =
  al_id :: string
  al_rule :: string
  al_severity :: string
  al_status :: alert_status
  al_message :: string
  al_timestamp :: instant
  al_health :: health_state
  al_resolved_at :: "instant option"

record alert_state =
  as_last_fired :: instant
  as_count :: int

record 'w channel =
  ch_name :: string
  ch_send :: "alert \<Rightarrow> 'w \<Rightarrow> go_error option \<times> 'w"

record 'w alert_manager =
  mg_channels :: "'w channel list"
  mg_state :: "(string, alert_state) gomap"
  mg_cooldown :: duration

text \<open>
  \<open>initializeChannels\<close>: the constructors refuse a configuration that misses what they need. What a
  channel does when it sends is the argument \<open>mk\<close>, from its configuration.
\<close>

record 'w channel_makers =
  mk_slack :: "slack_config \<Rightarrow> 'w channel"
  mk_email :: "email_config \<Rightarrow> 'w channel"
  mk_webhook :: "webhook_config \<Rightarrow> 'w channel"

definition new_slack_channel :: "'w channel_makers \<Rightarrow> slack_config \<Rightarrow> go_error + 'w channel" where
  "new_slack_channel mk c =
     (if sl_webhook_url c = [] then Inl (Msg ''slack webhook URL is required'') else Inr (mk_slack mk c))"

definition new_email_channel :: "'w channel_makers \<Rightarrow> email_config \<Rightarrow> go_error + 'w channel" where
  "new_email_channel mk c =
     (if em_smtp_host c = [] then Inl (Msg ''SMTP host is required'')
      else if em_recipients c = [] then Inl (Msg ''at least one email recipient is required'')
      else Inr (mk_email mk c))"

definition new_webhook_channel :: "'w channel_makers \<Rightarrow> webhook_config \<Rightarrow> go_error + 'w channel" where
  "new_webhook_channel mk c =
     (if wh_url c = [] then Inl (Msg ''webhook URL is required'')
      else Inr (mk_webhook mk (c\<lparr>wh_method := (if wh_method c = [] then ''POST'' else wh_method c)\<rparr>)))"

definition channel_if :: "bool \<Rightarrow> string \<Rightarrow> go_error + 'w channel \<Rightarrow> go_error + 'w channel list" where
  "channel_if enabled what r =
     (if \<not> enabled then Inr [] else case r of Inl e \<Rightarrow> Inl (Wrap what e) | Inr c \<Rightarrow> Inr [c])"

definition initialize_channels :: "'w channel_makers \<Rightarrow> notifications_config \<Rightarrow> go_error + 'w channel list" where
  "initialize_channels mk n =
     (case channel_if (sl_enabled (nt_slack n)) ''create slack channel'' (new_slack_channel mk (nt_slack n)) of
        Inl e \<Rightarrow> Inl e
      | Inr c1 \<Rightarrow>
     (case channel_if (em_enabled (nt_email n)) ''create email channel'' (new_email_channel mk (nt_email n)) of
        Inl e \<Rightarrow> Inl e
      | Inr c2 \<Rightarrow>
     (case channel_if (wh_enabled (nt_webhook n)) ''create webhook channel'' (new_webhook_channel mk (nt_webhook n)) of
        Inl e \<Rightarrow> Inl e
      | Inr c3 \<Rightarrow> Inr (c1 @ c2 @ c3))))"

definition new_alert_manager :: "'w channel_makers \<Rightarrow> notifications_config \<Rightarrow> go_error + 'w alert_manager" where
  "new_alert_manager mk n =
     (case initialize_channels mk n of
        Inl e \<Rightarrow> Inl (Wrap ''initialize notification channels'' e)
      | Inr cs \<Rightarrow> Inr \<lparr>mg_channels = cs, mg_state = [], mg_cooldown = 30 * minute\<rparr>)"

definition should_suppress :: "'w runtime \<Rightarrow> 'w alert_manager \<Rightarrow> alert \<Rightarrow> 'w \<Rightarrow> bool \<times> 'w" where
  "should_suppress rt am a w =
     (case map_of (mg_state am) (al_rule a) of
        None \<Rightarrow> (False, w)
      | Some s \<Rightarrow> let (now, w1) = rt_now rt w in (time_sub now (as_last_fired s) < mg_cooldown am, w1))"

fun send_all :: "'w channel list \<Rightarrow> alert \<Rightarrow> 'w \<Rightarrow> go_error list \<times> 'w" where
  "send_all [] a w = ([], w)"
| "send_all (c # cs) a w =
     (let (e, w1) = ch_send c a w; (es, w2) = send_all cs a w1
      in (case e of None \<Rightarrow> es | Some e \<Rightarrow> e # es, w2))"

definition fire :: "alert \<Rightarrow> 'w alert_manager \<Rightarrow> 'w alert_manager" where
  "fire a am =
     (let s = (case map_of (mg_state am) (al_rule a) of None \<Rightarrow> \<lparr>as_last_fired = zero_time, as_count = 0\<rparr> | Some s \<Rightarrow> s)
      in am\<lparr>mg_state := AList.update (al_rule a) (s\<lparr>as_last_fired := al_timestamp a, as_count := as_count s + 1\<rparr>) (mg_state am)\<rparr>)"

definition process_alert ::
  "'w runtime \<Rightarrow> alert \<Rightarrow> 'w alert_manager \<times> 'w \<Rightarrow> go_error option \<times> ('w alert_manager \<times> 'w)" where
  "process_alert rt a = (\<lambda>(am, w).
     let (suppressed, w1) = should_suppress rt am a w
     in if suppressed then (None, (am, w1))
        else let (errors, w2) = send_all (mg_channels am) a w1
             in (if length errors = length (mg_channels am) \<and> mg_channels am \<noteq> []
                 then Some (Msg ''all notification channels failed'') else None,
                 (fire a am, w2)))"

definition get_alert_history :: "'w alert_manager \<Rightarrow> (string, alert_state) gomap" where
  "get_alert_history am = mg_state am"

section \<open>The monitor\<close>

record 'w health_monitor =
  hm_config :: monitoring_config
  hm_rules :: "health_rule list"
  hm_alerting :: "'w alert_manager"
  hm_last_check :: instant
  hm_tracker :: error_tracker

definition builtin_rules :: "rules_config \<Rightarrow> health_rule list" where
  "builtin_rules c =
     [AgentFailureRate (rl_agent_failure_rate c), WorkflowCompletion (rl_workflow_completion c),
      DiskUsage (rl_disk_usage c), MemoryUsage (rl_memory_usage c), ApiResponseTime (rl_api_response_time c)]"

definition new_health_monitor :: "'w channel_makers \<Rightarrow> monitoring_config \<Rightarrow> go_error + 'w health_monitor" where
  "new_health_monitor mk c =
     (case new_alert_manager mk (mn_notifications c) of
        Inl e \<Rightarrow> Inl (Wrap ''create alert manager'' e)
      | Inr am \<Rightarrow> Inr \<lparr>hm_config = c, hm_rules = builtin_rules (mn_rules c), hm_alerting = am,
                       hm_last_check = zero_time, hm_tracker = new_error_tracker\<rparr>)"

definition enabled_rules :: "'w health_monitor \<Rightarrow> health_rule list" where
  "enabled_rules hm = filter rule_enabled (hm_rules hm)"

text \<open>The snapshot the code returns is fixed, but for the time and the tracker's numbers.\<close>

definition collect_metrics :: "'w runtime \<Rightarrow> 'w health_monitor \<Rightarrow> 'w \<Rightarrow> (go_error + metrics_snapshot) \<times> 'w" where
  "collect_metrics rt hm w =
     (let (now, w1) = rt_now rt w
      in (Inr \<lparr>ms_timestamp = now,
            ms_agent = \<lparr>am_active_agents = 3, am_failure_rate = f64_of (5 / 100), am_completion_rate = f64_of (92 / 100),
                        am_avg_processing_time = 2 * minute, am_error_count = 12, am_success_count = 245\<rparr>,
            ms_system = \<lparr>sm_disk_usage = f64_of (452 / 10), sm_memory_usage = f64_of (678 / 10), sm_cpu_usage = f64_of (234 / 10),
                         sm_api_response_time = 150 * millisecond, sm_breaker_trips = 2\<rparr>,
            ms_business = \<lparr>bm_workflow_success_rate = f64_of (89 / 100), bm_pr_creation_rate = f64_of (78 / 100),
                           bm_issue_processing_rate = f64_of (91 / 100), bm_token_usage = f64_of (725 / 10)\<rparr>,
            ms_errors = get_error_metrics (hm_tracker hm)\<rparr>, w1))"

definition escalate :: "health_state \<Rightarrow> health_rule \<Rightarrow> health_state \<Rightarrow> health_state" where
  "escalate st r status =
     (if st = HealthOK then status
      else if rule_severity r = ''critical'' \<or> st = HealthCritical then HealthCritical
      else if status \<noteq> HealthCritical \<and> st = HealthWarning then HealthWarning
      else status)"

fun check_rules ::
  "metrics_snapshot \<Rightarrow> health_rule list \<Rightarrow> health_state \<Rightarrow> (string, health_state \<times> string) gomap
   \<Rightarrow> health_state \<times> (string, health_state \<times> string) gomap" where
  "check_rules s [] status results = (status, results)"
| "check_rules s (r # rs) status results =
     (if \<not> rule_enabled r then check_rules s rs status results
      else case rule_check r s of
             Inl e \<Rightarrow> check_rules s rs status results
           | Inr (st, msg) \<Rightarrow> check_rules s rs (escalate st r status) (AList.update (rule_name r) (st, msg) results))"

datatype health_report =
    MonitoringDisabled
  | HealthReport (hr_results: "(string, health_state \<times> string) gomap") (hr_overall: health_state)
      (hr_last_check: instant) (hr_enabled: int)

definition get_overall_health ::
  "'w runtime \<Rightarrow> 'w health_monitor \<Rightarrow> 'w \<Rightarrow> (health_state \<times> health_report option \<times> go_error option) \<times> 'w" where
  "get_overall_health rt hm w =
     (if \<not> mn_enabled (hm_config hm) then ((HealthOK, Some MonitoringDisabled, None), w)
      else case collect_metrics rt hm w of
             (Inl e, w1) \<Rightarrow> ((HealthUnknown, None, Some (Wrap ''collect metrics'' e)), w1)
           | (Inr s, w1) \<Rightarrow>
               let (status, results) = check_rules s (hm_rules hm) HealthOK []
               in ((status, Some (HealthReport results status (hm_last_check hm) (int (length (enabled_rules hm)))), None), w1))"

text \<open>One round of checks: the alerts, in the order of the rules; each id reads the clock.\<close>

definition alert_id :: "string \<Rightarrow> instant \<Rightarrow> string" where
  "alert_id name now = name @ ''-'' @ dec (now div second)"

fun rule_alerts :: "'w runtime \<Rightarrow> metrics_snapshot \<Rightarrow> health_rule list \<Rightarrow> 'w \<Rightarrow> alert list \<times> 'w" where
  "rule_alerts rt s [] w = ([], w)"
| "rule_alerts rt s (r # rs) w =
     (case rule_check r s of
        Inl e \<Rightarrow> rule_alerts rt s rs w
      | Inr (st, msg) \<Rightarrow>
          if st = HealthOK then rule_alerts rt s rs w
          else let (now, w1) = rt_now rt w;
                   a = \<lparr>al_id = alert_id (rule_name r) now, al_rule = rule_name r, al_severity = rule_severity r,
                        al_status = AlertFiring, al_message = msg, al_timestamp = ms_timestamp s, al_health = st,
                        al_resolved_at = None\<rparr>;
                   (as, w2) = rule_alerts rt s rs w1
               in (a # as, w2))"

fun process_alerts :: "'w runtime \<Rightarrow> alert list \<Rightarrow> 'w alert_manager \<times> 'w \<Rightarrow> 'w alert_manager \<times> 'w" where
  "process_alerts rt [] s = s"
| "process_alerts rt (a # as) s = process_alerts rt as (snd (process_alert rt a s))"

definition perform_health_check ::
  "'w runtime \<Rightarrow> 'w health_monitor \<times> 'w \<Rightarrow> go_error option \<times> ('w health_monitor \<times> 'w)" where
  "perform_health_check rt = (\<lambda>(hm, w).
     let (now, w1) = rt_now rt w;
         hm1 = hm\<lparr>hm_last_check := now\<rparr>
     in case collect_metrics rt hm1 w1 of
          (Inl e, w2) \<Rightarrow> (Some (Wrap ''collect metrics'' e), (hm1, w2))
        | (Inr s, w2) \<Rightarrow>
            let (as, w3) = rule_alerts rt s (enabled_rules hm1) w2;
                (am, w4) = process_alerts rt as (hm_alerting hm1, w3)
            in (None, (hm1\<lparr>hm_alerting := am\<rparr>, w4)))"

section \<open>The overall status\<close>

text \<open>What one enabled rule asks for; the overall status is the worst of these.\<close>

definition asks :: "metrics_snapshot \<Rightarrow> health_rule \<Rightarrow> health_state" where
  "asks s r =
     (if \<not> rule_enabled r then HealthOK
      else case rule_check r s of
             Inl e \<Rightarrow> HealthOK
           | Inr (st, msg) \<Rightarrow> escalate st r HealthOK)"

definition worst :: "health_state list \<Rightarrow> health_state" where
  "worst sts = (if HealthCritical \<in> set sts then HealthCritical
                else if HealthWarning \<in> set sts then HealthWarning else HealthOK)"

lemma asks_range: "asks s r \<in> {HealthOK, HealthWarning, HealthCritical}"
  by (cases r) (auto simp: asks_def escalate_def check_agent_failure_rate_def check_workflow_completion_def check_disk_usage_def
      check_memory_usage_def check_api_response_time_def Let_def)

lemma escalate_worst:
  assumes "status \<in> {HealthOK, HealthWarning, HealthCritical}" and "st \<noteq> HealthUnknown"
  shows "escalate st r status = worst [status, escalate st r HealthOK]"
  using assms by (cases st) (auto simp: escalate_def worst_def)

lemma rule_check_known: "rule_check r s = Inr (st, msg) \<Longrightarrow> st \<noteq> HealthUnknown"
  by (cases r) (auto simp: check_agent_failure_rate_def check_workflow_completion_def check_disk_usage_def
      check_memory_usage_def check_api_response_time_def Let_def split: if_splits)

lemma check_rules_worst:
  assumes "status \<in> {HealthOK, HealthWarning, HealthCritical}"
  shows "fst (check_rules s rs status results) = worst (status # map (asks s) rs)"
  using assms
proof (induction rs arbitrary: status results)
  case Nil
  then show ?case by (auto simp: worst_def)
next
  case (Cons r rs)
  show ?case
  proof (cases "rule_enabled r")
    case False
    then have "asks s r = HealthOK" by (simp add: asks_def)
    then show ?thesis using False Cons by (simp add: worst_def)
  next
    case True
    obtain st msg where check: "rule_check r s = Inr (st, msg)" using rule_check_total by blast
    have ask: "asks s r = escalate st r HealthOK" using True check by (simp add: asks_def)
    have esc: "escalate st r status = worst [status, asks s r]"
      unfolding ask by (rule escalate_worst [OF Cons.prems rule_check_known [OF check]])
    then have "escalate st r status \<in> {HealthOK, HealthWarning, HealthCritical}" by (simp add: worst_def)
    from Cons.IH [OF this] have
      "fst (check_rules s (r # rs) status results) = worst (escalate st r status # map (asks s) rs)"
      using True check by simp
    then show ?thesis unfolding esc by (auto simp: worst_def)
  qed
qed

lemma overall_health_exact:
  assumes "mn_enabled (hm_config hm)"
  obtains s results w' where "collect_metrics rt hm w = (Inr s, w')"
    and "get_overall_health rt hm w =
         ((worst (map (asks s) (hm_rules hm)),
           Some (HealthReport results (worst (map (asks s) (hm_rules hm))) (hm_last_check hm) (int (length (enabled_rules hm)))),
           None), w')"
proof -
  obtain now w' where now: "rt_now rt w = (now, w')" by (metis surj_pair)
  then obtain s where s: "collect_metrics rt hm w = (Inr s, w')" unfolding collect_metrics_def by simp
  obtain st results where check: "check_rules s (hm_rules hm) HealthOK [] = (st, results)" by (metis surj_pair)
  then have "st = worst (map (asks s) (hm_rules hm))"
    using check_rules_worst [of HealthOK s "hm_rules hm" "[]"] by (simp add: worst_def)
  then show thesis using that [OF s] assms s check by (simp add: get_overall_health_def)
qed

section \<open>Sending alerts\<close>

text \<open>The outcomes of the sends, one for each channel in order, and the world after them.\<close>

fun send_outcomes :: "'w channel list \<Rightarrow> alert \<Rightarrow> 'w \<Rightarrow> go_error option list \<times> 'w" where
  "send_outcomes [] a w = ([], w)"
| "send_outcomes (c # cs) a w = (let (e, w1) = ch_send c a w; (es, w2) = send_outcomes cs a w1 in (e # es, w2))"

lemma length_send_outcomes [simp]: "length (fst (send_outcomes cs a w)) = length cs"
  by (induction cs arbitrary: w) (auto simp: Let_def split: prod.splits, metis fst_conv)

lemma send_all_outcomes:
  "send_all cs a w = (map the (filter (\<lambda>e. e \<noteq> None) (fst (send_outcomes cs a w))), snd (send_outcomes cs a w))"
  by (induction cs arbitrary: w) (auto simp: Let_def split: prod.splits option.splits)

lemma all_failed_iff:
  "length (fst (send_all cs a w)) = length cs \<longleftrightarrow> None \<notin> set (fst (send_outcomes cs a w))"
proof -
  have "length (filter (\<lambda>e. e \<noteq> None) es) = length es \<longleftrightarrow> None \<notin> set es" for es :: "go_error option list"
    by (metis (mono_tags, lifting) filter_True length_filter_less less_irrefl)
  from this [of "fst (send_outcomes cs a w)"] show ?thesis by (simp add: send_all_outcomes)
qed

lemma process_alert_sent:
  assumes "should_suppress rt am a w = (False, w1)"
  shows "process_alert rt a (am, w) =
         (if mg_channels am \<noteq> [] \<and> None \<notin> set (fst (send_outcomes (mg_channels am) a w1))
          then Some (Msg ''all notification channels failed'') else None,
          (fire a am, snd (send_outcomes (mg_channels am) a w1)))"
proof -
  obtain es w2 where es: "send_all (mg_channels am) a w1 = (es, w2)" by (metis surj_pair)
  then have "w2 = snd (send_outcomes (mg_channels am) a w1)" by (simp add: send_all_outcomes)
  moreover have "length es = length (mg_channels am) \<longleftrightarrow> None \<notin> set (fst (send_outcomes (mg_channels am) a w1))"
    using all_failed_iff [of "mg_channels am" a w1] es by simp
  ultimately show ?thesis using assms es unfolding process_alert_def by auto
qed

lemma process_alert_suppressed:
  assumes "should_suppress rt am a w = (True, w1)"
  shows "process_alert rt a (am, w) = (None, (am, w1))"
  using assms by (simp add: process_alert_def)

lemma fire_state: "map_of (mg_state (fire a am)) (al_rule a) = Some st \<Longrightarrow> as_last_fired st = al_timestamp a"
  by (auto simp: fire_def Let_def simp del: map_of_eq_Some_iff)

lemma fire_fields [simp]: "mg_channels (fire a am) = mg_channels am" "mg_cooldown (fire a am) = mg_cooldown am"
  by (simp_all add: fire_def Let_def)

text \<open>A second alert of the same rule within the cooldown of the first does nothing.\<close>

lemma cooldown_suppresses:
  assumes "al_rule b = al_rule a" and "rt_now rt w = (now, w1)"
    and "time_sub now (al_timestamp a) < mg_cooldown am"
  shows "process_alert rt b (fire a am, w) = (None, (fire a am, w1))"
proof (rule process_alert_suppressed)
  obtain st where st: "map_of (mg_state (fire a am)) (al_rule a) = Some st"
    by (simp add: fire_def Let_def del: map_of_eq_Some_iff)
  then have "as_last_fired st = al_timestamp a" by (rule fire_state)
  with st assms show "should_suppress rt (fire a am) b w = (True, w1)" by (simp add: should_suppress_def del: map_of_eq_Some_iff)
qed

lemma new_alert_manager_cooldown: "new_alert_manager mk n = Inr am \<Longrightarrow> mg_cooldown am = 30 * minute"
  by (auto simp: new_alert_manager_def split: sum.splits)

section \<open>The tracker's totals\<close>

definition tracker_inv :: "int \<Rightarrow> error_tracker \<Rightarrow> bool" where
  "tracker_inv n t \<longleftrightarrow>
     (\<forall>m \<in> {et_errors t, et_phases t, et_objects t}.
        keys_distinct m \<and> (\<forall>c \<in> set (map snd m). 0 \<le> c) \<and> sum_list (map snd m) = n)"

lemma bump_Cons:
  "bump k ((k', c) # m) = (if k = k' then (k', wrap64 (c + 1)) # m else (k', c) # bump k m)"
  by (simp add: bump_def)

lemma bump_Nil: "bump k [] = [(k, 1)]"
  by (simp add: bump_def in_int64_def)

lemma bump_keys: "fst ` set (bump k m) = insert k (fst ` set m)"
  by (simp add: bump_def dom_update)

lemma sum_bump:
  assumes "\<forall>c \<in> set (map snd m). 0 \<le> c" and "sum_list (map snd m) < 2 ^ 63 - 1"
  shows "sum_list (map snd (bump k m)) = sum_list (map snd m) + 1 \<and> (\<forall>c \<in> set (map snd (bump k m)). 0 \<le> c)"
  using assms
proof (induction m)
  case (Cons x m)
  obtain k' c where x: "x = (k', c)" by (cases x)
  have c: "0 \<le> c" and rest: "0 \<le> sum_list (map snd m)"
    using Cons.prems(1) x by (simp, metis (no_types, lifting) Cons.prems(1) list.set_intros(2) list.simps(9) sum_list_nonneg)
  then have "in_int64 (c + 1)" and "sum_list (map snd m) < 2 ^ 63 - 1"
    using Cons.prems(2) x by (auto simp: in_int64_def)
  then show ?case using Cons x c by (auto simp: bump_Cons)
qed (simp add: bump_Nil)

lemma tracker_inv_new: "tracker_inv 0 new_error_tracker"
  by (simp add: tracker_inv_def new_error_tracker_def)

lemma tracker_inv_record:
  assumes "tracker_inv n t" and "n < 2 ^ 63 - 1"
  shows "tracker_inv (n + 1) (record_error phase object error_type t)"
proof -
  have "keys_distinct (bump k m) \<and> (\<forall>c \<in> set (map snd (bump k m)). 0 \<le> c) \<and> sum_list (map snd (bump k m)) = n + 1"
    if "m \<in> {et_errors t, et_phases t, et_objects t}" for k m
  proof -
    have m: "keys_distinct m" "\<forall>c \<in> set (map snd m). 0 \<le> c" "sum_list (map snd m) = n"
      using that assms(1) by (auto simp: tracker_inv_def)
    then show ?thesis using sum_bump [of m k] assms(2) by (simp add: bump_def)
  qed
  note b = this
  have "\<forall>m \<in> {bump error_type (et_errors t), bump phase (et_phases t), bump object (et_objects t)}.
     keys_distinct m \<and> (\<forall>c \<in> set (map snd m). 0 \<le> c) \<and> sum_list (map snd m) = n + 1"
    using b [of "et_errors t"] b [of "et_phases t"] b [of "et_objects t"] by blast
  then show ?thesis unfolding tracker_inv_def record_error_def by simp
qed

section \<open>Starting and stopping\<close>

text \<open>
  \<open>Start\<close>, \<open>Stop\<close> and the loop's goroutine, one lock section or channel operation at a time. The loop
  closes \<open>doneCh\<close> when it ends, \<open>Stop\<close> closes \<open>stopCh\<close>; closing a closed channel crashes the program.
\<close>

record lifecycle =
  lc_running :: bool
  lc_stop_closed :: bool
  lc_done_closed :: bool
  lc_loops :: nat
  lc_stopping :: nat
  lc_crashed :: bool

definition fresh_monitor :: lifecycle where
  "fresh_monitor = \<lparr>lc_running = False, lc_stop_closed = False, lc_done_closed = False, lc_loops = 0, lc_stopping = 0,
                    lc_crashed = False\<rparr>"

datatype lc_event = EvStart | EvStartRefused | EvStop | EvStopIdle | EvStopReturns | EvLoopEnds

inductive lc_step :: "bool \<Rightarrow> lifecycle \<Rightarrow> lc_event \<Rightarrow> lifecycle \<Rightarrow> bool" for ctx_done where
  start: "\<not> lc_crashed s \<Longrightarrow> \<not> lc_running s
          \<Longrightarrow> lc_step ctx_done s EvStart (s\<lparr>lc_running := True, lc_loops := lc_loops s + 1\<rparr>)"
| start_refused: "\<not> lc_crashed s \<Longrightarrow> lc_running s \<Longrightarrow> lc_step ctx_done s EvStartRefused s"
| stop_idle: "\<not> lc_crashed s \<Longrightarrow> \<not> lc_running s \<Longrightarrow> lc_step ctx_done s EvStopIdle s"
| stop: "\<not> lc_crashed s \<Longrightarrow> lc_running s \<Longrightarrow>
         lc_step ctx_done s EvStop (if lc_stop_closed s then s\<lparr>lc_crashed := True\<rparr>
                                    else s\<lparr>lc_stop_closed := True, lc_stopping := lc_stopping s + 1\<rparr>)"
| stop_returns: "\<not> lc_crashed s \<Longrightarrow> 0 < lc_stopping s \<Longrightarrow> lc_done_closed s \<Longrightarrow>
         lc_step ctx_done s EvStopReturns (s\<lparr>lc_running := False, lc_stopping := lc_stopping s - 1\<rparr>)"
| loop_ends: "\<not> lc_crashed s \<Longrightarrow> 0 < lc_loops s \<Longrightarrow> lc_stop_closed s \<or> ctx_done \<Longrightarrow>
         lc_step ctx_done s EvLoopEnds (if lc_done_closed s then s\<lparr>lc_crashed := True, lc_loops := lc_loops s - 1\<rparr>
                                        else s\<lparr>lc_done_closed := True, lc_loops := lc_loops s - 1\<rparr>)"

inductive_cases lc_stepE: "lc_step ctx_done s e s'"

inductive lc_run :: "bool \<Rightarrow> lifecycle \<Rightarrow> lc_event list \<Rightarrow> lifecycle \<Rightarrow> bool" for ctx_done where
  run_nil: "lc_run ctx_done s [] s"
| run_step: "lc_step ctx_done s e s' \<Longrightarrow> lc_run ctx_done s' es s'' \<Longrightarrow> lc_run ctx_done s (e # es) s''"

inductive_cases lc_runE: "lc_run ctx_done s es s'"

definition lc_count :: "lc_event \<Rightarrow> lc_event list \<Rightarrow> nat" where
  "lc_count e es = length (filter (\<lambda>x. x = e) es)"

text \<open>A monitor that is started once and stopped once never crashes.\<close>

definition lc_inv :: "nat \<Rightarrow> nat \<Rightarrow> lifecycle \<Rightarrow> bool" where
  "lc_inv starts stops s \<longleftrightarrow> \<not> lc_crashed s
     \<and> lc_loops s + (if lc_done_closed s then 1 else 0) \<le> starts \<and> (lc_stop_closed s \<longrightarrow> 1 \<le> stops)"

lemma lc_inv_step:
  assumes "lc_step ctx_done s e s'" and "lc_inv m n s"
    and "m + lc_count EvStart [e] \<le> 1" and "n + lc_count EvStop [e] \<le> 1"
  shows "lc_inv (m + lc_count EvStart [e]) (n + lc_count EvStop [e]) s'"
  using assms by (elim lc_stepE) (auto simp: lc_inv_def lc_count_def split: if_splits)

lemma lc_run_inv:
  assumes "lc_run ctx_done s es s'" and "lc_inv m n s" and "m + lc_count EvStart es \<le> 1" and "n + lc_count EvStop es \<le> 1"
  shows "lc_inv (m + lc_count EvStart es) (n + lc_count EvStop es) s'"
  using assms
proof (induction arbitrary: m n rule: lc_run.induct)
  case (run_step s e s' es s'')
  have split: "lc_count x (e # es) = lc_count x [e] + lc_count x es" for x by (simp add: lc_count_def)
  have "lc_inv (m + lc_count EvStart [e]) (n + lc_count EvStop [e]) s'"
    using lc_inv_step [OF run_step.hyps(1) run_step.prems(1)] run_step.prems(2,3) unfolding split by linarith
  from run_step.IH [OF this] show ?case using run_step.prems(2,3) unfolding split by (simp add: add.assoc)
qed (simp add: lc_count_def)

lemma started_once_safe:
  assumes "lc_run ctx_done fresh_monitor es s" and "lc_count EvStart es \<le> 1" and "lc_count EvStop es \<le> 1"
  shows "\<not> lc_crashed s"
  using lc_run_inv [OF assms(1), of 0 0] assms(2,3) by (simp add: lc_inv_def fresh_monitor_def)

text \<open>Started again after it was stopped, its loop crashes the program as soon as it takes a step.\<close>

lemma restart_crashes:
  assumes "lc_run ctx_done fresh_monitor [EvStart, EvStop, EvLoopEnds, EvStopReturns, EvStart] s"
  shows "\<exists>s'. lc_step ctx_done s EvLoopEnds s'" and "lc_step ctx_done s EvLoopEnds s' \<Longrightarrow> lc_crashed s'"
proof -
  have "\<not> lc_crashed s \<and> lc_stop_closed s \<and> lc_done_closed s \<and> 0 < lc_loops s"
    using assms by (auto elim!: lc_runE lc_stepE simp: fresh_monitor_def)
  then show "\<exists>s'. lc_step ctx_done s EvLoopEnds s'" and "lc_step ctx_done s EvLoopEnds s' \<Longrightarrow> lc_crashed s'"
    by (auto intro: lc_step.loop_ends elim!: lc_stepE)
qed

end
