(* ===== verification/Config.thy ===== *)
theory Config
  imports Monitoring Json
begin

text \<open>
  internal/config/config.go: the configuration, the expansion of environment variables in its text,
  the defaults and the validation. A source, checkpoint, ... section that the file leaves out is a nil
  pointer (\<open>None\<close>); a result \<open>None\<close> of \<open>set_defaults\<close> or \<open>validate\<close> is the panic of a nil
  dereference. The YAML decoder is an argument of \<open>load_config\<close>, as are the file, the environment and
  \<open>regexp.Compile\<close>. Proved: what expansion leaves alone and that it does not expand its own output;
  the defaults are idempotent and leave a configuration the other components can run with; what
  validation accepts.
\<close>

section \<open>The configuration\<close>

record agent_config =
  ag_log_level :: string
  ag_log_format :: string
  ag_health_addr :: string
  ag_schedule :: string
  ag_timeout :: duration

record storage_config =
  sg_bucket :: string
  sg_region :: string
  sg_endpoint :: string
  sg_prefix :: string

record checkpoint_section =
  ck_frequency :: int
  ck_retention_days :: int
  ck_max_checkpoints :: int
  ck_validation_enabled :: bool
  ck_compaction_enabled :: bool
  ck_size_threshold_mb :: int
  ck_adaptive_mode :: bool

record consistency_section =
  cs_enabled :: bool
  cs_relationships :: "(string, string list) gomap option"
  cs_windows :: "(string, string) gomap option"
  cs_max_staleness :: string
  cs_required_objects :: "string list"
  cs_fail_on_violation :: bool

record custom_rule =
  cr_field :: string
  cr_type :: string
  cr_min :: "f64 option"
  cr_max :: "f64 option"
  cr_pattern :: string
  cr_values :: "string list"
  cr_required :: bool

record validation_section =
  vs_enabled :: bool
  vs_error_threshold :: f64
  vs_drift_threshold :: f64
  vs_strict_mode :: bool
  vs_custom_rules :: "(string, custom_rule list) gomap option"

record error_handling_section =
  eh_max_retries :: int
  eh_base_delay :: duration
  eh_max_delay :: duration
  eh_breaker_threshold :: int
  eh_breaker_timeout :: duration
  eh_partial_recovery :: bool
  eh_skip_failed_objects :: bool

record source_config =
  so_type :: string
  so_enabled :: bool
  so_schedule :: string
  so_concurrency :: int
  so_batch_size :: int
  so_objects :: "string list"
  so_auth :: "(string, string) gomap option"
  so_options :: "(string, string) gomap option"
  so_checkpoint :: "checkpoint_section option"
  so_consistency :: "consistency_section option"
  so_validation :: "validation_section option"
  so_error_handling :: "error_handling_section option"

record backup_section =
  bk_enabled :: bool
  bk_destination_bucket :: string
  bk_destination_region :: string
  bk_schedule :: string
  bk_retention_days :: int
  bk_cross_region :: bool
  bk_encryption_key :: string
  bk_validation_mode :: string
  bk_concurrent_uploads :: int
  bk_chunk_size_mb :: int

record profiler_section =
  pf_enabled :: bool
  pf_sample_rate :: f64
  pf_output_dir :: string
  pf_cpu_duration :: duration
  pf_memory_interval :: duration
  pf_goroutine_threshold :: int

record plugin_security =
  ps_max_memory_mb :: int
  ps_max_cpu_percent :: f64
  ps_network_allowed :: bool
  ps_allowed_hosts :: "string list"
  ps_allowed_env_vars :: "(string, string) gomap option"
  ps_sandbox_enabled :: bool

record plugin_section =
  pg_enabled :: bool
  pg_directory :: string
  pg_auto_reload :: bool
  pg_watch_paths :: "string list"
  pg_security :: "plugin_security option"

record migration_section =
  mi_enabled :: bool
  mi_auto_migrate :: bool
  mi_backup_before :: bool
  mi_validation_mode :: string
  mi_max_time :: duration

text \<open>The sections of \<open>config.RetryConfig\<close> have the fields of their counterparts in internal/retry.\<close>

type_synonym retry_policy_section = policy_config
type_synonym circuit_breaker_section = breaker_config
type_synonym retry_section = retry_config

record security_rule =
  sr_id :: string
  sr_name :: string
  sr_description :: string
  sr_pattern :: string
  sr_severity :: string
  sr_cwe :: string
  sr_fix :: string
  sr_tags :: "string list"
  sr_metadata :: "(string, string) gomap option"

record static_analysis_config =
  sa_enabled :: bool
  sa_fail_on_high :: bool
  sa_skip_directories :: "string list"
  sa_exclude_rules :: "string list"
  sa_custom_rules :: "security_rule list"

record dependency_audit_config =
  da_enabled :: bool
  da_fail_on_high :: bool
  da_check_interval :: duration
  da_notify_channels :: "string list"
  da_max_cvss :: f64
  da_ignore_packages :: "string list"

record runtime_monitoring_config =
  rm_enabled :: bool
  rm_auth_failure_threshold :: int
  rm_network_anomaly :: bool
  rm_file_access :: bool
  rm_memory_anomaly :: bool
  rm_process_monitoring :: bool
  rm_network_tracking :: bool

record encryption_config =
  en_enforce_tls :: bool
  en_min_tls :: string
  en_credentials :: bool
  en_data_at_rest :: bool
  en_transit :: bool

record security_section =
  sx_enabled :: bool
  sx_static_analysis :: static_analysis_config
  sx_dependency_audit :: dependency_audit_config
  sx_runtime_monitoring :: runtime_monitoring_config
  sx_encryption :: encryption_config

record tracing_config =
  tr_enabled :: bool
  tr_exporter :: string
  tr_endpoint :: string
  tr_sample_rate :: f64
  tr_service_name :: string
  tr_service_version :: string

record metrics_config =
  mx_enabled :: bool
  mx_exporter :: string
  mx_endpoint :: string
  mx_interval :: duration
  mx_business :: bool
  mx_http :: bool

record logging_config =
  lg_correlation_ids :: bool
  lg_structured_context :: bool
  lg_trace_integration :: bool

record observability_section =
  ob_tracing :: tracing_config
  ob_metrics :: metrics_config
  ob_logging :: logging_config

record config =
  cf_agent :: agent_config
  cf_storage :: storage_config
  cf_sources :: "(string, source_config option) gomap"
  cf_monitoring :: monitoring_config
  cf_backup :: "backup_section option"
  cf_profiler :: "profiler_section option"
  cf_plugins :: "plugin_section option"
  cf_retry :: "retry_section option"
  cf_migration :: "migration_section option"
  cf_security :: "security_section option"
  cf_observability :: "observability_section option"

section \<open>Environment variables\<close>

text \<open>
  \<open>strings.TrimSpace\<close>: the UTF-8 encodings of the characters \<open>unicode.IsSpace\<close> holds of.
\<close>

definition space_codes :: "nat list" where
  "space_codes = [9, 10, 11, 12, 13, 32, 0x85, 0xA0, 0x1680] @ [0x2000..<0x200B] @ [0x2028, 0x2029, 0x202F, 0x205F, 0x3000]"

definition space_prefix :: "string \<Rightarrow> nat" where
  "space_prefix s = (case filter (\<lambda>e. take (length e) s = e) (map utf8_encode space_codes) of [] \<Rightarrow> 0 | e # _ \<Rightarrow> length e)"

fun trim_left_fuel :: "nat \<Rightarrow> string \<Rightarrow> string" where
  "trim_left_fuel 0 s = s"
| "trim_left_fuel (Suc n) s = (let k = space_prefix s in if k = 0 then s else trim_left_fuel n (drop k s))"

definition space_suffix :: "string \<Rightarrow> nat" where
  "space_suffix s = (case filter (\<lambda>e. has_suffix s e) (map utf8_encode space_codes) of [] \<Rightarrow> 0 | e # _ \<Rightarrow> length e)"

fun trim_right_fuel :: "nat \<Rightarrow> string \<Rightarrow> string" where
  "trim_right_fuel 0 s = s"
| "trim_right_fuel (Suc n) s = (let k = space_suffix s in if k = 0 then s else trim_right_fuel n (take (length s - k) s))"

definition trim_space :: "string \<Rightarrow> string" where
  "trim_space s = (let t = trim_left_fuel (length s) s in trim_right_fuel (length t) t)"

text \<open>\<open>strings.SplitN(key, ":-", 2)\<close>: what is before the first \<open>:-\<close>, and what is after it.\<close>

fun split_default :: "string \<Rightarrow> string \<times> string option" where
  "split_default (c # d # s) =
     (if c = CHR '':'' \<and> d = CHR ''-'' then ([], Some s)
      else let (k, v) = split_default (d # s) in (c # k, v))"
| "split_default s = (s, None)"

definition expand_one :: "(string \<Rightarrow> string option) \<Rightarrow> string \<Rightarrow> string" where
  "expand_one env key =
     (let (name, dflt) = split_default key
      in case env (trim_space name) of
           Some v \<Rightarrow> v
         | None \<Rightarrow> (case dflt of Some d \<Rightarrow> d | None \<Rightarrow> ''${'' @ key @ ''}''))"

text \<open>
  The matches of \<open>\$\{([^}]+)\}\<close> from the left: a \<open>${\<close> whose braces enclose at least one character.
\<close>

function expand_env_vars :: "(string \<Rightarrow> string option) \<Rightarrow> string \<Rightarrow> string" where
  "expand_env_vars env s =
     (case s of
        [] \<Rightarrow> []
      | c # t \<Rightarrow>
          if c = CHR ''$'' \<and> t \<noteq> [] \<and> hd t = CHR ''{''
          then let key = takeWhile (\<lambda>x. x \<noteq> CHR ''}'') (tl t); rest = dropWhile (\<lambda>x. x \<noteq> CHR ''}'') (tl t)
               in if key \<noteq> [] \<and> rest \<noteq> [] then expand_one env key @ expand_env_vars env (tl rest)
                  else c # expand_env_vars env t
          else c # expand_env_vars env t)"
  by pat_completeness auto
termination
proof (relation "measure (\<lambda>(env, s). length s)", goal_cases)
  case (2 env s c t key rest)
  have "length rest \<le> length (tl t)" using length_dropWhile_le [of _ "tl t"] 2 by simp
  then show ?case using 2 by (cases t; cases rest) auto
qed auto

declare expand_env_vars.simps [simp del]

section \<open>Defaults\<close>

definition or_text :: "string \<Rightarrow> string \<Rightarrow> string" where
  "or_text d s = (if s = [] then d else s)"

definition or_zero :: "int \<Rightarrow> int \<Rightarrow> int" where
  "or_zero d x = (if x = 0 then d else x)"

definition or_positive :: "int \<Rightarrow> int \<Rightarrow> int" where
  "or_positive d x = (if x \<le> 0 then d else x)"

definition or_f64_zero :: "f64 \<Rightarrow> f64 \<Rightarrow> f64" where
  "or_f64_zero d x = (if x = Fin 0 then d else x)"

definition or_f64_positive :: "f64 \<Rightarrow> f64 \<Rightarrow> f64" where
  "or_f64_positive d x = (if f64_le x (Fin 0) then d else x)"

definition set_checkpoint_defaults :: "checkpoint_section \<Rightarrow> checkpoint_section" where
  "set_checkpoint_defaults c =
     c\<lparr>ck_frequency := or_positive 10 (ck_frequency c), ck_retention_days := or_positive 30 (ck_retention_days c),
       ck_max_checkpoints := or_positive 50 (ck_max_checkpoints c),
       ck_size_threshold_mb := or_positive 128 (ck_size_threshold_mb c)\<rparr>"

definition set_backup_defaults :: "backup_section \<Rightarrow> backup_section" where
  "set_backup_defaults b =
     b\<lparr>bk_schedule := or_text ''@daily'' (bk_schedule b), bk_retention_days := or_positive 30 (bk_retention_days b),
       bk_validation_mode := or_text ''checksum'' (bk_validation_mode b),
       bk_concurrent_uploads := or_positive 4 (bk_concurrent_uploads b),
       bk_chunk_size_mb := or_positive 64 (bk_chunk_size_mb b)\<rparr>"

definition set_profiler_defaults :: "profiler_section \<Rightarrow> profiler_section" where
  "set_profiler_defaults p =
     p\<lparr>pf_sample_rate := or_f64_positive (f64_of (1 / 10)) (pf_sample_rate p),
       pf_output_dir := or_text ''./profiles'' (pf_output_dir p),
       pf_cpu_duration := or_positive (30 * second) (pf_cpu_duration p),
       pf_memory_interval := or_positive (5 * minute) (pf_memory_interval p),
       pf_goroutine_threshold := or_positive 1000 (pf_goroutine_threshold p)\<rparr>"

definition set_plugin_security_defaults :: "plugin_security \<Rightarrow> plugin_security" where
  "set_plugin_security_defaults s =
     s\<lparr>ps_max_memory_mb := or_positive 512 (ps_max_memory_mb s),
       ps_max_cpu_percent := or_f64_positive (Fin 25) (ps_max_cpu_percent s),
       ps_allowed_env_vars := Some (entries (ps_allowed_env_vars s))\<rparr>"

definition set_plugin_defaults :: "plugin_section \<Rightarrow> plugin_section" where
  "set_plugin_defaults p =
     (let directory = or_text ''/etc/agentbrain/plugins'' (pg_directory p)
      in p\<lparr>pg_directory := directory,
           pg_watch_paths := (if pg_watch_paths p = [] then [directory] else pg_watch_paths p),
           pg_security := map_option set_plugin_security_defaults (pg_security p)\<rparr>)"

definition default_breaker_sections :: "(string, circuit_breaker_section) gomap" where
  "default_breaker_sections =
     [(''s3_operations'', \<lparr>bc_failure_threshold = 5, bc_reset_timeout = 60 * second, bc_enabled = True\<rparr>),
      (''connector_auth'', \<lparr>bc_failure_threshold = 3, bc_reset_timeout = 5 * minute, bc_enabled = True\<rparr>),
      (''api_operations'', \<lparr>bc_failure_threshold = 10, bc_reset_timeout = 2 * minute, bc_enabled = True\<rparr>)]"

definition default_policy_sections :: "(string, retry_policy_section) gomap" where
  "default_policy_sections =
     [(''s3_upload'', policy_cfg 5 (2 * second) (120 * second) ''exponential'' True),
      (''s3_download'', policy_cfg 5 second (60 * second) ''exponential'' True),
      (''delta_commit'', policy_cfg 3 (500 * millisecond) (10 * second) ''linear'' False),
      (''connector_auth'', policy_cfg 3 (2 * second) (30 * second) ''fixed'' False),
      (''api_request'', policy_cfg 4 second (30 * second) ''api_rate_limit'' True)]"

definition or_entries :: "('k, 'v) gomap \<Rightarrow> ('k, 'v) gomap option \<Rightarrow> ('k, 'v) gomap" where
  "or_entries d m = (if entries m = [] then d else entries m)"

text \<open>The loops over the two maps write each entry back under its own name.\<close>

definition set_retry_section_defaults :: "retry_section \<Rightarrow> retry_section" where
  "set_retry_section_defaults c =
     set_retry_defaults (c\<lparr>rc_circuit_breakers := Some (or_entries default_breaker_sections (rc_circuit_breakers c)),
                           rc_operation_policies := Some (or_entries default_policy_sections (rc_operation_policies c))\<rparr>)"

definition set_migration_defaults :: "migration_section \<Rightarrow> migration_section" where
  "set_migration_defaults m =
     m\<lparr>mi_validation_mode := or_text ''strict'' (mi_validation_mode m), mi_max_time := or_positive (5 * minute) (mi_max_time m),
       mi_auto_migrate := (mi_auto_migrate m \<or> mi_enabled m), mi_backup_before := (mi_backup_before m \<or> mi_enabled m)\<rparr>"

definition set_static_analysis_defaults :: "static_analysis_config \<Rightarrow> static_analysis_config" where
  "set_static_analysis_defaults a =
     (if sa_enabled a \<and> sa_skip_directories a = []
      then a\<lparr>sa_skip_directories := [''vendor'', ''node_modules'', ''.git'']\<rparr> else a)"

definition set_dependency_audit_defaults :: "dependency_audit_config \<Rightarrow> dependency_audit_config" where
  "set_dependency_audit_defaults a =
     (if da_enabled a
      then a\<lparr>da_check_interval := or_positive (24 * hour) (da_check_interval a),
             da_max_cvss := or_f64_positive (Fin 10) (da_max_cvss a)\<rparr>
      else a)"

definition set_runtime_monitoring_defaults :: "runtime_monitoring_config \<Rightarrow> runtime_monitoring_config" where
  "set_runtime_monitoring_defaults r =
     (if rm_enabled r then r\<lparr>rm_auth_failure_threshold := or_positive 5 (rm_auth_failure_threshold r)\<rparr> else r)"

definition set_encryption_defaults :: "encryption_config \<Rightarrow> encryption_config" where
  "set_encryption_defaults e = e\<lparr>en_min_tls := or_text ''1.2'' (en_min_tls e)\<rparr>"

definition set_security_defaults :: "security_section \<Rightarrow> security_section" where
  "set_security_defaults s =
     s\<lparr>sx_static_analysis := set_static_analysis_defaults (sx_static_analysis s),
       sx_dependency_audit := set_dependency_audit_defaults (sx_dependency_audit s),
       sx_runtime_monitoring := set_runtime_monitoring_defaults (sx_runtime_monitoring s),
       sx_encryption := set_encryption_defaults (sx_encryption s)\<rparr>"

definition set_error_handling_defaults :: "error_handling_section \<Rightarrow> error_handling_section" where
  "set_error_handling_defaults e =
     e\<lparr>eh_max_retries := or_positive 3 (eh_max_retries e), eh_base_delay := or_positive second (eh_base_delay e),
       eh_max_delay := or_positive (60 * second) (eh_max_delay e),
       eh_breaker_threshold := or_positive 5 (eh_breaker_threshold e),
       eh_breaker_timeout := or_positive (2 * minute) (eh_breaker_timeout e)\<rparr>"

definition set_agent_failure_defaults :: "agent_failure_rate_config \<Rightarrow> agent_failure_rate_config" where
  "set_agent_failure_defaults c =
     c\<lparr>af_threshold := or_f64_zero (f64_of (1 / 10)) (af_threshold c), af_window := or_zero hour (af_window c),
       af_severity := or_text ''warning'' (af_severity c)\<rparr>"

definition set_workflow_defaults :: "workflow_completion_config \<Rightarrow> workflow_completion_config" where
  "set_workflow_defaults c =
     c\<lparr>wc_min_success_rate := or_f64_zero (f64_of (8 / 10)) (wc_min_success_rate c),
       wc_window := or_zero (6 * hour) (wc_window c), wc_severity := or_text ''critical'' (wc_severity c)\<rparr>"

definition set_disk_defaults :: "disk_usage_config \<Rightarrow> disk_usage_config" where
  "set_disk_defaults c =
     c\<lparr>du_warning := or_f64_zero (Fin 80) (du_warning c), du_critical := or_f64_zero (Fin 90) (du_critical c),
       du_severity := or_text ''warning'' (du_severity c)\<rparr>"

definition set_memory_defaults :: "memory_usage_config \<Rightarrow> memory_usage_config" where
  "set_memory_defaults c =
     c\<lparr>mu_warning := or_f64_zero (Fin 80) (mu_warning c), mu_critical := or_f64_zero (Fin 90) (mu_critical c),
       mu_severity := or_text ''warning'' (mu_severity c)\<rparr>"

definition set_api_time_defaults :: "api_response_time_config \<Rightarrow> api_response_time_config" where
  "set_api_time_defaults c =
     c\<lparr>ar_warning := or_zero (5 * second) (ar_warning c), ar_critical := or_zero (10 * second) (ar_critical c),
       ar_severity := or_text ''warning'' (ar_severity c)\<rparr>"

definition set_rule_defaults :: "rules_config \<Rightarrow> rules_config" where
  "set_rule_defaults r =
     r\<lparr>rl_agent_failure_rate := set_agent_failure_defaults (rl_agent_failure_rate r),
       rl_workflow_completion := set_workflow_defaults (rl_workflow_completion r),
       rl_disk_usage := set_disk_defaults (rl_disk_usage r), rl_memory_usage := set_memory_defaults (rl_memory_usage r),
       rl_api_response_time := set_api_time_defaults (rl_api_response_time r)\<rparr>"

lemmas rule_defaults_defs =
  set_agent_failure_defaults_def set_workflow_defaults_def set_disk_defaults_def set_memory_defaults_def set_api_time_defaults_def

definition set_tracing_defaults :: "tracing_config \<Rightarrow> tracing_config" where
  "set_tracing_defaults t =
     (let exporter = or_text ''jaeger'' (tr_exporter t)
      in t\<lparr>tr_service_name := or_text ''agentbrain'' (tr_service_name t),
           tr_service_version := or_text ''unknown'' (tr_service_version t),
           tr_sample_rate := or_f64_zero (f64_of (1 / 10)) (tr_sample_rate t), tr_exporter := exporter,
           tr_endpoint := (if tr_endpoint t \<noteq> [] then tr_endpoint t
                           else if exporter = ''jaeger'' then ''http://localhost:14268/api/traces''
                           else if exporter = ''zipkin'' then ''http://localhost:9411/api/v2/spans''
                           else if exporter = ''otlp'' then ''http://localhost:4318/v1/traces''
                           else [])\<rparr>)"

definition set_metrics_defaults :: "metrics_config \<Rightarrow> metrics_config" where
  "set_metrics_defaults m =
     (let exporter = or_text ''prometheus'' (mx_exporter m); both = (\<not> mx_business m \<and> \<not> mx_http m)
      in m\<lparr>mx_exporter := exporter,
           mx_endpoint := (if mx_endpoint m = [] \<and> exporter = ''prometheus'' then '':9090'' else mx_endpoint m),
           mx_interval := or_zero (30 * second) (mx_interval m),
           mx_business := (mx_business m \<or> both), mx_http := (mx_http m \<or> both)\<rparr>)"

definition set_observability_defaults :: "observability_section \<Rightarrow> observability_section" where
  "set_observability_defaults o' =
     o'\<lparr>ob_tracing := set_tracing_defaults (ob_tracing o'), ob_metrics := set_metrics_defaults (ob_metrics o')\<rparr>"

definition set_agent_defaults :: "agent_config \<Rightarrow> agent_config" where
  "set_agent_defaults a =
     a\<lparr>ag_log_level := or_text ''info'' (ag_log_level a), ag_log_format := or_text ''json'' (ag_log_format a),
       ag_health_addr := or_text '':8080'' (ag_health_addr a), ag_schedule := or_text ''@every 1h'' (ag_schedule a),
       ag_timeout := or_zero (30 * minute) (ag_timeout a)\<rparr>"

definition set_monitoring_defaults :: "monitoring_config \<Rightarrow> monitoring_config" where
  "set_monitoring_defaults m =
     m\<lparr>mn_check_interval := or_zero (5 * minute) (mn_check_interval m),
       mn_alert_cooldown := or_zero (30 * minute) (mn_alert_cooldown m), mn_rules := set_rule_defaults (mn_rules m)\<rparr>"

definition set_source_defaults :: "source_config \<Rightarrow> source_config" where
  "set_source_defaults s =
     s\<lparr>so_concurrency := or_positive 4 (so_concurrency s), so_batch_size := or_positive 10000 (so_batch_size s),
       so_checkpoint := map_option set_checkpoint_defaults (so_checkpoint s),
       so_error_handling := map_option set_error_handling_defaults (so_error_handling s)\<rparr>"

definition set_defaults :: "config \<Rightarrow> config option" where
  "set_defaults c =
     (if \<exists>(n, s) \<in> set (cf_sources c). s = None then None
      else Some (c\<lparr>cf_agent := set_agent_defaults (cf_agent c),
             cf_monitoring := set_monitoring_defaults (cf_monitoring c),
             cf_sources := map (\<lambda>(n, s). (n, map_option set_source_defaults s)) (cf_sources c),
             cf_backup := map_option set_backup_defaults (cf_backup c),
             cf_profiler := map_option set_profiler_defaults (cf_profiler c),
             cf_plugins := map_option set_plugin_defaults (cf_plugins c),
             cf_retry := map_option set_retry_section_defaults (cf_retry c),
             cf_migration := map_option set_migration_defaults (cf_migration c),
             cf_security := map_option set_security_defaults (cf_security c),
             cf_observability := map_option set_observability_defaults (cf_observability c)\<rparr>))"

section \<open>Validation\<close>

text \<open>
  \<open>strings.ToLower\<close> compared with an ASCII word: the characters outside ASCII whose lower case is an
  ASCII letter are the dotted capital I (C4 B0) and the Kelvin sign (E2 84 AA).
\<close>

fun lower_word :: "string \<Rightarrow> string" where
  "lower_word [] = []"
| "lower_word (c # s) =
     (if c = CHR 0xC4 \<and> s \<noteq> [] \<and> hd s = CHR 0xB0 then CHR ''i'' # lower_word (tl s)
      else if c = CHR 0xE2 \<and> take 2 s = [CHR 0x84, CHR 0xAA] then CHR ''k'' # lower_word (drop 2 s)
      else lower_char c # lower_word s)"

definition validate_security_rule :: "(string \<Rightarrow> go_error option) \<Rightarrow> nat \<Rightarrow> security_rule \<Rightarrow> go_error option" where
  "validate_security_rule compile i r =
     (if sr_id r = [] then Some (Msg (''custom rule '' @ dec (int i) @ '' missing ID''))
      else if sr_name r = [] then Some (Msg (''custom rule '' @ sr_id r @ '' missing name''))
      else if sr_pattern r = [] then Some (Msg (''custom rule '' @ sr_id r @ '' missing pattern''))
      else if sr_severity r = [] then Some (Msg (''custom rule '' @ sr_id r @ '' missing severity''))
      else if lower_word (sr_severity r) \<notin> {''low'', ''medium'', ''high'', ''critical''}
      then Some (Msg (''custom rule '' @ sr_id r @ '' has invalid severity '' @ sr_severity r))
      else (case compile (sr_pattern r) of
              Some e \<Rightarrow> Some (Wrap (''custom rule '' @ sr_id r @ '' has invalid pattern'') e)
            | None \<Rightarrow> None))"

fun validate_security_rules :: "(string \<Rightarrow> go_error option) \<Rightarrow> nat \<Rightarrow> security_rule list \<Rightarrow> go_error option" where
  "validate_security_rules compile i [] = None"
| "validate_security_rules compile i (r # rs) =
     (case validate_security_rule compile i r of
        Some e \<Rightarrow> Some e | None \<Rightarrow> validate_security_rules compile (i + 1) rs)"

definition validate_security_config :: "(string \<Rightarrow> go_error option) \<Rightarrow> security_section \<Rightarrow> go_error option" where
  "validate_security_config compile s =
     (case validate_security_rules compile 0 (sa_custom_rules (sx_static_analysis s)) of
        Some e \<Rightarrow> Some e
      | None \<Rightarrow>
          let tls = en_min_tls (sx_encryption s); a = sx_dependency_audit s; r = sx_runtime_monitoring s
          in if tls \<noteq> [] \<and> tls \<notin> {''1.0'', ''1.1'', ''1.2'', ''1.3''}
             then Some (Msg (''invalid minimum TLS version: '' @ tls))
             else if da_enabled a \<and> (f64_less (da_max_cvss a) (Fin 0) \<or> f64_less (Fin 10) (da_max_cvss a))
             then Some (Msg ''max_cvss_score must be between 0 and 10'')
             else if da_enabled a \<and> da_check_interval a \<le> 0
             then Some (Msg ''check_interval must be positive'')
             else if rm_enabled r \<and> rm_auth_failure_threshold r < 0
             then Some (Msg ''auth_failure_threshold must be non-negative'')
             else None)"

text \<open>
  \<open>%q\<close>: ASCII characters as \<open>strconv.Quote\<close> writes them; characters outside ASCII are taken to be
  printable and are kept.
\<close>

definition quote_char :: "char \<Rightarrow> string" where
  "quote_char c =
     (if c = CHR 0x22 \<or> c = CHR 0x5C then [CHR 0x5C, c]
      else if c = CHR 0x07 then [CHR 0x5C, CHR ''a'']
      else if c = CHR 0x08 then [CHR 0x5C, CHR ''b'']
      else if c = CHR 0x0C then [CHR 0x5C, CHR ''f'']
      else if c = CHR 0x0A then [CHR 0x5C, CHR ''n'']
      else if c = CHR 0x0D then [CHR 0x5C, CHR ''r'']
      else if c = CHR 0x09 then [CHR 0x5C, CHR ''t'']
      else if c = CHR 0x0B then [CHR 0x5C, CHR ''v'']
      else if byte c < 32 \<or> byte c = 127 then [CHR 0x5C, CHR ''x'', hexdigit (byte c div 16), hexdigit (byte c mod 16)]
      else [c])"

definition quoted :: "string \<Rightarrow> string" where
  "quoted s = [CHR 0x22] @ concat (map quote_char s) @ [CHR 0x22]"

text \<open>The loop over the sources, in the order \<open>ord\<close>: a nil source panics (\<open>None\<close>).\<close>

fun validate_sources :: "(string \<times> source_config option) list \<Rightarrow> go_error option option" where
  "validate_sources [] = Some None"
| "validate_sources ((n, None) # xs) = None"
| "validate_sources ((n, Some s) # xs) =
     (if so_type s = [] then Some (Some (Msg (''source '' @ quoted n @ '': type is required''))) else validate_sources xs)"

type_synonym source_order = "(string \<times> source_config option) list \<Rightarrow> (string \<times> source_config option) list"

definition validate_config :: "(string \<Rightarrow> go_error option) \<Rightarrow> source_order \<Rightarrow> config \<Rightarrow> go_error option option" where
  "validate_config compile ord c =
     (if sg_bucket (cf_storage c) = [] then Some (Some (Msg ''storage.bucket is required''))
      else if sg_region (cf_storage c) = [] then Some (Some (Msg ''storage.region is required''))
      else if cf_sources c = [] then Some (Some (Msg ''at least one source is required''))
      else case validate_sources (ord (cf_sources c)) of
             None \<Rightarrow> None
           | Some (Some e) \<Rightarrow> Some (Some e)
           | Some None \<Rightarrow>
               (case cf_security c of
                  None \<Rightarrow> Some None
                | Some s \<Rightarrow>
                    (case validate_security_config compile s of
                       Some e \<Rightarrow> Some (Some (Wrap ''security configuration invalid'' e))
                     | None \<Rightarrow> Some None)))"

section \<open>Loading\<close>

record loader =
  ld_read_file :: "string \<Rightarrow> go_error + string"
  ld_env :: "string \<Rightarrow> string option"
  ld_yaml :: "string \<Rightarrow> go_error + config"
  ld_compile :: "string \<Rightarrow> go_error option"

definition load_config :: "loader \<Rightarrow> source_order \<Rightarrow> string \<Rightarrow> (go_error + config) option" where
  "load_config ld ord path =
     (case ld_read_file ld path of
        Inl e \<Rightarrow> Some (Inl (Wrap (''read config '' @ path) e))
      | Inr data \<Rightarrow>
     (case ld_yaml ld (expand_env_vars (ld_env ld) data) of
        Inl e \<Rightarrow> Some (Inl (Wrap ''parse config'' e))
      | Inr c0 \<Rightarrow>
     (case set_defaults c0 of
        None \<Rightarrow> None
      | Some c \<Rightarrow>
     (case validate_config (ld_compile ld) ord c of
        None \<Rightarrow> None
      | Some (Some e) \<Rightarrow> Some (Inl (Wrap ''validate config'' e))
      | Some None \<Rightarrow> Some (Inr c)))))"

text \<open>The registry is the interface \<open>ConnectorRegistry\<close>, one operation.\<close>

fun validate_each_source ::
  "(source_config option \<Rightarrow> go_error option) \<Rightarrow> (string \<times> source_config option) list \<Rightarrow> go_error option" where
  "validate_each_source reg [] = None"
| "validate_each_source reg ((n, s) # xs) =
     (case reg s of
        Some e \<Rightarrow> Some (Wrap (''invalid config for source '' @ n) e)
      | None \<Rightarrow> validate_each_source reg xs)"

definition validate_with_registry ::
  "(string \<Rightarrow> go_error option) \<Rightarrow> source_order \<Rightarrow> source_order \<Rightarrow> (source_config option \<Rightarrow> go_error option)
   \<Rightarrow> config \<Rightarrow> go_error option option" where
  "validate_with_registry compile ord1 ord2 reg c =
     (case validate_config compile ord1 c of
        None \<Rightarrow> None
      | Some (Some e) \<Rightarrow> Some (Some e)
      | Some None \<Rightarrow> Some (validate_each_source reg (ord2 (cf_sources c))))"

section \<open>Expansion\<close>

lemma expand_env_Nil [simp]: "expand_env_vars env [] = []"
  by (simp add: expand_env_vars.simps)

lemma expand_env_other: "c \<noteq> CHR ''$'' \<Longrightarrow> expand_env_vars env (c # s) = c # expand_env_vars env s"
  by (subst expand_env_vars.simps) simp

text \<open>Text without a dollar sign is kept; a variable is replaced by its value, which is not expanded again.\<close>

lemma expand_env_plain: "CHR ''$'' \<notin> set a \<Longrightarrow> expand_env_vars env (a @ s) = a @ expand_env_vars env s"
  by (induction a) (auto simp: expand_env_other)

lemma expand_env_variable:
  assumes "key \<noteq> []" and "CHR ''}'' \<notin> set key"
  shows "expand_env_vars env (CHR ''$'' # CHR ''{'' # key @ CHR ''}'' # s) = expand_one env key @ expand_env_vars env s"
proof -
  have tw: "takeWhile (\<lambda>x. x \<noteq> CHR ''}'') (key @ CHR ''}'' # s) = key"
    and dw: "dropWhile (\<lambda>x. x \<noteq> CHR ''}'') (key @ CHR ''}'' # s) = CHR ''}'' # s"
    using assms(2) by (induction key) auto
  show ?thesis using assms(1) tw dw by (subst expand_env_vars.simps) (simp add: Let_def)
qed

lemma expand_env_text:
  assumes "CHR ''$'' \<notin> set a" and "key \<noteq> []" and "CHR ''}'' \<notin> set key"
  shows "expand_env_vars env (a @ CHR ''$'' # CHR ''{'' # key @ CHR ''}'' # s) = a @ expand_one env key @ expand_env_vars env s"
  by (simp only: expand_env_plain [OF assms(1)] expand_env_variable [OF assms(2,3)])

text \<open>A variable that is not set and has no default stays as it is written.\<close>

lemma split_default_None:
  "snd (split_default key) = None \<longleftrightarrow> \<not> str_contains key '':-''"
  by (induction key rule: split_default.induct) (auto simp: case_prod_beta Let_def has_prefix_def split: if_splits)

section \<open>What the defaults promise\<close>

lemma or_idem [simp]:
  "or_text d (or_text d s) = or_text d s" "or_zero n (or_zero n x) = or_zero n x"
  "or_positive n (or_positive n x) = or_positive n x"
  "or_f64_zero f (or_f64_zero f x') = or_f64_zero f x'" "or_f64_positive f (or_f64_positive f x') = or_f64_positive f x'"
  by (simp_all add: or_text_def or_zero_def or_positive_def or_f64_zero_def or_f64_positive_def)

lemma or_text_nonempty [simp]: "d \<noteq> [] \<Longrightarrow> or_text d s \<noteq> []"
  by (simp add: or_text_def)

lemma or_positive_pos [simp]: "0 < d \<Longrightarrow> 0 < or_positive d x"
  by (simp add: or_positive_def)

lemma or_entries_idem: "d \<noteq> [] \<Longrightarrow> or_entries d (Some (or_entries d m)) = or_entries d m"
  by (simp add: or_entries_def entries_def split: option.splits)

lemma set_checkpoint_defaults_idem [simp]: "set_checkpoint_defaults (set_checkpoint_defaults c) = set_checkpoint_defaults c"
  by (simp add: set_checkpoint_defaults_def)

lemma set_backup_defaults_idem [simp]: "set_backup_defaults (set_backup_defaults c) = set_backup_defaults c"
  by (simp add: set_backup_defaults_def)

lemma set_profiler_defaults_idem [simp]: "set_profiler_defaults (set_profiler_defaults c) = set_profiler_defaults c"
  by (simp add: set_profiler_defaults_def)

lemma set_plugin_security_defaults_idem [simp]: "set_plugin_security_defaults (set_plugin_security_defaults c) = set_plugin_security_defaults c"
  by (simp add: set_plugin_security_defaults_def entries_def)

lemma set_migration_defaults_idem [simp]: "set_migration_defaults (set_migration_defaults c) = set_migration_defaults c"
  by (simp add: set_migration_defaults_def)

lemma set_error_handling_defaults_idem [simp]: "set_error_handling_defaults (set_error_handling_defaults c) = set_error_handling_defaults c"
  by (simp add: set_error_handling_defaults_def)

lemma set_agent_defaults_idem [simp]: "set_agent_defaults (set_agent_defaults c) = set_agent_defaults c"
  by (simp add: set_agent_defaults_def)

lemma rule_defaults_idem [simp]:
  "set_agent_failure_defaults (set_agent_failure_defaults a) = set_agent_failure_defaults a"
  "set_workflow_defaults (set_workflow_defaults b) = set_workflow_defaults b"
  "set_disk_defaults (set_disk_defaults c) = set_disk_defaults c"
  "set_memory_defaults (set_memory_defaults d) = set_memory_defaults d"
  "set_api_time_defaults (set_api_time_defaults e) = set_api_time_defaults e"
  by (simp_all add: rule_defaults_defs)

lemma set_rule_defaults_idem [simp]: "set_rule_defaults (set_rule_defaults c) = set_rule_defaults c"
  by (simp add: set_rule_defaults_def)

lemma set_source_defaults_idem: "set_source_defaults (set_source_defaults s) = set_source_defaults s"
  by (cases "so_checkpoint s"; cases "so_error_handling s") (simp_all add: set_source_defaults_def)

lemma set_plugin_defaults_idem: "set_plugin_defaults (set_plugin_defaults p) = set_plugin_defaults p"
  by (cases "pg_security p") (simp_all add: set_plugin_defaults_def Let_def)

lemma set_static_analysis_defaults_idem [simp]: "set_static_analysis_defaults (set_static_analysis_defaults c) = set_static_analysis_defaults c"
  by (simp add: set_static_analysis_defaults_def)

lemma set_dependency_audit_defaults_idem [simp]: "set_dependency_audit_defaults (set_dependency_audit_defaults c) = set_dependency_audit_defaults c"
  by (simp add: set_dependency_audit_defaults_def)

lemma set_runtime_monitoring_defaults_idem [simp]: "set_runtime_monitoring_defaults (set_runtime_monitoring_defaults c) = set_runtime_monitoring_defaults c"
  by (simp add: set_runtime_monitoring_defaults_def)

lemma set_encryption_defaults_idem [simp]: "set_encryption_defaults (set_encryption_defaults c) = set_encryption_defaults c"
  by (simp add: set_encryption_defaults_def)

lemma set_security_defaults_idem: "set_security_defaults (set_security_defaults s) = set_security_defaults s"
  by (simp add: set_security_defaults_def)

lemma set_tracing_defaults_idem [simp]: "set_tracing_defaults (set_tracing_defaults s) = set_tracing_defaults s"
  by (simp add: set_tracing_defaults_def Let_def)

lemma set_metrics_defaults_idem [simp]: "set_metrics_defaults (set_metrics_defaults s) = set_metrics_defaults s"
  by (cases "mx_business s"; cases "mx_http s") (simp_all add: set_metrics_defaults_def Let_def)

lemma set_observability_defaults_idem:
  "set_observability_defaults (set_observability_defaults s) = set_observability_defaults s"
  by (simp add: set_observability_defaults_def)

lemma set_retry_section_defaults_idem:
  "set_retry_section_defaults (set_retry_section_defaults c) = set_retry_section_defaults c"
proof -
  have b: "default_breaker_sections \<noteq> []" and p: "default_policy_sections \<noteq> []"
    by (simp_all add: default_breaker_sections_def default_policy_sections_def)
  define c1 where "c1 = c\<lparr>rc_circuit_breakers := Some (or_entries default_breaker_sections (rc_circuit_breakers c)),
                           rc_operation_policies := Some (or_entries default_policy_sections (rc_operation_policies c))\<rparr>"
  have ne: "or_entries d m \<noteq> []" if "d \<noteq> []" for d :: "('k, 'v) gomap" and m using that by (simp add: or_entries_def)
  have "rc_circuit_breakers (set_retry_defaults c1) \<noteq> Some []" "rc_operation_policies (set_retry_defaults c1) \<noteq> Some []"
    using ne [OF b, of "rc_circuit_breakers c"] ne [OF p, of "rc_operation_policies c"]
    by (simp_all add: set_retry_defaults_def Let_def entries_def c1_def)
  then have "or_entries default_breaker_sections (rc_circuit_breakers (set_retry_defaults c1))
               = entries (rc_circuit_breakers (set_retry_defaults c1))"
    "or_entries default_policy_sections (rc_operation_policies (set_retry_defaults c1))
               = entries (rc_operation_policies (set_retry_defaults c1))"
    by (simp_all add: or_entries_def entries_def set_retry_defaults_def Let_def)
  moreover have "rc_circuit_breakers (set_retry_defaults c1) = Some (entries (rc_circuit_breakers (set_retry_defaults c1)))"
    "rc_operation_policies (set_retry_defaults c1) = Some (entries (rc_operation_policies (set_retry_defaults c1)))"
    by (simp_all add: entries_def set_retry_defaults_def Let_def)
  ultimately have "set_retry_section_defaults (set_retry_defaults c1) = set_retry_defaults (set_retry_defaults c1)"
    unfolding set_retry_section_defaults_def by simp
  then show ?thesis unfolding set_retry_defaults_idem c1_def by (simp add: set_retry_section_defaults_def)
qed

lemma set_monitoring_defaults_idem [simp]: "set_monitoring_defaults (set_monitoring_defaults m) = set_monitoring_defaults m"
  by (simp add: set_monitoring_defaults_def)

lemma map_option_idem: "(\<And>a. f (f a) = f a) \<Longrightarrow> map_option f (map_option f x) = map_option f x"
  by (cases x) simp_all

text \<open>The one way \<open>setDefaults\<close> panics is a source whose section is empty.\<close>

definition no_nil_source :: "config \<Rightarrow> bool" where
  "no_nil_source c \<longleftrightarrow> (\<forall>(n, s) \<in> set (cf_sources c). s \<noteq> None)"

definition defaults_of :: "config \<Rightarrow> config" where
  "defaults_of c = the (set_defaults (c\<lparr>cf_sources := []\<rparr>))\<lparr>
     cf_sources := map (\<lambda>(n, s). (n, map_option set_source_defaults s)) (cf_sources c)\<rparr>"

lemma set_defaults_eq: "set_defaults c = (if no_nil_source c then Some (defaults_of c) else None)"
  by (auto simp: set_defaults_def no_nil_source_def defaults_of_def)

lemma defaults_of_sources: "cf_sources (defaults_of c) = map (\<lambda>(n, s). (n, map_option set_source_defaults s)) (cf_sources c)"
  by (simp add: defaults_of_def)

lemma defaults_of_fields:
  "cf_agent (defaults_of c) = set_agent_defaults (cf_agent c)"
  "cf_storage (defaults_of c) = cf_storage c"
  "cf_monitoring (defaults_of c) = set_monitoring_defaults (cf_monitoring c)"
  "cf_backup (defaults_of c) = map_option set_backup_defaults (cf_backup c)"
  "cf_profiler (defaults_of c) = map_option set_profiler_defaults (cf_profiler c)"
  "cf_plugins (defaults_of c) = map_option set_plugin_defaults (cf_plugins c)"
  "cf_retry (defaults_of c) = map_option set_retry_section_defaults (cf_retry c)"
  "cf_migration (defaults_of c) = map_option set_migration_defaults (cf_migration c)"
  "cf_security (defaults_of c) = map_option set_security_defaults (cf_security c)"
  "cf_observability (defaults_of c) = map_option set_observability_defaults (cf_observability c)"
  by (simp_all add: defaults_of_def set_defaults_def)

lemma no_nil_defaults: "no_nil_source (defaults_of c) = no_nil_source c"
  by (simp add: no_nil_source_def defaults_of_sources case_prod_beta)

lemma defaults_of_idem: "defaults_of (defaults_of c) = defaults_of c"
proof (rule config.equality)
  show "cf_sources (defaults_of (defaults_of c)) = cf_sources (defaults_of c)"
    unfolding defaults_of_sources by (simp add: case_prod_beta map_option_idem [OF set_source_defaults_idem])
qed (simp_all add: defaults_of_fields map_option_idem set_plugin_defaults_idem set_retry_section_defaults_idem
    set_security_defaults_idem set_observability_defaults_idem)

lemma set_defaults_idem: "set_defaults c = Some d \<Longrightarrow> set_defaults d = Some d"
  by (auto simp: set_defaults_eq no_nil_defaults defaults_of_idem split: if_splits)

section \<open>A configuration that loads\<close>

lemma validate_sources_ok:
  "validate_sources xs = Some None \<longleftrightarrow> (\<forall>(n, s) \<in> set xs. \<exists>s'. s = Some s' \<and> so_type s' \<noteq> [])"
  by (induction xs rule: validate_sources.induct) auto

lemma validate_sources_panics: "validate_sources xs = None \<Longrightarrow> \<exists>n. (n, None) \<in> set xs"
  by (induction xs rule: validate_sources.induct) (auto split: if_splits)

lemma validate_config_ok:
  assumes "iteration_order ord"
  shows "validate_config compile ord c = Some None \<longleftrightarrow>
     sg_bucket (cf_storage c) \<noteq> [] \<and> sg_region (cf_storage c) \<noteq> [] \<and> cf_sources c \<noteq> []
     \<and> (\<forall>(n, s) \<in> set (cf_sources c). \<exists>s'. s = Some s' \<and> so_type s' \<noteq> [])
     \<and> (\<forall>s. cf_security c = Some s \<longrightarrow> validate_security_config compile s = None)"
proof -
  have "validate_config compile ord c = Some None \<longleftrightarrow>
     sg_bucket (cf_storage c) \<noteq> [] \<and> sg_region (cf_storage c) \<noteq> [] \<and> cf_sources c \<noteq> []
     \<and> validate_sources (ord (cf_sources c)) = Some None
     \<and> (\<forall>s. cf_security c = Some s \<longrightarrow> validate_security_config compile s = None)"
    by (simp add: validate_config_def split: option.split)
  then show ?thesis unfolding validate_sources_ok iteration_order_set [OF assms] .
qed

text \<open>What the other components rely on.\<close>

definition source_ready :: "source_config \<Rightarrow> bool" where
  "source_ready s \<longleftrightarrow> so_type s \<noteq> [] \<and> 0 < so_concurrency s \<and> 0 < so_batch_size s
     \<and> (\<forall>k. so_checkpoint s = Some k \<longrightarrow> 0 < ck_frequency k \<and> 0 < ck_max_checkpoints k)
     \<and> (\<forall>e. so_error_handling s = Some e \<longrightarrow> 0 < eh_max_retries e \<and> 0 < eh_breaker_threshold e)"

definition retry_ready :: "retry_config \<Rightarrow> bool" where
  "retry_ready r \<longleftrightarrow> policy_set (rc_default_policy r)
     \<and> (\<forall>(n, p) \<in> set (entries (rc_operation_policies r)). policy_set p)
     \<and> (\<forall>(n, b) \<in> set (entries (rc_circuit_breakers r)). validate_breaker_config b = None)"

definition config_ready :: "config \<Rightarrow> bool" where
  "config_ready c \<longleftrightarrow> sg_bucket (cf_storage c) \<noteq> [] \<and> sg_region (cf_storage c) \<noteq> [] \<and> cf_sources c \<noteq> []
     \<and> (\<forall>(n, s) \<in> set (cf_sources c). \<exists>s'. s = Some s' \<and> source_ready s')
     \<and> (\<forall>r. cf_retry c = Some r \<longrightarrow> retry_ready r)
     \<and> (\<forall>m. cf_migration c = Some m \<and> mi_enabled m \<longrightarrow> mi_auto_migrate m \<and> mi_backup_before m)"

lemma source_ready_defaults: "so_type s \<noteq> [] \<Longrightarrow> source_ready (set_source_defaults s)"
  by (auto simp: source_ready_def set_source_defaults_def set_checkpoint_defaults_def set_error_handling_defaults_def)

lemma retry_ready_defaults: "retry_ready (set_retry_section_defaults r)"
  unfolding retry_ready_def set_retry_section_defaults_def
  using set_retry_defaults_positive set_retry_defaults_breakers by blast

lemma set_source_defaults_type [simp]: "so_type (set_source_defaults s) = so_type s"
  by (simp add: set_source_defaults_def)

lemma load_config_InrE:
  assumes "load_config ld ord path = Some (Inr c)"
  obtains data c0 where "ld_read_file ld path = Inr data" and "ld_yaml ld (expand_env_vars (ld_env ld) data) = Inr c0"
    and "set_defaults c0 = Some c" and "validate_config (ld_compile ld) ord c = Some None"
  using assms unfolding load_config_def by (auto split: sum.splits option.splits)

lemma loaded_config_ready:
  assumes "load_config ld ord path = Some (Inr c)" and "iteration_order ord"
  shows "config_ready c"
proof -
  obtain data c0 where c: "set_defaults c0 = Some c" and v: "validate_config (ld_compile ld) ord c = Some None"
    using assms(1) by (rule load_config_InrE)
  have d: "c = defaults_of c0" using c by (simp add: set_defaults_eq split: if_splits)
  note ok = v [unfolded validate_config_ok [OF assms(2)]]
  have "\<exists>s'. s = Some s' \<and> source_ready s'" if source: "(n, s) \<in> set (cf_sources c)" for n s
  proof -
    obtain x where "x \<in> set (cf_sources c0)" and x: "(n, s) = (\<lambda>(n, s). (n, map_option set_source_defaults s)) x"
      using source unfolding d defaults_of_sources set_map image_iff by meson
    from x obtain s0 where s0: "s = map_option set_source_defaults s0" by (simp add: case_prod_beta)
    obtain s' where "s = Some s'" "so_type s' \<noteq> []" using ok source by blast
    with s0 show ?thesis using source_ready_defaults by (cases s0) auto
  qed
  moreover have "retry_ready r" if "cf_retry c = Some r" for r
    using that retry_ready_defaults by (auto simp: d defaults_of_fields)
  moreover have "mi_auto_migrate m \<and> mi_backup_before m" if "cf_migration c = Some m" "mi_enabled m" for m
    using that by (auto simp: d defaults_of_fields set_migration_defaults_def)
  ultimately show ?thesis using ok unfolding config_ready_def by blast
qed

text \<open>Loading panics exactly when the file holds a source with an empty section.\<close>

lemma load_config_panics:
  assumes "iteration_order ord"
  shows "load_config ld ord path = None \<longleftrightarrow>
     (\<exists>data c0. ld_read_file ld path = Inr data \<and> ld_yaml ld (expand_env_vars (ld_env ld) data) = Inr c0 \<and> \<not> no_nil_source c0)"
proof -
  have "validate_config compile ord (defaults_of c0) \<noteq> None" if "no_nil_source c0" for compile c0
  proof
    assume "validate_config compile ord (defaults_of c0) = None"
    then have "validate_sources (ord (cf_sources (defaults_of c0))) = None"
      by (auto simp: validate_config_def split: if_splits option.splits)
    then obtain n where "(n, None) \<in> set (cf_sources (defaults_of c0))"
      using validate_sources_panics iteration_order_set [OF assms] by blast
    then show False using that no_nil_defaults [of c0] unfolding no_nil_source_def by auto
  qed
  then show ?thesis
    by (auto simp: load_config_def set_defaults_eq simp del: not_None_eq split: sum.splits option.splits)
qed

section \<open>The default monitor\<close>

text \<open>
  The metrics the monitor collects are constants, all within the default thresholds: a monitor whose
  rules are left at their defaults reports that all is well, whatever happens.
\<close>

definition unset_rules :: "rules_config \<Rightarrow> bool" where
  "unset_rules r \<longleftrightarrow> af_threshold (rl_agent_failure_rate r) = Fin 0
     \<and> wc_min_success_rate (rl_workflow_completion r) = Fin 0
     \<and> du_warning (rl_disk_usage r) = Fin 0 \<and> du_critical (rl_disk_usage r) = Fin 0
     \<and> mu_warning (rl_memory_usage r) = Fin 0 \<and> mu_critical (rl_memory_usage r) = Fin 0
     \<and> ar_warning (rl_api_response_time r) = 0 \<and> ar_critical (rl_api_response_time r) = 0"

lemma f64_of_near:
  assumes "0 \<le> x" and "x \<le> 1000"
  obtains r where "f64_of x = Fin r" and "r \<le> x + 1 / 1000000" and "x \<le> r + 1 / 1000000"
proof -
  have "x / 2 ^ 53 \<le> 1000 / 2 ^ 53" using assms(2) by (intro divide_right_mono) auto
  also have "(1000 / 2 ^ 53 :: rat) \<le> 1 / 1000000" by simp
  finally have "\<bar>f64_round x - x\<bar> \<le> 1 / 1000000" using f64_round_error [OF assms(1)] by (rule order_trans [rotated])
  then have err: "f64_round x - x \<le> 1 / 1000000" "- (f64_round x - x) \<le> 1 / 1000000"
    unfolding abs_le_iff by blast+
  have big: "(10000 :: rat) < 2 ^ 1024"
    by (rule less_le_trans [of _ "2 ^ 14"], simp, rule power_increasing) simp_all
  have "\<not> 2 ^ 1024 \<le> f64_round x" and "\<not> f64_round x \<le> - (2 ^ 1024)"
    using big err assms by linarith+
  then have "f64_of x = Fin (f64_round x)" unfolding f64_of_def Let_def by (simp only: if_False)
  then show thesis using that err by auto
qed

lemma f64_not_less:
  assumes "0 \<le> y" and "y + 1 / 100000 \<le> x" and "x \<le> 1000"
  shows "\<not> f64_less (f64_of x) (f64_of y)" and "\<not> f64_less (Fin x) (f64_of y)"
proof -
  obtain r where r: "f64_of x = Fin r" "x \<le> r + 1 / 1000000" using assms by (auto intro: f64_of_near [of x])
  obtain q where q: "f64_of y = Fin q" "q \<le> y + 1 / 1000000" using assms by (auto intro: f64_of_near [of y])
  have "q \<le> r" and "q \<le> x" using r(2) q(2) assms(2) by linarith+
  then show "\<not> f64_less (f64_of x) (f64_of y)" and "\<not> f64_less (Fin x) (f64_of y)"
    unfolding r(1) q(1) by simp_all
qed

lemma default_thresholds:
  "\<not> f64_less (f64_of (1 / 10)) (f64_of (5 / 100))" "\<not> f64_less (f64_of (89 / 100)) (f64_of (8 / 10))"
  "\<not> f64_less (Fin 80) (f64_of (452 / 10))" "\<not> f64_less (Fin 90) (f64_of (452 / 10))"
  "\<not> f64_less (Fin 80) (f64_of (678 / 10))" "\<not> f64_less (Fin 90) (f64_of (678 / 10))"
  by (rule f64_not_less; simp)+

lemma rule_defaults_fields:
  "rl_agent_failure_rate (set_rule_defaults r) = set_agent_failure_defaults (rl_agent_failure_rate r)"
  "rl_workflow_completion (set_rule_defaults r) = set_workflow_defaults (rl_workflow_completion r)"
  "rl_disk_usage (set_rule_defaults r) = set_disk_defaults (rl_disk_usage r)"
  "rl_memory_usage (set_rule_defaults r) = set_memory_defaults (rl_memory_usage r)"
  "rl_api_response_time (set_rule_defaults r) = set_api_time_defaults (rl_api_response_time r)"
  by (simp_all add: set_rule_defaults_def)

lemma rule_defaults_thresholds:
  "af_threshold (set_agent_failure_defaults a) = or_f64_zero (f64_of (1 / 10)) (af_threshold a)"
  "wc_min_success_rate (set_workflow_defaults b) = or_f64_zero (f64_of (8 / 10)) (wc_min_success_rate b)"
  "du_warning (set_disk_defaults c) = or_f64_zero (Fin 80) (du_warning c)"
  "du_critical (set_disk_defaults c) = or_f64_zero (Fin 90) (du_critical c)"
  "mu_warning (set_memory_defaults d) = or_f64_zero (Fin 80) (mu_warning d)"
  "mu_critical (set_memory_defaults d) = or_f64_zero (Fin 90) (mu_critical d)"
  "ar_warning (set_api_time_defaults e) = or_zero (5 * second) (ar_warning e)"
  "ar_critical (set_api_time_defaults e) = or_zero (10 * second) (ar_critical e)"
  by (simp_all add: rule_defaults_defs)

lemma or_zero_zero: "or_f64_zero d (Fin 0) = d" "or_zero n 0 = n"
  by (simp_all add: or_f64_zero_def or_zero_def)

lemma unset_rules_thresholds:
  assumes "unset_rules r"
  shows "af_threshold (rl_agent_failure_rate (set_rule_defaults r)) = f64_of (1 / 10)"
    "wc_min_success_rate (rl_workflow_completion (set_rule_defaults r)) = f64_of (8 / 10)"
    "du_warning (rl_disk_usage (set_rule_defaults r)) = Fin 80" "du_critical (rl_disk_usage (set_rule_defaults r)) = Fin 90"
    "mu_warning (rl_memory_usage (set_rule_defaults r)) = Fin 80" "mu_critical (rl_memory_usage (set_rule_defaults r)) = Fin 90"
    "ar_warning (rl_api_response_time (set_rule_defaults r)) = 5 * second"
    "ar_critical (rl_api_response_time (set_rule_defaults r)) = 10 * second"
  using assms unfolding unset_rules_def rule_defaults_fields rule_defaults_thresholds by (simp_all only: or_zero_zero)

lemma collected_values:
  assumes "collect_metrics rt hm w = (Inr s, w')"
  shows "am_failure_rate (ms_agent s) = f64_of (5 / 100)" "bm_workflow_success_rate (ms_business s) = f64_of (89 / 100)"
    "sm_disk_usage (ms_system s) = f64_of (452 / 10)" "sm_memory_usage (ms_system s) = f64_of (678 / 10)"
    "sm_api_response_time (ms_system s) = 150 * millisecond"
  using assms unfolding collect_metrics_def by (auto split: prod.splits)

lemma default_rules_ok:
  assumes "unset_rules r" and "collect_metrics rt hm w = (Inr s, w')" and "x \<in> set (builtin_rules (set_rule_defaults r))"
  shows "asks s x = HealthOK"
proof -
  note vals = collected_values [OF assms(2)] unset_rules_thresholds [OF assms(1)]
  have times: "\<not> 5 * second < 150 * millisecond" "\<not> 10 * second < 150 * millisecond" by simp_all
  have "fst (check_agent_failure_rate (rl_agent_failure_rate (set_rule_defaults r)) s) = HealthOK"
    "fst (check_workflow_completion (rl_workflow_completion (set_rule_defaults r)) s) = HealthOK"
    "fst (check_disk_usage (rl_disk_usage (set_rule_defaults r)) s) = HealthOK"
    "fst (check_memory_usage (rl_memory_usage (set_rule_defaults r)) s) = HealthOK"
    "fst (check_api_response_time (rl_api_response_time (set_rule_defaults r)) s) = HealthOK"
    unfolding check_agent_failure_rate_def check_workflow_completion_def check_disk_usage_def check_memory_usage_def
      check_api_response_time_def vals Let_def
    by (simp_all only: default_thresholds times if_False fst_conv)
  then show ?thesis
    using assms(3) unfolding builtin_rules_def asks_def escalate_def by (auto split: prod.split)
qed

end
