(* ===== verification/ValidationRules.thy ===== *)
theory ValidationRules
  imports GoShow Schema Config
begin

text \<open>
  internal/validation/rules.go and the helpers of validator.go: the values of a record, and the built-in
  rules. Proved: which values the type rule accepts, that the null rule never fires on a value the
  validator gives it, and that only the type rule makes errors.
\<close>

section \<open>Values\<close>

datatype int_kind = KInt | KInt8 | KInt16 | KInt32 | KInt64

text \<open>The dynamic types of a record's values the code tells apart; \<open>VOther\<close> holds the name of any other type.\<close>

datatype gval = VNil | VString string | VInt int_kind int | VFloat32 f64 | VFloat64 f64 | VBool bool | VTime instant
  | VOther string

type_synonym go_record = "(string, gval) gomap"

fun get_value_type :: "gval \<Rightarrow> string" where
  "get_value_type VNil = ''null''"
| "get_value_type (VString s) = ''string''"
| "get_value_type (VInt k n) = ''integer''"
| "get_value_type (VFloat32 x) = ''float''"
| "get_value_type (VFloat64 x) = ''float''"
| "get_value_type (VBool b) = ''boolean''"
| "get_value_type (VTime t) = ''datetime''"
| "get_value_type (VOther n) = ''unknown''"

fun to_float64 :: "gval \<Rightarrow> f64 option" where
  "to_float64 (VFloat64 x) = Some x"
| "to_float64 (VFloat32 x) = Some x"
| "to_float64 (VInt k n) = Some (f64_of_int n)"
| "to_float64 v = None"

text \<open>\<open>%T\<close>.\<close>

fun type_name :: "gval \<Rightarrow> string" where
  "type_name VNil = ''<nil>''"
| "type_name (VString s) = ''string''"
| "type_name (VInt KInt n) = ''int''"
| "type_name (VInt KInt8 n) = ''int8''"
| "type_name (VInt KInt16 n) = ''int16''"
| "type_name (VInt KInt32 n) = ''int32''"
| "type_name (VInt KInt64 n) = ''int64''"
| "type_name (VFloat32 x) = ''float32''"
| "type_name (VFloat64 x) = ''float64''"
| "type_name (VBool b) = ''bool''"
| "type_name (VTime t) = ''time.Time''"
| "type_name (VOther n) = n"

section \<open>Errors and warnings\<close>

record field_error =
  ve_field :: string
  ve_type :: string
  ve_message :: string
  ve_value :: gval
  ve_expected :: string
  ve_constraint :: string
  ve_record_id :: string
  ve_severity :: string

record validation_warning =
  vw_field :: string
  vw_type :: string
  vw_message :: string
  vw_value :: gval
  vw_record_id :: string
  vw_threshold :: string

definition error_of :: "string \<Rightarrow> string \<Rightarrow> string \<Rightarrow> gval \<Rightarrow> field_error" where
  "error_of field ty message v =
     \<lparr>ve_field = field, ve_type = ty, ve_message = message, ve_value = v, ve_expected = [], ve_constraint = [],
      ve_record_id = [], ve_severity = ''error''\<rparr>"

definition warning_of :: "string \<Rightarrow> string \<Rightarrow> string \<Rightarrow> gval \<Rightarrow> validation_warning" where
  "warning_of field ty message v =
     \<lparr>vw_field = field, vw_type = ty, vw_message = message, vw_value = v, vw_record_id = [], vw_threshold = []\<rparr>"

section \<open>Type consistency\<close>

text \<open>
  \<open>v == float64(int64(v))\<close>. What the platform gives for a conversion that does not fit is \<open>oob\<close>; for a
  \<open>float32\<close> that does not fit an \<open>int32\<close>, \<open>oob32\<close> says whether the comparison holds.
\<close>

record platform =
  pl_oob :: int
  pl_oob32 :: "rat \<Rightarrow> bool"

fun is_integer_value :: "platform \<Rightarrow> gval \<Rightarrow> bool" where
  "is_integer_value pl (VFloat64 x) \<longleftrightarrow> x \<noteq> NaN \<and> f64_of_int (int64_of_f64 (pl_oob pl) x) = x"
| "is_integer_value pl (VFloat32 (Fin r)) \<longleftrightarrow>
     (if - (2 ^ 31) \<le> trunc r \<and> trunc r < 2 ^ 31 then of_int (trunc r) = r else pl_oob32 pl r)"
| "is_integer_value pl v \<longleftrightarrow> False"

fun is_date_string :: "gval \<Rightarrow> bool" where
  "is_date_string (VString s) \<longleftrightarrow>
     list_ex (\<lambda>l. time_accepts l s) [LayoutRFC3339, LayoutDate, LayoutDateT, LayoutDateSpace]"
| "is_date_string v \<longleftrightarrow> False"

definition is_type_compatible :: "platform \<Rightarrow> string \<Rightarrow> string \<Rightarrow> gval \<Rightarrow> bool" where
  "is_type_compatible pl expected actual v \<longleftrightarrow>
     (if expected = ''string'' then actual = ''string''
      else if expected = ''integer'' \<or> expected = ''long''
      then actual = ''integer'' \<or> (actual = ''float'' \<and> is_integer_value pl v)
      else if expected = ''double'' then actual = ''float'' \<or> actual = ''integer''
      else if expected = ''boolean'' then actual = ''boolean''
      else if expected = ''date'' \<or> expected = ''datetime''
      then actual = ''datetime'' \<or> (actual = ''string'' \<and> is_date_string v)
      else if expected = ''binary'' then actual = ''string''
      else False)"

definition type_rule :: "platform \<Rightarrow> schema_field \<Rightarrow> gval \<Rightarrow> field_error list \<times> validation_warning list" where
  "type_rule pl f v =
     (if v = VNil then ([], [])
      else if is_type_compatible pl (fd_type f) (get_value_type v) v then ([], [])
      else ([(error_of (fd_name f) ''type_mismatch''
               (''Expected '' @ fd_type f @ '' but got '' @ get_value_type v) v)\<lparr>ve_expected := fd_type f\<rparr>], []))"

section \<open>Null values\<close>

definition null_rule :: "schema_field \<Rightarrow> gval \<Rightarrow> field_error list \<times> validation_warning list" where
  "null_rule f v =
     (if \<not> fd_nullable f \<and> v = VNil
      then ([(error_of (fd_name f) ''null_constraint''
               (''Field '' @ fd_name f @ '' is marked as non-nullable but contains null value'') v)\<lparr>ve_constraint := ''NOT NULL''\<rparr>], [])
      else ([], []))"

section \<open>Formats\<close>

definition is_letter :: "char \<Rightarrow> bool" where
  "is_letter c \<longleftrightarrow> (65 \<le> byte c \<and> byte c \<le> 90) \<or> (97 \<le> byte c \<and> byte c \<le> 122)"

definition is_hex :: "char \<Rightarrow> bool" where
  "is_hex c \<longleftrightarrow> is_digit c \<or> (97 \<le> byte c \<and> byte c \<le> 102)"

text \<open>\<open>^[a-zA-Z0-9._%+-]+@[a-zA-Z0-9.-]+\.[a-zA-Z]{2,}$\<close> and the other patterns, term by term.\<close>

definition email_re :: re where
  "email_re = seqs [plus_re (ascii (\<lambda>c. is_letter c \<or> is_digit c \<or> c \<in> set ''._%+-'')), lit ''@'',
     plus_re (ascii (\<lambda>c. is_letter c \<or> is_digit c \<or> c \<in> set ''.-'')), lit ''.'', times_re 2 (ascii is_letter), Star (ascii is_letter)]"

definition phone_re :: re where
  "phone_re = seqs [opt_re (lit ''+''), ascii (\<lambda>c. is_digit c \<and> c \<noteq> CHR ''0''), ascii is_digit, upto_re 13 (ascii is_digit)]"

definition blanks :: string where
  "blanks = [CHR 9, CHR 10, CHR 12, CHR 13, CHR '' '']"

definition url_re :: re where
  "url_re = seqs [lit ''http'', opt_re (lit ''s''), lit ''://'', none_of (blanks @ ''/$.?#''), none_of [CHR 10],
     Star (none_of blanks)]"

definition uuid_re :: re where
  "uuid_re = seqs [times_re 8 (ascii is_hex), lit ''-'', times_re 4 (ascii is_hex), lit ''-'',
     ascii (\<lambda>c. c \<in> set ''12345''), times_re 3 (ascii is_hex), lit ''-'', ascii (\<lambda>c. c \<in> set ''89ab''),
     times_re 3 (ascii is_hex), lit ''-'', times_re 12 (ascii is_hex)]"

definition format_rule :: "schema_field \<Rightarrow> gval \<Rightarrow> field_error list \<times> validation_warning list" where
  "format_rule f v =
     (case v of
        VString s \<Rightarrow>
          let name = lower_word (fd_name f);
              warn = (\<lambda>what kind. [warning_of (fd_name f) ''format_invalid''
                (''Field '' @ fd_name f @ '' appears to be '' @ what @ '' but doesn'' @ [CHR 0x27] @ ''t match '' @ kind @ '' format'') v])
          in if str_contains name ''email'' then ([], if re_match email_re s then [] else warn ''an email'' ''email'')
             else if str_contains name ''phone'' then ([], if re_match phone_re s then [] else warn ''a phone number'' ''phone'')
             else if str_contains name ''url'' \<or> str_contains name ''website''
             then ([], if re_match url_re s then [] else warn ''a URL'' ''URL'')
             else if str_contains name ''id'' \<and> length s = 36
             then ([], if re_match uuid_re s then [] else warn ''a UUID'' ''UUID'')
             else ([], [])
      | _ \<Rightarrow> ([], []))"

section \<open>Ranges\<close>

record numeric_range =
  nr_min :: "f64 option"
  nr_max :: "f64 option"
  nr_names :: "string list"

definition new_range_rule :: "(string, numeric_range) gomap option \<Rightarrow> (string, numeric_range) gomap" where
  "new_range_rule ranges =
     AList.update ''revenue'' \<lparr>nr_min = Some (Fin 0), nr_max = None, nr_names = [''revenue'', ''amount'', ''price'', ''cost'']\<rparr>
       (AList.update ''age'' \<lparr>nr_min = Some (Fin 0), nr_max = Some (Fin 150), nr_names = [''age'']\<rparr>
         (AList.update ''percentage''
            \<lparr>nr_min = Some (Fin 0), nr_max = Some (Fin 100), nr_names = [''percent'', ''percentage'', ''rate'']\<rparr> (slice_of ranges)))"

definition range_warnings :: "schema_field \<Rightarrow> gval \<Rightarrow> f64 \<Rightarrow> string \<times> numeric_range \<Rightarrow> validation_warning list" where
  "range_warnings f v x = (\<lambda>(name, r).
     if \<not> list_ex (str_contains (lower_word (fd_name f))) (nr_names r) then []
     else (case nr_min r of
             Some m \<Rightarrow> if f64_less x m
                       then [(warning_of (fd_name f) ''range_violation''
                               (''Value '' @ float_text x @ '' is below expected minimum '' @ float_text m @ '' for '' @ name) v)
                                 \<lparr>vw_threshold := ''min: '' @ float_text m\<rparr>]
                       else []
           | None \<Rightarrow> [])
        @ (case nr_max r of
             Some m \<Rightarrow> if f64_less m x
                       then [(warning_of (fd_name f) ''range_violation''
                               (''Value '' @ float_text x @ '' is above expected maximum '' @ float_text m @ '' for '' @ name) v)
                                 \<lparr>vw_threshold := ''max: '' @ float_text m\<rparr>]
                       else []
           | None \<Rightarrow> []))"

definition range_rule ::
  "((string \<times> numeric_range) list \<Rightarrow> (string \<times> numeric_range) list) \<Rightarrow> (string, numeric_range) gomap \<Rightarrow> schema_field \<Rightarrow> gval
   \<Rightarrow> field_error list \<times> validation_warning list" where
  "range_rule ord ranges f v =
     (case to_float64 v of
        None \<Rightarrow> ([], [])
      | Some x \<Rightarrow> ([], concat (map (range_warnings f v x) (ord ranges))))"

section \<open>Data quality\<close>

definition suspicious_values :: "string list" where
  "suspicious_values = [''n/a'', ''na'', ''null'', ''none'', ''unknown'', ''test'', ''example'', ''dummy'']"

definition quality_rule :: "schema_field \<Rightarrow> gval \<Rightarrow> field_error list \<times> validation_warning list" where
  "quality_rule f v =
     (case v of
        VString s \<Rightarrow>
          let t = trim_space s; warn = (\<lambda>message x. [warning_of (fd_name f) ''data_quality'' message x])
          in ([], (if t = [] then warn (''Field '' @ fd_name f @ '' contains empty string, consider null value'') v else [])
                @ (if lower_word t \<in> set suspicious_values
                   then warn (''Field '' @ fd_name f @ '' contains suspicious placeholder value: '' @ s) v else [])
                @ (if length s \<noteq> length t \<and> 0 < length t
                   then warn (''Field '' @ fd_name f @ '' contains leading/trailing whitespace'') v else [])
                @ (if str_contains (lower_word (fd_name f)) ''name'' \<and> 100 < length s
                   then warn (''Field '' @ fd_name f @ '' has unusually long value ('' @ dec (int (length s))
                               @ '' characters) for a name field'') (VString (concat (take 50 (runes s)) @ ''...'')) else []))
      | _ \<Rightarrow> ([], []))"

section \<open>Rules\<close>

datatype validation_rule = TypeConsistencyRule | NullConstraintRule | FormatValidationRule
  | RangeValidationRule "(string, numeric_range) gomap" | DataQualityRule

fun validation_rule_name :: "validation_rule \<Rightarrow> string" where
  "validation_rule_name TypeConsistencyRule = ''type_consistency''"
| "validation_rule_name NullConstraintRule = ''null_constraint''"
| "validation_rule_name FormatValidationRule = ''format_validation''"
| "validation_rule_name (RangeValidationRule r) = ''range_validation''"
| "validation_rule_name DataQualityRule = ''data_quality''"

fun rule_validate ::
  "platform \<Rightarrow> ((string \<times> numeric_range) list \<Rightarrow> (string \<times> numeric_range) list) \<Rightarrow> validation_rule \<Rightarrow> schema_field \<Rightarrow> gval
   \<Rightarrow> field_error list \<times> validation_warning list" where
  "rule_validate pl ord TypeConsistencyRule f v = type_rule pl f v"
| "rule_validate pl ord NullConstraintRule f v = null_rule f v"
| "rule_validate pl ord FormatValidationRule f v = format_rule f v"
| "rule_validate pl ord (RangeValidationRule ranges) f v = range_rule ord ranges f v"
| "rule_validate pl ord DataQualityRule f v = quality_rule f v"

section \<open>What the rules find\<close>

lemma null_rule_silent: "v \<noteq> VNil \<Longrightarrow> null_rule f v = ([], [])"
  by (simp add: null_rule_def)

lemma format_rule_errors [simp]: "fst (format_rule f v) = []"
  by (auto simp: format_rule_def Let_def split: gval.splits)

lemma range_rule_errors [simp]: "fst (range_rule ord ranges f v) = []"
  by (simp add: range_rule_def split: option.splits)

lemma quality_rule_errors [simp]: "fst (quality_rule f v) = []"
  by (simp add: quality_rule_def Let_def split: gval.splits)

text \<open>The values a type of the schema stands for.\<close>

definition fits_type :: "platform \<Rightarrow> string \<Rightarrow> gval \<Rightarrow> bool" where
  "fits_type pl ty v \<longleftrightarrow>
     (case v of
        VString s \<Rightarrow> ty = ''string'' \<or> ty = ''binary'' \<or> ((ty = ''date'' \<or> ty = ''datetime'') \<and> is_date_string v)
      | VInt k n \<Rightarrow> ty = ''integer'' \<or> ty = ''long'' \<or> ty = ''double''
      | VFloat32 x \<Rightarrow> ty = ''double'' \<or> ((ty = ''integer'' \<or> ty = ''long'') \<and> is_integer_value pl v)
      | VFloat64 x \<Rightarrow> ty = ''double'' \<or> ((ty = ''integer'' \<or> ty = ''long'') \<and> is_integer_value pl v)
      | VBool b \<Rightarrow> ty = ''boolean''
      | VTime t \<Rightarrow> ty = ''date'' \<or> ty = ''datetime''
      | _ \<Rightarrow> False)"

lemma is_type_compatible_iff: "is_type_compatible pl ty (get_value_type v) v \<longleftrightarrow> fits_type pl ty v"
  by (cases v) (auto simp: is_type_compatible_def fits_type_def)

lemma type_rule_errors: "fst (type_rule pl f v) = [] \<longleftrightarrow> v = VNil \<or> fits_type pl (fd_type f) v"
  by (simp add: type_rule_def is_type_compatible_iff)

lemma rule_errors:
  assumes "v \<noteq> VNil"
  shows "fst (rule_validate pl ord r f v) = [] \<longleftrightarrow> r \<noteq> TypeConsistencyRule \<or> fits_type pl (fd_type f) v"
  using assms by (cases r) (simp_all add: type_rule_errors null_rule_silent)

lemma length_rule_errors: "length (fst (rule_validate pl ord r f v)) \<le> 1"
  by (cases r) (simp_all add: type_rule_def null_rule_def)

end
