(* ===== verification/StoreApi.thy ===== *)
theory StoreApi
  imports GoError Json
begin

text \<open>
  The interface \<open>S3Store\<close> of internal/storage/delta/log.go: the operations the Delta code calls
  on its object store, and the contract it relies on, as the locale \<open>s3_store\<close> over the objects a
  world shows (\<open>view\<close>). An upload that reports success has replaced the object; one that reports
  an error may or may not have. S3Client.thy gives the interpretation.
\<close>

type_synonym objects = "string \<rightharpoonup> string"

record 'w store_ops =
  st_upload :: "string \<Rightarrow> string \<Rightarrow> string \<Rightarrow> ('w, unit) io"
  st_download :: "string \<Rightarrow> ('w, string) io"
  st_list :: "string \<Rightarrow> ('w, string list) io"
  st_put_json :: "string \<Rightarrow> json \<Rightarrow> ('w, unit) io"
  st_get_json :: "string \<Rightarrow> ('w, json) io"
  st_exists :: "string \<Rightarrow> ('w, bool) io"

text \<open>The message of an \<open>encoding/json\<close> error is not modelled: one message stands for all.\<close>

definition json_error :: go_error where
  "json_error = Msg ''json''"

text \<open>\<open>GetJSON(ctx, key, &v)\<close>: the tree has to fit the type of \<open>v\<close>.\<close>

definition get_json_into :: "'w store_ops \<Rightarrow> string \<Rightarrow> (json \<Rightarrow> 'a \<Rightarrow> 'a option) \<Rightarrow> 'a \<Rightarrow> ('w, 'a) io" where
  "get_json_into st key dcd zero =
     io_bind (st_get_json st key) (\<lambda>j.
       case dcd j zero of
         None \<Rightarrow> io_fail (Wrap (''unmarshal JSON from '' @ key) json_error)
       | Some a \<Rightarrow> io_ret a)"

text \<open>The same store seen from a world with one more component.\<close>

definition store_snd :: "'w store_ops \<Rightarrow> ('c \<times> 'w) store_ops" where
  "store_snd st =
     \<lparr>st_upload = (\<lambda>k d t. io_snd (st_upload st k d t)), st_download = (\<lambda>k. io_snd (st_download st k)),
      st_list = (\<lambda>p. io_snd (st_list st p)), st_put_json = (\<lambda>k v. io_snd (st_put_json st k v)),
      st_get_json = (\<lambda>k. io_snd (st_get_json st k)), st_exists = (\<lambda>k. io_snd (st_exists st k))\<rparr>"

locale s3_store =
  fixes ops :: "'w store_ops" and view :: "'w \<Rightarrow> objects"
  assumes upload_ok: "st_upload ops k d t w = (Inr u, w') \<Longrightarrow> view w' = (view w)(k \<mapsto> d)"
    and upload_err: "st_upload ops k d t w = (Inl e, w') \<Longrightarrow> view w' = view w \<or> view w' = (view w)(k \<mapsto> d)"
    and download_ok: "st_download ops k w = (Inr d, w') \<Longrightarrow> view w k = Some d"
    and download_view: "st_download ops k w = (x, w') \<Longrightarrow> view w' = view w"
    and list_ok: "st_list ops p w = (Inr ks, w') \<Longrightarrow> distinct ks \<and> set ks = {k \<in> dom (view w). has_prefix k p}"
    and list_view: "st_list ops p w = (y, w') \<Longrightarrow> view w' = view w"
    and put_json_ok: "st_put_json ops k v w = (Inr u, w') \<Longrightarrow> view w' = (view w)(k \<mapsto> json_indent v)"
    and put_json_err:
      "st_put_json ops k v w = (Inl e, w') \<Longrightarrow> view w' = view w \<or> view w' = (view w)(k \<mapsto> json_indent v)"
    and get_json_ok: "st_get_json ops k w = (Inr j, w') \<Longrightarrow> \<exists>d. view w k = Some d \<and> json_unmarshal d = Some j"
    and get_json_view: "st_get_json ops k w = (z, w') \<Longrightarrow> view w' = view w"
    and exists_ok: "st_exists ops k w = (Inr b, w') \<Longrightarrow> b \<longleftrightarrow> k \<in> dom (view w)"
    and exists_view: "st_exists ops k w = (q, w') \<Longrightarrow> view w' = view w"
begin

lemmas reads_view = download_view list_view get_json_view exists_view

lemma upload_cases:
  assumes "st_upload ops k d t w = (r, w')"
  shows "view w' = view w \<or> view w' = (view w)(k \<mapsto> d)"
  using assms upload_ok upload_err by (cases r) blast+

lemma put_json_cases:
  assumes "st_put_json ops k v w = (r, w')"
  shows "view w' = view w \<or> view w' = (view w)(k \<mapsto> json_indent v)"
  using assms put_json_ok put_json_err by (cases r) blast+

text \<open>A write never changes another object, whether it reports an error or not.\<close>

lemma upload_other:
  assumes "st_upload ops k d t w = (r, w')" and "k' \<noteq> k"
  shows "view w' k' = view w k'"
  using upload_cases [OF assms(1)] assms(2) by auto

lemma put_json_other:
  assumes "st_put_json ops k v w = (r, w')" and "k' \<noteq> k"
  shows "view w' k' = view w k'"
  using put_json_cases [OF assms(1)] assms(2) by auto

text \<open>What was put as JSON is what \<open>GetJSON\<close> sees next.\<close>

lemma put_get_json:
  assumes "st_put_json ops k v w = (Inr u, w1)" and "wf_json v"
    and "st_get_json ops k w1 = (Inr j, w2)"
  shows "j = v"
  using put_json_ok [OF assms(1)] get_json_ok [OF assms(3)] assms(2) by auto

lemma upload_download:
  assumes "st_upload ops k d t w = (Inr u, w1)" and "st_download ops k w1 = (Inr d', w2)"
  shows "d' = d"
  using upload_ok [OF assms(1)] download_ok [OF assms(2)] by simp

lemma upload_exists:
  assumes "st_upload ops k d t w = (Inr u, w1)" and "st_exists ops k w1 = (Inr b, w2)"
  shows "b"
  using upload_ok [OF assms(1)] exists_ok [OF assms(2)] by simp

end

lemma io_snd_run: "io_snd m (c, w) = (case m w of (r, w') \<Rightarrow> (r, (c, w')))"
  by (simp add: io_snd_def)

lemma io_sndE:
  assumes "io_snd m s = (r, s')"
  obtains "m (snd s) = (r, snd s')" and "fst s' = fst s"
  using assms by (cases s) (auto simp: io_snd_def split: prod.splits)

lemmas s3_store_laws =
  s3_store.upload_ok s3_store.upload_err s3_store.download_ok s3_store.download_view s3_store.list_ok
  s3_store.list_view s3_store.put_json_ok s3_store.put_json_err s3_store.get_json_ok
  s3_store.get_json_view s3_store.exists_ok s3_store.exists_view

text \<open>A store keeps its contract in a larger world.\<close>

lemma store_snd_contract:
  assumes "s3_store ops view"
  shows "s3_store (store_snd ops) (view \<circ> snd)"
  by (rule s3_store.intro)
     (auto simp: store_snd_def elim!: io_sndE dest: s3_store_laws [OF assms])

end
