(* ===== verification/DeltaLog.thy ===== *)
theory DeltaLog
  imports StoreApi DeltaActions
begin

text \<open>
  internal/storage/delta/log.go: the transaction log. A version is one object whose key is the
  version number with 20 digits under the log prefix and whose body is one action per line; the
  versions of a log are found by listing its prefix. In the locale of the store contract: a
  version that was written is read back, and the listing gives exactly the versions present.
\<close>

record 'w transaction_log =
  tl_store :: "'w store_ops"
  tl_log_prefix :: string

definition new_transaction_log :: "'w store_ops \<Rightarrow> string \<Rightarrow> 'w transaction_log" where
  "new_transaction_log store log_prefix = \<lparr>tl_store = store, tl_log_prefix = log_prefix\<rparr>"

definition version_key :: "string \<Rightarrow> int \<Rightarrow> string" where
  "version_key log_prefix version = log_prefix @ dec_pad 20 version @ ''.json''"

definition encode_actions :: "action list \<Rightarrow> string" where
  "encode_actions actions = json_lines (map enc_action actions)"

definition write_version :: "'w transaction_log \<Rightarrow> int \<Rightarrow> action list \<Rightarrow> ('w, unit) io" where
  "write_version l version actions =
     io_wrap (''write version '' @ dec version)
       (st_upload (tl_store l) (version_key (tl_log_prefix l) version) (encode_actions actions)
          ''application/json'')"

definition decode_actions :: "string \<Rightarrow> go_error + action list" where
  "decode_actions data =
     (case json_decode_all data of
        None \<Rightarrow> Inl (Wrap ''decode action'' json_error)
      | Some vs \<Rightarrow>
          (case those (map (\<lambda>v. into_action v zero_action) vs) of
             None \<Rightarrow> Inl (Wrap ''decode action'' json_error)
           | Some actions \<Rightarrow> Inr actions))"

definition read_version :: "'w transaction_log \<Rightarrow> int \<Rightarrow> ('w, action list) io" where
  "read_version l version =
     io_bind
       (io_wrap (''read version '' @ dec version)
          (st_download (tl_store l) (version_key (tl_log_prefix l) version)))
       (\<lambda>data w. (decode_actions data, w))"

text \<open>The version a listed key stands for, if any.\<close>

definition version_of_key :: "string \<Rightarrow> int option" where
  "version_of_key key =
     (let idx = last_index key (CHR ''/'');
          base = (if 0 \<le> idx then drop (nat idx + 1) key else key)
      in if \<not> has_suffix base ''.json'' \<or> has_prefix base ''_'' then None
         else parse_int (trim_suffix base ''.json''))"

definition list_versions :: "'w transaction_log \<Rightarrow> ('w, int list) io" where
  "list_versions l =
     io_bind (io_wrap ''list versions'' (st_list (tl_store l) (tl_log_prefix l)))
       (\<lambda>keys. io_ret (sort (List.map_filter version_of_key keys)))"

definition latest_version :: "'w transaction_log \<Rightarrow> ('w, int) io" where
  "latest_version l =
     io_bind (list_versions l)
       (\<lambda>versions. io_ret (if versions = [] then -1 else last versions))"

section \<open>Keys\<close>

text \<open>A log prefix is a directory: it ends with a slash (\<open>Layout.DeltaLogPrefix\<close>).\<close>

definition directory :: "string \<Rightarrow> bool" where
  "directory p \<longleftrightarrow> p \<noteq> [] \<and> last p = CHR ''/''"

definition valid_version :: "int \<Rightarrow> bool" where
  "valid_version v \<longleftrightarrow> 0 \<le> v \<and> v < 2 ^ 63"

lemma valid_version_int64 [simp]: "valid_version v \<Longrightarrow> in_int64 v"
  by (simp add: valid_version_def in_int64_def)

lemma no_slash_version: "0 \<le> v \<Longrightarrow> CHR ''/'' \<notin> set (dec_pad 20 v @ ''.json'')"
  using dec_pad_digits [of v 20] is_digit_not_special by (fastforce simp: list_all_iff)

lemma directory_append: "directory p \<Longrightarrow> \<exists>q. p = q @ ''/''"
  by (metis append_butlast_last_id directory_def)

lemma directory_base:
  assumes "directory p" and "CHR ''/'' \<notin> set base"
  shows "last_index (p @ base) (CHR ''/'') = int (length p) - 1"
    and "drop (nat (int (length p) - 1) + 1) (p @ base) = base"
proof -
  obtain q where p: "p = q @ ''/''" using directory_append [OF assms(1)] by blast
  show "last_index (p @ base) (CHR ''/'') = int (length p) - 1"
    using last_index_append [OF assms(2), of q] by (simp add: p)
  show "drop (nat (int (length p) - 1) + 1) (p @ base) = base" by (simp add: p)
qed

lemma version_of_key_base:
  assumes "directory p" and "CHR ''/'' \<notin> set base"
  shows "version_of_key (p @ base) =
           (if \<not> has_suffix base ''.json'' \<or> has_prefix base ''_'' then None
            else parse_int (trim_suffix base ''.json''))"
proof -
  have "1 \<le> length p" using assms(1) by (cases p) (auto simp: directory_def)
  then show ?thesis
    using directory_base [OF assms] by (auto simp: version_of_key_def Let_def)
qed

lemma version_of_version_key [simp, text_simps]:
  assumes "directory p" and "valid_version v"
  shows "version_of_key (version_key p v) = Some v"
proof -
  have v: "0 \<le> v" "v < 2 ^ 63" using assms(2) by (auto simp: valid_version_def)
  have "\<not> has_prefix (dec_pad 20 v @ ''.json'') ''_''"
    using dec_pad_digits [OF v(1), of 20] is_digit_not_special
    by (cases "dec_pad 20 v") (auto simp: has_prefix_def)
  then show ?thesis
    using version_of_key_base [OF assms(1) no_slash_version [OF v(1)]] parse_dec_pad [OF v]
    by (simp add: version_key_def)
qed

lemma version_key_inject:
  assumes "0 \<le> v" and "0 \<le> v'"
  shows "version_key p v = version_key p v' \<longleftrightarrow> v = v'"
  using dec_pad_inject [OF assms] by (simp add: version_key_def)

lemma version_key_prefix [simp]: "has_prefix (version_key p v) p"
  by (simp add: version_key_def)

text \<open>Checkpoint files and the marker are never taken for versions.\<close>

definition checkpoint_key :: "string \<Rightarrow> int \<Rightarrow> string" where
  "checkpoint_key log_prefix version = log_prefix @ dec_pad 20 version @ ''.checkpoint.json''"

lemma version_of_checkpoint_key [simp, text_simps]:
  assumes "directory p" and "0 \<le> v"
  shows "version_of_key (checkpoint_key p v) = None"
proof -
  have "CHR ''/'' \<notin> set (dec_pad 20 v @ ''.checkpoint.json'')"
    using no_slash_version [OF assms(2)] by auto
  moreover have "trim_suffix (dec_pad 20 v @ ''.checkpoint.json'') ''.json'' = dec_pad 20 v @ ''.checkpoint''"
    using trim_suffix_append [of "dec_pad 20 v @ ''.checkpoint''" "''.json''"] by simp
  moreover have "parse_int (dec_pad 20 v @ ''.checkpoint'') = None"
    by (rule parse_int_nondigit [of "CHR ''k''"]) (auto simp: is_digit_def)
  ultimately show ?thesis
    using version_of_key_base [OF assms(1)] by (simp add: checkpoint_key_def)
qed

lemma version_of_marker [simp, text_simps]:
  "directory p \<Longrightarrow> version_of_key (p @ ''_last_checkpoint'') = None"
  using version_of_key_base [of p "''_last_checkpoint''"] by (simp add: has_prefix_def)

lemma version_key_neq_checkpoint_key:
  "0 \<le> v \<Longrightarrow> valid_version v' \<Longrightarrow> directory p \<Longrightarrow> version_key p v' \<noteq> checkpoint_key p v"
  by (metis option.distinct(1) version_of_checkpoint_key version_of_version_key)

section \<open>Bodies\<close>

lemma decode_encode_actions [simp, codec]:
  assumes "list_all wf_action actions"
  shows "decode_actions (encode_actions actions) = Inr actions"
proof -
  have "json_decode_all (encode_actions actions) = Some (map enc_action actions)"
    using assms unfolding encode_actions_def
    by (intro json_decode_lines) (auto simp: list_all_iff wf_json_action)
  moreover have "those (map (\<lambda>a. into_action (enc_action a) zero_action) actions) = Some actions"
    using assms into_action_enc by (intro those_map_enc [of actions "\<lambda>v. into_action v zero_action"])
      (auto simp: list_all_iff)
  ultimately show ?thesis by (simp add: decode_actions_def comp_def)
qed

section \<open>The log as a set of versions\<close>

text \<open>
  \<open>log_clean\<close>: whatever lies under the prefix and parses as a version is a version file of this
  log. It is what lets the listing stand for the log.
\<close>

definition log_clean :: "string \<Rightarrow> objects \<Rightarrow> bool" where
  "log_clean p m \<longleftrightarrow>
     directory p \<and>
     (\<forall>k \<in> dom m. has_prefix k p \<longrightarrow>
        (case version_of_key k of None \<Rightarrow> True | Some v \<Rightarrow> valid_version v \<and> k = version_key p v))"

definition log_versions :: "string \<Rightarrow> objects \<Rightarrow> int set" where
  "log_versions p m = {v. valid_version v \<and> version_key p v \<in> dom m}"

lemma log_cleanD: "log_clean p m \<Longrightarrow> directory p"
  by (simp add: log_clean_def)

lemma log_clean_version:
  "log_clean p m \<Longrightarrow> valid_version v \<Longrightarrow> log_clean p (m(version_key p v \<mapsto> d))"
  by (auto simp: log_clean_def)

lemma log_clean_other:
  "log_clean p m \<Longrightarrow> has_prefix k p \<longrightarrow> version_of_key k = None \<Longrightarrow> log_clean p (m(k \<mapsto> d))"
  by (auto simp: log_clean_def)

lemma log_versions_version:
  "valid_version v \<Longrightarrow> log_versions p (m(version_key p v \<mapsto> d)) = insert v (log_versions p m)"
  using version_key_inject [of _ v p] by (auto simp: log_versions_def valid_version_def)

lemma log_versions_other:
  assumes "log_clean p m" and "has_prefix k p \<longrightarrow> version_of_key k = None"
  shows "log_versions p (m(k \<mapsto> d)) = log_versions p m"
  using assms version_of_version_key [OF log_cleanD [OF assms(1)]]
  by (fastforce simp: log_versions_def)

lemma map_filter_versions:
  assumes "log_clean p m" and "set ks = {k \<in> dom m. has_prefix k p}"
  shows "set (List.map_filter version_of_key ks) = log_versions p m"
proof -
  have "v \<in> log_versions p m" if "k \<in> set ks" "version_of_key k = Some v" for k v
    using that assms unfolding log_clean_def log_versions_def by fastforce
  moreover have "\<exists>k \<in> set ks. version_of_key k = Some v" if "v \<in> log_versions p m" for v
    using that assms version_of_version_key [OF log_cleanD [OF assms(1)], of v]
    by (auto simp: log_versions_def intro!: bexI [of _ "version_key p v"])
  ultimately show ?thesis by (force simp: List.map_filter_def)
qed

lemma map_filter_versions_distinct:
  assumes "log_clean p m" and "set ks = {k \<in> dom m. has_prefix k p}" and "distinct ks"
  shows "distinct (List.map_filter version_of_key ks)"
proof -
  have "inj_on (the \<circ> version_of_key) (set (filter (\<lambda>k. version_of_key k \<noteq> None) ks))"
  proof (rule inj_onI)
    fix x y
    assume "x \<in> set (filter (\<lambda>k. version_of_key k \<noteq> None) ks)"
      and "y \<in> set (filter (\<lambda>k. version_of_key k \<noteq> None) ks)"
      and eq: "(the \<circ> version_of_key) x = (the \<circ> version_of_key) y"
    moreover from this obtain v where "version_of_key x = Some v" "version_of_key y = Some v" by auto
    ultimately have "x = version_key p v" "y = version_key p v"
      using assms(1,2) unfolding log_clean_def by force+
    then show "x = y" by simp
  qed
  then show ?thesis using assms(3) by (simp add: List.map_filter_def distinct_map)
qed

section \<open>Operations under the store contract\<close>

context s3_store
begin

lemma write_version_ok:
  assumes "write_version \<lparr>tl_store = ops, tl_log_prefix = p\<rparr> v as w = (Inr u, w')"
  shows "view w' = (view w)(version_key p v \<mapsto> encode_actions as)"
  using assms upload_ok by (auto simp: write_version_def elim: io_wrap_InrE)

lemma write_version_cases:
  assumes "write_version \<lparr>tl_store = ops, tl_log_prefix = p\<rparr> v as w = (r, w')"
  shows "view w' = view w \<or> view w' = (view w)(version_key p v \<mapsto> encode_actions as)"
  using assms upload_cases
  by (auto simp: write_version_def io_wrap_def split: prod.splits sum.splits)

lemma read_version_ok:
  assumes "read_version \<lparr>tl_store = ops, tl_log_prefix = p\<rparr> v w = (Inr as, w')"
  shows "\<exists>d. view w (version_key p v) = Some d \<and> decode_actions d = Inr as"
  using assms download_ok
  by (fastforce simp: read_version_def elim!: io_bind_InrE io_wrap_InrE)

lemma read_version_view:
  "read_version \<lparr>tl_store = ops, tl_log_prefix = p\<rparr> v w = (r, w') \<Longrightarrow> view w' = view w"
  by (auto simp: read_version_def io_bind_def io_wrap_def dest: download_view
      split: prod.splits sum.splits)

text \<open>A version that was written is read as the actions it was written with.\<close>

lemma write_read_version:
  assumes "write_version \<lparr>tl_store = ops, tl_log_prefix = p\<rparr> v as w = (Inr u, w1)"
    and "list_all wf_action as"
    and "read_version \<lparr>tl_store = ops, tl_log_prefix = p\<rparr> v w1 = (Inr as', w2)"
  shows "as' = as"
  using write_version_ok [OF assms(1)] read_version_ok [OF assms(3)] assms(2) by simp

lemma list_versions_ok:
  assumes "list_versions \<lparr>tl_store = ops, tl_log_prefix = p\<rparr> w = (Inr vs, w')"
    and "log_clean p (view w)"
  shows "set vs = log_versions p (view w)" and "sorted vs" and "distinct vs"
proof -
  obtain ks where ks: "st_list ops p w = (Inr ks, w')"
    and vs: "vs = sort (List.map_filter version_of_key ks)"
    using assms(1) by (auto simp: list_versions_def elim!: io_bind_InrE io_wrap_InrE)
  then show "set vs = log_versions p (view w)" and "sorted vs" and "distinct vs"
    using list_ok [OF ks] map_filter_versions [OF assms(2)] map_filter_versions_distinct [OF assms(2)]
    by auto
qed

lemma list_versions_view:
  "list_versions \<lparr>tl_store = ops, tl_log_prefix = p\<rparr> w = (r, w') \<Longrightarrow> view w' = view w"
  by (auto simp: list_versions_def io_bind_def io_wrap_def dest: list_view
      split: prod.splits sum.splits)

lemma latest_version_view:
  "latest_version \<lparr>tl_store = ops, tl_log_prefix = p\<rparr> w = (r, w') \<Longrightarrow> view w' = view w"
  by (auto simp: latest_version_def io_bind_def dest: list_versions_view
      split: prod.splits sum.splits)

text \<open>The latest version is the greatest one of the log, -1 for an empty log.\<close>

lemma latest_version_ok:
  assumes "latest_version \<lparr>tl_store = ops, tl_log_prefix = p\<rparr> w = (Inr v, w')"
    and "log_clean p (view w)"
  shows "if log_versions p (view w) = {} then v = -1
         else v \<in> log_versions p (view w) \<and> (\<forall>v' \<in> log_versions p (view w). v' \<le> v)"
proof -
  obtain vs where vs: "list_versions \<lparr>tl_store = ops, tl_log_prefix = p\<rparr> w = (Inr vs, w')"
    and v: "v = (if vs = [] then -1 else last vs)"
    using assms(1) by (auto simp: latest_version_def elim!: io_bind_InrE)
  have set: "set vs = log_versions p (view w)" using list_versions_ok [OF vs assms(2)] by simp
  show ?thesis
  proof (cases "vs = []")
    case False
    have "v' \<le> last vs" if "v' \<in> set vs" for v'
      using last_sorted_max [OF list_versions_ok(2) [OF vs assms(2)] False] that by simp
    with False v set show ?thesis using last_in_set [OF False] by auto
  qed (use v set in auto)
qed

end

end
