(* ===== verification/Layout.thy ===== *)
theory Layout
  imports DeltaLog
begin

text \<open>
  internal/storage/layout.go: where every object of the data lake is stored. The log directory of
  a table is a directory in the sense of DeltaLog, and different tables have disjoint logs as long
  as source and object names contain no slash.
\<close>

definition data_prefix :: "string \<Rightarrow> string \<Rightarrow> string" where
  "data_prefix source object = ''data/'' @ source @ ''/'' @ object"

definition delta_log_prefix :: "string \<Rightarrow> string \<Rightarrow> string" where
  "delta_log_prefix source object = ''data/'' @ source @ ''/'' @ object @ ''/_delta_log/''"

definition delta_log_entry :: "string \<Rightarrow> string \<Rightarrow> int \<Rightarrow> string" where
  "delta_log_entry source object version =
     ''data/'' @ source @ ''/'' @ object @ ''/_delta_log/'' @ dec_pad 20 version @ ''.json''"

definition delta_checkpoint :: "string \<Rightarrow> string \<Rightarrow> int \<Rightarrow> string" where
  "delta_checkpoint source object version =
     ''data/'' @ source @ ''/'' @ object @ ''/_delta_log/'' @ dec_pad 20 version @ ''.checkpoint.parquet''"

definition delta_last_checkpoint :: "string \<Rightarrow> string \<Rightarrow> string" where
  "delta_last_checkpoint source object =
     ''data/'' @ source @ ''/'' @ object @ ''/_delta_log/_last_checkpoint''"

definition parquet_file :: "string \<Rightarrow> string \<Rightarrow> string \<Rightarrow> string" where
  "parquet_file source object filename = ''data/'' @ source @ ''/'' @ object @ ''/'' @ filename"

definition sync_state_key :: "string \<Rightarrow> string" where
  "sync_state_key source = ''state/'' @ source @ ''/sync_state.json''"

definition schema_version_key :: "string \<Rightarrow> string \<Rightarrow> int \<Rightarrow> string" where
  "schema_version_key source object version =
     ''state/'' @ source @ ''/schema_history/'' @ object @ ''/v'' @ dec version @ ''.json''"

definition schema_history_prefix :: "string \<Rightarrow> string \<Rightarrow> string" where
  "schema_history_prefix source object = ''state/'' @ source @ ''/schema_history/'' @ object @ ''/''"

definition catalog_key :: "string \<Rightarrow> string" where
  "catalog_key source = ''metadata/'' @ source @ ''/catalog.json''"

definition validation_report_key :: "string \<Rightarrow> string \<Rightarrow> string" where
  "validation_report_key source sync_id = ''validation/'' @ source @ ''/reports/'' @ sync_id @ ''.json''"

definition validation_reports_prefix :: "string \<Rightarrow> string" where
  "validation_reports_prefix source = ''validation/'' @ source @ ''/reports/''"

definition drift_metrics_key :: "string \<Rightarrow> string \<Rightarrow> string" where
  "drift_metrics_key source object = ''validation/'' @ source @ ''/'' @ object @ ''/drift_metrics.json''"

definition field_snapshots_key :: "string \<Rightarrow> string \<Rightarrow> string" where
  "field_snapshots_key source object = ''validation/'' @ source @ ''/'' @ object @ ''/field_snapshots.json''"

text \<open>The log writes its versions where the layout expects them.\<close>

lemma directory_delta_log [simp]: "directory (delta_log_prefix source object)"
  by (simp add: directory_def delta_log_prefix_def)

lemma version_key_layout: "version_key (delta_log_prefix source object) v = delta_log_entry source object v"
  by (simp add: version_key_def delta_log_prefix_def delta_log_entry_def)

lemma last_checkpoint_layout:
  "delta_log_prefix source object @ ''_last_checkpoint'' = delta_last_checkpoint source object"
  by (simp add: delta_log_prefix_def delta_last_checkpoint_def)

text \<open>Splitting a key at the first slash.\<close>

lemma slash_split:
  assumes "CHR ''/'' \<notin> set s" and "CHR ''/'' \<notin> set s'"
  shows "s @ CHR ''/'' # t = s' @ CHR ''/'' # t' \<longleftrightarrow> s = s' \<and> t = t'"
  using assms by (induction s arbitrary: s') (case_tac s', auto)+

definition plain_name :: "string \<Rightarrow> bool" where
  "plain_name s \<longleftrightarrow> CHR ''/'' \<notin> set s"

lemma delta_log_prefix_disjoint:
  assumes "plain_name s" and "plain_name s'" and "plain_name ob" and "plain_name ob'"
    and "has_prefix k (delta_log_prefix s ob)" and "has_prefix k (delta_log_prefix s' ob')"
  shows "s = s' \<and> ob = ob'"
proof -
  obtain t t' where "delta_log_prefix s ob @ t = delta_log_prefix s' ob' @ t'"
    using assms(5,6) by (auto simp: has_prefix_iff)
  then have "s @ CHR ''/'' # (ob @ CHR ''/'' # (''_delta_log/'' @ t))
             = s' @ CHR ''/'' # (ob' @ CHR ''/'' # (''_delta_log/'' @ t'))"
    by (simp add: delta_log_prefix_def)
  then show ?thesis using assms(1-4) unfolding plain_name_def by (metis slash_split)
qed

text \<open>A data file, whose name has no slash, never lies in a log directory.\<close>

lemma parquet_file_not_log:
  assumes "plain_name s" and "plain_name s'" and "plain_name ob" and "plain_name ob'" and "plain_name f"
  shows "\<not> has_prefix (parquet_file s ob f) (delta_log_prefix s' ob')"
proof
  assume "has_prefix (parquet_file s ob f) (delta_log_prefix s' ob')"
  then obtain t where "parquet_file s ob f = delta_log_prefix s' ob' @ t" by (auto simp: has_prefix_iff)
  then have "s @ CHR ''/'' # (ob @ CHR ''/'' # f)
             = s' @ CHR ''/'' # (ob' @ CHR ''/'' # (''_delta_log/'' @ t))"
    by (simp add: parquet_file_def delta_log_prefix_def)
  then have "f = ''_delta_log/'' @ t" using assms(1-4) unfolding plain_name_def by (metis slash_split)
  then show False using assms(5) by (simp add: plain_name_def)
qed

end
