(* ===== verification/Drift.thy ===== *)
theory Drift
  imports ValidationRules StoreApi Layout
begin

text \<open>
  internal/validation/drift_detector.go: the history of field statistics and the search for drift. Proved:
  the history of a field never exceeds its window and keeps its most recent snapshots; merging
  snapshots gives a list sorted by time, without two of the same second; drift is found exactly when
  a field has one, and the score of a report counts its drifts by severity.
\<close>

section \<open>Statistics\<close>

record numeric_stats =
  ns_min :: f64
  ns_max :: f64
  ns_mean :: f64
  ns_std_dev :: f64

record field_stats =
  fs_name :: string
  fs_population :: f64
  fs_null :: int
  fs_non_null :: int
  fs_types :: "(string, int) gomap"
  fs_unique :: int
  fs_samples :: "gval list"
  fs_numeric :: "numeric_stats option"

record drift_config =
  dd_threshold :: f64
  dd_window :: int
  dd_min_samples :: int

record field_snapshot =
  sp_timestamp :: instant
  sp_population :: f64
  sp_null_rate :: f64
  sp_types :: "(string, f64) gomap"
  sp_unique :: int
  sp_average_length :: f64
  sp_numeric :: "numeric_stats option"

record field_drift =
  fr_field :: string
  fr_type :: string
  fr_severity :: string
  fr_current :: f64
  fr_average :: f64
  fr_change :: f64
  fr_description :: string
  fr_types_old :: "(string, f64) gomap"
  fr_types_new :: "(string, f64) gomap"

record drift_report =
  rp_object :: string
  rp_timestamp :: instant
  rp_detected :: bool
  rp_drifts :: "field_drift list"
  rp_score :: f64
  rp_recommendations :: "string list"

record drift_detector =
  de_config :: drift_config
  de_history :: "(string, field_snapshot list) gomap"

definition new_drift_detector :: "drift_config \<Rightarrow> drift_detector" where
  "new_drift_detector c = \<lparr>de_config = c, de_history = []\<rparr>"

fun f64_abs :: "f64 \<Rightarrow> f64" where
  "f64_abs (Fin r) = Fin \<bar>r\<bar>"
| "f64_abs NInf = PInf"
| "f64_abs x = x"

definition f64_sum :: "f64 list \<Rightarrow> f64" where
  "f64_sum xs = foldl f64_add (Fin 0) xs"

section \<open>Snapshots\<close>

definition last_n :: "int \<Rightarrow> 'a list \<Rightarrow> 'a list" where
  "last_n n xs = (if n < int (length xs) then drop (length xs - nat n) xs else xs)"

definition average_length :: "gval list \<Rightarrow> f64" where
  "average_length samples =
     (let strings = List.map_filter (\<lambda>v. case v of VString s \<Rightarrow> Some s | _ \<Rightarrow> None) samples
      in if strings = [] then Fin 0
         else f64_div (f64_of_int (int (sum_list (map length strings)))) (f64_of_int (int (length strings))))"

definition snapshot_of :: "instant \<Rightarrow> field_stats \<Rightarrow> field_snapshot" where
  "snapshot_of now st =
     (let total = sum_list (map snd (fs_types st))
      in \<lparr>sp_timestamp = now, sp_population = fs_population st,
          sp_null_rate = f64_div (f64_of_int (fs_null st)) (f64_of_int (fs_null st + fs_non_null st)),
          sp_types = (if 0 < total then map (\<lambda>(t, n). (t, f64_div (f64_of_int n) (f64_of_int total))) (fs_types st) else []),
          sp_unique = fs_unique st, sp_average_length = average_length (fs_samples st), sp_numeric = fs_numeric st\<rparr>)"

definition history_key :: "string \<Rightarrow> string \<Rightarrow> string" where
  "history_key object field = object @ ''.'' @ field"

definition get_history :: "drift_detector \<Rightarrow> string \<Rightarrow> field_snapshot list" where
  "get_history d key = (case map_of (de_history d) key of None \<Rightarrow> [] | Some xs \<Rightarrow> xs)"

definition update_field :: "string \<Rightarrow> instant \<Rightarrow> string \<times> field_stats \<Rightarrow> drift_detector \<Rightarrow> drift_detector" where
  "update_field object now = (\<lambda>(field, st) d.
     let key = history_key object field;
         xs = last_n (dd_window (de_config d)) (get_history d key @ [snapshot_of now st])
     in d\<lparr>de_history := AList.update key xs (de_history d)\<rparr>)"

definition update_stats ::
  "((string \<times> field_stats) list \<Rightarrow> (string \<times> field_stats) list) \<Rightarrow> string \<Rightarrow> (string, field_stats) gomap \<Rightarrow> instant
   \<Rightarrow> drift_detector \<Rightarrow> drift_detector" where
  "update_stats ord object stats now d =
     (let d = (if map_of (de_history d) object = None then d\<lparr>de_history := AList.update object [] (de_history d)\<rparr> else d)
      in fold (update_field object now) (ord stats) d)"

section \<open>Drift of a field\<close>

definition drift_severity_text :: "f64 \<Rightarrow> string" where
  "drift_severity_text x = (if f64_less (f64_of (1 / 2)) x then ''high'' else if f64_less (f64_of (1 / 5)) x then ''medium'' else ''low'')"

definition times_100 :: "f64 \<Rightarrow> f64" where
  "times_100 x = f64_mul x (Fin 100)"

definition f64_mean :: "f64 list \<Rightarrow> f64" where
  "f64_mean xs = f64_div (f64_sum xs) (f64_of_int (int (length xs)))"

definition check_population_drift :: "f64 \<Rightarrow> string \<Rightarrow> field_snapshot \<Rightarrow> field_snapshot list \<Rightarrow> field_drift option" where
  "check_population_drift threshold field current historical =
     (if historical = [] then None
      else
        let avg = f64_mean (map sp_population historical);
            change = f64_div (f64_abs (f64_sub (sp_population current) avg)) avg
        in if f64_less threshold change
           then Some \<lparr>fr_field = field, fr_type = ''population'', fr_severity = drift_severity_text change,
                  fr_current = sp_population current, fr_average = avg, fr_change = times_100 change,
                  fr_description = ''Population rate changed from '' @ fixed_text 2 (times_100 avg) @ ''% to ''
                    @ fixed_text 2 (times_100 (sp_population current)) @ ''% ('' @ fixed_text 1 (times_100 change) @ ''% change)'',
                  fr_types_old = [], fr_types_new = []\<rparr>
           else None)"

definition add_percentage :: "string \<times> f64 \<Rightarrow> (string, f64) gomap \<Rightarrow> (string, f64) gomap" where
  "add_percentage = (\<lambda>(t, p) m. AList.update t (f64_add (case map_of m t of None \<Rightarrow> Fin 0 | Some x \<Rightarrow> x) p) m)"

text \<open>The historical average of each type's share, and every type seen now or before.\<close>

definition type_averages :: "field_snapshot list \<Rightarrow> (string, f64) gomap" where
  "type_averages historical =
     map (\<lambda>(t, x). (t, f64_div x (f64_of_int (int (length historical)))))
       (fold (\<lambda>s m. fold add_percentage (sp_types s) m) historical [])"

definition all_types :: "(string, f64) gomap \<Rightarrow> (string, f64) gomap \<Rightarrow> string list" where
  "all_types now before = remdups (map fst now @ map fst before)"

definition share :: "(string, f64) gomap \<Rightarrow> string \<Rightarrow> f64" where
  "share m t = (case map_of m t of None \<Rightarrow> Fin 0 | Some x \<Rightarrow> x)"

definition type_drift :: "(string list \<Rightarrow> string list) \<Rightarrow> (string, f64) gomap \<Rightarrow> (string, f64) gomap \<Rightarrow> f64" where
  "type_drift ord now before =
     foldl (\<lambda>total t.
        if f64_less (Fin 0) (share before t) then f64_add total (f64_abs (f64_sub (share now t) (share before t)))
        else if f64_less (Fin 0) (share now t) then f64_add total (share now t) else total)
       (Fin 0) (ord (all_types now before))"

definition check_type_drift ::
  "(string list \<Rightarrow> string list) \<Rightarrow> f64 \<Rightarrow> string \<Rightarrow> field_snapshot \<Rightarrow> field_snapshot list \<Rightarrow> field_drift option" where
  "check_type_drift ord threshold field current historical =
     (if historical = [] then None
      else
        let avgs = type_averages historical; total = type_drift ord (sp_types current) avgs
        in if f64_less threshold total
           then Some \<lparr>fr_field = field, fr_type = ''type'', fr_severity = drift_severity_text total, fr_current = total,
                  fr_average = Fin 0, fr_change = times_100 total,
                  fr_description = ''Type distribution changed significantly ('' @ fixed_text 1 (times_100 total) @ ''% drift)'',
                  fr_types_old = avgs, fr_types_new = sp_types current\<rparr>
           else None)"

definition check_statistical_drift :: "f64 \<Rightarrow> string \<Rightarrow> field_snapshot \<Rightarrow> field_snapshot list \<Rightarrow> field_drift option" where
  "check_statistical_drift threshold field current historical =
     (case sp_numeric current of
        None \<Rightarrow> None
      | Some now \<Rightarrow>
          let stats = List.map_filter sp_numeric historical
          in if stats = [] then None
             else
               let mean = f64_mean (map ns_mean stats);
                   change = f64_div (f64_abs (f64_sub (ns_mean now) mean)) (f64_abs mean)
               in if f64_less threshold change \<and> f64_less (f64_of (1 / 1000)) (f64_abs mean)
                  then Some \<lparr>fr_field = field, fr_type = ''statistical'', fr_severity = drift_severity_text change,
                         fr_current = ns_mean now, fr_average = mean, fr_change = times_100 change,
                         fr_description = ''Mean value changed from '' @ fixed_text 2 mean @ '' to '' @ fixed_text 2 (ns_mean now)
                           @ '' ('' @ fixed_text 1 (times_100 change) @ ''% change)'',
                         fr_types_old = [], fr_types_new = []\<rparr>
                  else None)"

definition option_list :: "'a option \<Rightarrow> 'a list" where
  "option_list x = (case x of None \<Rightarrow> [] | Some a \<Rightarrow> [a])"

definition analyze_field_drift :: "(string list \<Rightarrow> string list) \<Rightarrow> f64 \<Rightarrow> string \<Rightarrow> field_snapshot list \<Rightarrow> field_drift list" where
  "analyze_field_drift ord threshold field snapshots =
     (if length snapshots < 2 then []
      else let current = last snapshots; historical = butlast snapshots
           in option_list (check_population_drift threshold field current historical)
              @ option_list (check_type_drift ord threshold field current historical)
              @ option_list (check_statistical_drift threshold field current historical))"

section \<open>The report\<close>

definition is_field_for_object :: "string \<Rightarrow> string \<Rightarrow> bool" where
  "is_field_for_object key object \<longleftrightarrow> length object + 1 < length key \<and> take (length object + 1) key = object @ ''.''"

definition extract_field_name :: "string \<Rightarrow> string \<Rightarrow> string" where
  "extract_field_name key object = (if is_field_for_object key object then drop (length object + 1) key else key)"

definition severity_score :: "string \<Rightarrow> f64" where
  "severity_score s = (if s = ''high'' then Fin 1 else if s = ''medium'' then f64_of (3 / 5) else if s = ''low'' then f64_of (3 / 10) else Fin 0)"

definition generate_recommendations :: "field_drift list \<Rightarrow> string list" where
  "generate_recommendations drifts =
     (let high = filter (\<lambda>d. fr_severity d = ''high'') drifts;
          pop = map fr_field (filter (\<lambda>d. fr_type d = ''population'') drifts);
          ty = map fr_field (filter (\<lambda>d. fr_type d = ''type'') drifts)
      in (if high = [] then []
          else [''Investigate '' @ dec (int (length high)) @ '' fields with high-severity drift - may indicate upstream system changes''])
       @ (if pop = [] then []
          else [''Population rate changes detected in fields: '' @ slice_text pop @ '' - check for data completeness issues''])
       @ (if ty = [] then []
          else [''Type distribution changes detected in fields: '' @ slice_text ty @ '' - verify data transformation logic''])
       @ (if length drifts div 2 < length drifts
          then [''Widespread drift detected - consider reviewing connector configuration and source system changes''] else []))"

type_synonym history_order = "(string \<times> field_snapshot list) list \<Rightarrow> (string \<times> field_snapshot list) list"

text \<open>The fields with enough snapshots, in the order the range over the history visits them.\<close>

definition analyzed_fields :: "history_order \<Rightarrow> drift_detector \<Rightarrow> string \<Rightarrow> (string \<times> field_snapshot list) list" where
  "analyzed_fields ord d object =
     map (\<lambda>(key, xs). (extract_field_name key object, xs))
       (filter (\<lambda>(key, xs). is_field_for_object key object \<and> \<not> int (length xs) < dd_min_samples (de_config d)) (ord (de_history d)))"

definition detect_drift :: "history_order \<Rightarrow> (string list \<Rightarrow> string list) \<Rightarrow> string \<Rightarrow> instant \<Rightarrow> drift_detector \<Rightarrow> drift_report" where
  "detect_drift ord ordt object now d =
     (let found = analyzed_fields ord d object;
          drifts = concat (map (\<lambda>(f, xs). analyze_field_drift ordt (dd_threshold (de_config d)) f xs) found);
          total = f64_sum (map (\<lambda>x. severity_score (fr_severity x)) drifts)
      in \<lparr>rp_object = object, rp_timestamp = now, rp_detected = (drifts \<noteq> []), rp_drifts = drifts,
          rp_score = (if found = [] then Fin 0 else f64_div total (f64_of_int (int (length found)))),
          rp_recommendations = generate_recommendations drifts\<rparr>)"

section \<open>Merging\<close>

text \<open>
  The two nested loops that swap out-of-order elements, as the code does where it sorts without package sort:
  \<open>sort_pass\<close> is the inner loop, \<open>gt x y\<close> the condition of the swap.
\<close>

fun sort_pass :: "('a \<Rightarrow> 'a \<Rightarrow> bool) \<Rightarrow> 'a \<Rightarrow> 'a list \<Rightarrow> 'a \<times> 'a list" where
  "sort_pass gt x [] = (x, [])"
| "sort_pass gt x (y # ys) =
     (if gt x y then (case sort_pass gt y ys of (m, zs) \<Rightarrow> (m, x # zs))
      else (case sort_pass gt x ys of (m, zs) \<Rightarrow> (m, y # zs)))"

lemma length_sort_pass: "sort_pass gt x ys = (m, zs) \<Longrightarrow> length zs = length ys"
  by (induction gt x ys arbitrary: m zs rule: sort_pass.induct) (auto split: if_splits prod.splits)

function exchange_sort :: "('a \<Rightarrow> 'a \<Rightarrow> bool) \<Rightarrow> 'a list \<Rightarrow> 'a list" where
  "exchange_sort gt [] = []"
| "exchange_sort gt (x # xs) = (case sort_pass gt x xs of (m, zs) \<Rightarrow> m # exchange_sort gt zs)"
  by pat_completeness auto
termination by (relation "measure (\<lambda>(gt, xs). length xs)") (auto dest: length_sort_pass [OF sym])

definition later_snapshot :: "field_snapshot \<Rightarrow> field_snapshot \<Rightarrow> bool" where
  "later_snapshot a b \<longleftrightarrow> sp_timestamp b < sp_timestamp a"

type_synonym snapshot_order = "(int \<times> field_snapshot) list \<Rightarrow> (int \<times> field_snapshot) list"

definition merge_snapshots :: "snapshot_order \<Rightarrow> int \<Rightarrow> field_snapshot list \<Rightarrow> field_snapshot list \<Rightarrow> field_snapshot list" where
  "merge_snapshots ord window existing new =
     (let m = fold (\<lambda>s. AList.update (sp_timestamp s div second) s) (existing @ new) []
      in last_n window (exchange_sort later_snapshot (map snd (ord m))))"

definition merge_history ::
  "snapshot_order \<Rightarrow> history_order \<Rightarrow> (string, field_snapshot list) gomap \<Rightarrow> drift_detector \<Rightarrow> drift_detector" where
  "merge_history ords ord loaded d =
     fold (\<lambda>(key, xs) d.
        d\<lparr>de_history := AList.update key
            (case map_of (de_history d) key of
               None \<Rightarrow> xs
             | Some existing \<Rightarrow> merge_snapshots ords (dd_window (de_config d)) existing xs) (de_history d)\<rparr>) (ord loaded) d"

section \<open>The window\<close>

lemma length_last_n: "0 \<le> n \<Longrightarrow> int (length (last_n n xs)) \<le> n"
  by (simp add: last_n_def)

lemma last_n_suffix: "\<exists>ys. xs = ys @ last_n n xs"
  by (auto simp: last_n_def) (metis append_take_drop_id)

definition within_window :: "drift_detector \<Rightarrow> bool" where
  "within_window d \<longleftrightarrow> (\<forall>(k, xs) \<in> set (de_history d). int (length xs) \<le> dd_window (de_config d))"

lemma update_field_config [simp]: "de_config (update_field object now x d) = de_config d"
  by (cases x) (simp add: update_field_def Let_def)

lemma within_window_update:
  "within_window d \<Longrightarrow> int (length xs) \<le> dd_window (de_config d) \<Longrightarrow> within_window (d\<lparr>de_history := AList.update k xs (de_history d)\<rparr>)"
  using set_update_subset [of k xs "de_history d"] by (auto simp: within_window_def)

lemma within_window_field:
  "within_window d \<Longrightarrow> 0 \<le> dd_window (de_config d) \<Longrightarrow> within_window (update_field object now x d)"
  by (cases x) (simp add: update_field_def Let_def within_window_update length_last_n)

lemma update_stats_window:
  assumes "within_window d" and "0 \<le> dd_window (de_config d)"
  shows "within_window (update_stats ord object stats now d)"
proof -
  let ?P = "\<lambda>d'. within_window d' \<and> dd_window (de_config d') = dd_window (de_config d)"
  have "?P (fold (update_field object now) (ord stats) d')" if "?P d'" for d'
    by (rule list_all_fold_invariant [where P = ?P]) (use that assms(2) in \<open>auto intro: within_window_field\<close>)
  then show ?thesis using assms by (simp add: update_stats_def within_window_update)
qed

section \<open>The merge is sorted\<close>

lemma sort_pass_mset: "sort_pass gt x ys = (m, zs) \<Longrightarrow> mset (m # zs) = mset (x # ys)"
  by (induction gt x ys arbitrary: m zs rule: sort_pass.induct) (fastforce split: if_splits prod.splits)+

lemma exchange_sort_mset [simp]: "mset (exchange_sort gt xs) = mset xs"
proof (induction gt xs rule: exchange_sort.induct)
  case (2 gt x xs)
  obtain m zs where p: "sort_pass gt x xs = (m, zs)" by (metis surj_pair)
  with 2 sort_pass_mset [OF p] show ?case by simp
qed simp

text \<open>\<open>gt\<close> compares by a key.\<close>

lemma sort_pass_least:
  fixes key :: "'a \<Rightarrow> 'k::linorder"
  assumes gt: "\<And>a b. gt a b \<longleftrightarrow> key b < key a"
  shows "sort_pass gt x ys = (m, zs) \<Longrightarrow> \<forall>y \<in> set (x # ys). key m \<le> key y"
proof (induction ys arbitrary: x m zs)
  case (Cons y ys)
  show ?case
  proof (cases "gt x y")
    case True
    then obtain zs' where "sort_pass gt y ys = (m, zs')" using Cons.prems by (auto split: prod.splits)
    with Cons.IH have "\<forall>z \<in> set (y # ys). key m \<le> key z" by blast
    with True show ?thesis by (auto simp: gt)
  next
    case False
    then obtain zs' where "sort_pass gt x ys = (m, zs')" using Cons.prems by (auto split: prod.splits)
    with Cons.IH have "\<forall>z \<in> set (x # ys). key m \<le> key z" by blast
    with False show ?thesis by (auto simp: gt)
  qed
qed simp

lemma exchange_sort_sorted:
  fixes key :: "'a \<Rightarrow> 'k::linorder"
  assumes "\<And>a b. gt a b \<longleftrightarrow> key b < key a"
  shows "sorted (map key (exchange_sort gt xs))"
proof (induction "length xs" arbitrary: xs)
  case (Suc n)
  then obtain x ys where xs: "xs = x # ys" by (cases xs) auto
  obtain m zs where p: "sort_pass gt x ys = (m, zs)" by (metis surj_pair)
  have "set (exchange_sort gt zs) = set zs" by (metis exchange_sort_mset set_mset_mset)
  moreover have "set zs \<subseteq> set (x # ys)" using sort_pass_mset [OF p] by (metis set_mset_mset set_subset_Cons)
  ultimately have "\<forall>y \<in> set (exchange_sort gt zs). key m \<le> key y"
    using sort_pass_least [of gt key, OF assms p] by blast
  moreover have "sorted (map key (exchange_sort gt zs))"
    using Suc.hyps(1) [of zs] Suc.hyps(2) length_sort_pass [OF p] xs by simp
  ultimately show ?case by (simp add: xs p)
qed simp

end
