(* ===== verification/Validator.thy ===== *)
theory Validator
  imports Drift
begin

text \<open>
  internal/validation/validator.go: records and batches against a schema. Proved: a record is valid exactly
  when every field has a value of its type, or none where that is allowed, and meets its custom rules;
  a batch's counters add up to the records that were looked at, all of them unless it samples; a batch
  is valid exactly when each of those records is; the counters of a field cover those records.
\<close>

section \<open>The validator\<close>

record custom_check =
  ru_field :: string
  ru_type :: string
  ru_min :: "f64 option"
  ru_max :: "f64 option"
  ru_pattern :: string
  ru_values :: "string list"
  ru_required :: bool
  ru_custom :: "(gval \<Rightarrow> go_error option) option"

record validator_config =
  vc_error_threshold :: f64
  vc_strict :: bool
  vc_custom :: "(string, custom_check list) gomap"
  vc_drift_threshold :: f64
  vc_sampling :: f64
  vc_max_samples :: int

record validator =
  va_rules :: "validation_rule list"
  va_config :: validator_config

text \<open>The rules, and the drift detector the validator starts with.\<close>

definition new_default_validator :: "validator_config \<Rightarrow> validator" where
  "new_default_validator c =
     \<lparr>va_rules = [TypeConsistencyRule, NullConstraintRule, FormatValidationRule], va_config = c\<rparr>"

definition initial_detector :: "validator_config \<Rightarrow> drift_detector option" where
  "initial_detector c =
     (if f64_less (Fin 0) (vc_drift_threshold c)
      then Some (new_drift_detector \<lparr>dd_threshold = vc_drift_threshold c, dd_window = 100, dd_min_samples = 10\<rparr>)
      else None)"

record validation_metrics =
  vm_error_rate :: f64
  vm_warning_rate :: f64
  vm_null_rate :: f64
  vm_mismatch_rate :: f64
  vm_population :: "(string, f64) gomap option"
  vm_validated_fields :: int
  vm_total_fields :: int

definition zero_metrics :: validation_metrics where
  "zero_metrics = \<lparr>vm_error_rate = Fin 0, vm_warning_rate = Fin 0, vm_null_rate = Fin 0, vm_mismatch_rate = Fin 0,
                   vm_population = None, vm_validated_fields = 0, vm_total_fields = 0\<rparr>"

record validation_result =
  vr_valid :: bool
  vr_errors :: "field_error list"
  vr_warnings :: "validation_warning list"
  vr_metrics :: validation_metrics
  vr_timestamp :: instant

record batch_result =
  br_valid :: bool
  br_total :: int
  br_valid_records :: int
  br_error_records :: int
  br_warning_records :: int
  br_errors :: "field_error list"
  br_warnings :: "validation_warning list"
  br_fields :: "(string, field_stats) gomap"
  br_metrics :: validation_metrics
  br_time :: duration
  br_timestamp :: instant

record record_batch =
  rb_records :: "go_record list"
  rb_object :: string

definition has_errors :: "batch_result \<Rightarrow> bool" where
  "has_errors r \<longleftrightarrow> 0 < length (br_errors r) \<or> 0 < br_error_records r"

definition has_warnings :: "batch_result \<Rightarrow> bool" where
  "has_warnings r \<longleftrightarrow> 0 < length (br_warnings r) \<or> 0 < br_warning_records r"

section \<open>One record\<close>

definition validate_custom_rule :: "gval \<Rightarrow> custom_check \<Rightarrow> go_error option" where
  "validate_custom_rule v rule =
     (case ru_custom rule of
        Some f \<Rightarrow> f v
      | None \<Rightarrow>
          if ru_type rule = ''range''
          then (case to_float64 v of
                  Some x \<Rightarrow>
                    (case ru_min rule of
                       Some m \<Rightarrow> if f64_less x m
                                 then Some (Msg (''value '' @ float_text x @ '' is below minimum '' @ float_text m))
                                 else (case ru_max rule of
                                         Some k \<Rightarrow> if f64_less k x
                                                   then Some (Msg (''value '' @ float_text x @ '' is above maximum '' @ float_text k))
                                                   else None
                                       | None \<Rightarrow> None)
                     | None \<Rightarrow> (case ru_max rule of
                                  Some k \<Rightarrow> if f64_less k x
                                            then Some (Msg (''value '' @ float_text x @ '' is above maximum '' @ float_text k))
                                            else None
                                | None \<Rightarrow> None))
                | None \<Rightarrow> Some (Msg (''expected numeric value for range validation, got '' @ type_name v)))
          else if ru_type rule = ''enum''
          then (case v of
                  VString s \<Rightarrow> if s \<in> set (ru_values rule) then None
                               else Some (Msg (''value '' @ s @ '' is not in allowed values '' @ slice_text (ru_values rule)))
                | _ \<Rightarrow> Some (Msg (''expected string value for enum validation, got '' @ type_name v)))
          else None)"

definition custom_errors :: "validator_config \<Rightarrow> string \<Rightarrow> schema_field \<Rightarrow> gval \<Rightarrow> field_error list" where
  "custom_errors c object f v =
     (case map_of (vc_custom c) object of
        None \<Rightarrow> []
      | Some rules \<Rightarrow> List.map_filter (\<lambda>rule.
          if ru_field rule = fd_name f
          then map_option (\<lambda>e. error_of (fd_name f) ''custom_rule'' (err_text e) v) (validate_custom_rule v rule)
          else None) rules)"

definition field_value :: "go_record \<Rightarrow> schema_field \<Rightarrow> gval" where
  "field_value r f = (case map_of r (fd_name f) of None \<Rightarrow> VNil | Some v \<Rightarrow> v)"

type_synonym range_order = "(string \<times> numeric_range) list \<Rightarrow> (string \<times> numeric_range) list"

definition field_errors :: "platform \<Rightarrow> range_order \<Rightarrow> validator \<Rightarrow> string \<Rightarrow> go_record \<Rightarrow> schema_field \<Rightarrow> field_error list" where
  "field_errors pl ord va object r f =
     (let v = field_value r f
      in if v = VNil
         then if fd_nullable f then []
              else [error_of (fd_name f) ''null_constraint'' (''Field '' @ fd_name f @ '' cannot be null'') v]
         else concat (map (\<lambda>rule. fst (rule_validate pl ord rule f v)) (va_rules va)) @ custom_errors (va_config va) object f v)"

definition field_warnings :: "platform \<Rightarrow> range_order \<Rightarrow> validator \<Rightarrow> go_record \<Rightarrow> schema_field \<Rightarrow> validation_warning list" where
  "field_warnings pl ord va r f =
     (let v = field_value r f
      in if v = VNil then [] else concat (map (\<lambda>rule. snd (rule_validate pl ord rule f v)) (va_rules va)))"

definition population_rates :: "go_record \<Rightarrow> schema_field list \<Rightarrow> (string, f64) gomap" where
  "population_rates r fs =
     fold (\<lambda>f. AList.update (fd_name f) (if field_value r f = VNil then Fin 0 else Fin 1)) fs []"

definition int_ratio :: "int \<Rightarrow> int \<Rightarrow> f64" where
  "int_ratio a b = f64_div (f64_of_int a) (f64_of_int b)"

text \<open>The statistics \<open>ValidateRecord\<close> gathers of each field go into a local map nothing reads.\<close>

definition validate_record ::
  "platform \<Rightarrow> range_order \<Rightarrow> validator \<Rightarrow> instant \<Rightarrow> go_record \<Rightarrow> schema option \<Rightarrow> validation_result" where
  "validate_record pl ord va now r sch =
     (case sch of
        None \<Rightarrow> \<lparr>vr_valid = False, vr_errors = [error_of [] ''schema_missing'' ''Schema is required for validation'' VNil],
                 vr_warnings = [], vr_metrics = zero_metrics, vr_timestamp = now\<rparr>
      | Some s \<Rightarrow>
          let fs = slice_of (sch_fields s);
              errors = concat (map (field_errors pl ord va (sch_object s) r) fs);
              warnings = concat (map (field_warnings pl ord va r) fs);
              rates = population_rates r fs; n = int (length fs)
          in \<lparr>vr_valid = (errors = []), vr_errors = errors, vr_warnings = warnings,
              vr_metrics = \<lparr>vm_error_rate = int_ratio (int (length errors)) n, vm_warning_rate = int_ratio (int (length warnings)) n,
                vm_null_rate = int_ratio (int (length (filter (\<lambda>x. snd x = Fin 0) rates))) n, vm_mismatch_rate = Fin 0,
                vm_population = Some rates, vm_validated_fields = n, vm_total_fields = n\<rparr>,
              vr_timestamp = now\<rparr>)"

section \<open>A batch\<close>

text \<open>The records that are looked at, with their results; each reads the clock.\<close>

definition skipped :: "validator_config \<Rightarrow> nat \<Rightarrow> nat \<Rightarrow> bool" where
  "skipped c i n \<longleftrightarrow>
     \<not> (f64_le (Fin 1) (vc_sampling c) \<or> n \<le> 100) \<and> f64_less (vc_sampling c) (int_ratio (int i) (int n))"

fun batch_records ::
  "'w runtime \<Rightarrow> platform \<Rightarrow> range_order \<Rightarrow> validator \<Rightarrow> schema option \<Rightarrow> nat \<Rightarrow> nat \<Rightarrow> go_record list \<Rightarrow> 'w
   \<Rightarrow> (nat \<times> validation_result) list \<times> 'w" where
  "batch_records rt pl ord va sch n i [] w = ([], w)"
| "batch_records rt pl ord va sch n i (r # rs) w =
     (if skipped (va_config va) i n then batch_records rt pl ord va sch n (Suc i) rs w
      else case rt_now rt w of (now, w1) \<Rightarrow>
             case batch_records rt pl ord va sch n (Suc i) rs w1 of (xs, w2) \<Rightarrow>
               ((i, validate_record pl ord va now r sch) # xs, w2))"

definition record_id :: "nat \<Rightarrow> string" where
  "record_id i = ''record_'' @ dec (int i)"

definition empty_stats :: "string \<Rightarrow> field_stats" where
  "empty_stats field = \<lparr>fs_name = field, fs_population = Fin 0, fs_null = 0, fs_non_null = 0, fs_types = [], fs_unique = 0,
                        fs_samples = [], fs_numeric = None\<rparr>"

definition count_rate :: "string \<times> f64 \<Rightarrow> (string, field_stats) gomap \<Rightarrow> (string, field_stats) gomap" where
  "count_rate = (\<lambda>(field, rate) m.
     let st = (case map_of m field of None \<Rightarrow> (empty_stats field)\<lparr>fs_name := []\<rparr> | Some st \<Rightarrow> st)
     in AList.update field (if f64_less (Fin 0) rate then st\<lparr>fs_non_null := fs_non_null st + 1\<rparr>
                            else st\<lparr>fs_null := fs_null st + 1\<rparr>) m)"

definition set_population :: "field_stats \<Rightarrow> field_stats" where
  "set_population st =
     (let total = fs_null st + fs_non_null st
      in if 0 < total then st\<lparr>fs_population := int_ratio (fs_non_null st) total\<rparr> else st)"

definition batch_fields :: "schema_field list \<Rightarrow> (nat \<times> validation_result) list \<Rightarrow> (string, field_stats) gomap" where
  "batch_fields fs results =
     map (\<lambda>(f, st). (f, set_population st))
       (fold (\<lambda>(i, r). fold count_rate (slice_of (vm_population (vr_metrics r)))) results
          (fold (\<lambda>f. AList.update (fd_name f) (empty_stats (fd_name f))) fs []))"

type_synonym stats_order = "(string \<times> field_stats) list \<Rightarrow> (string \<times> field_stats) list"
type_synonym rate_order = "(string \<times> f64) list \<Rightarrow> (string \<times> f64) list"

definition batch_metrics :: "rate_order \<Rightarrow> schema_field list \<Rightarrow> int \<Rightarrow> int \<Rightarrow> int \<Rightarrow> (string, field_stats) gomap \<Rightarrow> validation_metrics" where
  "batch_metrics ord fs errors warnings n stats =
     (if n \<le> 0 then zero_metrics
      else
        let rates = map (\<lambda>(f, st). (f, fs_population st)) stats;
            nulls = f64_sum (map (\<lambda>(f, r). f64_sub (Fin 1) r) (ord rates))
        in \<lparr>vm_error_rate = int_ratio errors n, vm_warning_rate = int_ratio warnings n,
            vm_null_rate = f64_div nulls (f64_of_int (int (length rates))), vm_mismatch_rate = Fin 0, vm_population = Some rates,
            vm_validated_fields = int (length fs), vm_total_fields = int (length fs)\<rparr>)"

definition summarize_batch ::
  "rate_order \<Rightarrow> schema_field list \<Rightarrow> nat \<Rightarrow> instant \<Rightarrow> (nat \<times> validation_result) list \<Rightarrow> batch_result" where
  "summarize_batch ord fs records start results =
     (let bad = filter (\<lambda>(i, r). \<not> vr_valid r) results;
          good = filter (\<lambda>(i, r). vr_valid r) results;
          warned = filter (\<lambda>(i, r). vr_warnings r \<noteq> []) results;
          stats = batch_fields fs results
      in \<lparr>br_valid = (bad = []), br_total = int records, br_valid_records = int (length good),
          br_error_records = int (length bad), br_warning_records = int (length warned),
          br_errors = concat (map (\<lambda>(i, r). map (\<lambda>e. e\<lparr>ve_record_id := record_id i\<rparr>) (vr_errors r)) bad),
          br_warnings = concat (map (\<lambda>(i, r). map (\<lambda>x. x\<lparr>vw_record_id := record_id i\<rparr>) (vr_warnings r)) warned),
          br_fields = stats,
          br_metrics = batch_metrics ord fs (int (length bad)) (int (length warned)) (int (length good + length bad)) stats,
          br_time = 0, br_timestamp = start\<rparr>)"

definition empty_batch_result :: "instant \<Rightarrow> batch_result" where
  "empty_batch_result start =
     \<lparr>br_valid = True, br_total = 0, br_valid_records = 0, br_error_records = 0, br_warning_records = 0, br_errors = [],
      br_warnings = [], br_fields = [], br_metrics = zero_metrics, br_time = 0, br_timestamp = start\<rparr>"

text \<open>
  A nil schema is dereferenced when there are records: the call panics (\<open>None\<close>). The detector is the
  validator's state; \<open>ord\<close>, \<open>ordm\<close> and \<open>ords\<close> are the orders of the ranges over maps.
\<close>

definition validate_batch ::
  "'w runtime \<Rightarrow> platform \<Rightarrow> range_order \<Rightarrow> rate_order \<Rightarrow> stats_order \<Rightarrow> validator \<Rightarrow> record_batch \<Rightarrow> schema option
   \<Rightarrow> drift_detector option \<times> 'w \<Rightarrow> batch_result option \<times> drift_detector option \<times> 'w" where
  "validate_batch rt pl ord ordm ords va batch sch = (\<lambda>(dd, w).
     case rt_now rt w of (start, w1) \<Rightarrow>
       if rb_records batch = []
       then (case rt_now rt w1 of (t, w2) \<Rightarrow> (Some ((empty_batch_result start)\<lparr>br_time := time_sub t start\<rparr>), dd, w2))
       else case sch of
              None \<Rightarrow> (None, dd, w1)
            | Some s \<Rightarrow>
                (case batch_records rt pl ord va sch (length (rb_records batch)) 0 (rb_records batch) w1 of (results, w2) \<Rightarrow>
                 case rt_now rt w2 of (t, w3) \<Rightarrow>
                   let res = (summarize_batch ordm (slice_of (sch_fields s)) (length (rb_records batch)) start results)
                               \<lparr>br_time := time_sub t start\<rparr>
                   in case dd of
                        None \<Rightarrow> (Some res, None, w3)
                      | Some d \<Rightarrow> (case rt_now rt w3 of (now, w4) \<Rightarrow>
                                     (Some res, Some (update_stats ords (rb_object batch) (br_fields res) now d), w4))))"

section \<open>What a valid record is\<close>

definition field_ok :: "platform \<Rightarrow> validator_config \<Rightarrow> string \<Rightarrow> go_record \<Rightarrow> schema_field \<Rightarrow> bool" where
  "field_ok pl c object r f \<longleftrightarrow>
     (let v = field_value r f
      in if v = VNil then fd_nullable f
         else fits_type pl (fd_type f) v
           \<and> (\<forall>rule \<in> set (case map_of (vc_custom c) object of None \<Rightarrow> [] | Some rules \<Rightarrow> rules).
                 ru_field rule = fd_name f \<longrightarrow> validate_custom_rule v rule = None))"

lemma map_filter_Nil_iff: "List.map_filter f xs = [] \<longleftrightarrow> (\<forall>x \<in> set xs. f x = None)"
  by (induction xs) (auto simp: map_filter_simps split: option.splits)

lemma custom_errors_Nil: "custom_errors c object f v = [] \<longleftrightarrow>
    (\<forall>rule \<in> set (case map_of (vc_custom c) object of None \<Rightarrow> [] | Some rules \<Rightarrow> rules).
       ru_field rule = fd_name f \<longrightarrow> validate_custom_rule v rule = None)"
  by (cases "map_of (vc_custom c) object") (auto simp: custom_errors_def map_filter_Nil_iff simp del: map_of_eq_Some_iff)

lemma field_errors_Nil:
  assumes "va_rules va = va_rules (new_default_validator c)"
  shows "field_errors pl ord va object r f = [] \<longleftrightarrow> field_ok pl (va_config va) object r f"
  using assms
  by (simp add: field_errors_def field_ok_def Let_def new_default_validator_def rule_errors [of "field_value r f" pl ord] 
      custom_errors_Nil del: rule_validate.simps)

lemma validate_record_valid:
  "vr_valid (validate_record pl ord (new_default_validator c) now r (Some s)) \<longleftrightarrow>
    (\<forall>f \<in> set (slice_of (sch_fields s)). field_ok pl c (sch_object s) r f)"
  by (simp add: validate_record_def Let_def field_errors_Nil [of _ c]) (simp add: new_default_validator_def)

lemma validate_record_errors: "vr_valid (validate_record pl ord va now r sch) \<longleftrightarrow> vr_errors (validate_record pl ord va now r sch) = []"
  by (simp add: validate_record_def Let_def split: option.splits)

section \<open>What a batch counts\<close>

text \<open>The indices that are looked at.\<close>

definition looked_at :: "validator_config \<Rightarrow> nat \<Rightarrow> nat list" where
  "looked_at c n = filter (\<lambda>i. \<not> skipped c i n) [0..<n]"

lemma looked_at_all: "f64_le (Fin 1) (vc_sampling c) \<or> n \<le> 100 \<Longrightarrow> looked_at c n = [0..<n]"
  by (simp add: looked_at_def skipped_def)

lemma batch_records_indices:
  "batch_records rt pl ord va sch n i rs w = (xs, w') \<Longrightarrow>
   map fst xs = filter (\<lambda>j. \<not> skipped (va_config va) j n) [i..<i + length rs]"
proof (induction rt pl ord va sch n i rs w arbitrary: xs w' rule: batch_records.induct)
  case (2 rt pl ord va sch n i r rs w)
  have "[i..<i + length (r # rs)] = i # [Suc i..<Suc i + length rs]"
    using upt_conv_Cons [of i "i + length (r # rs)"] by (simp del: upt_Suc)
  then show ?case using 2 by (auto split: if_splits prod.splits)
qed simp

lemma batch_records_results:
  "batch_records rt pl ord va sch n i rs w = (xs, w') \<Longrightarrow> (j, x) \<in> set xs \<Longrightarrow>
   i \<le> j \<and> j < i + length rs \<and> (\<exists>now. x = validate_record pl ord va now (rs ! (j - i)) sch)"
proof (induction rt pl ord va sch n i rs w arbitrary: xs w' rule: batch_records.induct)
  case (2 rt pl ord va sch n i r rs w)
  have step: "i \<le> j \<and> j < i + length (r # rs) \<and> (\<exists>now. x = validate_record pl ord va now ((r # rs) ! (j - i)) sch)"
    if "Suc i \<le> j \<and> j < Suc i + length rs \<and> (\<exists>now. x = validate_record pl ord va now (rs ! (j - Suc i)) sch)"
  proof -
    have "j - i = Suc (j - Suc i)" using that Suc_diff_Suc [of i j] by simp
    with that show ?thesis by auto
  qed
  show ?case
  proof (cases "skipped (va_config va) i n")
    case True
    then show ?thesis using 2 step by simp
  next
    case False
    obtain now w1 where now: "rt_now rt w = (now, w1)" by (metis surj_pair)
    obtain ys w2 where ys: "batch_records rt pl ord va sch n (Suc i) rs w1 = (ys, w2)" by (metis surj_pair)
    have xs: "xs = (i, validate_record pl ord va now r sch) # ys" using 2(3) False now ys by simp
    show ?thesis
    proof (cases "(j, x) \<in> set ys")
      case True
      from 2(2) [OF False now [symmetric] ys True] step show ?thesis by simp
    next
      case False
      then have "j = i" "x = validate_record pl ord va now r sch" using 2(4) xs by auto
      then show ?thesis by auto
    qed
  qed
qed simp

lemma summarize_counts:
  "br_valid_records (summarize_batch ord fs n start xs) + br_error_records (summarize_batch ord fs n start xs) = int (length xs)"
  "br_valid (summarize_batch ord fs n start xs) \<longleftrightarrow> (\<forall>(i, r) \<in> set xs. vr_valid r)"
  "br_total (summarize_batch ord fs n start xs) = int n"
  "br_fields (summarize_batch ord fs n start xs) = batch_fields fs xs"
proof -
  have "length (filter (\<lambda>x. vr_valid (snd x)) xs) + length (filter (\<lambda>x. \<not> vr_valid (snd x)) xs) = length xs"
    by (rule sum_length_filter_compl)
  then show "br_valid_records (summarize_batch ord fs n start xs) + br_error_records (summarize_batch ord fs n start xs) = int (length xs)"
    by (simp add: summarize_batch_def Let_def case_prod_unfold)
qed (auto simp: summarize_batch_def Let_def filter_empty_conv)

lemma validate_batch_run:
  assumes "validate_batch rt pl ord ordm ords va batch (Some s) (dd, w) = (Some res, dd', w')" and "rb_records batch \<noteq> []"
  obtains results start w1 w2 t where "rt_now rt w = (start, w1)"
    and "batch_records rt pl ord va (Some s) (length (rb_records batch)) 0 (rb_records batch) w1 = (results, w2)"
    and "res = (summarize_batch ordm (slice_of (sch_fields s)) (length (rb_records batch)) start results)\<lparr>br_time := t\<rparr>"
  using assms by (auto simp: validate_batch_def Let_def split: prod.splits option.splits)

lemma validate_batch_counts:
  assumes "validate_batch rt pl ord ordm ords va batch (Some s) (dd, w) = (Some res, dd', w')"
    and "rb_records batch \<noteq> []"
  shows "br_valid_records res + br_error_records res = int (length (looked_at (va_config va) (length (rb_records batch))))"
    and "br_total res = int (length (rb_records batch))"
proof -
  obtain results start w1 w2 t where
    run: "batch_records rt pl ord va (Some s) (length (rb_records batch)) 0 (rb_records batch) w1 = (results, w2)"
    and res: "res = (summarize_batch ordm (slice_of (sch_fields s)) (length (rb_records batch)) start results)\<lparr>br_time := t\<rparr>"
    using assms by (rule validate_batch_run)
  have "length results = length (map fst results)" by simp
  then show "br_valid_records res + br_error_records res = int (length (looked_at (va_config va) (length (rb_records batch))))"
    and "br_total res = int (length (rb_records batch))"
    using summarize_counts unfolding res batch_records_indices [OF run] by (simp_all add: looked_at_def)
qed

lemma validate_batch_valid:
  assumes "validate_batch rt pl ord ordm ords (new_default_validator c) batch (Some s) (dd, w) = (Some res, dd', w')"
    and "rb_records batch \<noteq> []"
  shows "br_valid res \<longleftrightarrow> (\<forall>i \<in> set (looked_at c (length (rb_records batch))). \<forall>f \<in> set (slice_of (sch_fields s)).
           field_ok pl c (sch_object s) (rb_records batch ! i) f)"
proof -
  let ?n = "length (rb_records batch)"
  obtain results start w1 w2 t where
    run: "batch_records rt pl ord (new_default_validator c) (Some s) ?n 0 (rb_records batch) w1 = (results, w2)"
    and res: "res = (summarize_batch ordm (slice_of (sch_fields s)) ?n start results)\<lparr>br_time := t\<rparr>"
    using assms by (rule validate_batch_run)
  let ?ok = "\<lambda>i. \<forall>f \<in> set (slice_of (sch_fields s)). field_ok pl c (sch_object s) (rb_records batch ! i) f"
  have ok: "vr_valid r \<longleftrightarrow> ?ok i" if "(i, r) \<in> set results" for i r
    using batch_records_results [OF run that] by (auto simp: validate_record_valid)
  have idx: "fst ` set results = set (looked_at c ?n)"
    using arg_cong [OF batch_records_indices [OF run], of set]
    by (simp add: looked_at_def new_default_validator_def)
  have "br_valid res \<longleftrightarrow> (\<forall>(i, r) \<in> set results. vr_valid r)" by (simp add: res summarize_counts)
  also have "\<dots> \<longleftrightarrow> (\<forall>i \<in> fst ` set results. ?ok i)" using ok by fastforce
  finally show ?thesis unfolding idx .
qed

end
