(* ===== verification/SyncState.thy ===== *)
theory SyncState
  imports Schema GoTime StoreApi Layout
begin

text \<open>
  internal/sync/state.go: the state of a source, its JSON and its store. Proved: a state whose times
  can be written survives its JSON; loading after saving gives the state back; loading never fails.
\<close>

section \<open>The types\<close>

datatype violation_type =
  Staleness | MissingObject | SchemaConflict | WatermarkDrift | TransactionBoundary

datatype severity = SeverityLow | SeverityMedium | SeverityHigh | SeverityCritical

text \<open>Both are strings in Go and any text can be read back, so a violation holds the text.\<close>

fun violation_type_text :: "violation_type \<Rightarrow> string" where
  "violation_type_text Staleness = ''staleness''"
| "violation_type_text MissingObject = ''missing_object''"
| "violation_type_text SchemaConflict = ''schema_conflict''"
| "violation_type_text WatermarkDrift = ''watermark_drift''"
| "violation_type_text TransactionBoundary = ''transaction_boundary''"

fun severity_text :: "severity \<Rightarrow> string" where
  "severity_text SeverityLow = ''low''"
| "severity_text SeverityMedium = ''medium''"
| "severity_text SeverityHigh = ''high''"
| "severity_text SeverityCritical = ''critical''"

record violation =
  vi_type :: string
  vi_objects :: "string list option"
  vi_description :: string
  vi_severity :: string
  vi_action :: string
  vi_detected :: instant

record object_state =
  os_last_sync :: instant
  os_watermark_field :: string
  os_watermark :: instant
  os_schema_hash :: string
  os_schema_version :: int
  os_previous_schema :: "schema option"
  os_delta_version :: int
  os_total_records :: int
  os_last_sync_records :: int
  os_sync_type :: string

record sync_state =
  ss_source :: string
  ss_objects :: "(string, object_state) gomap option"
  ss_last_run :: instant
  ss_run_count :: int
  ss_last_check :: instant
  ss_violations :: "violation list option"

definition zero_violation :: violation where
  "zero_violation = \<lparr>vi_type = [], vi_objects = None, vi_description = [], vi_severity = [], vi_action = [],
                     vi_detected = zero_time\<rparr>"

definition zero_object_state :: object_state where
  "zero_object_state = \<lparr>os_last_sync = zero_time, os_watermark_field = [], os_watermark = zero_time,
     os_schema_hash = [], os_schema_version = 0, os_previous_schema = None, os_delta_version = 0,
     os_total_records = 0, os_last_sync_records = 0, os_sync_type = []\<rparr>"

definition zero_sync_state :: sync_state where
  "zero_sync_state = \<lparr>ss_source = [], ss_objects = None, ss_last_run = zero_time, ss_run_count = 0,
     ss_last_check = zero_time, ss_violations = None\<rparr>"

section \<open>JSON\<close>

definition enc_violation :: "violation \<Rightarrow> json" where
  "enc_violation v = JObj [(''type'', JStr (vi_type v)), (''objects'', enc_slice JStr (vi_objects v)),
     (''description'', JStr (vi_description v)), (''severity'', JStr (vi_severity v)),
     (''suggested_action'', JStr (vi_action v)), (''detected_at'', enc_time (vi_detected v))]"

definition into_violation :: "violation into" where
  "into_violation = into_struct
     [(''type'', fld vi_type vi_type_update into_string),
      (''objects'', fld vi_objects vi_objects_update (into_slice [] into_string)),
      (''description'', fld vi_description vi_description_update into_string),
      (''severity'', fld vi_severity vi_severity_update into_string),
      (''suggested_action'', fld vi_action vi_action_update into_string),
      (''detected_at'', fld vi_detected vi_detected_update into_time)]"

definition enc_object_state :: "object_state \<Rightarrow> json" where
  "enc_object_state s = JObj (
     [(''lastSyncTime'', enc_time (os_last_sync s)), (''watermarkField'', JStr (os_watermark_field s)),
      (''watermarkValue'', enc_time (os_watermark s)), (''schemaHash'', JStr (os_schema_hash s)),
      (''schemaVersion'', enc_int (os_schema_version s))]
     @ opt_member (os_previous_schema s \<noteq> None) ''previousSchema'' (enc_ptr enc_schema (os_previous_schema s))
     @ [(''deltaVersion'', enc_int (os_delta_version s)), (''totalRecords'', enc_int (os_total_records s)),
      (''lastSyncRecords'', enc_int (os_last_sync_records s)), (''syncType'', JStr (os_sync_type s))])"

definition into_object_state :: "object_state into" where
  "into_object_state = into_struct
     [(''lastSyncTime'', fld os_last_sync os_last_sync_update into_time),
      (''watermarkField'', fld os_watermark_field os_watermark_field_update into_string),
      (''watermarkValue'', fld os_watermark os_watermark_update into_time),
      (''schemaHash'', fld os_schema_hash os_schema_hash_update into_string),
      (''schemaVersion'', fld os_schema_version os_schema_version_update into_int64),
      (''previousSchema'', fld os_previous_schema os_previous_schema_update (into_ptr zero_schema into_schema)),
      (''deltaVersion'', fld os_delta_version os_delta_version_update into_int64),
      (''totalRecords'', fld os_total_records os_total_records_update into_int64),
      (''lastSyncRecords'', fld os_last_sync_records os_last_sync_records_update into_int64),
      (''syncType'', fld os_sync_type os_sync_type_update into_string)]"

definition enc_sync_state :: "sync_state \<Rightarrow> json" where
  "enc_sync_state s = JObj [(''source'', JStr (ss_source s)), (''objects'', enc_map enc_object_state (ss_objects s)),
     (''lastRunAt'', enc_time (ss_last_run s)), (''runCount'', enc_int (ss_run_count s)),
     (''lastConsistencyCheck'', enc_time (ss_last_check s)),
     (''consistencyViolations'', enc_slice enc_violation (ss_violations s))]"

definition into_sync_state :: "sync_state into" where
  "into_sync_state = into_struct
     [(''source'', fld ss_source ss_source_update into_string),
      (''objects'', fld ss_objects ss_objects_update (into_map zero_object_state into_object_state)),
      (''lastRunAt'', fld ss_last_run ss_last_run_update into_time),
      (''runCount'', fld ss_run_count ss_run_count_update into_int64),
      (''lastConsistencyCheck'', fld ss_last_check ss_last_check_update into_time),
      (''consistencyViolations'', fld ss_violations ss_violations_update (into_slice zero_violation into_violation))]"

text \<open>A time outside the years 0 to 9999 makes \<open>json.Marshal\<close> fail.\<close>

definition object_times_ok :: "object_state \<Rightarrow> bool" where
  "object_times_ok s \<longleftrightarrow> time_ok (os_last_sync s) \<and> time_ok (os_watermark s)"

definition times_ok :: "sync_state \<Rightarrow> bool" where
  "times_ok s \<longleftrightarrow> time_ok (ss_last_run s) \<and> time_ok (ss_last_check s)
     \<and> (\<forall>(n, os) \<in> set (slice_of (ss_objects s)). object_times_ok os)
     \<and> (\<forall>v \<in> set (slice_of (ss_violations s)). time_ok (vi_detected v))"

text \<open>\<open>PutJSON\<close> of a value that marshals when \<open>ok\<close>.\<close>

definition put_value :: "'w store_ops \<Rightarrow> string \<Rightarrow> bool \<Rightarrow> json \<Rightarrow> ('w, unit) io" where
  "put_value st key ok j =
     (if ok then st_put_json st key j else io_fail (Wrap (''marshal JSON for '' @ key) json_error))"

section \<open>The store\<close>

definition fresh_state :: "string \<Rightarrow> sync_state" where
  "fresh_state source = zero_sync_state\<lparr>ss_source := source, ss_objects := Some []\<rparr>"

definition load_state :: "'w store_ops \<Rightarrow> string \<Rightarrow> ('w, sync_state) io" where
  "load_state st source =
     io_try (get_json_into st (sync_state_key source) into_sync_state zero_sync_state)
       (\<lambda>r. io_ret (case r of Inl _ \<Rightarrow> fresh_state source | Inr s \<Rightarrow> s))"

definition save_state :: "'w store_ops \<Rightarrow> sync_state \<Rightarrow> ('w, unit) io" where
  "save_state st s =
     io_wrap (''save sync state for '' @ ss_source s)
       (put_value st (sync_state_key (ss_source s)) (times_ok s) (enc_sync_state s))"

definition save_schema_version :: "'w store_ops \<Rightarrow> string \<Rightarrow> string \<Rightarrow> int \<Rightarrow> schema \<Rightarrow> ('w, unit) io" where
  "save_schema_version st source object version sch =
     io_wrap (''save schema v'' @ dec version @ '' for '' @ source @ ''/'' @ object)
       (st_put_json st (schema_version_key source object version) (enc_schema sch))"

section \<open>Round trip\<close>

definition wf_violation :: "violation \<Rightarrow> bool" where
  "wf_violation v \<longleftrightarrow> valid_utf8 (vi_type v) \<and> list_all valid_utf8 (slice_of (vi_objects v))
     \<and> valid_utf8 (vi_description v) \<and> valid_utf8 (vi_severity v) \<and> valid_utf8 (vi_action v) \<and> time_ok (vi_detected v)"

definition wf_object_state :: "object_state \<Rightarrow> bool" where
  "wf_object_state s \<longleftrightarrow> object_times_ok s \<and> valid_utf8 (os_watermark_field s) \<and> valid_utf8 (os_schema_hash s)
     \<and> valid_utf8 (os_sync_type s) \<and> in_int64 (os_schema_version s) \<and> in_int64 (os_delta_version s)
     \<and> in_int64 (os_total_records s) \<and> in_int64 (os_last_sync_records s)
     \<and> (case os_previous_schema s of None \<Rightarrow> True | Some p \<Rightarrow> wf_schema p)"

definition wf_sync_state :: "sync_state \<Rightarrow> bool" where
  "wf_sync_state s \<longleftrightarrow> valid_utf8 (ss_source s) \<and> wf_map (ss_objects s) \<and> in_int64 (ss_run_count s)
     \<and> time_ok (ss_last_run s) \<and> time_ok (ss_last_check s)
     \<and> (\<forall>(n, os) \<in> set (slice_of (ss_objects s)). valid_utf8 n \<and> wf_object_state os)
     \<and> (\<forall>v \<in> set (slice_of (ss_violations s)). wf_violation v)"

lemma into_violation_enc [simp, codec]: "time_ok (vi_detected v) \<Longrightarrow> into_violation (enc_violation v) zero_violation = Some v"
  by (cases v) (simp add: into_violation_def enc_violation_def zero_violation_def into_struct_def find_field_exact fld_def codec)

lemma into_object_state_enc [simp, codec]:
  assumes "wf_object_state s"
  shows "into_object_state (enc_object_state s) zero_object_state = Some s"
proof (cases "os_previous_schema s")
  case None
  with assms show ?thesis
    by (cases s) (simp add: wf_object_state_def object_times_ok_def into_object_state_def enc_object_state_def
        zero_object_state_def into_struct_def find_field_exact fld_def codec)
next
  case (Some p)
  have "into_ptr zero_schema into_schema (enc_schema p) None = Some (Some p)"
    using assms Some by (simp add: into_ptr_def wf_object_state_def wf_schema_def)
  with assms Some show ?thesis
    by (cases s) (simp add: wf_object_state_def object_times_ok_def into_object_state_def enc_object_state_def
        zero_object_state_def into_struct_def find_field_exact fld_def codec enc_ptr_def)
qed

lemma into_sync_state_enc:
  assumes "wf_sync_state s"
  shows "into_sync_state (enc_sync_state s) zero_sync_state = Some s"
proof -
  have "into_map zero_object_state into_object_state (enc_map enc_object_state (ss_objects s)) None = Some (ss_objects s)"
    using assms by (intro into_map_enc) (auto simp: wf_sync_state_def)
  moreover have "into_slice zero_violation into_violation (enc_slice enc_violation (ss_violations s)) None = Some (ss_violations s)"
    using assms by (intro into_slice_enc) (auto simp: wf_sync_state_def wf_violation_def)
  ultimately show ?thesis using assms
    by (cases s) (simp add: wf_sync_state_def into_sync_state_def enc_sync_state_def zero_sync_state_def into_struct_def
        find_field_exact fld_def codec)
qed

lemma wf_json_violation: "wf_violation v \<Longrightarrow> wf_json (enc_violation v)"
  by (cases "vi_objects v") (simp_all add: wf_violation_def enc_violation_def valid_utf8_ascii)

lemma wf_json_object_state: "wf_object_state s \<Longrightarrow> wf_json (enc_object_state s)"
  by (cases "os_previous_schema s")
    (simp_all add: wf_object_state_def object_times_ok_def enc_object_state_def enc_ptr_def valid_utf8_ascii wf_json_schema)

lemma wf_json_sync_state:
  assumes "wf_sync_state s"
  shows "wf_json (enc_sync_state s)"
proof -
  have "wf_json (enc_map enc_object_state (ss_objects s))"
    using assms by (cases "ss_objects s") (auto simp: wf_sync_state_def enc_map_def wf_members_iff wf_json_object_state)
  moreover have "wf_json (enc_slice enc_violation (ss_violations s))"
    using assms by (cases "ss_violations s") (auto simp: wf_sync_state_def enc_slice_def wf_elems_iff wf_json_violation)
  ultimately show ?thesis
    using assms by (simp add: wf_sync_state_def enc_sync_state_def valid_utf8_ascii)
qed

lemma times_ok_wf: "wf_sync_state s \<Longrightarrow> times_ok s"
  by (auto simp: wf_sync_state_def times_ok_def wf_object_state_def wf_violation_def)

section \<open>The store keeps the state\<close>

text \<open>Loading never fails: whatever goes wrong, the caller gets an empty state.\<close>

lemma load_state_total: "\<exists>s w'. load_state st source w = (Inr s, w')"
  by (auto simp: load_state_def io_try_def split: prod.splits)

lemma save_stateE:
  assumes "save_state st s w = (Inr u, w')"
  obtains "times_ok s" and "st_put_json st (sync_state_key (ss_source s)) (enc_sync_state s) w = (Inr u, w')"
  using assms by (auto simp: save_state_def put_value_def elim!: io_wrap_InrE split: if_splits)

context s3_store
begin

lemma load_saved:
  assumes "save_state ops s w = (Inr u, w1)" and "wf_sync_state s"
    and "load_state ops (ss_source s) w1 = (r, w2)"
  shows "r = Inr s \<or> (r = Inr (fresh_state (ss_source s)) \<and> (\<exists>e. fst (st_get_json ops (sync_state_key (ss_source s)) w1) = Inl e))"
proof -
  let ?k = "sync_state_key (ss_source s)"
  obtain x w2' where g: "st_get_json ops ?k w1 = (x, w2')" by (metis surj_pair)
  show ?thesis
  proof (cases x)
    case (Inl e)
    then show ?thesis using assms(3) g by (simp add: load_state_def get_json_into_def io_try_def io_bind_def)
  next
    case (Inr j)
    obtain u' where "st_put_json ops ?k (enc_sync_state s) w = (Inr u', w1)" using assms(1) by (rule save_stateE)
    from put_get_json [OF this wf_json_sync_state [OF assms(2)]] g Inr have "j = enc_sync_state s" by blast
    then show ?thesis
      using assms(3) g Inr into_sync_state_enc [OF assms(2)]
      by (simp add: load_state_def get_json_into_def io_try_def io_bind_def)
  qed
qed

end

end
