(* ===== verification/Recovery.thy ===== *)
theory Recovery
  imports SyncState
begin

text \<open>
  internal/sync/errors.go and recovery.go: the aggregation of errors, the recovery state and its JSON,
  the sync package's own circuit breaker, the store of recovery states and \<open>ExecuteWithRetry\<close>.
\<close>

section \<open>Errors\<close>

text \<open>\<open>NewSyncError\<close> reads the clock for the context and for the timestamp; neither is in the error's text.\<close>

definition new_sync_error :: "'w runtime \<Rightarrow> sync_phase \<Rightarrow> string \<Rightarrow> go_error \<Rightarrow> bool \<Rightarrow> 'w \<Rightarrow> go_error \<times> 'w" where
  "new_sync_error rt phase object err retryable w =
     (case rt_now rt w of (t1, w1) \<Rightarrow> case rt_now rt w1 of (t2, w2) \<Rightarrow> (SyncError phase object err retryable [], w2))"

text \<open>Setting the correlation id of the first \<open>SyncError\<close> of a chain, which the chain points to.\<close>

fun with_correlation :: "string \<Rightarrow> go_error \<Rightarrow> go_error" where
  "with_correlation c (SyncError phase object err retryable _) = SyncError phase object err retryable c"
| "with_correlation c (Wrap p e) = Wrap p (with_correlation c e)"
| "with_correlation c e = e"

fun generate_suggestion :: "sync_phase \<Rightarrow> string" where
  "generate_suggestion PhaseConnect = ''Check connector credentials and API endpoint availability. Verify network connectivity.''"
| "generate_suggestion PhaseDiscover = ''Verify object permissions and API access. Check if objects exist in the source system.''"
| "generate_suggestion PhaseExtract = ''Check API rate limits and query timeouts. Consider reducing batch size or adding retry delays.''"
| "generate_suggestion PhaseTransform = ''Validate data schema and transformation rules. Check for data type mismatches.''"
| "generate_suggestion PhaseStore = ''Verify S3 bucket permissions and network connectivity. Check available disk space.''"
| "generate_suggestion PhaseCommit = ''Check Delta Lake transaction conflicts. Verify log file integrity and retry the commit.''"
| "generate_suggestion PhaseValidate = ''Review validation rules and data quality. Consider adjusting validation thresholds.''"

text \<open>The aggregator: the errors in the order they were added.\<close>

type_synonym aggregator = "go_error list"

definition agg_add :: "go_error option \<Rightarrow> aggregator \<Rightarrow> aggregator" where
  "agg_add err es = (case err of None \<Rightarrow> es | Some e \<Rightarrow> es @ [e])"

definition agg_has_errors :: "aggregator \<Rightarrow> bool" where
  "agg_has_errors es \<longleftrightarrow> 0 < length es"

definition agg_errors :: "aggregator \<Rightarrow> go_error list" where
  "agg_errors es = es"

definition agg_error :: "aggregator \<Rightarrow> go_error option" where
  "agg_error es =
     (case es of [] \<Rightarrow> None | [e] \<Rightarrow> Some e
      | _ \<Rightarrow> Some (Msg (''multiple sync errors ('' @ dec (int (length es)) @ '' total): '' @ slice_text (map err_text es))))"

section \<open>The recovery state\<close>

text \<open>
  Members typed \<open>interface{}\<close> are kept as JSON trees, numbers by their text. \<open>rv_phase\<close> is a string: any
  text can be read back.
\<close>

record storage_metrics =
  sm_connected :: bool
  sm_disk_space :: int
  sm_pending :: int
  sm_last_write :: "instant option"

record error_context =
  ec_connector_state :: "(string, json) gomap option"
  ec_storage :: storage_metrics
  ec_memory :: int
  ec_goroutines :: int
  ec_timestamp :: instant
  ec_source :: string

record recovery_state =
  rv_source :: string
  rv_object :: string
  rv_phase :: string
  rv_last_batch :: string
  rv_watermark :: "json option"
  rv_context :: error_context
  rv_attempts :: int
  rv_last_attempt :: instant
  rv_next_retry :: instant
  rv_metadata :: "(string, json) gomap option"

definition zero_storage_metrics :: storage_metrics where
  "zero_storage_metrics = \<lparr>sm_connected = False, sm_disk_space = 0, sm_pending = 0, sm_last_write = None\<rparr>"

definition zero_error_context :: error_context where
  "zero_error_context = \<lparr>ec_connector_state = None, ec_storage = zero_storage_metrics, ec_memory = 0, ec_goroutines = 0,
                         ec_timestamp = zero_time, ec_source = []\<rparr>"

definition zero_recovery_state :: recovery_state where
  "zero_recovery_state = \<lparr>rv_source = [], rv_object = [], rv_phase = [], rv_last_batch = [], rv_watermark = None,
     rv_context = zero_error_context, rv_attempts = 0, rv_last_attempt = zero_time, rv_next_retry = zero_time,
     rv_metadata = None\<rparr>"

definition enc_storage_metrics :: "storage_metrics \<Rightarrow> json" where
  "enc_storage_metrics m = JObj ([(''s3_connected'', JBool (sm_connected m)), (''disk_space_mb'', enc_int (sm_disk_space m)),
     (''pending_uploads'', enc_int (sm_pending m))]
     @ opt_member (sm_last_write m \<noteq> None) ''last_write_time'' (enc_ptr enc_time (sm_last_write m)))"

definition enc_error_context :: "error_context \<Rightarrow> json" where
  "enc_error_context c = JObj (
     opt_member (nonempty_map (ec_connector_state c)) ''connector_state'' (enc_map (\<lambda>j. j) (ec_connector_state c))
     @ [(''storage_state'', enc_storage_metrics (ec_storage c)), (''memory_usage_bytes'', enc_int (ec_memory c)),
        (''goroutine_count'', enc_int (ec_goroutines c)), (''timestamp'', enc_time (ec_timestamp c)),
        (''source'', JStr (ec_source c))])"

definition enc_recovery_state :: "recovery_state \<Rightarrow> json" where
  "enc_recovery_state s = JObj (
     [(''source'', JStr (rv_source s)), (''object'', JStr (rv_object s)), (''phase'', JStr (rv_phase s))]
     @ opt_member (rv_last_batch s \<noteq> []) ''last_batch_id'' (JStr (rv_last_batch s))
     @ opt_member (rv_watermark s \<noteq> None) ''watermark_value'' (enc_ptr (\<lambda>j. j) (rv_watermark s))
     @ [(''error_context'', enc_error_context (rv_context s)), (''attempts'', enc_int (rv_attempts s)),
        (''last_attempt'', enc_time (rv_last_attempt s)), (''next_retry'', enc_time (rv_next_retry s))]
     @ opt_member (nonempty_map (rv_metadata s)) ''metadata'' (enc_map (\<lambda>j. j) (rv_metadata s)))"

definition into_any :: "json option into" where
  "into_any j x = (if j = JNull then Some None else Some (Some j))"

definition into_any_map :: "(string, json) gomap option into" where
  "into_any_map = into_map JNull (\<lambda>j x. Some j)"

definition into_storage_metrics :: "storage_metrics into" where
  "into_storage_metrics = into_struct
     [(''s3_connected'', fld sm_connected sm_connected_update into_bool),
      (''disk_space_mb'', fld sm_disk_space sm_disk_space_update into_int64),
      (''pending_uploads'', fld sm_pending sm_pending_update into_int64),
      (''last_write_time'', fld sm_last_write sm_last_write_update (into_ptr zero_time into_time))]"

definition into_error_context :: "error_context into" where
  "into_error_context = into_struct
     [(''connector_state'', fld ec_connector_state ec_connector_state_update into_any_map),
      (''storage_state'', fld ec_storage ec_storage_update into_storage_metrics),
      (''memory_usage_bytes'', fld ec_memory ec_memory_update into_int64),
      (''goroutine_count'', fld ec_goroutines ec_goroutines_update into_int64),
      (''timestamp'', fld ec_timestamp ec_timestamp_update into_time),
      (''source'', fld ec_source ec_source_update into_string)]"

definition into_recovery_state :: "recovery_state into" where
  "into_recovery_state = into_struct
     [(''source'', fld rv_source rv_source_update into_string),
      (''object'', fld rv_object rv_object_update into_string),
      (''phase'', fld rv_phase rv_phase_update into_string),
      (''last_batch_id'', fld rv_last_batch rv_last_batch_update into_string),
      (''watermark_value'', fld rv_watermark rv_watermark_update into_any),
      (''error_context'', fld rv_context rv_context_update into_error_context),
      (''attempts'', fld rv_attempts rv_attempts_update into_int64),
      (''last_attempt'', fld rv_last_attempt rv_last_attempt_update into_time),
      (''next_retry'', fld rv_next_retry rv_next_retry_update into_time),
      (''metadata'', fld rv_metadata rv_metadata_update into_any_map)]"

definition recovery_times_ok :: "recovery_state \<Rightarrow> bool" where
  "recovery_times_ok s \<longleftrightarrow> time_ok (rv_last_attempt s) \<and> time_ok (rv_next_retry s) \<and> time_ok (ec_timestamp (rv_context s))
     \<and> (case sm_last_write (ec_storage (rv_context s)) of None \<Rightarrow> True | Some t \<Rightarrow> time_ok t)"

text \<open>\<open>CanRetry\<close> reads the clock only when attempts are left.\<close>

definition can_retry :: "'w runtime \<Rightarrow> int \<Rightarrow> recovery_state \<Rightarrow> 'w \<Rightarrow> bool \<times> 'w" where
  "can_retry rt max_attempts s w =
     (if rv_attempts s < max_attempts
      then (case rt_now rt w of (now, w') \<Rightarrow> (rv_next_retry s < now, w'))
      else (False, w))"

text \<open>The attempts stay below \<open>MaxRetries\<close>, an \<open>int\<close>, so \<open>Attempts++\<close> does not wrap.\<close>

definition retry_delay :: "int \<Rightarrow> duration \<Rightarrow> duration \<Rightarrow> duration" where
  "retry_delay attempts base_delay max_delay = (let d = wrap64 ((attempts - 1) * base_delay) in if max_delay < d then max_delay else d)"

definition increment_attempt :: "'w runtime \<Rightarrow> duration \<Rightarrow> duration \<Rightarrow> recovery_state \<Rightarrow> 'w \<Rightarrow> recovery_state \<times> 'w" where
  "increment_attempt rt base_delay max_delay s w =
     (case rt_now rt w of (now, w1) \<Rightarrow>
        let attempts = rv_attempts s + 1; delay = retry_delay attempts base_delay max_delay;
            (u, w2) = rt_rand rt w1;
            jitter = int64_of_f64 (rt_f64_oob rt)
              (f64_mul (f64_mul (f64_of_int delay) (f64_of (1 / 10))) (f64_sub (f64_mul (Fin 2) (Fin u)) (Fin 1)))
        in (s\<lparr>rv_attempts := attempts, rv_last_attempt := now, rv_next_retry := now + wrap64 (delay + jitter)\<rparr>, w2))"

section \<open>The circuit breaker of the sync package\<close>

fun sync_breaker_state_text :: "breaker_state \<Rightarrow> string" where
  "sync_breaker_state_text StateClosed = ''closed''"
| "sync_breaker_state_text StateOpen = ''open''"
| "sync_breaker_state_text StateHalfOpen = ''half_open''"

record sync_breaker =
  sb_name :: string
  sb_max_failures :: int
  sb_reset_timeout :: duration
  sb_state :: breaker_state
  sb_failures :: int
  sb_last_failure :: instant

definition new_sync_breaker :: "string \<Rightarrow> int \<Rightarrow> duration \<Rightarrow> sync_breaker" where
  "new_sync_breaker name max_failures reset_timeout =
     \<lparr>sb_name = name, sb_max_failures = max_failures, sb_reset_timeout = reset_timeout, sb_state = StateClosed,
      sb_failures = 0, sb_last_failure = zero_time\<rparr>"

text \<open>
  \<open>canExecute\<close> drops its read lock, takes the write lock and tests again: \<open>sb_try_half_open\<close> is that second
  section. Between the two another goroutine may run; the composition here is the one without.
\<close>

definition sb_reset_due :: "sync_breaker \<Rightarrow> instant \<Rightarrow> bool" where
  "sb_reset_due cb now \<longleftrightarrow> sb_reset_timeout cb < time_sub now (sb_last_failure cb)"

definition sb_try_half_open :: "instant \<Rightarrow> sync_breaker \<Rightarrow> sync_breaker" where
  "sb_try_half_open now cb = (if sb_state cb = StateOpen \<and> sb_reset_due cb now then cb\<lparr>sb_state := StateHalfOpen\<rparr> else cb)"

definition sb_can_execute :: "'w runtime \<Rightarrow> sync_breaker \<times> 'w \<Rightarrow> bool \<times> sync_breaker \<times> 'w" where
  "sb_can_execute rt = (\<lambda>(cb, w).
     case sb_state cb of
       StateClosed \<Rightarrow> (True, cb, w)
     | StateHalfOpen \<Rightarrow> (True, cb, w)
     | StateOpen \<Rightarrow>
         (case rt_now rt w of (t1, w1) \<Rightarrow>
            if sb_reset_due cb t1
            then (case rt_now rt w1 of (t2, w2) \<Rightarrow>
                    let cb' = sb_try_half_open t2 cb in (sb_state cb' = StateHalfOpen, cb', w2))
            else (False, cb, w1)))"

definition sb_record_failure :: "instant \<Rightarrow> sync_breaker \<Rightarrow> sync_breaker" where
  "sb_record_failure now cb =
     (let cb = cb\<lparr>sb_failures := wrap64 (sb_failures cb + 1), sb_last_failure := now\<rparr>
      in if sb_max_failures cb \<le> sb_failures cb then cb\<lparr>sb_state := StateOpen\<rparr> else cb)"

definition sb_record_success :: "sync_breaker \<Rightarrow> sync_breaker" where
  "sb_record_success cb =
     (let cb = cb\<lparr>sb_failures := 0\<rparr> in if sb_state cb = StateHalfOpen then cb\<lparr>sb_state := StateClosed\<rparr> else cb)"

text \<open>An operation that can also panic (\<open>None\<close>).\<close>

type_synonym ('w, 'a) pio = "'w \<Rightarrow> (go_error + 'a) option \<times> 'w"

definition sb_execute :: "'w runtime \<Rightarrow> ('w, 'a) pio \<Rightarrow> (sync_breaker \<times> 'w, 'a) pio" where
  "sb_execute rt op s =
     (case sb_can_execute rt s of (ok, cb, w) \<Rightarrow>
        if \<not> ok then (Some (Inl (Msg (''circuit breaker '' @ sb_name cb @ '' is open''))), (cb, w))
        else case op w of
               (None, w1) \<Rightarrow> (None, (cb, w1))
             | (Some (Inl e), w1) \<Rightarrow> (case rt_now rt w1 of (now, w2) \<Rightarrow> (Some (Inl e), (sb_record_failure now cb, w2)))
             | (Some (Inr a), w1) \<Rightarrow> (Some (Inr a), (sb_record_success cb, w1)))"

section \<open>The breaker, one call after another\<close>

text \<open>
  Open or half-open exactly when the failures have reached the threshold: so a failure while half-open
  opens it again. The counter is assumed not to wrap.
\<close>

definition sb_inv :: "sync_breaker \<Rightarrow> bool" where
  "sb_inv cb \<longleftrightarrow> 0 < sb_max_failures cb \<and> 0 \<le> sb_failures cb
     \<and> (sb_state cb = StateClosed \<longleftrightarrow> sb_failures cb < sb_max_failures cb)"

lemma sb_inv_new: "0 < n \<Longrightarrow> sb_inv (new_sync_breaker name n d)"
  by (simp add: sb_inv_def new_sync_breaker_def)

lemma sb_inv_half_open: "sb_inv cb \<Longrightarrow> sb_inv (sb_try_half_open now cb)"
  by (auto simp add: sb_inv_def sb_try_half_open_def)

lemma sb_inv_can_execute: "sb_inv cb \<Longrightarrow> sb_can_execute rt (cb, w) = (ok, cb', w') \<Longrightarrow> sb_inv cb'"
  by (auto simp: sb_can_execute_def Let_def sb_inv_half_open split: breaker_state.splits prod.splits if_splits)

lemma sb_can_execute_allows:
  "sb_can_execute rt (cb, w) = (ok, cb', w') \<Longrightarrow> ok \<longleftrightarrow> sb_state cb' \<noteq> StateOpen"
  by (auto simp: sb_can_execute_def Let_def sb_try_half_open_def split: breaker_state.splits prod.splits if_splits)

lemma sb_can_execute_failures:
  "sb_can_execute rt (cb, w) = (ok, cb', w') \<Longrightarrow> sb_failures cb' = sb_failures cb \<and> sb_max_failures cb' = sb_max_failures cb"
  by (auto simp: sb_can_execute_def Let_def sb_try_half_open_def split: breaker_state.splits prod.splits if_splits)

lemma sb_inv_failure:
  assumes "sb_inv cb" and "sb_failures cb < 2 ^ 63 - 1"
  shows "sb_inv (sb_record_failure now cb)"
    and "sb_state (sb_record_failure now cb) = (if sb_max_failures cb \<le> sb_failures cb + 1 then StateOpen else StateClosed)"
proof -
  have "wrap64 (sb_failures cb + 1) = sb_failures cb + 1" using assms by (simp add: sb_inv_def in_int64_def)
  then show "sb_inv (sb_record_failure now cb)"
    and "sb_state (sb_record_failure now cb) = (if sb_max_failures cb \<le> sb_failures cb + 1 then StateOpen else StateClosed)"
    using assms(1) by (auto simp: sb_record_failure_def sb_inv_def Let_def)
qed

lemma sb_inv_success:
  assumes "sb_inv cb" and "sb_state cb \<noteq> StateOpen"
  shows "sb_inv (sb_record_success cb)" and "sb_state (sb_record_success cb) = StateClosed"
  using assms by (cases "sb_state cb"; simp add: sb_record_success_def sb_inv_def Let_def)+

lemma sb_execute_inv:
  assumes "sb_inv cb" and "sb_failures cb < 2 ^ 63 - 1" and "sb_execute rt op (cb, w) = (r, cb', w')"
  shows "sb_inv cb'" and "r = Some (Inr a) \<Longrightarrow> sb_state cb' = StateClosed"
proof -
  obtain ok cb1 w1 where c: "sb_can_execute rt (cb, w) = (ok, cb1, w1)" by (metis surj_pair)
  note inv = sb_inv_can_execute [OF assms(1) c] and small = sb_can_execute_failures [OF c]
  note allows = sb_can_execute_allows [OF c]
  show "sb_inv cb'" and "r = Some (Inr a) \<Longrightarrow> sb_state cb' = StateClosed"
    using assms(2,3) c inv small allows sb_inv_failure(1) [OF inv] sb_inv_success [OF inv]
    by (auto simp: sb_execute_def split: if_splits prod.splits option.splits sum.splits)
qed

text \<open>
  With other goroutines between the two sections of a call a success can reset the failures of an open
  breaker; a failure after it went half-open then leaves it half-open.
\<close>

lemma half_open_failure_lost:
  assumes "sb_state cb = StateOpen" and "1 < sb_max_failures cb" and "sb_reset_due cb now"
  shows "sb_state (sb_record_failure later (sb_try_half_open now (sb_record_success cb))) = StateHalfOpen"
proof -
  have "sb_reset_due (sb_record_success cb) now" "sb_state (sb_record_success cb) = StateOpen" "sb_failures (sb_record_success cb) = 0"
    "sb_max_failures (sb_record_success cb) = sb_max_failures cb"
    using assms by (simp_all add: sb_record_success_def sb_reset_due_def Let_def)
  then show ?thesis using assms(2)
    by (simp add: sb_record_failure_def sb_try_half_open_def Let_def wrap64_id [of 1] in_int64_def)
qed

section \<open>Round trip\<close>

text \<open>An empty map is left out, so it comes back nil.\<close>

definition drop_empty :: "('k, 'v) gomap option \<Rightarrow> ('k, 'v) gomap option" where
  "drop_empty m = (if nonempty_map m then m else None)"

definition rv_norm :: "recovery_state \<Rightarrow> recovery_state" where
  "rv_norm s = s\<lparr>rv_context := (rv_context s)\<lparr>ec_connector_state := drop_empty (ec_connector_state (rv_context s))\<rparr>,
                 rv_metadata := drop_empty (rv_metadata s)\<rparr>"

definition wf_any_map :: "(string, json) gomap option \<Rightarrow> bool" where
  "wf_any_map m \<longleftrightarrow> wf_map m \<and> (\<forall>(k, j) \<in> set (slice_of m). valid_utf8 k \<and> wf_json j)"

definition wf_recovery_state :: "recovery_state \<Rightarrow> bool" where
  "wf_recovery_state s \<longleftrightarrow> recovery_times_ok s \<and> valid_utf8 (rv_source s) \<and> valid_utf8 (rv_object s) \<and> valid_utf8 (rv_phase s)
     \<and> valid_utf8 (rv_last_batch s) \<and> (case rv_watermark s of None \<Rightarrow> True | Some j \<Rightarrow> j \<noteq> JNull \<and> wf_json j)
     \<and> in_int64 (rv_attempts s) \<and> wf_any_map (rv_metadata s)
     \<and> wf_any_map (ec_connector_state (rv_context s)) \<and> in_int64 (ec_memory (rv_context s))
     \<and> in_int64 (ec_goroutines (rv_context s)) \<and> valid_utf8 (ec_source (rv_context s))
     \<and> in_int64 (sm_disk_space (ec_storage (rv_context s))) \<and> in_int64 (sm_pending (ec_storage (rv_context s)))"

lemma into_any_map_enc: "wf_any_map m \<Longrightarrow> into_any_map (enc_map (\<lambda>j. j) m) None = Some m"
  unfolding into_any_map_def by (rule into_map_enc) (auto simp: wf_any_map_def)

lemma wf_json_any_map: "wf_any_map m \<Longrightarrow> wf_json (enc_map (\<lambda>j. j) m)"
  by (cases m) (auto simp: wf_any_map_def enc_map_def wf_members_iff)

lemma into_storage_metrics_enc:
  assumes "in_int64 (sm_disk_space m)" "in_int64 (sm_pending m)" "\<And>t. sm_last_write m = Some t \<Longrightarrow> time_ok t"
  shows "into_storage_metrics (enc_storage_metrics m) zero_storage_metrics = Some m"
proof (cases "sm_last_write m")
  case (Some t)
  have "into_ptr zero_time into_time (enc_time t) None = Some (Some t)"
    using assms(3) [OF Some] by (simp add: into_ptr_def enc_time_def into_time_def parse_time_text time_ok_def)
  with Some assms show ?thesis
    by (cases m) (simp add: into_storage_metrics_def enc_storage_metrics_def zero_storage_metrics_def into_struct_def
        find_field_exact fld_def codec enc_ptr_def)
qed (use assms in \<open>cases m, simp add: into_storage_metrics_def enc_storage_metrics_def zero_storage_metrics_def
       into_struct_def find_field_exact fld_def codec\<close>)

lemma into_error_context_enc:
  assumes "wf_any_map (ec_connector_state c)" "in_int64 (ec_memory c)" "in_int64 (ec_goroutines c)" "time_ok (ec_timestamp c)"
    "in_int64 (sm_disk_space (ec_storage c))" "in_int64 (sm_pending (ec_storage c))"
    "\<And>t. sm_last_write (ec_storage c) = Some t \<Longrightarrow> time_ok t"
  shows "into_error_context (enc_error_context c) zero_error_context
    = Some (c\<lparr>ec_connector_state := drop_empty (ec_connector_state c)\<rparr>)"
  using assms
  by (cases c) (simp add: into_error_context_def enc_error_context_def zero_error_context_def into_struct_def
      find_field_exact fld_def codec into_any_map_enc into_storage_metrics_enc drop_empty_def)

lemma into_any_enc: "j \<noteq> JNull \<Longrightarrow> into_any j x = Some (Some j)"
  by (simp add: into_any_def)

lemma drop_empty_Some: "nonempty_map m \<Longrightarrow> drop_empty m = m" "\<not> nonempty_map m \<Longrightarrow> drop_empty m = None"
  by (simp_all add: drop_empty_def)

lemma into_recovery_state_enc:
  assumes "wf_recovery_state s"
  shows "into_recovery_state (enc_recovery_state s) zero_recovery_state = Some (rv_norm s)"
proof -
  have ctx: "into_error_context (enc_error_context (rv_context s)) zero_error_context
      = Some ((rv_context s)\<lparr>ec_connector_state := drop_empty (ec_connector_state (rv_context s))\<rparr>)"
    using assms by (intro into_error_context_enc) (auto simp: wf_recovery_state_def recovery_times_ok_def)
  have wm: "rv_watermark s = Some j \<Longrightarrow> into_any j None = Some (Some j)" for j
    using assms by (simp add: wf_recovery_state_def into_any_def)
  have md: "into_any_map (enc_map (\<lambda>j. j) (rv_metadata s)) None = Some (rv_metadata s)"
    using assms by (intro into_any_map_enc) (simp add: wf_recovery_state_def)
  show ?thesis
    using assms ctx wm md
    by (cases "rv_watermark s"; cases s)
      (simp_all add: wf_recovery_state_def recovery_times_ok_def into_recovery_state_def enc_recovery_state_def
        zero_recovery_state_def into_struct_def find_field_exact fld_def codec rv_norm_def drop_empty_Some enc_ptr_def)
qed

lemma wf_json_recovery_state:
  assumes "wf_recovery_state s"
  shows "wf_json (enc_recovery_state s)"
proof -
  have "wf_json (enc_storage_metrics (ec_storage (rv_context s)))"
    using assms by (cases "sm_last_write (ec_storage (rv_context s))")
      (simp_all add: wf_recovery_state_def recovery_times_ok_def enc_storage_metrics_def enc_ptr_def valid_utf8_ascii)
  then have "wf_json (enc_error_context (rv_context s))"
    using assms by (simp add: wf_recovery_state_def recovery_times_ok_def enc_error_context_def valid_utf8_ascii wf_json_any_map)
  with assms show ?thesis
    by (cases "rv_watermark s")
      (simp_all add: wf_recovery_state_def recovery_times_ok_def enc_recovery_state_def enc_ptr_def valid_utf8_ascii wf_json_any_map)
qed

end
