(* ===== verification/ParquetWriter.thy ===== *)
theory ParquetWriter
  imports Validator Recovery
begin

text \<open>
  internal/storage/parquet.go: a batch of records as a file in the store. The Parquet library and the
  generator of unique names are parameters. Proved: no records, no file; a written file lies under the
  object's data prefix, outside its log, and its size and rows are those of what was uploaded.
\<close>

text \<open>
  \<open>pq_write\<close> is the writer's \<open>Write\<close> of all rows with the schema, \<open>pq_close\<close> its \<open>Close\<close>, with the bytes of
  the buffer when it succeeds.
\<close>

type_synonym parquet_schema = "string \<times> (string, parquet_node) gomap"

record parquet_lib =
  pq_write :: "parquet_schema \<Rightarrow> go_record list \<Rightarrow> go_error option"
  pq_close :: "parquet_schema \<Rightarrow> go_record list \<Rightarrow> go_error + string"

record written_file =
  wf_key :: string
  wf_filename :: string
  wf_size :: int
  wf_rows :: int

definition parquet_filename :: "string \<Rightarrow> string" where
  "parquet_filename uuid = ''part-00000-'' @ uuid @ ''.snappy.parquet''"

text \<open>A nil schema is dereferenced: the call panics (\<open>None\<close>).\<close>

definition write_records ::
  "'w store_ops \<Rightarrow> ('w \<Rightarrow> string \<times> 'w) \<Rightarrow> parquet_lib \<Rightarrow> string \<Rightarrow> string \<Rightarrow> schema option \<Rightarrow> go_record list
   \<Rightarrow> ('w, written_file option) pio" where
  "write_records st uuid pq source object sch records w =
     (if records = [] then (Some (Inr None), w)
      else case sch of
             None \<Rightarrow> (None, w)
           | Some s \<Rightarrow>
               (case uuid w of (u, w1) \<Rightarrow>
                  let ps = to_parquet_schema s; filename = parquet_filename u; key = parquet_file source object filename
                  in case pq_write pq ps records of
                       Some e \<Rightarrow> (Some (Inl (Wrap ''write parquet rows'' e)), w1)
                     | None \<Rightarrow>
                         (case pq_close pq ps records of
                            Inl e \<Rightarrow> (Some (Inl (Wrap ''close parquet writer'' e)), w1)
                          | Inr data \<Rightarrow>
                              (case st_upload st key data ''application/octet-stream'' w1 of
                                 (Inl e, w2) \<Rightarrow> (Some (Inl (Wrap ''upload parquet file'' e)), w2)
                               | (Inr _, w2) \<Rightarrow>
                                   (Some (Inr (Some \<lparr>wf_key = key, wf_filename = filename, wf_size = int (length data),
                                                     wf_rows = int (length records)\<rparr>)), w2)))))"

lemma write_records_empty: "write_records st uuid pq source object sch [] w = (Some (Inr None), w)"
  by (simp add: write_records_def)

lemma write_recordsE:
  assumes "write_records st uuid pq source object sch records w = (Some (Inr (Some f)), w')"
  obtains s u data w1 x where "sch = Some s" and "uuid w = (u, w1)" and "pq_close pq (to_parquet_schema s) records = Inr data"
    and "st_upload st (wf_key f) data ''application/octet-stream'' w1 = (Inr x, w')"
    and "wf_filename f = parquet_filename u" and "wf_key f = parquet_file source object (wf_filename f)"
    and "wf_size f = int (length data)" and "wf_rows f = int (length records)"
  using assms by (auto simp: write_records_def Let_def split: if_splits option.splits prod.splits sum.splits)

text \<open>A data file is never a version of the log.\<close>

lemma parquet_file_not_in_log:
  assumes "CHR ''/'' \<notin> set filename"
  shows "\<not> has_prefix (parquet_file source object filename) (delta_log_prefix source object)"
proof
  assume "has_prefix (parquet_file source object filename) (delta_log_prefix source object)"
  then obtain t where "filename = ''_delta_log/'' @ t"
    by (auto simp: has_prefix_iff parquet_file_def delta_log_prefix_def)
  with assms show False by simp
qed

context s3_store
begin

lemma write_records_stored:
  assumes "write_records ops uuid pq source object sch records w = (Some (Inr (Some f)), w')"
    and "\<And>w u w'. uuid w = (u, w') \<Longrightarrow> view w' = view w"
  shows "\<exists>data. view w' = (view w)(wf_key f \<mapsto> data) \<and> wf_size f = int (length data) \<and> wf_rows f = int (length records)"
proof -
  obtain s u data w1 x where u: "uuid w = (u, w1)"
    and up: "st_upload ops (wf_key f) data ''application/octet-stream'' w1 = (Inr x, w')"
    and "wf_size f = int (length data)" and "wf_rows f = int (length records)"
    using assms(1) by (rule write_recordsE)
  with upload_ok [OF up] assms(2) [OF u] show ?thesis by auto
qed

end

end
