(* ===== verification/Planner.thy ===== *)
theory Planner
  imports SyncState
begin

text \<open>
  internal/sync/planner.go and the metadata of internal/connector/connector.go: how each object is
  synced. Proved: the plan is skip exactly for an object outside a non-empty allow list, incremental
  exactly when there is a state and no field of the previous schema was lost or retyped (or the hash
  is unchanged), full otherwise; the version of the schema grows by one exactly when its hash changed;
  the order in which the comparison walks its maps does not matter.
\<close>

datatype sync_mode = SyncModeFull | SyncModeIncremental | SyncModeSkip

fun sync_mode_text :: "sync_mode \<Rightarrow> string" where
  "sync_mode_text SyncModeFull = ''full''"
| "sync_mode_text SyncModeIncremental = ''incremental''"
| "sync_mode_text SyncModeSkip = ''skip''"

record object_metadata =
  om_name :: string
  om_label :: string
  om_queryable :: bool
  om_retrievable :: bool
  om_replicateable :: bool
  om_record_count :: int
  om_watermark_field :: string
  om_schema :: "schema option"

record object_plan =
  op_object :: string
  op_mode :: sync_mode
  op_reason :: string
  op_watermark_field :: string
  op_schema :: "schema option"
  op_schema_changed :: bool
  op_new_version :: int

fun contains_name :: "string list \<Rightarrow> string \<Rightarrow> bool" where
  "contains_name [] item = False"
| "contains_name (s # ss) item = (if s = item then True else contains_name ss item)"

text \<open>The plan that ends in an incremental sync; a new version of 0 is the state's version.\<close>

definition incremental_plan :: "object_plan \<Rightarrow> object_state \<Rightarrow> object_plan" where
  "incremental_plan plan st =
     plan\<lparr>op_mode := SyncModeIncremental, op_reason := ''incremental from watermark'',
          op_new_version := (if op_new_version plan = 0 then os_schema_version st else op_new_version plan)\<rparr>"

definition plan_with_state ::
  "field_order \<Rightarrow> field_order \<Rightarrow> field_order \<Rightarrow> object_plan \<Rightarrow> object_metadata \<Rightarrow> object_state \<Rightarrow> object_plan" where
  "plan_with_state ord1 ord2 ord3 plan meta st =
     (case om_schema meta of
        None \<Rightarrow> incremental_plan plan st
      | Some sch \<Rightarrow>
          if os_schema_hash st = [] \<or> compute_hash sch = os_schema_hash st then incremental_plan plan st
          else
            let plan = plan\<lparr>op_schema_changed := True, op_new_version := wrap64 (os_schema_version st + 1)\<rparr>
            in case os_previous_schema st of
                 None \<Rightarrow> plan\<lparr>op_mode := SyncModeFull, op_reason := ''schema changed (no prior schema for diffing)''\<rparr>
               | Some prev \<Rightarrow>
                   if is_breaking (compare_schemas ord1 ord2 ord3 prev sch)
                   then plan\<lparr>op_mode := SyncModeFull, op_reason := ''breaking schema change detected''\<rparr>
                   else incremental_plan plan st)"

definition zero_plan :: object_plan where
  "zero_plan = \<lparr>op_object = [], op_mode = SyncModeFull, op_reason = [], op_watermark_field = [], op_schema = None,
                op_schema_changed = False, op_new_version = 0\<rparr>"

definition plan_object ::
  "field_order \<Rightarrow> field_order \<Rightarrow> field_order \<Rightarrow> object_metadata \<Rightarrow> object_state option \<Rightarrow> string list \<Rightarrow> object_plan" where
  "plan_object ord1 ord2 ord3 meta state allowed =
     (if allowed \<noteq> [] \<and> \<not> contains_name allowed (om_name meta)
      then zero_plan\<lparr>op_object := om_name meta, op_mode := SyncModeSkip, op_reason := ''not in allowed objects list''\<rparr>
      else
        let plan = zero_plan\<lparr>op_object := om_name meta, op_watermark_field := om_watermark_field meta, op_schema := om_schema meta\<rparr>
        in case state of
             None \<Rightarrow> plan\<lparr>op_mode := SyncModeFull, op_reason := ''no prior sync state'', op_new_version := 1\<rparr>
           | Some st \<Rightarrow> plan_with_state ord1 ord2 ord3 plan meta st)"

section \<open>What the plan decides\<close>

lemma contains_name_iff [simp]: "contains_name xs x \<longleftrightarrow> x \<in> set xs"
  by (induction xs) auto

text \<open>
  A state is compatible with the metadata when there is nothing to compare, the hash is the same, or
  every field of the previous schema is still there with its type.
\<close>

definition compatible :: "object_state \<Rightarrow> object_metadata \<Rightarrow> bool" where
  "compatible st meta \<longleftrightarrow>
     (case om_schema meta of
        None \<Rightarrow> True
      | Some sch \<Rightarrow> os_schema_hash st = [] \<or> compute_hash sch = os_schema_hash st
          \<or> (case os_previous_schema st of None \<Rightarrow> False | Some prev \<Rightarrow> \<not> fields_lost prev sch))"

definition hash_changed :: "object_state \<Rightarrow> object_metadata \<Rightarrow> bool" where
  "hash_changed st meta \<longleftrightarrow>
     (case om_schema meta of
        None \<Rightarrow> False
      | Some sch \<Rightarrow> os_schema_hash st \<noteq> [] \<and> compute_hash sch \<noteq> os_schema_hash st)"

lemma is_breaking_iff:
  assumes "iteration_order ord1" "iteration_order ord2" "iteration_order ord3"
  shows "is_breaking (compare_schemas ord1 ord2 ord3 old new) \<longleftrightarrow> fields_lost old new"
  by (simp add: is_breaking_def compare_exact [OF assms])

lemma plan_mode:
  assumes "iteration_order ord1" "iteration_order ord2" "iteration_order ord3"
  shows "op_mode (plan_object ord1 ord2 ord3 meta state allowed) =
    (if allowed \<noteq> [] \<and> om_name meta \<notin> set allowed then SyncModeSkip
     else case state of
            None \<Rightarrow> SyncModeFull
          | Some st \<Rightarrow> if compatible st meta then SyncModeIncremental else SyncModeFull)"
  by (auto simp: plan_object_def plan_with_state_def Let_def incremental_plan_def compatible_def is_breaking_iff [OF assms]
      split: option.splits)

lemma plan_version:
  assumes "iteration_order ord1" "iteration_order ord2" "iteration_order ord3"
    and "allowed = [] \<or> om_name meta \<in> set allowed" and "0 \<le> os_schema_version st" "os_schema_version st < 2 ^ 63 - 1"
  shows "op_schema_changed (plan_object ord1 ord2 ord3 meta (Some st) allowed) = hash_changed st meta"
    and "op_new_version (plan_object ord1 ord2 ord3 meta (Some st) allowed) =
      (if hash_changed st meta then os_schema_version st + 1 else os_schema_version st)"
proof -
  have "wrap64 (os_schema_version st + 1) = os_schema_version st + 1" using assms(5,6) by (simp add: in_int64_def)
  then show "op_schema_changed (plan_object ord1 ord2 ord3 meta (Some st) allowed) = hash_changed st meta"
    and "op_new_version (plan_object ord1 ord2 ord3 meta (Some st) allowed) =
      (if hash_changed st meta then os_schema_version st + 1 else os_schema_version st)"
    using assms(4-6)
    by (auto simp: plan_object_def zero_plan_def plan_with_state_def Let_def incremental_plan_def hash_changed_def
        split: option.splits)
qed

lemma plan_object_name [simp]: "op_object (plan_object ord1 ord2 ord3 meta state allowed) = om_name meta"
  by (simp add: plan_object_def plan_with_state_def Let_def incremental_plan_def split: option.splits)

lemma plan_schema: "op_mode (plan_object ord1 ord2 ord3 meta state allowed) \<noteq> SyncModeSkip \<Longrightarrow>
  op_schema (plan_object ord1 ord2 ord3 meta state allowed) = om_schema meta"
  by (auto simp: plan_object_def plan_with_state_def Let_def incremental_plan_def split: option.splits if_splits)

end
