(* ===== verification/GoDuration.thy ===== *)
theory GoDuration
  imports GoFmt
begin

text \<open>
  \<open>time.ParseDuration\<close>: a sign, then numbers with a unit each; a fraction goes through a double. Sums
  beyond 2^63 are errors. \<open>None\<close> is an error.
\<close>

definition unit_of :: "string \<Rightarrow> int option" where
  "unit_of u =
     map_of [(''ns'', 1), (''us'', 1000), ([CHR 0xC2, CHR 0xB5, CHR ''s''], 1000), ([CHR 0xCE, CHR 0xBC, CHR ''s''], 1000),
             (''ms'', millisecond), (''s'', second), (''m'', minute), (''h'', hour)] u"

text \<open>The digits of \<open>leadingInt\<close>, with its two overflow tests.\<close>

fun leading_int :: "string \<Rightarrow> int \<Rightarrow> (int \<times> string) option" where
  "leading_int [] x = Some (x, [])"
| "leading_int (c # cs) x =
     (if \<not> is_digit c then Some (x, c # cs)
      else if (2 ^ 63) div 10 < x then None
      else let y = x * 10 + int (digit_val c) in if 2 ^ 63 < y then None else leading_int cs y)"

text \<open>\<open>leadingFraction\<close>: digits that would overflow are dropped.\<close>

fun leading_fraction :: "string \<Rightarrow> int \<Rightarrow> int \<Rightarrow> bool \<Rightarrow> int \<times> int \<times> string" where
  "leading_fraction [] x scale overflow = (x, scale, [])"
| "leading_fraction (c # cs) x scale overflow =
     (if \<not> is_digit c then (x, scale, c # cs)
      else if overflow then leading_fraction cs x scale True
      else if (2 ^ 63 - 1) div 10 < x then leading_fraction cs x scale True
      else let y = x * 10 + int (digit_val c)
           in if 2 ^ 63 < y then leading_fraction cs x scale True else leading_fraction cs y (scale * 10) False)"

definition number_char :: "char \<Rightarrow> bool" where
  "number_char c \<longleftrightarrow> c = CHR ''.'' \<or> is_digit c"

text \<open>One number with its unit, in nanoseconds, and the rest of the text.\<close>

definition duration_item :: "string \<Rightarrow> (int \<times> string) option" where
  "duration_item s =
     (if \<not> number_char (hd s) then None
      else Option.bind (leading_int s 0) (\<lambda>(v, s1).
        let pre = (length s1 \<noteq> length s);
            (f, scale, s2, post) =
              (if s1 \<noteq> [] \<and> hd s1 = CHR ''.''
               then (case leading_fraction (tl s1) 0 1 False of (f, scale, r) \<Rightarrow> (f, scale, r, length r \<noteq> length (tl s1)))
               else (0, 1, s1, False));
            u = takeWhile (\<lambda>c. \<not> number_char c) s2;
            rest = dropWhile (\<lambda>c. \<not> number_char c) s2
        in if \<not> pre \<and> \<not> post then None
           else if u = [] then None
           else Option.bind (unit_of u) (\<lambda>unit.
                  if (2 ^ 63) div unit < v then None
                  else let v' = v * unit;
                           w = (if 0 < f then v' + int64_of_f64 0 (f64_mul (f64_of_int f) (f64_div (f64_of_int unit) (f64_of_int scale)))
                                else v')
                       in if 2 ^ 63 < w then None else Some (w, rest))))"

lemma leading_int_length: "leading_int s x = Some (v, r) \<Longrightarrow> length r \<le> length s"
  by (induction s x rule: leading_int.induct) (auto simp: Let_def split: if_splits)

lemma leading_fraction_length: "leading_fraction s x k b = (v, k', r) \<Longrightarrow> length r \<le> length s"
  by (induction s x k b rule: leading_fraction.induct) (auto simp: Let_def split: if_splits)

lemma duration_item_length: "s \<noteq> [] \<Longrightarrow> duration_item s = Some (v, r) \<Longrightarrow> length r < length s"
proof -
  assume s: "s \<noteq> []" and it: "duration_item s = Some (v, r)"
  have dw: "length (dropWhile P (xs :: string)) < length xs" if "takeWhile P xs \<noteq> []" for P xs
    using that by (metis add_diff_cancel_left' length_append length_dropWhile_le less_add_same_cancel2 length_greater_0_conv
        nat_less_le takeWhile_dropWhile_id zero_less_diff)
  show "length r < length s"
    using it s
    by (auto simp: duration_item_def Let_def bind_eq_Some_conv split: if_splits prod.splits
        dest!: leading_int_length leading_fraction_length dest: dw)
qed

function parse_items :: "string \<Rightarrow> int \<Rightarrow> int option" where
  "parse_items s d =
     (if s = [] then Some d
      else case duration_item s of
             None \<Rightarrow> None
           | Some (v, rest) \<Rightarrow> if 2 ^ 63 < d + v then None else parse_items rest (d + v))"
  by pat_completeness auto
termination by (relation "measure (\<lambda>(s, d). length s)") (auto dest: duration_item_length)

declare parse_items.simps [simp del]

definition parse_duration :: "string \<Rightarrow> duration option" where
  "parse_duration text =
     (let signed = (text \<noteq> [] \<and> (hd text = CHR ''-'' \<or> hd text = CHR ''+''));
          neg = (signed \<and> hd text = CHR ''-'');
          s = (if signed then tl text else text)
      in if s = ''0'' then Some 0
         else if s = [] then None
         else Option.bind (parse_items s 0) (\<lambda>d.
                if neg then Some (- d) else if 2 ^ 63 - 1 < d then None else Some d))"

text \<open>Every duration read fits an \<open>int64\<close>.\<close>

lemma leading_int_range: "leading_int s x = Some (v, r) \<Longrightarrow> 0 \<le> x \<Longrightarrow> 0 \<le> v"
  by (induction s x rule: leading_int.induct) (auto simp: Let_def split: if_splits)

lemma leading_fraction_range: "leading_fraction s x k b = (v, k', r) \<Longrightarrow> 0 \<le> x \<Longrightarrow> 0 < k \<Longrightarrow> 0 \<le> v \<and> 0 < k'"
  by (induction s x k b rule: leading_fraction.induct) (auto simp: Let_def split: if_splits)

end
