(* ===== verification/Consistency.thy ===== *)
theory Consistency
  imports Planner GoDuration Config
begin

text \<open>
  internal/sync/consistency.go: the checks across the objects of a run. Proved: which violations a report
  has, whatever the order of the maps: exactly the objects older than their window, the parents with a
  dependent outside the run, and the pairs whose watermarks or sync times are too far apart; the overall
  status is healthy exactly without violations and unhealthy exactly with a critical one.
\<close>

section \<open>Reports\<close>

datatype consistency_status = ConsistencyHealthy | ConsistencyDegraded | ConsistencyUnhealthy

fun consistency_status_text :: "consistency_status \<Rightarrow> string" where
  "consistency_status_text ConsistencyHealthy = ''healthy''"
| "consistency_status_text ConsistencyDegraded = ''degraded''"
| "consistency_status_text ConsistencyUnhealthy = ''unhealthy''"

record object_result =
  or_object :: string
  or_success :: bool
  or_error :: string
  or_record_count :: int
  or_last_sync :: instant
  or_watermark :: instant
  or_duration :: duration

record consistency_report =
  cr_sync_id :: string
  cr_timestamp :: instant
  cr_source :: string
  cr_results :: "(string, object_result) gomap"
  cr_violations :: "violation list"
  cr_status :: consistency_status

definition has_violations :: "consistency_report \<Rightarrow> bool" where
  "has_violations r \<longleftrightarrow> 0 < length (cr_violations r)"

definition has_critical_violations :: "consistency_report \<Rightarrow> bool" where
  "has_critical_violations r \<longleftrightarrow> list_ex (\<lambda>v. vi_severity v = severity_text SeverityCritical) (cr_violations r)"

record consistency_tracker =
  ct_source :: string
  ct_relationships :: "(string, string list) gomap"
  ct_windows :: "(string, duration) gomap"
  ct_max_staleness :: duration

definition new_consistency_tracker :: "string \<Rightarrow> consistency_section \<Rightarrow> consistency_tracker" where
  "new_consistency_tracker source c =
     \<lparr>ct_source = source, ct_relationships = slice_of (cs_relationships c),
      ct_windows = List.map_filter (\<lambda>(ob, w). map_option (Pair ob) (parse_duration w)) (slice_of (cs_windows c)),
      ct_max_staleness =
        (if cs_max_staleness c = [] then 24 * hour
         else case parse_duration (cs_max_staleness c) of Some d \<Rightarrow> d | None \<Rightarrow> 24 * hour)\<rparr>"

section \<open>The checks\<close>

text \<open>Each violation reads the clock when it is made.\<close>

fun collect :: "'w runtime \<Rightarrow> ('a \<Rightarrow> (instant \<Rightarrow> violation) option) \<Rightarrow> 'a list \<Rightarrow> 'w \<Rightarrow> violation list \<times> 'w" where
  "collect rt f [] w = ([], w)"
| "collect rt f (x # xs) w =
     (case f x of
        None \<Rightarrow> collect rt f xs w
      | Some mk \<Rightarrow> (case rt_now rt w of (now, w1) \<Rightarrow> case collect rt f xs w1 of (vs, w2) \<Rightarrow> (mk now # vs, w2)))"

definition truncate_second :: "duration \<Rightarrow> duration" where
  "truncate_second d = d - remi d second"

definition staleness_severity :: "duration \<Rightarrow> duration \<Rightarrow> severity" where
  "staleness_severity age max_age =
     (let r = f64_div (f64_of_int age) (f64_of_int max_age)
      in if f64_less (Fin 4) r then SeverityCritical else if f64_less (Fin 2) r then SeverityHigh
         else if f64_less (Fin (3 / 2)) r then SeverityMedium else SeverityLow)"

definition drift_severity :: "duration \<Rightarrow> severity" where
  "drift_severity drift =
     (if 24 * hour < drift then SeverityCritical else if 12 * hour < drift then SeverityHigh
      else if 6 * hour < drift then SeverityMedium else SeverityLow)"

definition max_age :: "consistency_tracker \<Rightarrow> string \<Rightarrow> duration" where
  "max_age ct object = (case map_of (ct_windows ct) object of Some d \<Rightarrow> d | None \<Rightarrow> ct_max_staleness ct)"

definition stale_violation :: "consistency_tracker \<Rightarrow> instant \<Rightarrow> string \<times> object_result \<Rightarrow> (instant \<Rightarrow> violation) option" where
  "stale_violation ct now = (\<lambda>(object, result).
     let age = time_sub now (or_last_sync result); limit = max_age ct object
     in if limit < age
        then Some (\<lambda>detected. \<lparr>vi_type = violation_type_text Staleness, vi_objects = Some [object],
               vi_description = ''Object '' @ object @ '' is stale (last sync: '' @ duration_text (truncate_second age)
                 @ '' ago, max allowed: '' @ duration_text limit @ '')'',
               vi_severity = severity_text (staleness_severity age limit),
               vi_action = ''Trigger immediate sync for '' @ object, vi_detected = detected\<rparr>)
        else None)"

definition missing_dependents :: "(string, object_result) gomap \<Rightarrow> string list \<Rightarrow> string list" where
  "missing_dependents results deps = filter (\<lambda>d. map_of results d = None) deps"

definition missing_violation :: "(string, object_result) gomap \<Rightarrow> string \<times> string list \<Rightarrow> (instant \<Rightarrow> violation) option" where
  "missing_violation results = (\<lambda>(parent, deps).
     let missing = missing_dependents results deps
     in if map_of results parent = None \<or> missing = [] then None
        else Some (\<lambda>detected. \<lparr>vi_type = violation_type_text MissingObject, vi_objects = Some (parent # missing),
               vi_description = ''Parent object '' @ parent @ '' was synced but dependent objects are missing: '' @ join '', '' missing,
               vi_severity = severity_text SeverityHigh,
               vi_action = ''Sync missing dependent objects: '' @ join '', '' missing, vi_detected = detected\<rparr>))"

text \<open>The pairs of a parent and a dependent that both are in the run, as the two nested loops visit them.\<close>

definition related_pairs ::
  "(string, object_result) gomap \<Rightarrow> (string \<times> string list) list \<Rightarrow> ((string \<times> object_result) \<times> string \<times> object_result) list" where
  "related_pairs results rels =
     concat (map (\<lambda>(parent, deps).
       case map_of results parent of
         None \<Rightarrow> []
       | Some p \<Rightarrow> List.map_filter (\<lambda>d. map_option (\<lambda>r. ((parent, p), d, r)) (map_of results d)) deps) rels)"

definition drift_violation :: "(string \<times> object_result) \<times> string \<times> object_result \<Rightarrow> (instant \<Rightarrow> violation) option" where
  "drift_violation = (\<lambda>((parent, p), dep, d).
     let drift = time_sub (or_watermark p) (or_watermark d)
     in if hour < drift
        then Some (\<lambda>detected. \<lparr>vi_type = violation_type_text WatermarkDrift, vi_objects = Some [parent, dep],
               vi_description = ''Watermark drift between '' @ parent @ '' and '' @ dep @ '': '' @ duration_text (truncate_second drift),
               vi_severity = severity_text (drift_severity drift),
               vi_action = ''Sync '' @ dep @ '' to catch up with '' @ parent, vi_detected = detected\<rparr>)
        else None)"

definition sync_gap :: "object_result \<Rightarrow> object_result \<Rightarrow> duration" where
  "sync_gap p d = (let g = time_sub (or_last_sync p) (or_last_sync d) in if g < 0 then wrap64 (- g) else g)"

definition boundary_violation :: "(string \<times> object_result) \<times> string \<times> object_result \<Rightarrow> (instant \<Rightarrow> violation) option" where
  "boundary_violation = (\<lambda>((parent, p), dep, d).
     let gap = sync_gap p d
     in if 6 * hour < gap
        then Some (\<lambda>detected. \<lparr>vi_type = violation_type_text TransactionBoundary, vi_objects = Some [parent, dep],
               vi_description = ''Sync time gap between related objects '' @ parent @ '' and '' @ dep @ '': ''
                 @ duration_text (truncate_second gap),
               vi_severity = severity_text SeverityMedium,
               vi_action = ''Consider syncing related objects '' @ parent @ '' and '' @ dep @ '' closer together'',
               vi_detected = detected\<rparr>)
        else None)"

definition calculate_overall_status :: "violation list \<Rightarrow> consistency_status" where
  "calculate_overall_status vs =
     (if vs = [] then ConsistencyHealthy
      else if list_ex (\<lambda>v. vi_severity v = severity_text SeverityCritical) vs then ConsistencyUnhealthy
      else ConsistencyDegraded)"

text \<open>The result of a planned object; an object without a state gets the current time.\<close>

definition object_result_of :: "sync_state \<Rightarrow> string \<Rightarrow> instant \<Rightarrow> instant \<Rightarrow> object_result" where
  "object_result_of state object now1 now2 =
     (let r = \<lparr>or_object = object, or_success = True, or_error = [], or_record_count = 0, or_last_sync = now1,
               or_watermark = now2, or_duration = 0\<rparr>
      in case map_of (slice_of (ss_objects state)) object of
           None \<Rightarrow> r
         | Some st \<Rightarrow> r\<lparr>or_last_sync := os_last_sync st, or_watermark := os_watermark st, or_record_count := os_total_records st\<rparr>)"

fun object_results :: "'w runtime \<Rightarrow> sync_state \<Rightarrow> object_plan list \<Rightarrow> (string, object_result) gomap \<Rightarrow> 'w
    \<Rightarrow> (string, object_result) gomap \<times> 'w" where
  "object_results rt state [] m w = (m, w)"
| "object_results rt state (p # ps) m w =
     (case rt_now rt w of (now1, w1) \<Rightarrow> case rt_now rt w1 of (now2, w2) \<Rightarrow>
        object_results rt state ps (AList.update (op_object p) (object_result_of state (op_object p) now1 now2) m) w2)"

text \<open>
  \<open>uuid\<close> is the generator of google/uuid; \<open>ordr\<close> orders the results, \<open>ord1\<close> to \<open>ord3\<close> the relationships
  in the three checks that range over them.
\<close>

type_synonym rel_order = "(string \<times> string list) list \<Rightarrow> (string \<times> string list) list"

definition validate_sync ::
  "'w runtime \<Rightarrow> ('w \<Rightarrow> string \<times> 'w) \<Rightarrow> ((string \<times> object_result) list \<Rightarrow> (string \<times> object_result) list) \<Rightarrow> rel_order
   \<Rightarrow> rel_order \<Rightarrow> rel_order \<Rightarrow> consistency_tracker \<Rightarrow> object_plan list \<Rightarrow> sync_state \<Rightarrow> 'w \<Rightarrow> consistency_report \<times> 'w" where
  "validate_sync rt uuid ordr ord1 ord2 ord3 ct plans state w =
     (case uuid w of (sync_id, w1) \<Rightarrow> case rt_now rt w1 of (stamp, w2) \<Rightarrow>
      case object_results rt state plans [] w2 of (results, w3) \<Rightarrow>
      case rt_now rt w3 of (now, w4) \<Rightarrow>
      case collect rt (stale_violation ct now) (ordr results) w4 of (stale, w5) \<Rightarrow>
      case collect rt (missing_violation results) (ord1 (ct_relationships ct)) w5 of (missing, w6) \<Rightarrow>
      case collect rt drift_violation (related_pairs results (ord2 (ct_relationships ct))) w6 of (drifts, w7) \<Rightarrow>
      case collect rt boundary_violation (related_pairs results (ord3 (ct_relationships ct))) w7 of (gaps, w8) \<Rightarrow>
        let vs = stale @ missing @ drifts @ gaps
        in (\<lparr>cr_sync_id = sync_id, cr_timestamp = stamp, cr_source = ct_source ct, cr_results = results,
             cr_violations = vs, cr_status = calculate_overall_status vs\<rparr>, w8))"

section \<open>Storing a report\<close>

definition enc_object_result :: "object_result \<Rightarrow> json" where
  "enc_object_result r = JObj (
     [(''object_name'', JStr (or_object r)), (''success'', JBool (or_success r))]
     @ opt_member (or_error r \<noteq> []) ''error'' (JStr (or_error r))
     @ [(''record_count'', enc_int (or_record_count r)), (''last_sync_time'', enc_time (or_last_sync r)),
        (''watermark_value'', enc_time (or_watermark r)), (''sync_duration'', enc_int (or_duration r))])"

definition enc_consistency_report :: "consistency_report \<Rightarrow> json" where
  "enc_consistency_report r = JObj
     [(''sync_id'', JStr (cr_sync_id r)), (''timestamp'', enc_time (cr_timestamp r)), (''source'', JStr (cr_source r)),
      (''object_results'', enc_map enc_object_result (Some (cr_results r))),
      (''violations'', enc_slice enc_violation (Some (cr_violations r))),
      (''overall_status'', JStr (consistency_status_text (cr_status r)))]"

definition report_times_ok :: "consistency_report \<Rightarrow> bool" where
  "report_times_ok r \<longleftrightarrow> time_ok (cr_timestamp r) \<and> (\<forall>v \<in> set (cr_violations r). time_ok (vi_detected v))
     \<and> (\<forall>(n, x) \<in> set (cr_results r). time_ok (or_last_sync x) \<and> time_ok (or_watermark x))"

definition store_report :: "'w store_ops \<Rightarrow> consistency_tracker \<Rightarrow> consistency_report \<Rightarrow> ('w, unit) io" where
  "store_report st ct r =
     io_wrap ''store consistency report''
       (put_value st (''consistency/'' @ ct_source ct @ ''/reports/'' @ cr_sync_id r @ ''.json'') (report_times_ok r)
          (enc_consistency_report r))"

text \<open>\<open>GetRecentReports\<close> has no implementation yet: it returns an empty slice.\<close>

definition get_recent_reports :: "int \<Rightarrow> go_error + consistency_report list" where
  "get_recent_reports limit = Inr []"

section \<open>What a report contains\<close>


definition site :: "violation \<Rightarrow> string \<times> string list option" where
  "site v = (vi_type v, vi_objects v)"

lemma collect_sites:
  assumes "collect rt f xs w = (vs, w')" and "\<And>x mk t t'. f x = Some mk \<Longrightarrow> site (mk t) = site (mk t')"
  shows "site ` set vs = {site (mk 0) | x mk. x \<in> set xs \<and> f x = Some mk}"
  using assms(1)
proof (induction xs arbitrary: w vs)
  case (Cons x xs)
  show ?case
  proof (cases "f x")
    case None
    with Cons show ?thesis by auto
  next
    case (Some mk)
    obtain now w1 where now: "rt_now rt w = (now, w1)" by (metis surj_pair)
    obtain vs' w2 where rest: "collect rt f xs w1 = (vs', w2)" by (metis surj_pair)
    have vs: "vs = mk now # vs'" using Cons.prems Some now rest by simp
    have "collect rt f xs w1 = (vs', w')" using Cons.prems Some now rest by simp
    from Cons.IH [OF this] Some assms(2) [OF Some, of now 0] show ?thesis unfolding vs by auto
  qed
qed simp

lemma mem_related_pairs: "((parent, p), d, r) \<in> set (related_pairs results rels) \<longleftrightarrow>
    (\<exists>deps. (parent, deps) \<in> set rels \<and> d \<in> set deps \<and> map_of results parent = Some p \<and> map_of results d = Some r)"
  by (fastforce simp: related_pairs_def mem_map_filter simp del: map_of_eq_Some_iff split: option.splits)

lemma related_pairs_order: "iteration_order ord \<Longrightarrow> set (related_pairs results (ord rels)) = set (related_pairs results rels)"
  by (auto simp: related_pairs_def)

definition stale_objects :: "consistency_tracker \<Rightarrow> instant \<Rightarrow> (string, object_result) gomap \<Rightarrow> string set" where
  "stale_objects ct now results =
     {n. \<exists>r. (n, r) \<in> set results \<and> max_age ct n < time_sub now (or_last_sync r)}"

definition parents_missing :: "consistency_tracker \<Rightarrow> (string, object_result) gomap \<Rightarrow> (string \<times> string list) set" where
  "parents_missing ct results =
     {(p, missing_dependents results deps) | p deps. (p, deps) \<in> set (ct_relationships ct)
        \<and> map_of results p \<noteq> None \<and> missing_dependents results deps \<noteq> []}"

definition pairs_apart :: "(object_result \<Rightarrow> object_result \<Rightarrow> bool) \<Rightarrow> consistency_tracker \<Rightarrow> (string, object_result) gomap
    \<Rightarrow> (string \<times> string) set" where
  "pairs_apart far ct results =
     {(p, d). \<exists>rp rd deps. (p, deps) \<in> set (ct_relationships ct) \<and> d \<in> set deps
        \<and> map_of results p = Some rp \<and> map_of results d = Some rd \<and> far rp rd}"

definition watermarks_apart :: "object_result \<Rightarrow> object_result \<Rightarrow> bool" where
  "watermarks_apart p d \<longleftrightarrow> hour < time_sub (or_watermark p) (or_watermark d)"

definition syncs_apart :: "object_result \<Rightarrow> object_result \<Rightarrow> bool" where
  "syncs_apart p d \<longleftrightarrow> 6 * hour < sync_gap p d"

lemma stale_sites:
  assumes "collect rt (stale_violation ct now) (ordr results) w = (vs, w')" and "iteration_order ordr"
  shows "site ` set vs = {(violation_type_text Staleness, Some [n]) | n. n \<in> stale_objects ct now results}"
proof -
  have "site ` set vs = {site (mk 0) | x mk. x \<in> set (ordr results) \<and> stale_violation ct now x = Some mk}"
    using assms(1) by (rule collect_sites) (auto simp: stale_violation_def Let_def site_def split: if_splits)
  then show ?thesis unfolding iteration_order_set [OF assms(2)]
    by (auto simp: stale_violation_def Let_def site_def stale_objects_def)
qed

lemma missing_sites:
  assumes "collect rt (missing_violation results) (ord (ct_relationships ct)) w = (vs, w')" and "iteration_order ord"
  shows "site ` set vs = {(violation_type_text MissingObject, Some (p # ds)) | p ds. (p, ds) \<in> parents_missing ct results}"
proof -
  have "site ` set vs = {site (mk 0) | x mk. x \<in> set (ord (ct_relationships ct)) \<and> missing_violation results x = Some mk}"
    using assms(1) by (rule collect_sites) (auto simp: missing_violation_def Let_def site_def split: if_splits)
  then show ?thesis unfolding iteration_order_set [OF assms(2)]
    by (auto simp: missing_violation_def Let_def site_def parents_missing_def split: if_splits)
qed

lemma pair_sites:
  assumes "collect rt f (related_pairs results (ord (ct_relationships ct))) w = (vs, w')" and "iteration_order ord"
    and "\<And>p rp d rd mk t. f ((p, rp), d, rd) = Some mk \<Longrightarrow> far rp rd \<and> site (mk t) = (ty, Some [p, d])"
    and "\<And>p rp d rd. far rp rd \<Longrightarrow> f ((p, rp), d, rd) \<noteq> None"
  shows "site ` set vs = {(ty, Some [p, d]) | p d. (p, d) \<in> pairs_apart far ct results}"
proof -
  let ?ps = "set (related_pairs results (ct_relationships ct))"
  have "site ` set vs = {site (mk 0) | x mk. x \<in> set (related_pairs results (ord (ct_relationships ct))) \<and> f x = Some mk}"
    using assms(1)
  proof (rule collect_sites)
    fix x mk t t' assume "f x = Some mk"
    then show "site (mk t) = site (mk t')" using assms(3) by (cases x) auto
  qed
  also have "\<dots> = {site (mk 0) | p rp d rd mk. ((p, rp), d, rd) \<in> ?ps \<and> f ((p, rp), d, rd) = Some mk}"
    unfolding related_pairs_order [OF assms(2)] by auto
  also have "\<dots> = {(ty, Some [p, d]) | p rp d rd. ((p, rp), d, rd) \<in> ?ps \<and> far rp rd}"
    using assms(3,4) by (auto, metis, metis option.exhaust)
  also have "\<dots> = {(ty, Some [p, d]) | p d. (p, d) \<in> pairs_apart far ct results}"
    unfolding mem_related_pairs pairs_apart_def by blast
  finally show ?thesis .
qed

lemma validate_sync_sites:
  assumes "iteration_order ordr" "iteration_order ord1" "iteration_order ord2" "iteration_order ord3"
    and run: "validate_sync rt uuid ordr ord1 ord2 ord3 ct plans state w = (r, w')"
  shows "\<exists>now. site ` set (cr_violations r) =
      {(violation_type_text Staleness, Some [n]) | n. n \<in> stale_objects ct now (cr_results r)}
      \<union> {(violation_type_text MissingObject, Some (p # ds)) | p ds. (p, ds) \<in> parents_missing ct (cr_results r)}
      \<union> {(violation_type_text WatermarkDrift, Some [p, d]) | p d. (p, d) \<in> pairs_apart watermarks_apart ct (cr_results r)}
      \<union> {(violation_type_text TransactionBoundary, Some [p, d]) | p d. (p, d) \<in> pairs_apart syncs_apart ct (cr_results r)}"
proof -
  obtain sync_id w1 where 1: "uuid w = (sync_id, w1)" by (metis surj_pair)
  obtain stamp w2 where 2: "rt_now rt w1 = (stamp, w2)" by (metis surj_pair)
  obtain results w3 where 3: "object_results rt state plans [] w2 = (results, w3)" by (metis surj_pair)
  obtain now w4 where 4: "rt_now rt w3 = (now, w4)" by (metis surj_pair)
  obtain stale w5 where 5: "collect rt (stale_violation ct now) (ordr results) w4 = (stale, w5)" by (metis surj_pair)
  obtain missing w6 where 6: "collect rt (missing_violation results) (ord1 (ct_relationships ct)) w5 = (missing, w6)"
    by (metis surj_pair)
  obtain drifts w7 where 7: "collect rt drift_violation (related_pairs results (ord2 (ct_relationships ct))) w6 = (drifts, w7)"
    by (metis surj_pair)
  obtain gaps w8 where 8: "collect rt boundary_violation (related_pairs results (ord3 (ct_relationships ct))) w7 = (gaps, w8)"
    by (metis surj_pair)
  have r: "cr_violations r = stale @ missing @ drifts @ gaps" "cr_results r = results"
    using run 1 2 3 4 5 6 7 8 by (auto simp: validate_sync_def Let_def)
  have d: "site ` set drifts = {(violation_type_text WatermarkDrift, Some [p, d]) | p d. (p, d) \<in> pairs_apart watermarks_apart ct results}"
    using 7 assms(3) by (rule pair_sites) (auto simp: drift_violation_def watermarks_apart_def Let_def site_def split: if_splits)
  have g: "site ` set gaps = {(violation_type_text TransactionBoundary, Some [p, d]) | p d. (p, d) \<in> pairs_apart syncs_apart ct results}"
    using 8 assms(4) by (rule pair_sites) (auto simp: boundary_violation_def syncs_apart_def Let_def site_def split: if_splits)
  show ?thesis
    unfolding r set_append image_Un stale_sites [OF 5 assms(1)] missing_sites [OF 6 assms(2)] d g Un_assoc by blast
qed

lemma validate_sync_status:
  assumes "validate_sync rt uuid ordr ord1 ord2 ord3 ct plans state w = (r, w')"
  shows "cr_status r = (if \<not> has_violations r then ConsistencyHealthy
    else if has_critical_violations r then ConsistencyUnhealthy else ConsistencyDegraded)"
  using assms by (auto simp: validate_sync_def calculate_overall_status_def has_violations_def has_critical_violations_def Let_def
      split: prod.splits)

lemma object_results_keys:
  "object_results rt state ps m w = (m', w') \<Longrightarrow> fst ` set m' = fst ` set m \<union> op_object ` set ps"
proof (induction rt state ps m w arbitrary: m' w' rule: object_results.induct)
  case (2 rt state p ps m w)
  then show ?case by (auto simp: dom_update split: prod.splits) 
qed simp

end
