(* ===== verification/S3Client.thy ===== *)
theory S3Client
  imports StoreApi RetryExec
begin

text \<open>
  internal/storage/s3.go: the client every component stores objects with. The AWS SDK is not part
  of the repository: its calls are the fields of \<open>aws_ops\<close>, and what the client needs from S3 is
  the locale \<open>aws_bucket\<close>. On top of it the client adds its key prefix, the retry policies and the
  circuit breaker, and still keeps the contract \<open>s3_store\<close> the Delta code relies on. Logging,
  tracing and metrics are left out. The in-memory bucket at the end interprets the locale.
\<close>

section \<open>The SDK\<close>

record aws_object =
  ob_key :: string
  ob_size :: int
  ob_last_modified :: instant
  ob_etag :: string
  ob_content_type :: string

text \<open>
  \<open>aws_get\<close> returns the body as reading it goes: \<open>io.ReadAll\<close> may fail too. \<open>aws_list\<close> gives the
  results of the paginator's successive \<open>NextPage\<close> calls.
\<close>

record 'w aws_ops =
  aws_put :: "string \<Rightarrow> string \<Rightarrow> string \<Rightarrow> string \<Rightarrow> ('w, unit) io"
  aws_get :: "string \<Rightarrow> string \<Rightarrow> ('w, go_error + string) io"
  aws_head :: "string \<Rightarrow> string \<Rightarrow> ('w, aws_object) io"
  aws_list :: "string \<Rightarrow> string \<Rightarrow> 'w \<Rightarrow> (go_error + aws_object list) list \<times> 'w"
  aws_delete :: "string \<Rightarrow> string \<Rightarrow> ('w, unit) io"
  aws_copy :: "string \<Rightarrow> string \<Rightarrow> string \<Rightarrow> ('w, unit) io"
  aws_is_not_found :: "go_error \<Rightarrow> bool"
  aws_is_no_such_key :: "go_error \<Rightarrow> bool"

section \<open>The client\<close>

record 'w s3_client =
  sc_aws :: "'w aws_ops"
  sc_bucket :: string
  sc_prefix :: string
  sc_upload_policy :: "'w retry_policy option"
  sc_download_policy :: "'w retry_policy option"

text \<open>\<open>initializeRetryPolicies\<close>: both policies, and the breaker the client starts with.\<close>

definition s3_breaker :: breaker where
  "s3_breaker = new_circuit_breaker ''s3_operations'' 5 (60 * second)"

definition new_s3_client :: "'w runtime \<Rightarrow> 'w aws_ops \<Rightarrow> string \<Rightarrow> string \<Rightarrow> 'w s3_client" where
  "new_s3_client rt aws bucket prefix =
     \<lparr>sc_aws = aws, sc_bucket = bucket, sc_prefix = trim_suffix prefix ''/'',
      sc_upload_policy = Some ((s3_policy rt)\<lparr>rp_max_attempts := 5\<rparr>),
      sc_download_policy = Some ((s3_policy rt)\<lparr>rp_max_attempts := 3\<rparr>)\<rparr>"

definition full_key :: "'w s3_client \<Rightarrow> string \<Rightarrow> string" where
  "full_key c key = (if sc_prefix c = [] then key else sc_prefix c @ ''/'' @ key)"

definition s3_uri :: "'w s3_client \<Rightarrow> string \<Rightarrow> string" where
  "s3_uri c key = ''s3://'' @ sc_bucket c @ ''/'' @ key"

definition run_with_policy ::
  "'w runtime \<Rightarrow> 'w retry_policy option \<Rightarrow> ('w, 'a) io \<Rightarrow> (breaker \<times> 'w, 'a) io" where
  "run_with_policy rt policy operation =
     (case policy of
        Some p \<Rightarrow> execute_with_retry_and_circuit_breaker rt p operation
      | None \<Rightarrow> io_snd operation)"

definition s3_upload :: "'w runtime \<Rightarrow> 'w s3_client \<Rightarrow> string \<Rightarrow> string \<Rightarrow> string \<Rightarrow> (breaker \<times> 'w, unit) io" where
  "s3_upload rt c key data content_type =
     run_with_policy rt (sc_upload_policy c)
       (io_wrap (''upload '' @ s3_uri c key)
          (aws_put (sc_aws c) (sc_bucket c) (full_key c key) data content_type))"

definition s3_download :: "'w runtime \<Rightarrow> 'w s3_client \<Rightarrow> string \<Rightarrow> (breaker \<times> 'w, string) io" where
  "s3_download rt c key =
     run_with_policy rt (sc_download_policy c)
       (io_bind (io_wrap (''download '' @ s3_uri c key) (aws_get (sc_aws c) (sc_bucket c) (full_key c key)))
          (\<lambda>body. case body of
                    Inl e \<Rightarrow> io_fail (Wrap (''read '' @ s3_uri c key) e)
                  | Inr data \<Rightarrow> io_ret data))"

definition s3_exists :: "'w runtime \<Rightarrow> 'w s3_client \<Rightarrow> string \<Rightarrow> (breaker \<times> 'w, bool) io" where
  "s3_exists rt c key =
     run_with_policy rt (sc_download_policy c)
       (io_try (aws_head (sc_aws c) (sc_bucket c) (full_key c key))
          (\<lambda>r. case r of
                 Inr _ \<Rightarrow> io_ret True
               | Inl e \<Rightarrow>
                   if aws_is_not_found (sc_aws c) e then io_ret False
                   else if aws_is_no_such_key (sc_aws c) e then io_ret False
                   else io_fail (Wrap (''head '' @ s3_uri c key) e)))"

text \<open>The loop over the pages: it stops at the first error.\<close>

fun collect_pages :: "string \<Rightarrow> (go_error + 'a list) list \<Rightarrow> go_error + 'a list" where
  "collect_pages what [] = Inr []"
| "collect_pages what (Inl e # pages) = Inl (Wrap what e)"
| "collect_pages what (Inr xs # pages) =
     (case collect_pages what pages of Inl e \<Rightarrow> Inl e | Inr ys \<Rightarrow> Inr (xs @ ys))"

definition strip_key :: "'w s3_client \<Rightarrow> string \<Rightarrow> string" where
  "strip_key c key = (if sc_prefix c = [] then key else trim_prefix key (sc_prefix c @ ''/''))"

definition s3_list :: "'w s3_client \<Rightarrow> string \<Rightarrow> (breaker \<times> 'w, string list) io" where
  "s3_list c prefix = (\<lambda>(cb, w).
     case aws_list (sc_aws c) (sc_bucket c) (full_key c prefix) w of
       (pages, w') \<Rightarrow>
         (case collect_pages (''list '' @ s3_uri c prefix) pages of
            Inl e \<Rightarrow> (Inl e, (cb, w'))
          | Inr obs \<Rightarrow> (Inr (map (\<lambda>ob. strip_key c (ob_key ob)) obs), (cb, w'))))"

definition s3_put_json :: "'w runtime \<Rightarrow> 'w s3_client \<Rightarrow> string \<Rightarrow> json \<Rightarrow> (breaker \<times> 'w, unit) io" where
  "s3_put_json rt c key v = s3_upload rt c key (json_indent v) ''application/json''"

definition s3_get_json :: "'w runtime \<Rightarrow> 'w s3_client \<Rightarrow> string \<Rightarrow> (breaker \<times> 'w, json) io" where
  "s3_get_json rt c key =
     io_bind (s3_download rt c key)
       (\<lambda>data. case json_unmarshal data of
                 None \<Rightarrow> io_fail (Wrap (''unmarshal JSON from '' @ key) json_error)
               | Some j \<Rightarrow> io_ret j)"

definition s3_delete :: "'w s3_client \<Rightarrow> string \<Rightarrow> (breaker \<times> 'w, unit) io" where
  "s3_delete c key =
     io_snd (io_wrap (''delete '' @ s3_uri c key) (aws_delete (sc_aws c) (sc_bucket c) (full_key c key)))"

definition s3_upload_reader ::
  "'w runtime \<Rightarrow> 'w s3_client \<Rightarrow> string \<Rightarrow> go_error + string \<Rightarrow> string \<Rightarrow> (breaker \<times> 'w, unit) io" where
  "s3_upload_reader rt c key content content_type =
     (case content of
        Inl e \<Rightarrow> io_fail (Wrap (''read data for '' @ key) e)
      | Inr data \<Rightarrow> s3_upload rt c key data content_type)"

definition s3_copy_object :: "'w s3_client \<Rightarrow> string \<Rightarrow> string \<Rightarrow> (breaker \<times> 'w, unit) io" where
  "s3_copy_object c source_key dest_key =
     io_snd (io_wrap (''copy '' @ s3_uri c source_key @ '' to '' @ s3_uri c dest_key)
       (aws_copy (sc_aws c) (sc_bucket c) (full_key c dest_key)
          (sc_bucket c @ ''/'' @ full_key c source_key)))"

definition s3_copy_object_to_bucket ::
  "'w s3_client \<Rightarrow> string \<Rightarrow> string \<Rightarrow> string \<Rightarrow> (breaker \<times> 'w, unit) io" where
  "s3_copy_object_to_bucket c source_key dest_bucket dest_key =
     io_snd (io_wrap (''copy '' @ s3_uri c source_key @ '' to s3://'' @ dest_bucket @ ''/'' @ dest_key)
       (aws_copy (sc_aws c) dest_bucket dest_key (sc_bucket c @ ''/'' @ full_key c source_key)))"

definition s3_list_objects_with_metadata ::
  "'w s3_client \<Rightarrow> string \<Rightarrow> (breaker \<times> 'w, aws_object list) io" where
  "s3_list_objects_with_metadata c prefix = (\<lambda>(cb, w).
     case aws_list (sc_aws c) (sc_bucket c) (full_key c prefix) w of
       (pages, w') \<Rightarrow>
         (case collect_pages (''list objects '' @ s3_uri c prefix) pages of
            Inl e \<Rightarrow> (Inl e, (cb, w'))
          | Inr obs \<Rightarrow>
              (Inr (map (\<lambda>ob. ob\<lparr>ob_key := strip_key c (ob_key ob), ob_content_type := []\<rparr>) obs), (cb, w'))))"

definition s3_get_object_metadata :: "'w s3_client \<Rightarrow> string \<Rightarrow> (breaker \<times> 'w, aws_object) io" where
  "s3_get_object_metadata c key =
     io_snd (io_bind (io_wrap (''get object metadata '' @ s3_uri c key)
                        (aws_head (sc_aws c) (sc_bucket c) (full_key c key)))
               (\<lambda>ob. io_ret (ob\<lparr>ob_key := key\<rparr>)))"

definition s3_ops :: "'w runtime \<Rightarrow> 'w s3_client \<Rightarrow> (breaker \<times> 'w) store_ops" where
  "s3_ops rt c =
     \<lparr>st_upload = s3_upload rt c, st_download = s3_download rt c, st_list = s3_list c,
      st_put_json = s3_put_json rt c, st_get_json = s3_get_json rt c, st_exists = s3_exists rt c\<rparr>"

section \<open>Keys\<close>

lemma strip_full_key [simp, text_simps]: "strip_key c (full_key c k) = k"
  using trim_prefix_append [of "sc_prefix c @ ''/''" k] by (simp add: strip_key_def full_key_def)

lemma full_key_inject [simp]: "full_key c k = full_key c k' \<longleftrightarrow> k = k'"
  by (simp add: full_key_def)

lemma has_prefix_full_key [simp]: "has_prefix (full_key c k) (full_key c p) \<longleftrightarrow> has_prefix k p"
  by (auto simp: has_prefix_iff full_key_def)

lemma has_prefix_full_keyE:
  assumes "has_prefix key (full_key c p)"
  obtains k where "key = full_key c k" and "has_prefix k p"
proof -
  obtain t where "key = full_key c p @ t" using assms by (auto simp: has_prefix_iff)
  then have "key = full_key c (p @ t)" by (simp add: full_key_def)
  then show thesis using that has_prefix_append by blast
qed

section \<open>What the client promises\<close>

text \<open>
  What S3 promises about one bucket: an upload that reports an error may have happened, reads see
  the last write (S3 is strongly consistent since 2020), a listing gives each key with the prefix
  once, \<open>HeadObject\<close> answers "not found" only for an absent key. Nothing is assumed about which
  calls fail.
\<close>

locale aws_bucket =
  fixes aws :: "'w aws_ops" and bucket :: string and bkt :: "'w \<Rightarrow> objects"
  assumes put_ok: "aws_put aws bucket k d t w = (Inr u, w') \<Longrightarrow> bkt w' = (bkt w)(k \<mapsto> d)"
    and put_err: "aws_put aws bucket k d t w = (Inl e, w') \<Longrightarrow> bkt w' = bkt w \<or> bkt w' = (bkt w)(k \<mapsto> d)"
    and get_ok: "aws_get aws bucket k w = (Inr (Inr d), w') \<Longrightarrow> bkt w k = Some d"
    and get_view: "aws_get aws bucket k w = (x, w') \<Longrightarrow> bkt w' = bkt w"
    and head_ok: "aws_head aws bucket k w = (Inr h, w') \<Longrightarrow> k \<in> dom (bkt w)"
    and head_missing: "aws_head aws bucket k w = (Inl e, w') \<Longrightarrow>
          aws_is_not_found aws e \<or> aws_is_no_such_key aws e \<Longrightarrow> k \<notin> dom (bkt w)"
    and head_view: "aws_head aws bucket k w = (y, w') \<Longrightarrow> bkt w' = bkt w"
    and list_pages_ok: "aws_list aws bucket p w = (map Inr pages, w') \<Longrightarrow>
          distinct (map ob_key (concat pages)) \<and> set (map ob_key (concat pages)) = {k \<in> dom (bkt w). has_prefix k p}"
    and list_pages_view: "aws_list aws bucket p w = (z, w') \<Longrightarrow> bkt w' = bkt w"

text \<open>The runtime does not touch the bucket.\<close>

locale aws_env = aws_bucket +
  fixes rt :: "'a runtime"
  assumes rt_now_bkt: "rt_now rt w = (t, w') \<Longrightarrow> bkt w' = bkt w"
    and rt_wait_bkt: "rt_wait rt d w = (c, w') \<Longrightarrow> bkt w' = bkt w"
    and rt_rand_bkt: "rt_rand rt w = (u, w') \<Longrightarrow> bkt w' = bkt w"

text \<open>Policies made of the library's own backoffs, without a callback.\<close>

definition plain_policy :: "'w retry_policy option \<Rightarrow> bool" where
  "plain_policy policy \<longleftrightarrow>
     (case policy of
        None \<Rightarrow> True
      | Some p \<Rightarrow> rp_on_retry p = None \<and> (\<forall>b. rp_backoff p = Some b \<longrightarrow> pure_backoff b))"

lemma plain_policy_s3 [simp]: "plain_policy (Some ((s3_policy rt)\<lparr>rp_max_attempts := n\<rparr>))"
  by (simp add: plain_policy_def s3_policy_def)

lemma plain_policy_new_client [simp]:
  "plain_policy (sc_upload_policy (new_s3_client rt aws b p))"
  "plain_policy (sc_download_policy (new_s3_client rt aws b p))"
  by (simp_all add: new_s3_client_def)

lemma collect_pages_Inr:
  "collect_pages what pages = Inr xs \<Longrightarrow> \<exists>ps. pages = map Inr ps \<and> xs = concat ps"
proof (induction what pages arbitrary: xs rule: collect_pages.induct)
  case (3 what ys pages)
  then obtain zs where z: "collect_pages what pages = Inr zs" "xs = ys @ zs"
    by (auto split: sum.splits)
  with "3.IH" obtain ps where "pages = map Inr ps" "zs = concat ps" by blast
  with z(2) show ?case by (intro exI [of _ "ys # ps"]) simp
qed auto

definition client_view :: "'w s3_client \<Rightarrow> ('w \<Rightarrow> objects) \<Rightarrow> breaker \<times> 'w \<Rightarrow> objects" where
  "client_view c bkt s = (\<lambda>k. bkt (snd s) (full_key c k))"

lemma client_view_pair [simp]: "client_view c bkt (cb, w) k = bkt w (full_key c k)"
  by (simp add: client_view_def)

context aws_env
begin

lemma run_with_policy_rel:
  assumes run: "run_with_policy rt policy fn s = (r, s')" and plain: "plain_policy policy"
    and Q: "reflp Q" "transp Q" and fn: "\<And>w r w'. fn w = (r, w') \<Longrightarrow> Q (bkt w) (bkt w')"
  shows "Q (bkt (snd s)) (bkt (snd s'))"
    and "r = Inr a \<Longrightarrow> \<exists>w1 w2. Q (bkt (snd s)) (bkt w1) \<and> fn w1 = (Inr a, w2) \<and> Q (bkt w2) (bkt (snd s'))"
proof -
  let ?Q = "\<lambda>w w'. Q (bkt w) (bkt w')"
  have QQ: "reflp ?Q" "transp ?Q"
    using reflpD [OF Q(1)] transpD [OF Q(2)] by (auto intro!: reflpI transpI)
  have same: "?Q w w'" if "bkt w' = bkt w" for w w' using that reflpD [OF Q(1)] by simp
  have "?Q (snd s) (snd s') \<and>
        (\<forall>a. r = Inr a \<longrightarrow> (\<exists>w1 w2. ?Q (snd s) w1 \<and> fn w1 = (Inr a, w2) \<and> ?Q w2 (snd s')))"
  proof (cases policy)
    case None
    then have "fn (snd s) = (r, snd s')" using run by (auto simp: run_with_policy_def elim: io_sndE)
    then show ?thesis using fn reflpD [OF Q(1)] by blast
  next
    case (Some p)
    have bn: "?Q w w'" if "before_next_attempt rt p n e w = (x, w')" for n e w x w'
      by (rule before_next_attempt_rel [OF that QQ])
         (use plain Some rt_rand_bkt rt_wait_bkt same in \<open>auto simp: plain_policy_def\<close>)
    have run': "execute_with_retry_and_circuit_breaker rt p fn (fst s, snd s) = (r, (fst s', snd s'))"
      using run Some by (simp add: run_with_policy_def)
    have "?Q (snd s) (snd s')"
      by (rule execute_with_retry_and_circuit_breaker_rel(1) [OF run' QQ])
         (use fn bn same rt_now_bkt in blast)+
    moreover have "\<exists>w1 w2. ?Q (snd s) w1 \<and> fn w1 = (Inr a, w2) \<and> ?Q w2 (snd s')" if "r = Inr a" for a
      by (rule execute_with_retry_and_circuit_breaker_rel(2) [OF run' QQ _ _ _ that])
         (use fn bn same rt_now_bkt in blast)+
    ultimately show ?thesis by blast
  qed
  then show "Q (bkt (snd s)) (bkt (snd s'))"
    and "r = Inr a \<Longrightarrow> \<exists>w1 w2. Q (bkt (snd s)) (bkt w1) \<and> fn w1 = (Inr a, w2) \<and> Q (bkt w2) (bkt (snd s'))"
    by blast+
qed

lemma run_with_policy_read:
  assumes "run_with_policy rt policy fn s = (r, s')" and "plain_policy policy"
    and "\<And>w r w'. fn w = (r, w') \<Longrightarrow> bkt w' = bkt w"
  shows "bkt (snd s') = bkt (snd s)"
    and "r = Inr a \<Longrightarrow> \<exists>w1 w2. bkt w1 = bkt (snd s) \<and> fn w1 = (Inr a, w2)"
proof -
  have Q: "reflp ((=) :: objects \<Rightarrow> objects \<Rightarrow> bool)" "transp ((=) :: objects \<Rightarrow> objects \<Rightarrow> bool)"
    by (auto intro!: reflpI transpI)
  have fn: "bkt w = bkt w'" if "fn w = (x, w')" for w x w' using assms(3) [OF that] by simp
  show "bkt (snd s') = bkt (snd s)"
    using run_with_policy_rel(1) [OF assms(1,2) Q fn] by simp
  assume r: "r = Inr a"
  have "\<exists>w1 w2. bkt (snd s) = bkt w1 \<and> fn w1 = (Inr a, w2) \<and> bkt w2 = bkt (snd s')"
    by (rule run_with_policy_rel(2) [OF assms(1,2) Q _ r]) (use fn in blast)
  then show "\<exists>w1 w2. bkt w1 = bkt (snd s) \<and> fn w1 = (Inr a, w2)" by metis
qed

end

text \<open>The objects a client sees: those of its bucket under its prefix.\<close>

locale s3_client_env = aws_env aws bucket bkt rt
  for aws :: "'w aws_ops" and bucket bkt and rt :: "'w runtime" +
  fixes c :: "'w s3_client"
  assumes client_aws: "sc_aws c = aws" and client_bucket: "sc_bucket c = bucket"
    and plain_upload: "plain_policy (sc_upload_policy c)"
    and plain_download: "plain_policy (sc_download_policy c)"
begin

lemma upload_rel:
  assumes "s3_upload rt c k d t s = (r, s')"
  shows "client_view c bkt s' = client_view c bkt s \<or> client_view c bkt s' = (client_view c bkt s)(k \<mapsto> d)"
    and "r = Inr u \<Longrightarrow> client_view c bkt s' = (client_view c bkt s)(k \<mapsto> d)"
proof -
  let ?k = "full_key c k"
  let ?fn = "io_wrap (''upload '' @ s3_uri c k) (aws_put aws bucket ?k d t)"
  define Q :: "objects \<Rightarrow> objects \<Rightarrow> bool" where "Q = (\<lambda>v v'. v' = v \<or> v' = v(?k \<mapsto> d))"
  have Q: "reflp Q" "transp Q" by (auto simp: Q_def intro!: reflpI transpI)
  have fn: "Q (bkt w) (bkt w')" if "?fn w = (x, w')" for w x w'
    using that put_ok put_err
    by (auto simp: Q_def io_wrap_def split: prod.splits sum.splits)
  have run: "run_with_policy rt (sc_upload_policy c) ?fn s = (r, s')"
    using assms by (simp add: s3_upload_def client_aws client_bucket)
  have view: "client_view c bkt s' = (client_view c bkt s)(k \<mapsto> d)" if "bkt (snd s') = (bkt (snd s))(?k \<mapsto> d)"
    using that by (auto simp: client_view_def fun_eq_iff)
  have "Q (bkt (snd s)) (bkt (snd s'))" by (rule run_with_policy_rel(1) [OF run plain_upload Q fn])
  then show "client_view c bkt s' = client_view c bkt s \<or> client_view c bkt s' = (client_view c bkt s)(k \<mapsto> d)"
    using view by (auto simp: Q_def client_view_def)
  assume r: "r = Inr u"
  have "\<exists>w1 w2. Q (bkt (snd s)) (bkt w1) \<and> ?fn w1 = (Inr u, w2) \<and> Q (bkt w2) (bkt (snd s'))"
    by (rule run_with_policy_rel(2) [OF run plain_upload Q _ r]) (use fn in blast)
  then obtain w1 w2 where "Q (bkt (snd s)) (bkt w1)" "?fn w1 = (Inr u, w2)" "Q (bkt w2) (bkt (snd s'))"
    by blast
  moreover from this(2) have "bkt w2 = (bkt w1)(?k \<mapsto> d)" by (auto elim: io_wrap_InrE dest: put_ok)
  ultimately have "bkt (snd s') = (bkt (snd s))(?k \<mapsto> d)" by (auto simp: Q_def)
  then show "client_view c bkt s' = (client_view c bkt s)(k \<mapsto> d)" by (rule view)
qed

lemma download_rel:
  assumes "s3_download rt c k s = (r, s')"
  shows "client_view c bkt s' = client_view c bkt s"
    and "r = Inr d \<Longrightarrow> client_view c bkt s k = Some d"
proof -
  let ?fn = "io_bind (io_wrap (''download '' @ s3_uri c k) (aws_get aws bucket (full_key c k)))
               (\<lambda>body. case body of Inl e \<Rightarrow> io_fail (Wrap (''read '' @ s3_uri c k) e) | Inr data \<Rightarrow> io_ret data)"
  have run: "run_with_policy rt (sc_download_policy c) ?fn s = (r, s')"
    using assms by (simp add: s3_download_def client_aws client_bucket)
  have fn: "bkt w' = bkt w" if "?fn w = (x, w')" for w x w'
    using that get_view by (auto simp: io_bind_def io_wrap_def split: prod.splits sum.splits)
  show "client_view c bkt s' = client_view c bkt s"
    using run_with_policy_read(1) [OF run plain_download fn] by (simp add: client_view_def)
  assume r: "r = Inr d"
  have "\<exists>w1 w2. bkt w1 = bkt (snd s) \<and> ?fn w1 = (Inr d, w2)"
    by (rule run_with_policy_read(2) [OF run plain_download _ r]) (use fn in blast)
  then obtain w1 w2 where "bkt w1 = bkt (snd s)" "?fn w1 = (Inr d, w2)" by blast
  moreover from this(2) have "bkt w1 (full_key c k) = Some d"
    by (auto elim!: io_bind_InrE io_wrap_InrE dest: get_ok split: sum.splits)
  ultimately show "client_view c bkt s k = Some d" by (simp add: client_view_def)
qed

lemma exists_rel:
  assumes "s3_exists rt c k s = (r, s')"
  shows "client_view c bkt s' = client_view c bkt s"
    and "r = Inr b \<Longrightarrow> b \<longleftrightarrow> k \<in> dom (client_view c bkt s)"
proof -
  let ?fn = "io_try (aws_head aws bucket (full_key c k))
          (\<lambda>r. case r of Inr _ \<Rightarrow> io_ret True
               | Inl e \<Rightarrow> if aws_is_not_found aws e then io_ret False
                   else if aws_is_no_such_key aws e then io_ret False
                   else io_fail (Wrap (''head '' @ s3_uri c k) e))"
  have run: "run_with_policy rt (sc_download_policy c) ?fn s = (r, s')"
    using assms unfolding s3_exists_def client_aws client_bucket .
  have fn: "bkt w' = bkt w" if "?fn w = (x, w')" for w x w'
    using that head_view by (auto simp: io_try_def split: prod.splits sum.splits if_splits)
  show "client_view c bkt s' = client_view c bkt s"
    using run_with_policy_read(1) [OF run plain_download fn] by (simp add: client_view_def)
  assume r: "r = Inr b"
  have "\<exists>w1 w2. bkt w1 = bkt (snd s) \<and> ?fn w1 = (Inr b, w2)"
    by (rule run_with_policy_read(2) [OF run plain_download _ r]) (use fn in blast)
  then obtain w1 w2 where w: "bkt w1 = bkt (snd s)" "?fn w1 = (Inr b, w2)" by blast
  obtain y w3 where h: "aws_head aws bucket (full_key c k) w1 = (y, w3)" by (metis surj_pair)
  have "b \<longleftrightarrow> full_key c k \<in> dom (bkt w1)"
  proof (cases y)
    case (Inl e)
    with w(2) h have "\<not> b" and "aws_is_not_found aws e \<or> aws_is_no_such_key aws e"
      by (auto simp: io_try_def split: if_splits)
    then show ?thesis using head_missing [of "full_key c k" w1 e w3] h Inl by simp
  next
    case (Inr ob)
    with w(2) h have b by (simp add: io_try_def)
    then show ?thesis using head_ok [of "full_key c k" w1 ob w3] h Inr by simp
  qed
  then show "b \<longleftrightarrow> k \<in> dom (client_view c bkt s)" using w(1) by (auto simp: client_view_def dom_def)
qed

lemma list_rel:
  assumes "s3_list c p s = (r, s')"
  shows "client_view c bkt s' = client_view c bkt s"
    and "r = Inr ks \<Longrightarrow> distinct ks \<and> set ks = {k \<in> dom (client_view c bkt s). has_prefix k p}"
proof -
  obtain cb w where s: "s = (cb, w)" by (cases s)
  obtain pages w1 where l: "aws_list aws bucket (full_key c p) w = (pages, w1)" by (metis surj_pair)
  have s': "snd s' = w1"
    using assms l by (auto simp: s3_list_def s client_aws client_bucket split: sum.splits)
  show "client_view c bkt s' = client_view c bkt s"
    using list_pages_view [OF l] by (simp add: client_view_def s s')
  assume r: "r = Inr ks"
  then obtain obs where "collect_pages (''list '' @ s3_uri c p) pages = Inr obs"
    and ks: "ks = map (\<lambda>ob. strip_key c (ob_key ob)) obs"
    using assms l by (auto simp: s3_list_def s client_aws client_bucket split: sum.splits)
  then obtain ps where "pages = map Inr ps" "obs = concat ps" using collect_pages_Inr by blast
  then have d: "distinct (map ob_key obs)"
    and set: "set (map ob_key obs) = {k \<in> dom (bkt w). has_prefix k (full_key c p)}"
    using list_pages_ok [of "full_key c p" w ps w1] l by auto
  have ks': "ks = map (strip_key c) (map ob_key obs)" by (simp add: ks)
  have "inj_on (strip_key c) (set (map ob_key obs))"
    unfolding set by (rule inj_onI) (auto elim!: has_prefix_full_keyE)
  moreover have "strip_key c ` {k \<in> dom (bkt w). has_prefix k (full_key c p)}
                 = {k \<in> dom (client_view c bkt s). has_prefix k p}"
  proof (rule set_eqI, rule iffI)
    fix k assume "k \<in> {k \<in> dom (client_view c bkt s). has_prefix k p}"
    then have "full_key c k \<in> {k \<in> dom (bkt w). has_prefix k (full_key c p)}"
      by (auto simp: client_view_def s)
    then show "k \<in> strip_key c ` {k \<in> dom (bkt w). has_prefix k (full_key c p)}"
      by (metis image_eqI strip_full_key)
  qed (auto simp: client_view_def s elim!: has_prefix_full_keyE)
  ultimately show "distinct ks \<and> set ks = {k \<in> dom (client_view c bkt s). has_prefix k p}"
    unfolding ks' using d set by (simp only: distinct_map set_map simp_thms)
qed

sublocale client: s3_store "s3_ops rt c" "client_view c bkt"
proof unfold_locales
  fix k d t s u s' assume "st_upload (s3_ops rt c) k d t s = (Inr u, s')"
  then show "client_view c bkt s' = (client_view c bkt s)(k \<mapsto> d)"
    using upload_rel(2) by (simp add: s3_ops_def)
next
  fix k d t s e s' assume "st_upload (s3_ops rt c) k d t s = (Inl e, s')"
  then show "client_view c bkt s' = client_view c bkt s \<or> client_view c bkt s' = (client_view c bkt s)(k \<mapsto> d)"
    using upload_rel(1) by (simp add: s3_ops_def)
next
  fix k s d s' assume "st_download (s3_ops rt c) k s = (Inr d, s')"
  then show "client_view c bkt s k = Some d" using download_rel(2) by (simp add: s3_ops_def)
next
  fix k s x s' assume "st_download (s3_ops rt c) k s = (x, s')"
  then show "client_view c bkt s' = client_view c bkt s" using download_rel(1) by (simp add: s3_ops_def)
next
  fix p s ks s' assume "st_list (s3_ops rt c) p s = (Inr ks, s')"
  then show "distinct ks \<and> set ks = {k \<in> dom (client_view c bkt s). has_prefix k p}"
    using list_rel(2) by (simp add: s3_ops_def)
next
  fix p s y s' assume "st_list (s3_ops rt c) p s = (y, s')"
  then show "client_view c bkt s' = client_view c bkt s" using list_rel(1) by (simp add: s3_ops_def)
next
  fix k v s u s' assume "st_put_json (s3_ops rt c) k v s = (Inr u, s')"
  then show "client_view c bkt s' = (client_view c bkt s)(k \<mapsto> json_indent v)"
    using upload_rel(2) by (simp add: s3_ops_def s3_put_json_def)
next
  fix k v s e s' assume "st_put_json (s3_ops rt c) k v s = (Inl e, s')"
  then show "client_view c bkt s' = client_view c bkt s
             \<or> client_view c bkt s' = (client_view c bkt s)(k \<mapsto> json_indent v)"
    using upload_rel(1) by (simp add: s3_ops_def s3_put_json_def)
next
  fix k s j s' assume "st_get_json (s3_ops rt c) k s = (Inr j, s')"
  then obtain d s1 where dl: "s3_download rt c k s = (Inr d, s1)" and "json_unmarshal d = Some j"
    by (auto simp del: split_paired_All simp: s3_ops_def s3_get_json_def elim!: io_bind_InrE
        split: option.splits)
  then show "\<exists>d. client_view c bkt s k = Some d \<and> json_unmarshal d = Some j"
    using download_rel(2) [OF dl refl] by blast
next
  fix k s z s' assume "st_get_json (s3_ops rt c) k s = (z, s')"
  then show "client_view c bkt s' = client_view c bkt s"
    using download_rel(1)
    by (auto simp: s3_ops_def s3_get_json_def io_bind_def split: prod.splits sum.splits option.splits)
next
  fix k s b s' assume "st_exists (s3_ops rt c) k s = (Inr b, s')"
  then show "b \<longleftrightarrow> k \<in> dom (client_view c bkt s)" using exists_rel(2) by (simp add: s3_ops_def)
next
  fix k s q s' assume "st_exists (s3_ops rt c) k s = (q, s')"
  then show "client_view c bkt s' = client_view c bkt s" using exists_rel(1) by (simp add: s3_ops_def)
qed

end

end
