(* ===== verification/MemBucket.thy ===== *)
theory MemBucket
  imports S3Client
begin

text \<open>
  A bucket in memory with scripted faults and a clock that only waiting advances (it reads times
  from 0 to 2 ^ 62 nanoseconds): the concrete
  bucket and runtime at which the contracts of S3Client are interpreted and the properties are
  evaluated. Each call takes the next fault of the script: none, an error before the call had an
  effect, or an error after it.
\<close>

datatype fault = NoFault | FailBefore go_error | FailAfter go_error

record mem_world =
  mw_objects :: "(string, string) gomap"
  mw_now :: instant
  mw_faults :: "fault list"

definition next_fault :: "mem_world \<Rightarrow> fault \<times> mem_world" where
  "next_fault w =
     (case mw_faults w of
        [] \<Rightarrow> (NoFault, w)
      | f # fs \<Rightarrow> (f, w\<lparr>mw_faults := fs\<rparr>))"

definition mem_no_such_key :: go_error where
  "mem_no_such_key = Msg ''NoSuchKey: The specified key does not exist.''"

definition mem_not_found :: go_error where
  "mem_not_found = Msg ''NotFound: Not Found''"

definition mem_fault :: "go_error \<Rightarrow> go_error" where
  "mem_fault e = Wrap ''operation error S3'' e"

definition mem_effect :: "(mem_world \<Rightarrow> mem_world) \<Rightarrow> (mem_world, unit) io" where
  "mem_effect f w =
     (case next_fault w of
        (NoFault, w1) \<Rightarrow> (Inr (), f w1)
      | (FailBefore e, w1) \<Rightarrow> (Inl (mem_fault e), w1)
      | (FailAfter e, w1) \<Rightarrow> (Inl (mem_fault e), f w1))"

definition mem_read :: "(mem_world \<Rightarrow> go_error + 'a) \<Rightarrow> (mem_world, 'a) io" where
  "mem_read f w =
     (case next_fault w of
        (NoFault, w1) \<Rightarrow> (f w1, w1)
      | (FailBefore e, w1) \<Rightarrow> (Inl (mem_fault e), w1)
      | (FailAfter e, w1) \<Rightarrow> (Inl (mem_fault e), w1))"

definition mem_object :: "string \<Rightarrow> string \<Rightarrow> aws_object" where
  "mem_object k d =
     \<lparr>ob_key = k, ob_size = int (length d), ob_last_modified = 0, ob_etag = [], ob_content_type = []\<rparr>"

definition mem_aws :: "mem_world aws_ops" where
  "mem_aws =
     \<lparr>aws_put = (\<lambda>b k d t. mem_effect (\<lambda>w. w\<lparr>mw_objects := AList.update k d (mw_objects w)\<rparr>)),
      aws_get = (\<lambda>b k. mem_read (\<lambda>w.
        case map_of (mw_objects w) k of None \<Rightarrow> Inl mem_no_such_key | Some d \<Rightarrow> Inr (Inr d))),
      aws_head = (\<lambda>b k. mem_read (\<lambda>w.
        case map_of (mw_objects w) k of None \<Rightarrow> Inl mem_not_found | Some d \<Rightarrow> Inr (mem_object k d))),
      aws_list = (\<lambda>b p w. case mem_read (\<lambda>w. Inr (map (\<lambda>(k, d). mem_object k d)
                       (filter (\<lambda>(k, d). has_prefix k p) (AList.clearjunk (mw_objects w))))) w of
                     (r, w') \<Rightarrow> ([r], w')),
      aws_delete = (\<lambda>b k. mem_effect (\<lambda>w. w\<lparr>mw_objects := AList.delete k (mw_objects w)\<rparr>)),
      aws_copy = (\<lambda>b k source. mem_effect (\<lambda>w.
        case map_of (mw_objects w) (trim_prefix source (b @ ''/'')) of
          None \<Rightarrow> w
        | Some d \<Rightarrow> w\<lparr>mw_objects := AList.update k d (mw_objects w)\<rparr>)),
      aws_is_not_found = (\<lambda>e. e = mem_not_found),
      aws_is_no_such_key = (\<lambda>e. e = mem_no_such_key)\<rparr>"

definition mem_rt :: "mem_world runtime" where
  "mem_rt =
     \<lparr>rt_now = (\<lambda>w. (max 0 (min (2 ^ 62) (mw_now w)), w)), rt_rand = (\<lambda>w. (0, w)),
      rt_wait = (\<lambda>d w. (None, w\<lparr>mw_now := mw_now w + max 0 d\<rparr>)), rt_f64_oob = - (2 ^ 63)\<rparr>"

definition mem_view :: "mem_world \<Rightarrow> objects" where
  "mem_view w = map_of (mw_objects w)"

lemma next_fault_cases:
  "next_fault w = (f, w1) \<Longrightarrow> mw_objects w1 = mw_objects w \<and> mw_now w1 = mw_now w"
  by (auto simp: next_fault_def split: list.splits)

lemma mem_fault_not_missing [simp]: "mem_fault e \<noteq> mem_not_found" "mem_fault e \<noteq> mem_no_such_key"
  by (simp_all add: mem_fault_def mem_not_found_def mem_no_such_key_def)

lemma mem_effect_ok: "mem_effect f w = (Inr u, w') \<Longrightarrow> \<exists>w1. w' = f w1 \<and> mw_objects w1 = mw_objects w"
  by (auto simp: mem_effect_def split: prod.splits fault.splits dest: next_fault_cases)

lemma mem_effect_err:
  "mem_effect f w = (Inl e, w') \<Longrightarrow> \<exists>w1. (w' = w1 \<or> w' = f w1) \<and> mw_objects w1 = mw_objects w"
  by (auto simp: mem_effect_def split: prod.splits fault.splits dest: next_fault_cases)

lemma mem_read_view: "mem_read f w = (r, w') \<Longrightarrow> mw_objects w' = mw_objects w"
  by (auto simp: mem_read_def split: prod.splits fault.splits dest: next_fault_cases)

lemma mem_read_ok: "mem_read f w = (Inr a, w') \<Longrightarrow> f w' = Inr a"
  by (auto simp: mem_read_def split: prod.splits fault.splits)

lemma mem_read_err: "mem_read f w = (Inl e, w') \<Longrightarrow> (\<exists>e'. e = mem_fault e') \<or> f w' = Inl e"
  by (auto simp: mem_read_def split: prod.splits fault.splits)

lemma mem_get_eq:
  "aws_get mem_aws b k = mem_read (\<lambda>w.
     case map_of (mw_objects w) k of None \<Rightarrow> Inl mem_no_such_key | Some d \<Rightarrow> Inr (Inr d))"
  by (simp add: mem_aws_def)

lemma mem_head_eq:
  "aws_head mem_aws b k = mem_read (\<lambda>w.
     case map_of (mw_objects w) k of None \<Rightarrow> Inl mem_not_found | Some d \<Rightarrow> Inr (mem_object k d))"
  by (simp add: mem_aws_def)

definition lake_client :: "mem_world s3_client" where
  "lake_client = new_s3_client mem_rt mem_aws ''lake'' ''prod/''"

interpretation mem: aws_bucket mem_aws bucket mem_view
proof unfold_locales
  fix k d t w u w' assume "aws_put mem_aws bucket k d t w = (Inr u, w')"
  then show "mem_view w' = (mem_view w)(k \<mapsto> d)"
    by (auto simp: mem_aws_def mem_view_def dest!: mem_effect_ok)
next
  fix k d t w e w' assume "aws_put mem_aws bucket k d t w = (Inl e, w')"
  then show "mem_view w' = mem_view w \<or> mem_view w' = (mem_view w)(k \<mapsto> d)"
    by (auto simp: mem_aws_def mem_view_def dest!: mem_effect_err)
next
  fix k w d w' assume "aws_get mem_aws bucket k w = (Inr (Inr d), w')"
  from mem_read_ok [OF this [unfolded mem_get_eq]] mem_read_view [OF this [unfolded mem_get_eq]]
  show "mem_view w k = Some d" by (auto simp: mem_view_def split: option.splits)
next
  fix k w x w' assume "aws_get mem_aws bucket k w = (x, w')"
  from mem_read_view [OF this [unfolded mem_get_eq]]
  show "mem_view w' = mem_view w" by (simp add: mem_view_def)
next
  fix k w h w' assume "aws_head mem_aws bucket k w = (Inr h, w')"
  from mem_read_ok [OF this [unfolded mem_head_eq]] mem_read_view [OF this [unfolded mem_head_eq]]
  show "k \<in> dom (mem_view w)" by (auto simp: mem_view_def split: option.splits)
next
  fix k w e w'
  assume h: "aws_head mem_aws bucket k w = (Inl e, w')"
    and "aws_is_not_found mem_aws e \<or> aws_is_no_such_key mem_aws e"
  then have "\<not> (\<exists>e'. e = mem_fault e')" by (auto simp: mem_aws_def)
  with mem_read_err [OF h [unfolded mem_head_eq]] mem_read_view [OF h [unfolded mem_head_eq]]
  show "k \<notin> dom (mem_view w)" by (auto simp: mem_view_def split: option.splits)
next
  fix k w y w' assume "aws_head mem_aws bucket k w = (y, w')"
  from mem_read_view [OF this [unfolded mem_head_eq]]
  show "mem_view w' = mem_view w" by (simp add: mem_view_def)
next
  fix p w pages w' assume "aws_list mem_aws bucket p w = (map Inr pages, w')"
  then obtain obs where obs: "mem_read (\<lambda>w. Inr (map (\<lambda>(k, d). mem_object k d)
      (filter (\<lambda>(k, d). has_prefix k p) (AList.clearjunk (mw_objects w))))) w = (Inr obs, w')"
    and "concat pages = obs"
    by (auto simp: mem_aws_def map_eq_Cons_conv split: prod.splits)
  moreover from mem_read_ok [OF obs] mem_read_view [OF obs]
  have "map ob_key obs = filter (\<lambda>k. has_prefix k p) (map fst (AList.clearjunk (mw_objects w)))"
    by (auto simp: mem_object_def filter_map comp_def case_prod_unfold)
  ultimately show "distinct (map ob_key (concat pages))
      \<and> set (map ob_key (concat pages)) = {k \<in> dom (mem_view w). has_prefix k p}"
    by (simp add: distinct_clearjunk mem_view_def dom_clearjunk dom_map_of_conv_image_fst conj_commute)
next
  fix p w z w' assume "aws_list mem_aws bucket p w = (z, w')"
  then show "mem_view w' = mem_view w"
    by (auto simp: mem_aws_def mem_view_def dest: mem_read_view split: prod.splits)
qed

interpretation mem: s3_client_env mem_aws "''lake''" mem_view mem_rt lake_client
  by unfold_locales (auto simp: mem_rt_def mem_view_def lake_client_def new_s3_client_def plain_policy_def s3_policy_def)

end
