(* ===== verification/RecoveryExec.thy ===== *)
theory RecoveryExec
  imports Recovery MemBucket
begin

text \<open>
  internal/sync/recovery.go: the store of recovery states (its contract is the locale \<open>recovery_laws\<close>, which
  the store over S3 meets) and \<open>ExecuteWithRetry\<close>. A call can panic (\<open>None\<close>): its final error wraps the last
  one, which is nil when the loop does not run; or the operation panics.
\<close>

section \<open>The store of recovery states\<close>

record 'w recovery_store =
  rs_save :: "recovery_state \<Rightarrow> ('w, unit) io"
  rs_load :: "string \<Rightarrow> string \<Rightarrow> ('w, recovery_state) io"
  rs_delete :: "string \<Rightarrow> string \<Rightarrow> ('w, unit) io"
  rs_list :: "string \<Rightarrow> ('w, recovery_state list) io"

definition recovery_key :: "string \<Rightarrow> string \<Rightarrow> string \<Rightarrow> string" where
  "recovery_key prefix source object = prefix @ ''/recovery/'' @ source @ ''/'' @ object @ ''.json''"

definition save_recovery_state :: "'w store_ops \<Rightarrow> string \<Rightarrow> recovery_state \<Rightarrow> ('w, unit) io" where
  "save_recovery_state st prefix s =
     put_value st (recovery_key prefix (rv_source s) (rv_object s)) (recovery_times_ok s) (enc_recovery_state s)"

definition load_recovery_state :: "'w store_ops \<Rightarrow> string \<Rightarrow> string \<Rightarrow> string \<Rightarrow> ('w, recovery_state) io" where
  "load_recovery_state st prefix source object =
     io_wrap ''load recovery state''
       (get_json_into st (recovery_key prefix source object) into_recovery_state zero_recovery_state)"

text \<open>A key that cannot be read is skipped.\<close>

fun load_recovery_keys :: "'w store_ops \<Rightarrow> string list \<Rightarrow> ('w, recovery_state list) io" where
  "load_recovery_keys st [] = io_ret []"
| "load_recovery_keys st (key # keys) =
     io_try (get_json_into st key into_recovery_state zero_recovery_state)
       (\<lambda>r. io_bind (load_recovery_keys st keys)
              (\<lambda>states. io_ret (case r of Inl _ \<Rightarrow> states | Inr s \<Rightarrow> s # states)))"

definition list_recovery_states :: "'w store_ops \<Rightarrow> string \<Rightarrow> string \<Rightarrow> ('w, recovery_state list) io" where
  "list_recovery_states st prefix source =
     io_bind (io_wrap ''list recovery states'' (st_list st (prefix @ ''/recovery/'' @ source @ ''/'')))
       (load_recovery_keys st)"

text \<open>\<open>S3RecoveryStateStore\<close>; \<open>delete\<close> is the client's \<open>Delete\<close>.\<close>

definition s3_recovery_store :: "'w store_ops \<Rightarrow> (string \<Rightarrow> ('w, unit) io) \<Rightarrow> string \<Rightarrow> 'w recovery_store" where
  "s3_recovery_store st delete prefix =
     \<lparr>rs_save = save_recovery_state st prefix, rs_load = load_recovery_state st prefix,
      rs_delete = (\<lambda>source object. delete (recovery_key prefix source object)),
      rs_list = list_recovery_states st prefix\<rparr>"

section \<open>The recovery manager\<close>

record recovery_config =
  rg_max_retries :: int
  rg_base_delay :: duration
  rg_max_delay :: duration
  rg_breaker_threshold :: int
  rg_breaker_timeout :: duration
  rg_partial_recovery :: bool
  rg_skip_failed :: bool

definition default_recovery_config :: recovery_config where
  "default_recovery_config =
     \<lparr>rg_max_retries = 3, rg_base_delay = second, rg_max_delay = 60 * second, rg_breaker_threshold = 5,
      rg_breaker_timeout = 2 * minute, rg_partial_recovery = True, rg_skip_failed = False\<rparr>"

record 'w recovery_manager =
  rm_config :: recovery_config
  rm_store :: "'w recovery_store"

text \<open>The breaker a manager starts with is part of the world its operations run in.\<close>

definition manager_breaker :: "recovery_config \<Rightarrow> sync_breaker" where
  "manager_breaker c = new_sync_breaker ''sync_operations'' (rg_breaker_threshold c) (rg_breaker_timeout c)"

record sync_result =
  re_records :: int
  re_bytes :: int
  re_metadata :: "(string, json) gomap option"

definition empty_result :: sync_result where
  "empty_result = \<lparr>re_records = 0, re_bytes = 0, re_metadata = None\<rparr>"

datatype attempt_outcome = AttemptDone "go_error + sync_result" | GivenUp go_error | TryAgain go_error recovery_state
  | AttemptPanicked

type_synonym 'w sync_op = "('w, sync_result) pio"

text \<open>The wait of a retry: only when the next retry is still ahead.\<close>

definition await_retry :: "'w runtime \<Rightarrow> recovery_state \<Rightarrow> 'w \<Rightarrow> go_error option \<times> 'w" where
  "await_retry rt rs w =
     (if 0 < rv_attempts rs
      then (case rt_now rt w of (now, w1) \<Rightarrow>
              if now < rv_next_retry rs
              then (case rt_now rt w1 of (now', w2) \<Rightarrow> rt_wait rt (time_sub (rv_next_retry rs) now') w2)
              else (None, w1))
      else (None, w))"

text \<open>\<open>errors.As(err, &syncErr)\<close>: an error without a \<open>SyncError\<close> is retryable.\<close>

definition sync_retryable :: "go_error \<Rightarrow> bool" where
  "sync_retryable e = (case as_sync_error e of Some (SyncError _ _ _ r _) \<Rightarrow> r | _ \<Rightarrow> True)"

definition recovery_attempt ::
  "'w runtime \<Rightarrow> 'w recovery_manager \<Rightarrow> string \<Rightarrow> string \<Rightarrow> string \<Rightarrow> 'w sync_op \<Rightarrow> recovery_state
   \<Rightarrow> sync_breaker \<times> 'w \<Rightarrow> attempt_outcome \<times> sync_breaker \<times> 'w" where
  "recovery_attempt rt rm corr source object op rs = (\<lambda>(cb, w).
     case await_retry rt rs w of
       (Some e, w1) \<Rightarrow> (AttemptDone (Inl e), cb, w1)
     | (None, w1) \<Rightarrow>
         (case increment_attempt rt (rg_base_delay (rm_config rm)) (rg_max_delay (rm_config rm)) rs w1 of
            (rs', w2) \<Rightarrow>
              (case sb_execute rt op (cb, w2) of
                 (None, (cb', w3)) \<Rightarrow> (AttemptPanicked, cb', w3)
               | (Some (Inr res), (cb', w3)) \<Rightarrow>
                   (case rs_delete (rm_store rm) source object w3 of (r, w4) \<Rightarrow> (AttemptDone (Inr res), cb', w4))
               | (Some (Inl err), (cb', w3)) \<Rightarrow>
                   let err' = with_correlation corr err
                   in if \<not> sync_retryable err then (GivenUp err', cb', w3)
                      else (case rs_save (rm_store rm) rs' w3 of (r, w4) \<Rightarrow> (TryAgain err' rs', cb', w4)))))"

lemma recovery_attempt_counts:
  "recovery_attempt rt rm corr source object op rs s = (TryAgain e rs', s') \<Longrightarrow> rv_attempts rs' = rv_attempts rs + 1"
  by (auto simp: recovery_attempt_def increment_attempt_def Let_def split: prod.splits option.splits sum.splits if_splits)

text \<open>The final error; without a last error \<open>NewSyncError\<close> calls \<open>Error\<close> on nil.\<close>

definition retries_exhausted ::
  "'w runtime \<Rightarrow> string \<Rightarrow> string \<Rightarrow> sync_phase \<Rightarrow> go_error option \<Rightarrow> 'w \<Rightarrow> (go_error + sync_result) option \<times> 'w" where
  "retries_exhausted rt corr object phase last_err w =
     (case last_err of
        None \<Rightarrow> (None, w)
      | Some e \<Rightarrow> (case new_sync_error rt phase object e False w of (err, w') \<Rightarrow> (Some (Inl (with_correlation corr err)), w')))"

lemma can_retry_attempts: "can_retry rt n rs w = (True, w') \<Longrightarrow> rv_attempts rs < n"
  by (simp add: can_retry_def split: if_splits)

function recovery_loop ::
  "'w runtime \<Rightarrow> 'w recovery_manager \<Rightarrow> string \<Rightarrow> string \<Rightarrow> string \<Rightarrow> sync_phase \<Rightarrow> 'w sync_op \<Rightarrow> recovery_state
   \<Rightarrow> go_error option \<Rightarrow> sync_breaker \<times> 'w \<Rightarrow> (go_error + sync_result) option \<times> sync_breaker \<times> 'w" where
  "recovery_loop rt rm corr source object phase op rs last_err s =
     (case can_retry rt (rg_max_retries (rm_config rm)) rs (snd s) of (again, w) \<Rightarrow>
        if again
        then (case recovery_attempt rt rm corr source object op rs (fst s, w) of
                (AttemptDone r, s') \<Rightarrow> (Some r, s')
              | (AttemptPanicked, s') \<Rightarrow> (None, s')
              | (GivenUp e, (cb, w')) \<Rightarrow>
                  (case retries_exhausted rt corr object phase (Some e) w' of (r, w'') \<Rightarrow> (r, cb, w''))
              | (TryAgain e rs', s') \<Rightarrow> recovery_loop rt rm corr source object phase op rs' (Some e) s')
        else (case retries_exhausted rt corr object phase last_err w of (r, w') \<Rightarrow> (r, fst s, w')))"
  by pat_completeness auto

termination
proof (relation "measure (\<lambda>(rt, rm, corr, source, object, phase, op, rs, last_err, s). nat (rg_max_retries (rm_config rm) - rv_attempts rs))", goal_cases)
  case 2
  then show ?case by (auto dest!: can_retry_attempts [OF sym] recovery_attempt_counts [OF sym])
qed simp

declare recovery_loop.simps [simp del]

definition new_recovery_state :: "string \<Rightarrow> string \<Rightarrow> sync_phase \<Rightarrow> instant \<Rightarrow> recovery_state" where
  "new_recovery_state source object phase now =
     zero_recovery_state\<lparr>rv_source := source, rv_object := object, rv_phase := sync_phase_text phase,
       rv_next_retry := now, rv_metadata := Some []\<rparr>"

definition find_recovery_state ::
  "'w runtime \<Rightarrow> 'w recovery_manager \<Rightarrow> string \<Rightarrow> string \<Rightarrow> sync_phase \<Rightarrow> 'w \<Rightarrow> recovery_state \<times> 'w" where
  "find_recovery_state rt rm source object phase w =
     (case rs_load (rm_store rm) source object w of
        (Inr rs, w1) \<Rightarrow> (rs, w1)
      | (Inl _, w1) \<Rightarrow> (case rt_now rt w1 of (now, w2) \<Rightarrow> (new_recovery_state source object phase now, w2)))"

definition recover_with_retry ::
  "'w runtime \<Rightarrow> 'w recovery_manager \<Rightarrow> string \<Rightarrow> string \<Rightarrow> sync_phase \<Rightarrow> 'w sync_op
   \<Rightarrow> sync_breaker \<times> 'w \<Rightarrow> (go_error + sync_result) option \<times> sync_breaker \<times> 'w" where
  "recover_with_retry rt rm source object phase op = (\<lambda>(cb, w).
     case rt_now rt w of (now, w1) \<Rightarrow>
       let corr = source @ ''_'' @ object @ ''_'' @ dec (now div second)
       in case find_recovery_state rt rm source object phase w1 of (rs, w2) \<Rightarrow>
            case can_retry rt (rg_max_retries (rm_config rm)) rs w2 of (ok, w3) \<Rightarrow>
              if \<not> ok
              then if rg_skip_failed (rm_config rm) then (Some (Inr empty_result), cb, w3)
                   else (Some (Inl (Msg (''max retries exceeded for '' @ source @ ''/'' @ object @ '' ('' @
                           dec (rv_attempts rs) @ '' attempts)''))), cb, w3)
              else recovery_loop rt rm corr source object phase op rs None (cb, w3))"

fun resume_states :: "'w runtime \<Rightarrow> 'w recovery_manager \<Rightarrow> recovery_state list \<Rightarrow> 'w \<Rightarrow> go_error list \<times> 'w" where
  "resume_states rt rm [] w = ([], w)"
| "resume_states rt rm (s # ss) w =
     (case can_retry rt (rg_max_retries (rm_config rm)) s w of (ok, w1) \<Rightarrow>
        if ok
        then (case rs_delete (rm_store rm) (rv_source s) (rv_object s) w1 of (r, w2) \<Rightarrow>
                case resume_states rt rm ss w2 of (es, w3) \<Rightarrow>
                  (case r of
                     Inl e \<Rightarrow> Wrap (''delete stale recovery state for '' @ rv_source s @ ''/'' @ rv_object s) e # es
                   | Inr _ \<Rightarrow> es, w3))
        else resume_states rt rm ss w1)"

definition resume_failed_syncs :: "'w runtime \<Rightarrow> 'w recovery_manager \<Rightarrow> string \<Rightarrow> ('w, unit) io" where
  "resume_failed_syncs rt rm source =
     io_bind (io_wrap ''list recovery states'' (rs_list (rm_store rm) source))
       (\<lambda>states w. case resume_states rt rm states w of (es, w') \<Rightarrow>
          (if es = [] then Inr () else Inl (Msg (''resume errors: '' @ slice_text (map err_text es))), w'))"

section \<open>It does not panic, and it never waits\<close>

text \<open>A second reading of the clock is not before the first.\<close>

definition clock_monotone :: "'w runtime \<Rightarrow> bool" where
  "clock_monotone rt \<longleftrightarrow>
     (\<forall>w t w' t' w''. rt_now rt w = (t, w') \<longrightarrow> rt_now rt w' = (t', w'') \<longrightarrow> t \<le> t')"

lemma can_retry_again:
  assumes "clock_monotone rt" and "can_retry rt n rs w = (True, w')"
  shows "fst (can_retry rt n rs w')"
  using assms by (force simp: can_retry_def clock_monotone_def split: prod.splits if_splits)

text \<open>The operation itself does not panic.\<close>

definition panic_free :: "('w, 'a) pio \<Rightarrow> bool" where
  "panic_free op \<longleftrightarrow> (\<forall>w. fst (op w) \<noteq> None)"

lemma sb_execute_no_panic:
  assumes "panic_free op"
  shows "sb_execute rt op s \<noteq> (None, s')"
proof -
  have "op w \<noteq> (None, w')" for w w' using assms by (metis fst_conv panic_free_def)
  then show ?thesis by (auto simp: sb_execute_def split: prod.splits option.splits sum.splits if_splits)
qed

lemma attempt_no_panic: "panic_free op \<Longrightarrow> fst (recovery_attempt rt rm corr source object op rs s) \<noteq> AttemptPanicked"
  by (cases s) (auto simp: recovery_attempt_def sb_execute_no_panic Let_def split: prod.splits option.splits sum.splits if_splits)

lemma loop_no_panic:
  "panic_free op \<Longrightarrow> fst (can_retry rt (rg_max_retries (rm_config rm)) rs (snd s)) \<or> last_err \<noteq> None \<Longrightarrow>
   fst (recovery_loop rt rm corr source object phase op rs last_err s) \<noteq> None"
proof (induction rt rm corr source object phase op rs last_err s rule: recovery_loop.induct)
  case (1 rt rm corr source object phase op rs last_err s)
  obtain again w where c: "can_retry rt (rg_max_retries (rm_config rm)) rs (snd s) = (again, w)" by (metis surj_pair)
  obtain out s' where a: "recovery_attempt rt rm corr source object op rs (fst s, w) = (out, s')" by (metis surj_pair)
  show ?case
  proof (cases again)
    case True
    show ?thesis
    proof (cases out)
      case (TryAgain e rs')
      with 1 c a True show ?thesis by (subst recovery_loop.simps) simp
    next
      case AttemptPanicked
      then show ?thesis using a attempt_no_panic [OF 1(2)] by (metis fst_conv)
    qed (use c a True in \<open>simp_all add: recovery_loop.simps retries_exhausted_def split: prod.splits\<close>)
  next
    case False
    with 1 c show ?thesis by (auto simp: recovery_loop.simps retries_exhausted_def split: prod.splits option.splits)
  qed
qed

lemma recover_no_panic:
  assumes "clock_monotone rt" and "panic_free op"
  shows "fst (recover_with_retry rt rm source object phase op s) \<noteq> None"
proof -
  have "fst (recovery_loop rt rm corr source object phase op rs None (cb, w')) \<noteq> None"
    if "can_retry rt (rg_max_retries (rm_config rm)) rs w = (True, w')" for corr rs cb w w'
    using can_retry_again [OF assms(1) that] assms(2) by (intro loop_no_panic) simp_all
  then show ?thesis by (auto simp: recover_with_retry_def Let_def split: prod.splits if_splits)
qed

lemma await_retry_skips:
  assumes "clock_monotone rt" and "can_retry rt n rs w = (True, w')"
  shows "fst (await_retry rt rs w') = None" and "await_retry (rt\<lparr>rt_wait := f\<rparr>) rs w' = await_retry rt rs w'"
  using assms by (force simp: can_retry_def clock_monotone_def await_retry_def split: prod.splits if_splits)+

lemma runtime_wait_other [simp]:
  "rt_now (rt\<lparr>rt_wait := f\<rparr>) = rt_now rt" "rt_rand (rt\<lparr>rt_wait := f\<rparr>) = rt_rand rt"
  "rt_f64_oob (rt\<lparr>rt_wait := f\<rparr>) = rt_f64_oob rt"
  by simp_all

lemma without_wait [simp]:
  "can_retry (rt\<lparr>rt_wait := f\<rparr>) = can_retry rt" "increment_attempt (rt\<lparr>rt_wait := f\<rparr>) = increment_attempt rt"
  "sb_execute (rt\<lparr>rt_wait := f\<rparr>) = sb_execute rt" "new_sync_error (rt\<lparr>rt_wait := f\<rparr>) = new_sync_error rt"
  "retries_exhausted (rt\<lparr>rt_wait := f\<rparr>) = retries_exhausted rt"
  "find_recovery_state (rt\<lparr>rt_wait := f\<rparr>) = find_recovery_state rt"
  unfolding fun_eq_iff can_retry_def increment_attempt_def sb_execute_def sb_can_execute_def new_sync_error_def
    retries_exhausted_def find_recovery_state_def runtime_wait_other by simp_all

lemma recovery_attempt_wait:
  assumes "clock_monotone rt" and "can_retry rt n rs w = (True, w')"
  shows "recovery_attempt (rt\<lparr>rt_wait := f\<rparr>) rm corr source object op rs (cb, w')
       = recovery_attempt rt rm corr source object op rs (cb, w')"
  unfolding recovery_attempt_def prod.case await_retry_skips(2) [OF assms] without_wait ..

lemma recovery_loop_wait:
  "clock_monotone rt \<Longrightarrow> recovery_loop (rt\<lparr>rt_wait := f\<rparr>) rm corr source object phase op rs last_err s
     = recovery_loop rt rm corr source object phase op rs last_err s"
proof (induction rt rm corr source object phase op rs last_err s rule: recovery_loop.induct)
  case (1 rt rm corr source object phase op rs last_err s)
  obtain again w where c: "can_retry rt (rg_max_retries (rm_config rm)) rs (snd s) = (again, w)" by (metis surj_pair)
  obtain out s' where a: "recovery_attempt rt rm corr source object op rs (fst s, w) = (out, s')" by (metis surj_pair)
  show ?case
  proof (cases again)
    case True
    have "recovery_attempt (rt\<lparr>rt_wait := f\<rparr>) rm corr source object op rs (fst s, w) = (out, s')"
      using recovery_attempt_wait [OF 1(2)] c a True by metis
    then show ?thesis using 1 c a True
      by (cases out) (simp_all add: recovery_loop.simps [of _ rm corr source object phase op rs])
  qed (simp add: recovery_loop.simps [of _ rm corr source object phase op rs] c)
qed

lemma recover_never_waits:
  assumes "clock_monotone rt"
  shows "recover_with_retry (rt\<lparr>rt_wait := f\<rparr>) rm source object phase op s
       = recover_with_retry rt rm source object phase op s"
proof -
  show ?thesis
    unfolding recover_with_retry_def runtime_wait_other without_wait recovery_loop_wait [OF assms] ..
qed

section \<open>How often the operation runs\<close>

text \<open>\<open>cnt\<close> counts the runs of \<open>op\<close> in the world; nothing else changes it.\<close>

locale counted_op =
  fixes cnt :: "'w \<Rightarrow> nat" and rt :: "'w runtime" and rm :: "'w recovery_manager" and op :: "'w sync_op"
  assumes now_cnt: "rt_now rt w = (t, w') \<Longrightarrow> cnt w' = cnt w"
    and rand_cnt: "rt_rand rt w = (u, w') \<Longrightarrow> cnt w' = cnt w"
    and wait_cnt: "rt_wait rt d w = (x, w') \<Longrightarrow> cnt w' = cnt w"
    and save_cnt: "rs_save (rm_store rm) rs w = (r, w') \<Longrightarrow> cnt w' = cnt w"
    and load_cnt: "rs_load (rm_store rm) a b w = (l, w') \<Longrightarrow> cnt w' = cnt w"
    and delete_cnt: "rs_delete (rm_store rm) a b w = (r, w') \<Longrightarrow> cnt w' = cnt w"
    and op_cnt: "op w = (y, w') \<Longrightarrow> cnt w' = cnt w + 1"
begin

lemmas count_steps = now_cnt rand_cnt wait_cnt save_cnt load_cnt delete_cnt op_cnt

lemma count_can_retry: "can_retry rt n rs w = (b, w') \<Longrightarrow> cnt w' = cnt w"
  by (auto simp: can_retry_def now_cnt split: if_splits prod.splits)

lemma count_await: "await_retry rt rs w = (x, w') \<Longrightarrow> cnt w' = cnt w"
  by (auto simp: await_retry_def split: if_splits prod.splits) (metis now_cnt wait_cnt)+

lemma count_increment: "increment_attempt rt a b rs w = (x, w') \<Longrightarrow> cnt w' = cnt w"
  by (auto simp: increment_attempt_def Let_def split: prod.splits) (metis now_cnt rand_cnt)

lemma count_sb_can_execute: "sb_can_execute rt (cb, w) = (ok, cb', w') \<Longrightarrow> cnt w' = cnt w"
  by (auto simp: sb_can_execute_def Let_def split: breaker_state.splits prod.splits if_splits) (metis now_cnt)+

lemma count_sb_execute:
  assumes "sb_execute rt op (cb, w) = (r, cb', w')"
  shows "cnt w' \<le> cnt w + 1"
proof -
  obtain ok cb1 w1 where c: "sb_can_execute rt (cb, w) = (ok, cb1, w1)" by (metis surj_pair)
  obtain y w2 where o: "op w1 = (y, w2)" by (metis surj_pair)
  have "cnt w2 = cnt w + 1" using count_sb_can_execute [OF c] op_cnt [OF o] by simp
  moreover have "cnt w' = cnt w2 \<or> cnt w' = cnt w1"
    using assms c o by (auto simp: sb_execute_def split: if_splits option.splits sum.splits prod.splits dest: now_cnt)
  ultimately show ?thesis using count_sb_can_execute [OF c] by auto
qed

lemma count_attempt:
  assumes "recovery_attempt rt rm corr source object op rs (cb, w) = (out, cb', w')"
  shows "cnt w' \<le> cnt w + 1"
proof -
  obtain x w1 where aw: "await_retry rt rs w = (x, w1)" by (metis surj_pair)
  obtain rs' w2 where inc: "increment_attempt rt (rg_base_delay (rm_config rm)) (rg_max_delay (rm_config rm)) rs w1 = (rs', w2)"
    by (metis surj_pair)
  obtain y cb1 w3 where ex: "sb_execute rt op (cb, w2) = (y, cb1, w3)" by (metis surj_pair)
  have w3: "cnt w3 \<le> cnt w + 1" using count_await [OF aw] count_increment [OF inc] count_sb_execute [OF ex] by simp
  show ?thesis
  proof (cases x)
    case (Some e)
    then show ?thesis using assms aw count_await [OF aw] by (simp add: recovery_attempt_def)
  next
    case None
    then have "cnt w' = cnt w3"
      using assms aw inc ex
      by (auto simp: recovery_attempt_def Let_def split: sum.splits option.splits prod.splits if_splits dest: save_cnt delete_cnt)
    with w3 show ?thesis by simp
  qed
qed

lemma count_exhausted: "retries_exhausted rt corr object phase last_err w = (r, w') \<Longrightarrow> cnt w' = cnt w"
  by (auto simp: retries_exhausted_def new_sync_error_def split: option.splits prod.splits) (metis now_cnt)+

lemma count_loop:
  "recovery_loop rt rm corr source object phase op rs last_err s = (r, cb', w') \<Longrightarrow>
   int (cnt w') \<le> int (cnt (snd s)) + max 0 (rg_max_retries (rm_config rm) - rv_attempts rs)"
proof (induction "nat (rg_max_retries (rm_config rm) - rv_attempts rs)" arbitrary: rs last_err s rule: less_induct)
  case less
  obtain again w where c: "can_retry rt (rg_max_retries (rm_config rm)) rs (snd s) = (again, w)" by (metis surj_pair)
  have w: "cnt w = cnt (snd s)" by (rule count_can_retry [OF c])
  obtain out cb1 w1 where a: "recovery_attempt rt rm corr source object op rs (fst s, w) = (out, cb1, w1)"
    by (metis surj_pair)
  have w1: "cnt w1 \<le> cnt (snd s) + 1" using count_attempt [OF a] w by simp
  show ?case
  proof (cases again)
    case True
    with c have lt: "rv_attempts rs < rg_max_retries (rm_config rm)" by (auto dest: can_retry_attempts)
    show ?thesis
    proof (cases out)
      case (TryAgain e rs')
      have n: "rv_attempts rs' = rv_attempts rs + 1" using a TryAgain by (simp add: recovery_attempt_counts)
      have "recovery_loop rt rm corr source object phase op rs' (Some e) (cb1, w1) = (r, cb', w')"
        using less.prems c a True TryAgain by (simp add: recovery_loop.simps [of _ _ _ _ _ _ _ rs])
      from less.hyps [OF _ this] lt n w1 show ?thesis by simp
    next
      case (GivenUp e)
      then have "cnt w' = cnt w1"
        using less.prems c a True
        by (simp add: recovery_loop.simps [of _ _ _ _ _ _ _ rs] split: prod.splits) (metis count_exhausted)
      with w1 lt show ?thesis by simp
    next
      case AttemptPanicked
      then have "w' = w1" using less.prems c a True by (simp add: recovery_loop.simps [of _ _ _ _ _ _ _ rs])
      with w1 lt show ?thesis by simp
    next
      case (AttemptDone x)
      then have "w' = w1" using less.prems c a True by (simp add: recovery_loop.simps [of _ _ _ _ _ _ _ rs])
      with w1 lt show ?thesis by simp
    qed
  next
    case False
    then have "cnt w' = cnt w"
      using less.prems c by (simp add: recovery_loop.simps [of _ _ _ _ _ _ _ rs] split: prod.splits) (metis count_exhausted)
    with w show ?thesis by simp
  qed
qed

text \<open>A loaded state's attempts count: with \<open>n\<close> of them on record, at most \<open>max - n\<close> runs are left.\<close>

lemma count_recover:
  assumes "recover_with_retry rt rm source object phase op (cb, w) = (r, cb', w')"
  shows "\<exists>rs w1. find_recovery_state rt rm source object phase (snd (rt_now rt w)) = (rs, w1)
    \<and> int (cnt w') \<le> int (cnt w) + max 0 (rg_max_retries (rm_config rm) - rv_attempts rs)"
proof -
  obtain now w1 where now: "rt_now rt w = (now, w1)" by (metis surj_pair)
  obtain rs w2 where find: "find_recovery_state rt rm source object phase w1 = (rs, w2)" by (metis surj_pair)
  have w2: "cnt w2 = cnt w"
    using find now_cnt [OF now]
    by (auto simp: find_recovery_state_def split: prod.splits sum.splits dest!: load_cnt) (metis now_cnt)
  obtain ok w3 where c: "can_retry rt (rg_max_retries (rm_config rm)) rs w2 = (ok, w3)" by (metis surj_pair)
  have w3: "cnt w3 = cnt w" using count_can_retry [OF c] w2 by simp
  have "int (cnt w') \<le> int (cnt w) + max 0 (rg_max_retries (rm_config rm) - rv_attempts rs)"
  proof (cases ok)
    case True
    then have "recovery_loop rt rm (source @ ''_'' @ object @ ''_'' @ dec (now div second)) source object phase op rs None (cb, w3)
        = (r, cb', w')"
      using assms now find c by (simp add: recover_with_retry_def Let_def)
    from count_loop [OF this] w3 show ?thesis by simp
  next
    case False
    then have "w' = w3" using assms now find c by (auto simp: recover_with_retry_def Let_def split: if_splits)
    with w3 show ?thesis by simp
  qed
  then show ?thesis using now find by auto
qed

end

text \<open>The same manager and operation in a world with a counter.\<close>

definition recovery_store_snd :: "'w recovery_store \<Rightarrow> ('c \<times> 'w) recovery_store" where
  "recovery_store_snd rs =
     \<lparr>rs_save = (\<lambda>x. io_snd (rs_save rs x)), rs_load = (\<lambda>x y. io_snd (rs_load rs x y)),
      rs_delete = (\<lambda>x y. io_snd (rs_delete rs x y)), rs_list = (\<lambda>x. io_snd (rs_list rs x))\<rparr>"

definition manager_snd :: "'w recovery_manager \<Rightarrow> ('c \<times> 'w) recovery_manager" where
  "manager_snd rm = \<lparr>rm_config = rm_config rm, rm_store = recovery_store_snd (rm_store rm)\<rparr>"

lemma manager_snd_config [simp]: "rm_config (manager_snd rm) = rm_config rm"
  by (simp add: manager_snd_def)

definition count_op :: "'w sync_op \<Rightarrow> (nat \<times> 'w) sync_op" where
  "count_op op = (\<lambda>(n, w). case op w of (r, w') \<Rightarrow> (r, (Suc n, w')))"

interpretation counting: counted_op fst "rt_snd rt" "manager_snd rm" "count_op op"
  by unfold_locales
    (auto simp: rt_snd_def lift_snd_def manager_snd_def recovery_store_snd_def io_snd_def count_op_def split: prod.splits)

lemma clock_monotone_snd: "clock_monotone rt \<Longrightarrow> clock_monotone (rt_snd rt)"
  by (auto simp: clock_monotone_def rt_snd_def lift_snd_def split: prod.splits)

lemma panic_free_count: "panic_free op \<Longrightarrow> panic_free (count_op op)"
  by (simp add: panic_free_def count_op_def case_prod_unfold)

section \<open>Objects that ran out of attempts\<close>

lemma resume_skips_exhausted:
  "\<forall>s \<in> set states. rg_max_retries (rm_config rm) \<le> rv_attempts s \<Longrightarrow> resume_states rt rm states w = ([], w)"
  by (induction states) (auto simp: can_retry_def)

lemma recover_exhausted:
  assumes "find_recovery_state rt rm source object phase (snd (rt_now rt w)) = (rs, w1)"
    and "rg_max_retries (rm_config rm) \<le> rv_attempts rs"
  shows "recover_with_retry rt rm source object phase op (cb, w)
    = (Some (if rg_skip_failed (rm_config rm) then Inr empty_result
             else Inl (Msg (''max retries exceeded for '' @ source @ ''/'' @ object @ '' ('' @ dec (rv_attempts rs) @ '' attempts)''))),
       cb, w1)"
  using assms by (auto simp: recover_with_retry_def Let_def can_retry_def split: prod.splits)

section \<open>The contract of the store\<close>

text \<open>\<open>rview w source object\<close> is the state on record. Empty maps come back nil (\<open>rv_norm\<close>).\<close>

locale recovery_laws =
  fixes rs :: "'w recovery_store" and rview :: "'w \<Rightarrow> string \<Rightarrow> string \<Rightarrow> recovery_state option"
  assumes load_ok: "rs_load rs a b w = (Inr s, w') \<Longrightarrow> rview w a b = Some s"
    and load_view: "rs_load rs a b w = (r, w') \<Longrightarrow> rview w' = rview w"
    and save_ok: "rs_save rs s w = (Inr u, w') \<Longrightarrow> wf_recovery_state s \<Longrightarrow> rview w' (rv_source s) (rv_object s) = Some (rv_norm s)"
    and delete_ok: "rs_delete rs a b w = (Inr u, w') \<Longrightarrow> rview w' a b = None"
begin

text \<open>What was saved is what the next call starts from.\<close>

lemma load_after_save:
  assumes "rs_save rs s w = (Inr u, w1)" and "wf_recovery_state s"
    and "rs_load rs (rv_source s) (rv_object s) w1 = (Inr s', w2)"
  shows "s' = rv_norm s"
  using load_ok [OF assms(3)] save_ok [OF assms(1,2)] by simp

lemma load_after_delete:
  assumes "rs_delete rs a b w = (Inr u, w1)" and "rs_load rs a b w1 = (r, w2)"
  shows "\<exists>e. r = Inl e"
  using delete_ok [OF assms(1)] load_ok [of a b w1 _ w2] assms(2) by (cases r) auto

lemma find_after_save:
  assumes "rs_save rs s w = (Inr u, w1)" and "wf_recovery_state s" and "rm_store rm = rs"
    and "find_recovery_state rt rm (rv_source s) (rv_object s) phase w1 = (s', w2)"
    and "\<exists>x w'. rs_load rs (rv_source s) (rv_object s) w1 = (Inr x, w')"
  shows "rv_attempts s' = rv_attempts s"
  using assms load_after_save [OF assms(1,2)]
  by (auto simp: find_recovery_state_def rv_norm_def)

end

text \<open>What an object store has on record.\<close>

definition on_record :: "string \<Rightarrow> objects \<Rightarrow> string \<Rightarrow> string \<Rightarrow> recovery_state option" where
  "on_record prefix m a b =
     Option.bind (m (recovery_key prefix a b)) (\<lambda>d.
     Option.bind (json_unmarshal d) (\<lambda>j. into_recovery_state j zero_recovery_state))"

text \<open>A store that can delete.\<close>

locale deleting_store = s3_store ops view for ops :: "'w store_ops" and view +
  fixes delete :: "string \<Rightarrow> ('w, unit) io"
  assumes delete_ok: "delete k w = (Inr u, w') \<Longrightarrow> view w' = (view w)(k := None)"
    and delete_err: "delete k w = (Inl e, w') \<Longrightarrow> view w' = view w \<or> view w' = (view w)(k := None)"
begin

lemma recovery_store_laws: "recovery_laws (s3_recovery_store ops delete prefix) (on_record prefix \<circ> view)"
proof
  fix a b w s w' assume "rs_load (s3_recovery_store ops delete prefix) a b w = (Inr s, w')"
  then show "(on_record prefix \<circ> view) w a b = Some s"
    by (auto simp: s3_recovery_store_def load_recovery_state_def get_json_into_def on_record_def
        elim!: io_wrap_InrE io_bind_InrE dest!: get_json_ok split: option.splits)
next
  fix a b w r w' assume "rs_load (s3_recovery_store ops delete prefix) a b w = (r, w')"
  then have "view w' = view w"
    by (auto simp: s3_recovery_store_def load_recovery_state_def get_json_into_def io_wrap_def io_bind_def
        dest: get_json_view split: prod.splits sum.splits option.splits)
  then show "(on_record prefix \<circ> view) w' = (on_record prefix \<circ> view) w" by simp
next
  fix s w u w' assume "rs_save (s3_recovery_store ops delete prefix) s w = (Inr u, w')" and wf: "wf_recovery_state s"
  then have "view w' = (view w)(recovery_key prefix (rv_source s) (rv_object s) \<mapsto> json_indent (enc_recovery_state s))"
    by (auto simp: s3_recovery_store_def save_recovery_state_def put_value_def dest: put_json_ok split: if_splits)
  then show "(on_record prefix \<circ> view) w' (rv_source s) (rv_object s) = Some (rv_norm s)"
    by (simp add: on_record_def wf_json_recovery_state [OF wf] into_recovery_state_enc [OF wf])
next
  fix a b w u w' assume "rs_delete (s3_recovery_store ops delete prefix) a b w = (Inr u, w')"
  then have "view w' = (view w)(recovery_key prefix a b := None)"
    by (simp add: s3_recovery_store_def delete_ok)
  then show "(on_record prefix \<circ> view) w' a b = None" by (simp add: on_record_def)
qed

end

sublocale deleting_store \<subseteq> recovery: recovery_laws "s3_recovery_store ops delete prefix" "on_record prefix \<circ> view"
  by (rule recovery_store_laws)

text \<open>The client of the bucket in memory deletes.\<close>

interpretation lake_store: deleting_store "s3_ops mem_rt lake_client" "client_view lake_client mem_view" "s3_delete lake_client"
proof unfold_locales
  fix k u and s s' :: "breaker \<times> mem_world" assume "s3_delete lake_client k s = (Inr u, s')"
  then show "client_view lake_client mem_view s' = (client_view lake_client mem_view s)(k := None)"
    by (cases s)
       (auto simp: s3_delete_def io_snd_def io_wrap_def mem_aws_def lake_client_def new_s3_client_def mem_effect_def client_view_def mem_view_def full_key_def
         fun_eq_iff dest!: next_fault_cases split: prod.splits sum.splits fault.splits)
next
  fix k e and s s' :: "breaker \<times> mem_world" assume "s3_delete lake_client k s = (Inl e, s')"
  then show "client_view lake_client mem_view s' = client_view lake_client mem_view s
      \<or> client_view lake_client mem_view s' = (client_view lake_client mem_view s)(k := None)"
    by (cases s)
       (auto simp: s3_delete_def io_snd_def io_wrap_def mem_aws_def lake_client_def new_s3_client_def mem_effect_def client_view_def mem_view_def full_key_def
         fun_eq_iff dest!: next_fault_cases split: prod.splits sum.splits fault.splits)
qed

end
