(* ===== verification/DeltaTable.thy ===== *)
theory DeltaTable
  imports DeltaLog RetryExec
begin

text \<open>
  internal/storage/delta/table.go: a Delta table. \<open>Snapshot\<close> replays the log; \<open>Commit\<close> appends the
  next version, with retries and a circuit breaker around the whole attempt. The state of the
  breaker is a component of the world, and so is whatever the checkpoint hook changes. Proved
  under the store contract: a snapshot is the replay of the log, a commit appends exactly one
  version, and a commit whose earlier attempts failed after they had written repeats the actions
  without changing the files.
\<close>

section \<open>Snapshots\<close>

record snapshot =
  sn_version :: int
  sn_protocol :: "protocol option"
  sn_metadata :: "metadata option"
  sn_files :: "(string, add) gomap"

definition empty_snapshot :: "int \<Rightarrow> snapshot" where
  "empty_snapshot version =
     \<lparr>sn_version = version, sn_protocol = None, sn_metadata = None, sn_files = []\<rparr>"

definition apply_action :: "action \<Rightarrow> snapshot \<Rightarrow> snapshot" where
  "apply_action a snap =
     (case ac_protocol a of
        Some p \<Rightarrow> snap\<lparr>sn_protocol := Some p\<rparr>
      | None \<Rightarrow>
          (case ac_metadata a of
             Some m \<Rightarrow> snap\<lparr>sn_metadata := Some m\<rparr>
           | None \<Rightarrow>
               (case ac_add a of
                  Some f \<Rightarrow> snap\<lparr>sn_files := AList.update (ad_path f) f (sn_files snap)\<rparr>
                | None \<Rightarrow>
                    (case ac_remove a of
                       Some r \<Rightarrow> snap\<lparr>sn_files := AList.delete (rm_path r) (sn_files snap)\<rparr>
                     | None \<Rightarrow> snap))))"

definition replay :: "action list \<Rightarrow> snapshot \<Rightarrow> snapshot" where
  "replay actions snap = fold apply_action actions snap"

function snapshot_loop :: "'w transaction_log \<Rightarrow> int \<Rightarrow> int \<Rightarrow> snapshot \<Rightarrow> ('w, snapshot) io" where
  "snapshot_loop l version v snap =
     (if v \<le> version
      then io_bind (io_wrap (''read version '' @ dec v) (read_version l v))
             (\<lambda>actions. snapshot_loop l version (v + 1) (replay actions snap))
      else io_ret snap)"
  by pat_completeness auto
termination by (relation "measure (\<lambda>(l, version, v, snap). nat (version + 1 - v))") auto

declare snapshot_loop.simps [simp del]

record 'w delta_table =
  dt_log :: "'w transaction_log"
  dt_source :: string
  dt_object :: string
  dt_retry_policy :: "'w retry_policy option"

definition table_snapshot :: "'w delta_table \<Rightarrow> int \<Rightarrow> ('w, snapshot) io" where
  "table_snapshot t version =
     (if version = -1
      then io_bind (latest_version (dt_log t))
             (\<lambda>latest. if latest < 0 then io_fail (Msg ''table has no versions'')
                       else snapshot_loop (dt_log t) latest 0 (empty_snapshot latest))
      else snapshot_loop (dt_log t) version 0 (empty_snapshot version))"

definition active_files ::
  "((string \<times> add) list \<Rightarrow> (string \<times> add) list) \<Rightarrow> 'w delta_table \<Rightarrow> ('w, string list) io" where
  "active_files ord t = io_bind (table_snapshot t (-1)) (\<lambda>snap. io_ret (map fst (ord (sn_files snap))))"

section \<open>The table\<close>

text \<open>\<open>initializeRetryPolicies\<close>; the breaker that goes with it is \<open>delta_breaker\<close>.\<close>

definition delta_retry_policy :: "'w retry_policy" where
  "delta_retry_policy =
     \<lparr>rp_max_attempts = 3, rp_base_delay = 500 * millisecond, rp_max_delay = 10 * second,
      rp_backoff = Some linear_backoff, rp_retryable = Some default_retryable, rp_on_retry = None,
      rp_jitter = False\<rparr>"

definition delta_breaker :: breaker where
  "delta_breaker = new_circuit_breaker ''delta_operations'' 5 (2 * minute)"

definition new_delta_table :: "'w store_ops \<Rightarrow> string \<Rightarrow> string \<Rightarrow> string \<Rightarrow> 'w delta_table" where
  "new_delta_table store source object log_prefix =
     \<lparr>dt_log = new_transaction_log store log_prefix, dt_source = source, dt_object = object,
      dt_retry_policy = Some delta_retry_policy\<rparr>"

definition io_now :: "'w runtime \<Rightarrow> ('w, instant) io" where
  "io_now rt w = (case rt_now rt w of (t, w') \<Rightarrow> (Inr t, w'))"

definition table_initialize :: "'w runtime \<Rightarrow> 'w delta_table \<Rightarrow> string \<Rightarrow> ('w, unit) io" where
  "table_initialize rt t schema_string =
     io_bind (io_wrap ''check existing table'' (latest_version (dt_log t)))
       (\<lambda>existing.
          if 0 \<le> existing then io_ret ()
          else io_bind (io_now rt) (\<lambda>now1. io_bind (io_now rt) (\<lambda>now2.
            let table_id = dt_source t @ ''_'' @ dt_object t
            in io_wrap ''initialize table''
                 (write_version (dt_log t) 0
                    [new_protocol_action, new_metadata_action now1 table_id (dt_object t) schema_string,
                     new_commit_info_action now2 ''CREATE TABLE'' (-1) True]))))"

text \<open>
  One attempt of \<open>Commit\<close>. \<open>checkpoint\<close> is the checkpoint manager's \<open>MaybeCheckpoint\<close>, when the
  table has one; its error is logged and dropped.
\<close>

definition commit_op ::
  "'w runtime \<Rightarrow> 'w delta_table \<Rightarrow> (int \<Rightarrow> ('w, unit) io) option \<Rightarrow> action list \<Rightarrow> string \<Rightarrow> ('w, int) io" where
  "commit_op rt t checkpoint actions operation =
     io_bind (io_wrap ''get latest version'' (latest_version (dt_log t)))
       (\<lambda>latest.
          let new_version = wrap64 (latest + 1)
          in io_bind (io_now rt) (\<lambda>now.
               io_bind
                 (io_wrap (''commit version '' @ dec new_version)
                    (write_version (dt_log t) new_version
                       (actions @ [new_commit_info_action now operation latest True])))
                 (\<lambda>_. case checkpoint of
                        None \<Rightarrow> io_ret new_version
                      | Some maybe_checkpoint \<Rightarrow>
                          io_try (maybe_checkpoint new_version) (\<lambda>_. io_ret new_version))))"

definition table_commit ::
  "'w runtime \<Rightarrow> 'w delta_table \<Rightarrow> (int \<Rightarrow> ('w, unit) io) option \<Rightarrow> action list \<Rightarrow> string
   \<Rightarrow> (breaker option \<times> 'w, int) io" where
  "table_commit rt t checkpoint actions operation = (\<lambda>(cb, w).
     case (dt_retry_policy t, cb) of
       (Some p, Some b) \<Rightarrow>
         (case execute_with_retry_and_circuit_breaker rt p (commit_op rt t checkpoint actions operation) (b, w) of
            (r, (b', w')) \<Rightarrow> (r, (Some b', w')))
     | _ \<Rightarrow> (case commit_op rt t checkpoint actions operation w of (r, w') \<Rightarrow> (r, (cb, w'))))"

definition create_backup_check :: "'w delta_table \<Rightarrow> ('w, unit) io" where
  "create_backup_check t =
     io_bind (io_wrap ''get latest version for backup'' (latest_version (dt_log t)))
       (\<lambda>latest.
          if latest < 0 then io_fail (Msg ''cannot backup table with no versions'')
          else io_bind (io_wrap ''cannot create snapshot for backup'' (table_snapshot t latest))
                 (\<lambda>_. io_ret ()))"

section \<open>Replaying\<close>

text \<open>
  What a list of actions says about one path: \<open>None\<close> when no action names it, else the file it is
  left with. A later action overrides an earlier one.
\<close>

definition file_effect :: "action \<Rightarrow> (string \<times> add option) option" where
  "file_effect a =
     (if ac_protocol a \<noteq> None \<or> ac_metadata a \<noteq> None then None
      else case ac_add a of
             Some f \<Rightarrow> Some (ad_path f, Some f)
           | None \<Rightarrow> map_option (\<lambda>r. (rm_path r, None)) (ac_remove a))"

definition last_effect :: "action list \<Rightarrow> string \<Rightarrow> add option option" where
  "last_effect actions = map_of (rev (List.map_filter file_effect actions))"

lemma apply_action_version [simp]: "sn_version (apply_action a s) = sn_version s"
  by (simp add: apply_action_def split: option.splits)

lemma replay_simps [simp]:
  "replay [] s = s" "replay (a # as) s = replay as (apply_action a s)"
  "replay (as @ bs) s = replay bs (replay as s)" "sn_version (replay as s) = sn_version s"
proof -
  show "sn_version (replay as s) = sn_version s"
    unfolding replay_def by (induction as arbitrary: s) simp_all
qed (simp_all add: replay_def)

lemma map_of_apply_action:
  "map_of (sn_files (apply_action a s)) p =
     (case file_effect a of
        None \<Rightarrow> map_of (sn_files s) p
      | Some (q, x) \<Rightarrow> if p = q then x else map_of (sn_files s) p)"
  by (auto simp: apply_action_def file_effect_def split: option.splits)

lemma last_effect_Nil [simp]: "last_effect [] p = None"
  by (simp add: last_effect_def List.map_filter_simps)

lemma last_effect_Cons:
  "last_effect (a # as) p =
     (case last_effect as p of
        Some x \<Rightarrow> Some x
      | None \<Rightarrow> (case file_effect a of Some (q, x) \<Rightarrow> if p = q then Some x else None | None \<Rightarrow> None))"
  by (auto simp: last_effect_def List.map_filter_simps map_add_def split: option.splits)

text \<open>The files after a replay: per path, the last action that names it decides.\<close>

lemma map_of_replay:
  "map_of (sn_files (replay as s)) p =
     (case last_effect as p of Some x \<Rightarrow> x | None \<Rightarrow> map_of (sn_files s) p)"
  by (induction as arbitrary: s) (auto simp: last_effect_Cons map_of_apply_action split: option.splits)

lemma keys_distinct_apply_action:
  "keys_distinct (sn_files s) \<Longrightarrow> keys_distinct (sn_files (apply_action a s))"
  by (auto simp: apply_action_def split: option.splits)

lemma keys_distinct_replay: "keys_distinct (sn_files s) \<Longrightarrow> keys_distinct (sn_files (replay as s))"
  by (induction as arbitrary: s) (auto intro: keys_distinct_apply_action)

text \<open>Replaying the same actions again changes no file.\<close>

lemma last_effect_append:
  "last_effect (as @ bs) p = (case last_effect bs p of Some x \<Rightarrow> Some x | None \<Rightarrow> last_effect as p)"
  by (induction as) (auto simp: last_effect_Cons split: option.splits)

lemma file_effect_commit_info [simp]: "file_effect (new_commit_info_action now op v b) = None"
  by (simp add: file_effect_def new_commit_info_action_def zero_action_def)

lemma last_effect_repeat:
  "\<forall>bs \<in> set bss. last_effect bs = last_effect as \<Longrightarrow> bss \<noteq> [] \<Longrightarrow>
   last_effect (concat bss) p = last_effect as p"
proof (induction bss)
  case (Cons bs bss)
  then show ?case by (cases "bss = []") (auto simp: last_effect_append split: option.splits)
qed simp

text \<open>The protocol and the metadata a list of actions leaves.\<close>

definition last_protocol :: "action list \<Rightarrow> protocol option" where
  "last_protocol actions = (case filter (\<lambda>a. ac_protocol a \<noteq> None) actions of [] \<Rightarrow> None
                            | as \<Rightarrow> ac_protocol (last as))"

definition last_metadata :: "action list \<Rightarrow> metadata option" where
  "last_metadata actions =
     (case filter (\<lambda>a. ac_protocol a = None \<and> ac_metadata a \<noteq> None) actions of [] \<Rightarrow> None
      | as \<Rightarrow> ac_metadata (last as))"

lemma sn_protocol_replay:
  "sn_protocol (replay as s) = (case last_protocol as of Some x \<Rightarrow> Some x | None \<Rightarrow> sn_protocol s)"
proof (induction as arbitrary: s)
  case (Cons a as)
  have "sn_protocol (apply_action a s) = (case ac_protocol a of Some x \<Rightarrow> Some x | None \<Rightarrow> sn_protocol s)"
    by (auto simp: apply_action_def split: option.splits)
  moreover have "last_protocol (a # as) = (case last_protocol as of Some x \<Rightarrow> Some x | None \<Rightarrow> ac_protocol a)"
  proof (cases "filter (\<lambda>a. ac_protocol a \<noteq> None) as")
    case (Cons b bs)
    then have "last (b # bs) \<in> set (filter (\<lambda>a. ac_protocol a \<noteq> None) as)" by simp
    then have "ac_protocol (last (b # bs)) \<noteq> None" by (auto simp only: set_filter mem_Collect_eq)
    with Cons show ?thesis
      by (cases "bs = []") (auto simp: last_protocol_def split: option.splits)
  qed (auto simp: last_protocol_def)
  ultimately show ?case using Cons.IH by (simp split: option.splits)
qed (simp add: last_protocol_def)

lemma sn_metadata_replay:
  "sn_metadata (replay as s) = (case last_metadata as of Some x \<Rightarrow> Some x | None \<Rightarrow> sn_metadata s)"
proof (induction as arbitrary: s)
  case (Cons a as)
  let ?P = "\<lambda>a. ac_protocol a = None \<and> ac_metadata a \<noteq> None"
  have "sn_metadata (apply_action a s) = (if ?P a then ac_metadata a else sn_metadata s)"
    by (auto simp: apply_action_def split: option.splits)
  moreover have "last_metadata (a # as)
      = (case last_metadata as of Some x \<Rightarrow> Some x | None \<Rightarrow> if ?P a then ac_metadata a else None)"
  proof (cases "filter ?P as")
    case (Cons b bs)
    then have "last (b # bs) \<in> set (filter ?P as)" by simp
    then have "ac_metadata (last (b # bs)) \<noteq> None" by (auto simp only: set_filter mem_Collect_eq)
    with Cons show ?thesis
      by (cases "bs = []") (auto simp: last_metadata_def split: option.splits)
  qed (auto simp: last_metadata_def)
  ultimately show ?case using Cons.IH by (auto split: option.splits)
qed (simp add: last_metadata_def)

text \<open>Two snapshots of the same table: protocol, metadata and active files agree.\<close>

definition same_table :: "snapshot \<Rightarrow> snapshot \<Rightarrow> bool" where
  "same_table s s' \<longleftrightarrow>
     sn_protocol s = sn_protocol s' \<and> sn_metadata s = sn_metadata s'
     \<and> map_of (sn_files s) = map_of (sn_files s')"

lemma same_table_refl [simp]: "same_table s s"
  by (simp add: same_table_def)

lemma same_table_trans: "same_table s s' \<Longrightarrow> same_table s' s'' \<Longrightarrow> same_table s s''"
  by (simp add: same_table_def)

lemma same_table_replay: "same_table s s' \<Longrightarrow> same_table (replay as s) (replay as s')"
  by (auto simp: same_table_def sn_protocol_replay sn_metadata_replay map_of_replay fun_eq_iff
      split: option.splits)

text \<open>Replaying a list of actions a second time changes nothing.\<close>

lemma replay_twice: "same_table (replay as (replay as s)) (replay as s)"
  by (auto simp: same_table_def sn_protocol_replay sn_metadata_replay map_of_replay fun_eq_iff
      split: option.splits)

lemma replay_commit_info [simp]: "apply_action (new_commit_info_action now op v b) s = s"
  by (simp add: apply_action_def new_commit_info_action_def zero_action_def)

section \<open>Logs as functions from versions to actions\<close>

definition log_actions :: "string \<Rightarrow> objects \<Rightarrow> int \<Rightarrow> action list option" where
  "log_actions p m v =
     (case m (version_key p v) of
        None \<Rightarrow> None
      | Some d \<Rightarrow> (case decode_actions d of Inl _ \<Rightarrow> None | Inr as \<Rightarrow> Some as))"

fun replay_log :: "(int \<Rightarrow> action list option) \<Rightarrow> nat \<Rightarrow> snapshot \<Rightarrow> snapshot option" where
  "replay_log L 0 s = Some s"
| "replay_log L (Suc n) s =
     (case replay_log L n s of
        None \<Rightarrow> None
      | Some s' \<Rightarrow> map_option (\<lambda>as. replay as s') (L (int n)))"

lemma replay_log_cong:
  "(\<And>v. 0 \<le> v \<Longrightarrow> v < int n \<Longrightarrow> L v = L' v) \<Longrightarrow> replay_log L n s = replay_log L' n s"
  by (induction n) (auto split: option.splits)

lemma replay_log_shift:
  "L 0 = Some as \<Longrightarrow> replay_log (\<lambda>v. L (v + 1)) n (replay as s) = replay_log L (Suc n) s"
proof (induction n)
  case (Suc n)
  have n: "int (Suc n) = int n + 1" by simp
  show ?case
    unfolding replay_log.simps(2) [of "\<lambda>v. L (v + 1)" n] replay_log.simps(2) [of L "Suc n"] n
      Suc.IH [OF Suc.prems] ..
qed simp

lemma replay_log_version: "replay_log L n s = Some s' \<Longrightarrow> sn_version s' = sn_version s"
  by (induction n arbitrary: s') (auto split: option.splits)

text \<open>The snapshot's version number plays no part in a replay.\<close>

lemma replay_log_start:
  assumes "replay_log L n s = Some s'" and "same_table s0 s"
  shows "\<exists>s0'. replay_log L n s0 = Some s0' \<and> same_table s0' s'"
  using assms(1)
proof (induction n arbitrary: s')
  case (Suc n)
  then obtain s1 as where s1: "replay_log L n s = Some s1" "L (int n) = Some as" "s' = replay as s1"
    by (auto split: option.splits)
  with Suc.IH obtain s0' where "replay_log L n s0 = Some s0'" "same_table s0' s1" by blast
  with s1 show ?case using same_table_replay by auto
qed (use assms(2) in auto)

text \<open>A log that holds the versions below \<open>n\<close> and nothing else that counts as a version.\<close>

definition log_upto :: "string \<Rightarrow> objects \<Rightarrow> int \<Rightarrow> bool" where
  "log_upto p m n \<longleftrightarrow> 0 \<le> n \<and> n < 2 ^ 63 \<and> log_clean p m \<and> log_versions p m = {v. 0 \<le> v \<and> v < n}"

lemma log_actions_write:
  assumes "list_all wf_action as" and "0 \<le> v" and "0 \<le> v'"
  shows "log_actions p (m(version_key p v \<mapsto> encode_actions as)) v'
         = (if v' = v then Some as else log_actions p m v')"
  using assms version_key_inject [OF assms(2,3), of p]
  by (auto simp: log_actions_def)

lemma log_upto_write:
  assumes "log_upto p m n" and "n + 1 < 2 ^ 63"
  shows "log_upto p (m(version_key p n \<mapsto> d)) (n + 1)"
proof -
  have n: "valid_version n" using assms by (auto simp: log_upto_def valid_version_def)
  then show ?thesis
    using assms log_clean_version [OF _ n] log_versions_version [OF n]
    unfolding log_upto_def by auto
qed

section \<open>One attempt\<close>

text \<open>
  Two collections of objects hold the same log when they agree on every key the listing could
  take for a version. Checkpoint files and data files make no difference to a log.
\<close>

definition log_same :: "string \<Rightarrow> objects \<Rightarrow> objects \<Rightarrow> bool" where
  "log_same p m m' \<longleftrightarrow> (\<forall>k. has_prefix k p \<longrightarrow> version_of_key k \<noteq> None \<longrightarrow> m' k = m k)"

lemma log_same_refl [simp, intro]: "log_same p m m"
  by (simp add: log_same_def)

lemma log_same_trans: "log_same p m m' \<Longrightarrow> log_same p m' m'' \<Longrightarrow> log_same p m m''"
  by (simp add: log_same_def)

lemma log_same_update:
  "log_same p m m' \<Longrightarrow> log_same p (m(k \<mapsto> d)) (m'(k \<mapsto> d))"
  by (simp add: log_same_def)

lemma log_same_other: "has_prefix k p \<longrightarrow> version_of_key k = None \<Longrightarrow> log_same p m (m(k \<mapsto> d))"
  by (auto simp: log_same_def)

lemma log_same_version_key:
  assumes "log_same p m m'" and "directory p" and "valid_version v"
  shows "m' (version_key p v) = m (version_key p v)"
  using assms version_of_version_key [OF assms(2,3)] unfolding log_same_def by simp

lemma log_same_log_actions:
  "log_same p m m' \<Longrightarrow> directory p \<Longrightarrow> valid_version v \<Longrightarrow> log_actions p m' v = log_actions p m v"
  using log_same_version_key [of p m m' v] by (simp add: log_actions_def)

lemma log_same_upto:
  assumes "log_same p m m'" and "log_upto p m n"
  shows "log_upto p m' n"
proof -
  have dir: "directory p" using assms(2) by (auto simp: log_upto_def log_clean_def)
  have "log_versions p m' = log_versions p m"
    using log_same_version_key [OF assms(1) dir] by (auto simp: log_versions_def)
  moreover have "log_clean p m'"
    using assms unfolding log_upto_def log_clean_def log_same_def
    by (metis (no_types, lifting) domIff option.case_eq_if)
  ultimately show ?thesis using assms(2) by (simp add: log_upto_def)
qed

definition commit_entry :: "instant \<Rightarrow> action list \<Rightarrow> string \<Rightarrow> int \<Rightarrow> action list" where
  "commit_entry now actions operation version =
     actions @ [new_commit_info_action now operation (version - 1) True]"

text \<open>
  \<open>appended p as op k m n m'\<close>: \<open>m'\<close> holds the log of \<open>m\<close> (versions below \<open>n\<close>) and \<open>k\<close> further
  versions, each an entry of the same commit.
\<close>

inductive appended :: "string \<Rightarrow> action list \<Rightarrow> string \<Rightarrow> nat \<Rightarrow> objects \<Rightarrow> int \<Rightarrow> objects \<Rightarrow> bool"
  for p actions operation where
  none: "log_same p m m' \<Longrightarrow> appended p actions operation 0 m n m'"
| one: "appended p actions operation k m n m1 \<Longrightarrow> in_int64 (unix_milli now) \<Longrightarrow>
    log_same p (m1(version_key p (n + int k) \<mapsto>
      encode_actions (commit_entry now actions operation (n + int k)))) m' \<Longrightarrow>
    appended p actions operation (Suc k) m n m'"

lemma appended_same:
  "appended p as op k m n m1 \<Longrightarrow> log_same p m1 m2 \<Longrightarrow> appended p as op k m n m2"
  by (induction rule: appended.induct) (auto intro: appended.intros log_same_trans)

definition wf_commit :: "action list \<Rightarrow> string \<Rightarrow> bool" where
  "wf_commit actions operation \<longleftrightarrow> list_all wf_action actions \<and> valid_utf8 operation"

lemma wf_commit_entry:
  assumes "wf_commit actions operation" and "0 \<le> v" and "v < 2 ^ 63" and "in_int64 (unix_milli now)"
  shows "list_all wf_action (commit_entry now actions operation v)"
  using assms
  by (simp add: wf_commit_def commit_entry_def new_commit_info_action_def wf_action_def zero_action_def
      wf_commit_info_def text_omit_map_def text_map_def wf_map_def in_int64_def)

text \<open>The log after \<open>k\<close> appended entries.\<close>

lemma appended_upto:
  assumes "appended p as op k m n m'" and "log_upto p m n" and "n + int k < 2 ^ 63"
  shows "log_upto p m' (n + int k)"
  using assms
proof (induction rule: appended.induct)
  case (none m m' n)
  then show ?case using log_same_upto by simp
next
  case (one k m n m1 now m')
  then have "log_upto p (m1(version_key p (n + int k) \<mapsto>
      encode_actions (commit_entry now as op (n + int k)))) (n + int k + 1)"
    by (intro log_upto_write) auto
  then have "log_upto p m' (n + int k + 1)" using log_same_upto one.hyps(3) by blast
  moreover have "n + int (Suc k) = n + int k + 1" by simp
  ultimately show ?case by metis
qed

lemma log_upto_directory: "log_upto p m n \<Longrightarrow> directory p"
  by (simp add: log_upto_def log_clean_def)

text \<open>The log before \<open>n\<close> is untouched, and the new entries hold the commit's actions.\<close>

lemma appended_actions:
  assumes "appended p as op k m n m'" and "log_upto p m n" and "n + int k < 2 ^ 63"
    and "wf_commit as op" and "0 \<le> v" and "v < n + int k"
  shows "if v < n then log_actions p m' v = log_actions p m v
         else \<exists>now. log_actions p m' v = Some (commit_entry now as op v)"
  using assms
proof (induction rule: appended.induct)
  case (none m m' n)
  then show ?case
    using log_same_log_actions [OF none.hyps log_upto_directory [OF none.prems(1)], of v]
    by (auto simp: log_upto_def valid_version_def)
next
  case (one k m n m1 now m')
  define e where "e = commit_entry now as op (n + int k)"
  have n: "0 \<le> n" "directory p" using one.prems(1) by (auto simp: log_upto_def log_clean_def)
  have v: "valid_version v" using one.prems by (simp add: valid_version_def)
  have "list_all wf_action e"
    unfolding e_def using one.prems n one.hyps(2) by (intro wf_commit_entry) auto
  then have "log_actions p m' v = (if v = n + int k then Some e else log_actions p m1 v)"
    using log_actions_write [of e "n + int k" v p m1] log_same_log_actions [OF one.hyps(3) n(2) v] n one.prems(4)
    unfolding e_def by simp
  then show ?case
    using one.IH one.prems n unfolding e_def by auto
qed

lemma replay_appended:
  assumes "appended p as op k m n m'" and "log_upto p m n" and "n + int k < 2 ^ 63" and "wf_commit as op"
    and "replay_log (log_actions p m) (nat n) s0 = Some s" and "j \<le> k"
  shows "\<exists>s'. replay_log (log_actions p m') (nat n + j) s0 = Some s'
              \<and> same_table s' (if j = 0 then s else replay as s)"
  using assms(6)
proof (induction j)
  case 0
  have "replay_log (log_actions p m') (nat n) s0 = replay_log (log_actions p m) (nat n) s0"
    using appended_actions [OF assms(1-4)] assms(2)
    by (intro replay_log_cong) (auto simp: log_upto_def)
  with assms(5) show ?case by simp
next
  case (Suc j)
  then obtain s' where s': "replay_log (log_actions p m') (nat n + j) s0 = Some s'"
      "same_table s' (if j = 0 then s else replay as s)" by auto
  have n: "0 \<le> n" using assms(2) by (simp add: log_upto_def)
  then have v: "int (nat n + j) = n + int j" by simp
  obtain now where "log_actions p m' (n + int j) = Some (commit_entry now as op (n + int j))"
    using appended_actions [OF assms(1-4), of "n + int j"] n Suc.prems by auto
  then have "replay_log (log_actions p m') (nat n + Suc j) s0 = Some (replay as s')"
    using s'(1) v by (simp add: commit_entry_def)
  moreover have "same_table (replay as s') (replay as s)"
  proof (cases "j = 0")
    case False
    then have "same_table (replay as s') (replay as (replay as s))" using s'(2) same_table_replay by auto
    then show ?thesis using replay_twice same_table_trans by blast
  qed (use s'(2) same_table_replay in auto)
  ultimately show ?case by auto
qed

locale table_env = s3_store +
  fixes rt :: "'a runtime"
  assumes now_view: "rt_now rt w = (t, w') \<Longrightarrow> view w' = view w"
    and now_range: "rt_now rt w = (t, w') \<Longrightarrow> in_int64 (unix_milli t)"
    and wait_view: "rt_wait rt d w = (c, w') \<Longrightarrow> view w' = view w"
    and rand_view: "rt_rand rt w = (u, w') \<Longrightarrow> view w' = view w"
begin

definition hook_ok :: "string \<Rightarrow> (int \<Rightarrow> ('a, unit) io) option \<Rightarrow> bool" where
  "hook_ok p hook \<longleftrightarrow>
     (case hook of None \<Rightarrow> True | Some f \<Rightarrow> \<forall>v w r w'. 0 \<le> v \<longrightarrow> f v w = (r, w') \<longrightarrow> log_same p (view w) (view w'))"

lemma snapshot_loop_ok:
  assumes "snapshot_loop \<lparr>tl_store = ops, tl_log_prefix = p\<rparr> version v s w = (Inr s', w')"
  shows "replay_log (\<lambda>i. log_actions p (view w) (v + i)) (nat (version + 1 - v)) s = Some s'"
  using assms
proof (induction "nat (version + 1 - v)" arbitrary: v s w)
  case 0
  then show ?case by (subst (asm) snapshot_loop.simps) simp
next
  case (Suc n)
  then have "v \<le> version" by simp
  with Suc.prems obtain as w1 where rd: "read_version \<lparr>tl_store = ops, tl_log_prefix = p\<rparr> v w = (Inr as, w1)"
    and rest: "snapshot_loop \<lparr>tl_store = ops, tl_log_prefix = p\<rparr> version (v + 1) (replay as s) w1 = (Inr s', w')"
    by (subst (asm) snapshot_loop.simps) (auto elim!: io_bind_InrE io_wrap_InrE)
  have n: "n = nat (version + 1 - (v + 1))" using Suc.hyps(2) by simp
  have view: "view w1 = view w" using read_version_view [OF rd] .
  have "log_actions p (view w) v = Some as"
    using read_version_ok [OF rd] by (auto simp: log_actions_def)
  then have L0: "log_actions p (view w) (v + 0) = Some as" by simp
  have "replay_log (\<lambda>i. log_actions p (view w) (v + 1 + i)) n (replay as s) = Some s'"
    using Suc.hyps(1) [OF n rest] unfolding view n .
  then have "replay_log (\<lambda>i. log_actions p (view w) (v + (i + 1))) n (replay as s) = Some s'"
    by (simp add: algebra_simps)
  then show ?case
    using replay_log_shift [of "\<lambda>i. log_actions p (view w) (v + i)" as n s, OF L0] Suc.hyps(2) by simp
qed

lemma snapshot_loop_view:
  "snapshot_loop \<lparr>tl_store = ops, tl_log_prefix = p\<rparr> version v s w = (r, w') \<Longrightarrow> view w' = view w"
proof (induction "nat (version + 1 - v)" arbitrary: v s w)
  case 0
  then show ?case by (subst (asm) snapshot_loop.simps) simp
next
  case (Suc n)
  then have "v \<le> version" and n: "n = nat (version + 1 - (v + 1))" by auto
  obtain x w1 where rd: "read_version \<lparr>tl_store = ops, tl_log_prefix = p\<rparr> v w = (x, w1)"
    by (metis surj_pair)
  have view: "view w1 = view w" using read_version_view [OF rd] .
  show ?case
  proof (cases x)
    case (Inl e)
    with Suc.prems rd \<open>v \<le> version\<close> view show ?thesis
      by (subst (asm) snapshot_loop.simps) (auto simp: io_bind_def io_wrap_def)
  next
    case (Inr as)
    with Suc.prems rd \<open>v \<le> version\<close>
    have "snapshot_loop \<lparr>tl_store = ops, tl_log_prefix = p\<rparr> version (v + 1) (replay as s) w1 = (r, w')"
      by (subst (asm) snapshot_loop.simps) (simp add: io_bind_def io_wrap_def)
    then show ?thesis using Suc.hyps(1) [OF n] view by simp
  qed
qed

text \<open>A snapshot is the replay of the log up to its version.\<close>

lemma table_snapshot_ok:
  assumes "table_snapshot t version w = (Inr s, w')" and "dt_log t = \<lparr>tl_store = ops, tl_log_prefix = p\<rparr>"
    and "0 \<le> version"
  shows "replay_log (log_actions p (view w)) (nat (version + 1)) (empty_snapshot version) = Some s"
  using assms snapshot_loop_ok [of p version 0 "empty_snapshot version" w s w']
  by (simp add: table_snapshot_def)

lemma latest_of_upto:
  assumes "latest_version \<lparr>tl_store = ops, tl_log_prefix = p\<rparr> w = (Inr v, w')"
    and "log_upto p (view w) n"
  shows "v = n - 1"
proof -
  have "log_clean p (view w)" and V: "log_versions p (view w) = {v. 0 \<le> v \<and> v < n}" and "0 \<le> n"
    using assms(2) by (auto simp: log_upto_def)
  then have *: "if log_versions p (view w) = {} then v = -1
         else v \<in> log_versions p (view w) \<and> (\<forall>v' \<in> log_versions p (view w). v' \<le> v)"
    using latest_version_ok [OF assms(1)] by blast
  show ?thesis
  proof (cases "n = 0")
    case True
    with * V show ?thesis by simp
  next
    case False
    then have "n - 1 \<in> log_versions p (view w)" using V \<open>0 \<le> n\<close> by simp
    with * have "v \<in> log_versions p (view w)" and "n - 1 \<le> v" by (auto split: if_splits)
    with V show ?thesis by simp
  qed
qed

lemma table_snapshot_latest_ok:
  assumes "table_snapshot t (-1) w = (Inr s, w')" and "dt_log t = \<lparr>tl_store = ops, tl_log_prefix = p\<rparr>"
    and "log_upto p (view w) n"
  shows "0 < n" and "replay_log (log_actions p (view w)) (nat n) (empty_snapshot (n - 1)) = Some s"
proof -
  obtain v w1 where v: "latest_version \<lparr>tl_store = ops, tl_log_prefix = p\<rparr> w = (Inr v, w1)" "\<not> v < 0"
    and l: "snapshot_loop \<lparr>tl_store = ops, tl_log_prefix = p\<rparr> v 0 (empty_snapshot v) w1 = (Inr s, w')"
    using assms(1,2) by (auto simp: table_snapshot_def elim!: io_bind_InrE split: if_splits)
  have n: "v = n - 1" using latest_of_upto [OF v(1) assms(3)] .
  with v(2) show "0 < n" by simp
  show "replay_log (log_actions p (view w)) (nat n) (empty_snapshot (n - 1)) = Some s"
    using snapshot_loop_ok [OF l] latest_version_view [OF v(1)] n by simp
qed

lemma io_now_view: "io_now rt w = (r, w') \<Longrightarrow> view w' = view w"
  by (auto simp: io_now_def dest: now_view split: prod.splits)

lemma io_now_range: "io_now rt w = (Inr t, w') \<Longrightarrow> in_int64 (unix_milli t)"
  by (auto simp: io_now_def dest: now_range split: prod.splits)

text \<open>
  What one attempt of a commit does: it appends version \<open>n\<close> or, when it fails, perhaps nothing;
  an attempt that succeeds has appended it and returns \<open>n\<close>.
\<close>

lemma commit_op_cases:
  assumes run: "commit_op rt t hook actions operation w = (r, w')"
    and t: "dt_log t = \<lparr>tl_store = ops, tl_log_prefix = p\<rparr>" and hook: "hook_ok p hook"
    and upto: "log_upto p (view w) n" and bound: "n + 1 < 2 ^ 63"
  shows "(\<exists>e. r = Inl e \<and> view w' = view w)
         \<or> (\<exists>now. (r = Inr n \<or> (\<exists>e. r = Inl e)) \<and> in_int64 (unix_milli now)
               \<and> log_same p ((view w)(version_key p n \<mapsto> encode_actions (commit_entry now actions operation n)))
                            (view w'))"
proof -
  obtain x w1 where lv: "latest_version (dt_log t) w = (x, w1)" by (metis surj_pair)
  have v1: "view w1 = view w" using latest_version_view lv unfolding t .
  show ?thesis
  proof (cases x)
    case (Inl e)
    with run lv v1 show ?thesis by (auto simp: commit_op_def io_bind_def io_wrap_def)
  next
    case (Inr latest)
    have latest: "latest = n - 1" using latest_of_upto [OF _ upto] lv Inr unfolding t by metis
    have n0: "0 \<le> n" using upto by (simp add: log_upto_def)
    have "in_int64 n" using upto bound by (auto simp: log_upto_def in_int64_def)
    then have new: "wrap64 (latest + 1) = n" using latest by simp
    obtain now w2 where now: "io_now rt w1 = (Inr now, w2)" by (cases "rt_now rt w1") (auto simp: io_now_def)
    have v2: "view w2 = view w" using io_now_view [OF now] v1 by simp
    define entry where "entry = commit_entry now actions operation n"
    obtain y w3 where wv: "write_version (dt_log t) n entry w2 = (y, w3)" by (metis surj_pair)
    have range: "in_int64 (unix_milli now)" using io_now_range [OF now] .
    show ?thesis
    proof (cases y)
      case (Inl e)
      then have "\<exists>e. r = Inl e" and "w' = w3"
        using run lv Inr new now wv latest
        by (auto simp: commit_op_def io_bind_def io_wrap_def entry_def commit_entry_def Let_def)
      moreover have "view w3 = view w \<or> view w3 = (view w)(version_key p n \<mapsto> encode_actions entry)"
        using write_version_cases wv v2 unfolding t by metis
      ultimately show ?thesis using range unfolding entry_def by auto
    next
      case (Inr u)
      have v3: "view w3 = (view w)(version_key p n \<mapsto> encode_actions entry)"
        using write_version_ok wv v2 Inr unfolding t by metis
      have "r = Inr n \<and> log_same p (view w3) (view w')"
      proof (cases hook)
        case None
        then show ?thesis
          using run lv \<open>x = Inr latest\<close> new now wv Inr latest
          by (auto simp: commit_op_def io_bind_def io_wrap_def entry_def commit_entry_def Let_def)
      next
        case (Some f)
        obtain z w4 where z: "f n w3 = (z, w4)" by (metis surj_pair)
        then have "r = Inr n" and "w' = w4"
          using run lv \<open>x = Inr latest\<close> new now wv Inr latest Some
          by (auto simp: commit_op_def io_bind_def io_wrap_def io_try_def entry_def commit_entry_def Let_def)
        moreover have "log_same p (view w3) (view w4)" using hook z Some n0 by (simp add: hook_ok_def)
        ultimately show ?thesis by simp
      qed
      then show ?thesis using range v3 unfolding entry_def by auto
    qed
  qed
qed

text \<open>The retry loop around the attempts.\<close>

definition policy_ok :: "'a retry_policy \<Rightarrow> bool" where
  "policy_ok P \<longleftrightarrow> (\<forall>n e w x w'. before_next_attempt rt P n e w = (x, w') \<longrightarrow> view w' = view w)"

lemma cb_execute_view:
  assumes "cb_execute rt fn (cb, w) = (r, (cb', w'))"
  shows "(\<exists>e. r = Inl e \<and> view w' = view w)
         \<or> (\<exists>w1 w2. view w1 = view w \<and> fn w1 = (r, w2) \<and> view w' = view w2)"
  using assms unfolding cb_execute_def can_execute_def
  by (cases "cb_state cb"; clarsimp split: prod.splits if_splits; (metis now_view | blast dest: now_view))

lemma commit_retried:
  assumes "retried (rt_snd rt) (policy_snd P) (cb_execute rt (commit_op rt t hook actions operation)) i s j s1"
    and "dt_log t = \<lparr>tl_store = ops, tl_log_prefix = p\<rparr>" and "hook_ok p hook" and "policy_ok P"
    and "appended p actions operation k m n (view (snd s))" and "log_upto p m n"
    and "n + int k + (j - i) + 1 < 2 ^ 63"
  shows "i \<le> j \<and> (\<exists>k'. int k' \<le> int k + (j - i) \<and> appended p actions operation k' m n (view (snd s1)))"
  using assms
proof (induction arbitrary: k rule: retried.induct)
  case (start i s)
  then show ?case by auto
next
  case (again s err s1 i d s2 j s3)
  obtain cb w where s: "s = (cb, w)" by (cases s)
  obtain cb1 w1 where s1: "s1 = (cb1, w1)" by (cases s1)
  have "lift_snd (before_next_attempt rt P i err) (cb1, w1) = ((d, None), s2)"
    using again.hyps(4) unfolding s1 before_next_attempt_snd .
  then have v2: "view (snd s2) = view w1"
    using \<open>policy_ok P\<close> by (auto simp: policy_ok_def lift_snd_def split: prod.splits)
  have "i + 1 \<le> j"
    using again.hyps(5) by (induction rule: retried.induct) auto
  then have bound: "n + int k + 1 < 2 ^ 63" using again.prems(6) by simp
  then have upto: "log_upto p (view w) (n + int k)"
    using appended_upto [OF again.prems(4,5)] by (simp add: s)
  have "\<exists>k1. int k1 \<le> int k + 1 \<and> appended p actions operation k1 m n (view w1)"
    using cb_execute_view [OF again.hyps(1) [unfolded s s1]]
  proof (elim disjE exE conjE)
    fix e assume "view w1 = view w"
    then show ?thesis using again.prems(4) s by (intro exI [of _ k]) simp
  next
    fix wa wb assume "view wa = view w" and "commit_op rt t hook actions operation wa = (Inl err, wb)"
      and "view w1 = view wb"
    then show ?thesis
      using commit_op_cases [of t hook actions operation wa "Inl err" wb p "n + int k"]
        again.prems(1,2,4) upto bound s appended.one [of p actions operation k m n "view w"]
      by (metis (no_types, lifting) add.commute of_nat_Suc order_refl snd_conv add_increasing2 zero_le_one)
  qed
  then obtain k1 where k1: "int k1 \<le> int k + 1" "appended p actions operation k1 m n (view (snd s2))"
    using v2 by auto
  have "n + int k1 + (j - (i + 1)) + 1 < 2 ^ 63" using again.prems(6) k1(1) by simp
  from again.IH [OF again.prems(1-3) k1(2) again.prems(5) this] obtain k2 where
    "i + 1 \<le> j" "int k2 \<le> int k1 + (j - (i + 1))" "appended p actions operation k2 m n (view (snd s3))"
    by blast
  with k1(1) show ?case by (intro conjI exI [of _ k2]) linarith+
qed

text \<open>
  A commit that succeeds has appended its entry under the version it returns, after at most one
  copy for each earlier attempt.
\<close>

lemma table_commit_ok:
  assumes run: "table_commit rt t hook actions operation (Some cb, w) = (Inr v, (cb', w'))"
    and t: "dt_log t = \<lparr>tl_store = ops, tl_log_prefix = p\<rparr>" "dt_retry_policy t = Some P"
    and ok: "hook_ok p hook" "policy_ok P"
    and upto: "log_upto p (view w) n" and bound: "n + rp_max_attempts P < 2 ^ 63"
  shows "\<exists>k. int k < rp_max_attempts P \<and> v = n + int k
             \<and> appended p actions operation (Suc k) (view w) n (view w')"
proof -
  obtain b' where "execute_with_retry_and_circuit_breaker rt P (commit_op rt t hook actions operation) (cb, w)
                   = (Inr v, (b', w'))"
    using run t(2) by (auto simp: table_commit_def split: prod.splits)
  then obtain j s1 where r: "retried (rt_snd rt) (policy_snd P)
        (cb_execute rt (commit_op rt t hook actions operation)) 1 (cb, w) j s1"
      and j: "j \<le> rp_max_attempts P"
      and last: "cb_execute rt (commit_op rt t hook actions operation) s1 = (Inr v, (b', w'))"
    unfolding execute_with_retry_and_circuit_breaker_def execute_with_circuit_breaker_eq execute_success_iff
    by auto
  have "appended p actions operation 0 (view w) n (view (snd (cb, w)))"
    by (auto intro: appended.none)
  from commit_retried [OF r t(1) ok this upto] j bound obtain k where j1: "1 \<le> j"
    and k: "int k \<le> j - 1" "appended p actions operation k (view w) n (view (snd s1))" by auto
  have nk: "n + int k + 1 < 2 ^ 63" using k(1) j bound by simp
  then have upto': "log_upto p (view (snd s1)) (n + int k)"
    using appended_upto [OF k(2) upto] by simp
  obtain w1 w2 where w: "view w1 = view (snd s1)" "commit_op rt t hook actions operation w1 = (Inr v, w2)"
      "view w' = view w2"
    using cb_execute_view [of "commit_op rt t hook actions operation" "fst s1" "snd s1" "Inr v" b' w'] last by auto
  from commit_op_cases [OF w(2) t(1) ok(1) _ nk] upto' w(1) obtain now where "v = n + int k" "in_int64 (unix_milli now)"
    "log_same p ((view (snd s1))(version_key p (n + int k) \<mapsto>
       encode_actions (commit_entry now actions operation (n + int k)))) (view w')"
    using w(3) by auto
  then show ?thesis using k j appended.one [OF k(2)] by (intro exI [of _ k]) auto
qed

text \<open>
  The files after a commit: what \<open>Snapshot\<close> reads after a successful commit is what it read before,
  with the commit's actions applied once, however many attempts wrote.
\<close>

lemma commit_then_snapshot:
  assumes commit: "table_commit rt t hook actions operation (Some cb, w) = (Inr v, (cb', w'))"
    and t: "dt_log t = \<lparr>tl_store = ops, tl_log_prefix = p\<rparr>" "dt_retry_policy t = Some P"
    and ok: "hook_ok p hook" "policy_ok P" "wf_commit actions operation"
    and upto: "log_upto p (view w) n" and bound: "n + rp_max_attempts P < 2 ^ 63"
    and before: "table_snapshot t (-1) w0 = (Inr s, w0')" "view w0 = view w"
    and after: "table_snapshot t (-1) w1 = (Inr s', w1')" "view w1 = view w'"
  shows "same_table s' (replay actions s) \<and> sn_version s' = v"
proof -
  obtain k where k: "int k < rp_max_attempts P" "v = n + int k"
      "appended p actions operation (Suc k) (view w) n (view w')"
    using table_commit_ok [OF commit t ok(1,2) upto bound] by blast
  have nk: "n + int (Suc k) < 2 ^ 63" using k(1) bound by simp
  have n: "0 < n" and s: "replay_log (log_actions p (view w)) (nat n) (empty_snapshot (n - 1)) = Some s"
    using table_snapshot_latest_ok [OF before(1) t(1)] upto before(2) by auto
  have upto': "log_upto p (view w1) (n + int (Suc k))"
    using appended_upto [OF k(3) upto nk] after(2) by simp
  have s': "replay_log (log_actions p (view w')) (nat n + Suc k) (empty_snapshot (n + int k)) = Some s'"
    using table_snapshot_latest_ok(2) [OF after(1) t(1) upto'] after(2) n
    by (simp add: nat_add_distrib)
  obtain s2 where s2: "replay_log (log_actions p (view w)) (nat n) (empty_snapshot (n + int k)) = Some s2"
      "same_table s2 s"
    using replay_log_start [OF s, of "empty_snapshot (n + int k)"] by (auto simp: same_table_def empty_snapshot_def)
  obtain s3 where s3: "replay_log (log_actions p (view w')) (nat n + Suc k) (empty_snapshot (n + int k)) = Some s3"
      "same_table s3 (replay actions s2)"
    using replay_appended [OF k(3) upto nk ok(3) s2(1), of "Suc k"] by auto
  have "s3 = s'" using s' s3(1) by simp
  then have "same_table s' (replay actions s)"
    using s3(2) same_table_replay [OF s2(2)] same_table_trans by blast
  moreover have "sn_version s' = n + int k"
    using replay_log_version [OF s'] by (simp add: empty_snapshot_def)
  ultimately show ?thesis using k(2) by simp
qed

text \<open>Initialising an empty log writes version 0; initialising a table again changes nothing.\<close>

definition create_entry :: "instant \<Rightarrow> instant \<Rightarrow> 'a delta_table \<Rightarrow> string \<Rightarrow> action list" where
  "create_entry now1 now2 t schema_string =
     [new_protocol_action,
      new_metadata_action now1 (dt_source t @ ''_'' @ dt_object t) (dt_object t) schema_string,
      new_commit_info_action now2 ''CREATE TABLE'' (-1) True]"

lemma table_initialize_ok:
  assumes run: "table_initialize rt t schema_string w = (Inr u, w')"
    and t: "dt_log t = \<lparr>tl_store = ops, tl_log_prefix = p\<rparr>" and upto: "log_upto p (view w) n"
  shows "if n = 0
         then \<exists>now1 now2. in_int64 (unix_milli now1) \<and> in_int64 (unix_milli now2)
                \<and> view w' = (view w)(version_key p 0 \<mapsto> encode_actions (create_entry now1 now2 t schema_string))
         else view w' = view w"
proof -
  obtain latest w1 where lv: "latest_version \<lparr>tl_store = ops, tl_log_prefix = p\<rparr> w = (Inr latest, w1)"
    and rest: "(if 0 \<le> latest then io_ret ()
       else io_bind (io_now rt) (\<lambda>now1. io_bind (io_now rt) (\<lambda>now2.
            let table_id = dt_source t @ ''_'' @ dt_object t
            in io_wrap ''initialize table'' (write_version (dt_log t) 0
                    [new_protocol_action, new_metadata_action now1 table_id (dt_object t) schema_string,
                     new_commit_info_action now2 ''CREATE TABLE'' (-1) True])))) w1 = (Inr u, w')"
    using run t unfolding table_initialize_def by (auto elim!: io_bind_InrE io_wrap_InrE)
  have v1: "view w1 = view w" using latest_version_view [OF lv] .
  have latest: "latest = n - 1" using latest_of_upto [OF lv upto] .
  have n0: "0 \<le> n" using upto by (simp add: log_upto_def)
  show ?thesis
  proof (cases "n = 0")
    case False
    then show ?thesis using rest latest v1 n0 by simp
  next
    case True
    with rest latest obtain now1 w2 now2 w3 where now: "io_now rt w1 = (Inr now1, w2)" "io_now rt w2 = (Inr now2, w3)"
      and wr: "write_version (dt_log t) 0 (create_entry now1 now2 t schema_string) w3 = (Inr u, w')"
      by (auto simp: Let_def create_entry_def elim!: io_bind_InrE io_wrap_InrE)
    then show ?thesis
      using True io_now_range [OF now(1)] io_now_range [OF now(2)] io_now_view [OF now(1)] io_now_view [OF now(2)] v1
        write_version_ok [of p 0 _ w3 u w'] t by metis
  qed
qed

lemma table_initialize_upto:
  assumes "table_initialize rt t schema_string w = (Inr u, w')"
    and "dt_log t = \<lparr>tl_store = ops, tl_log_prefix = p\<rparr>" and "log_upto p (view w) n"
  shows "log_upto p (view w') (max n 1)"
proof (cases "n = 0")
  case True
  then show ?thesis
    using table_initialize_ok [OF assms] assms(3) log_upto_write [of p "view w" 0] by auto
next
  case False
  then have "max n 1 = n" using assms(3) by (auto simp: log_upto_def)
  with False show ?thesis using table_initialize_ok [OF assms] assms(3) by simp
qed

text \<open>
  Two commits that read the same latest version write the same key: the later write replaces the
  earlier entry, and the earlier commit is gone from the log although it reported success.
\<close>

lemma commit_race:
  assumes "latest_version \<lparr>tl_store = ops, tl_log_prefix = p\<rparr> w = (Inr latest, w1)"
    and other: "commit_op rt t None actions' operation' w1 = (Inr v', w2)"
    and "dt_log t = \<lparr>tl_store = ops, tl_log_prefix = p\<rparr>"
    and "write_version \<lparr>tl_store = ops, tl_log_prefix = p\<rparr> (latest + 1) entry w2 = (Inr u, w3)"
    and "log_upto p (view w) n" and "n + 1 < 2 ^ 63" and "list_all wf_action entry"
  shows "v' = latest + 1 \<and> log_upto p (view w3) (v' + 1) \<and> log_actions p (view w3) v' = Some entry"
proof -
  have latest: "latest = n - 1" and v1: "view w1 = view w"
    using latest_of_upto [OF assms(1,5)] latest_version_view [OF assms(1)] by auto
  have upto1: "log_upto p (view w1) n" using assms(5) v1 by simp
  have hook: "hook_ok p None" by (simp add: hook_ok_def)
  from commit_op_cases [OF other assms(3) hook upto1 assms(6)] obtain now where "v' = n"
    and *: "log_same p ((view w1)(version_key p n \<mapsto> encode_actions (commit_entry now actions' operation' n))) (view w2)"
    by auto
  have upto2: "log_upto p (view w2) (n + 1)"
    using log_same_upto [OF *] log_upto_write [OF upto1 assms(6)] by blast
  have v3: "view w3 = (view w2)(version_key p n \<mapsto> encode_actions entry)"
    using write_version_ok [OF assms(4)] latest by simp
  have n: "valid_version n" "0 \<le> n"
    using assms(5,6) by (auto simp: log_upto_def valid_version_def)
  have "log_clean p (view w3)" and "log_versions p (view w3) = insert n (log_versions p (view w2))"
    unfolding v3 using log_clean_version log_versions_version n(1) upto2 by (auto simp: log_upto_def)
  then have "log_upto p (view w3) (n + 1)" using upto2 n(2) by (auto simp: log_upto_def)
  then show ?thesis
    using \<open>v' = n\<close> latest log_actions_write [OF assms(7) n(2) n(2)] unfolding v3 by simp
qed

end

end
