(* ===== verification/CheckpointValidation.thy ===== *)
theory CheckpointValidation
  imports DeltaTable
begin

text \<open>
  internal/storage/delta/validation.go: what the checkpoint validator checks, as the list of
  errors it collects, and the three entry points over the store. Proved: when the structure check
  is silent, that a silent comparison means the checkpoint holds exactly the snapshot's files,
  and that the search for a valid checkpoint never looks at the collected errors.
\<close>

record validation_error =
  ve_type :: string
  ve_description :: string
  ve_severity :: string

record structure_result =
  sr_has_protocol :: bool
  sr_has_metadata :: bool
  sr_files :: int
  sr_errors :: "validation_error list"

definition verr :: "string \<Rightarrow> string \<Rightarrow> string \<Rightarrow> validation_error" where
  "verr ty description severity =
     \<lparr>ve_type = ty, ve_description = description, ve_severity = severity\<rparr>"

definition structure_error :: "string \<Rightarrow> validation_error" where
  "structure_error description = verr ''structure'' description ''error''"

definition sr_add_errors :: "validation_error list \<Rightarrow> structure_result \<Rightarrow> structure_result" where
  "sr_add_errors es r = r\<lparr>sr_errors := sr_errors r @ es\<rparr>"

definition add_errors :: "add \<Rightarrow> validation_error list" where
  "add_errors f =
     (if ad_path f = [] then [structure_error ''Add action missing path''] else [])
     @ (if ad_size f < 0 then [structure_error (''Add action has negative size: '' @ dec (ad_size f))] else [])"

definition structure_step :: "action \<Rightarrow> structure_result \<Rightarrow> structure_result" where
  "structure_step a r =
     (if ac_protocol a \<noteq> None then
        (if sr_has_protocol r then sr_add_errors [structure_error ''Multiple protocol actions found''] r else r)
          \<lparr>sr_has_protocol := True\<rparr>
      else if ac_metadata a \<noteq> None then
        (if sr_has_metadata r then sr_add_errors [structure_error ''Multiple metadata actions found''] r else r)
          \<lparr>sr_has_metadata := True\<rparr>
      else (case ac_add a of
              Some f \<Rightarrow> sr_add_errors (add_errors f) (r\<lparr>sr_files := sr_files r + 1\<rparr>)
            | None \<Rightarrow>
                if ac_remove a \<noteq> None
                then sr_add_errors
                  [verr ''structure'' ''Remove action found in checkpoint (checkpoints should only contain active files)'' ''warning''] r
                else r))"

definition validate_checkpoint_structure :: "action list \<Rightarrow> structure_result" where
  "validate_checkpoint_structure actions =
     (let r = fold structure_step actions
                \<lparr>sr_has_protocol = False, sr_has_metadata = False, sr_files = 0, sr_errors = []\<rparr>;
          r1 = (if sr_has_protocol r then r else sr_add_errors [structure_error ''No protocol action found''] r)
      in if sr_has_metadata r1 then r1 else sr_add_errors [structure_error ''No metadata action found''] r1)"

text \<open>The files of a checkpoint: the last \<open>Add\<close> of each path.\<close>

definition checkpoint_files :: "action list \<Rightarrow> (string, add) gomap" where
  "checkpoint_files actions =
     fold (\<lambda>a m. case ac_add a of None \<Rightarrow> m | Some f \<Rightarrow> AList.update (ad_path f) f m) actions []"

definition expected_file_errors :: "(string, add) gomap \<Rightarrow> string \<times> add \<Rightarrow> validation_error list" where
  "expected_file_errors files = (\<lambda>(path, expected).
     case map_of files path of
       None \<Rightarrow> [verr ''completeness'' (''Expected file missing from checkpoint: '' @ path) ''error'']
     | Some f \<Rightarrow>
         (if ad_size f \<noteq> ad_size expected
          then [verr ''consistency'' (''File size mismatch for '' @ path @ '': expected ''
                   @ dec (ad_size expected) @ '', got '' @ dec (ad_size f)) ''error'']
          else [])
         @ (if ad_modification_time f \<noteq> ad_modification_time expected
            then [verr ''consistency'' (''File modification time mismatch for '' @ path) ''warning'']
            else []))"

definition unexpected_file_errors :: "(string, add) gomap \<Rightarrow> string \<times> add \<Rightarrow> validation_error list" where
  "unexpected_file_errors expected = (\<lambda>(path, f).
     if map_of expected path = None
     then [verr ''consistency'' (''Unexpected file in checkpoint: '' @ path) ''error''] else [])"

definition validate_against_snapshot ::
  "((string \<times> add) list \<Rightarrow> (string \<times> add) list) \<Rightarrow> action list \<Rightarrow> snapshot \<Rightarrow> validation_error list" where
  "validate_against_snapshot ord actions expected =
     (let files = checkpoint_files actions
      in concat (map (expected_file_errors files) (ord (sn_files expected)))
         @ concat (map (unexpected_file_errors (sn_files expected)) (ord files)))"

text \<open>Whether the files exist is asked of the store with the path as the action has it.\<close>

fun validate_file_integrity ::
  "'w store_ops \<Rightarrow> action list \<Rightarrow> validation_error list \<Rightarrow> 'w
   \<Rightarrow> (go_error option \<times> validation_error list) \<times> 'w" where
  "validate_file_integrity store [] errors w = ((None, errors), w)"
| "validate_file_integrity store (a # as) errors w =
     (case ac_add a of
        None \<Rightarrow> validate_file_integrity store as errors w
      | Some f \<Rightarrow>
          (case st_exists store (ad_path f) w of
             (Inl e, w') \<Rightarrow> ((Some (Wrap (''check file existence for '' @ ad_path f) e), errors), w')
           | (Inr True, w') \<Rightarrow> validate_file_integrity store as errors w'
           | (Inr False, w') \<Rightarrow>
               validate_file_integrity store as
                 (errors @ [verr ''integrity'' (''Referenced file does not exist: '' @ ad_path f) ''error'']) w'))"

section \<open>Checkpoint bodies\<close>

text \<open>\<open>json.Marshal(actions)\<close>: a slice nothing was appended to is nil.\<close>

definition encode_checkpoint :: "action list \<Rightarrow> string" where
  "encode_checkpoint actions =
     json_marshal (enc_slice enc_action (if actions = [] then None else Some actions))"

definition decode_checkpoint :: "string \<Rightarrow> action list option" where
  "decode_checkpoint data =
     (case json_unmarshal data of
        None \<Rightarrow> None
      | Some j \<Rightarrow> map_option (\<lambda>x. case x of None \<Rightarrow> [] | Some as \<Rightarrow> as) (into_slice zero_action into_action j None))"

lemma decode_encode_checkpoint [simp, codec]:
  assumes "list_all wf_action actions"
  shows "decode_checkpoint (encode_checkpoint actions) = Some actions"
proof -
  let ?x = "if actions = [] then None else Some actions"
  have "wf_json (enc_slice enc_action ?x)"
    using assms by (auto simp: enc_slice_def wf_elems_iff list_all_iff wf_json_action)
  moreover have "into_slice zero_action into_action (enc_slice enc_action ?x) None = Some ?x"
    using assms by (intro into_slice_enc) (auto simp: list_all_iff into_action_enc split: if_splits)
  ultimately show ?thesis by (simp add: decode_checkpoint_def encode_checkpoint_def)
qed

section \<open>Entry points\<close>

record 'w checkpoint_validator =
  cv_store :: "'w store_ops"
  cv_log_prefix :: string

definition read_checkpoint :: "string \<Rightarrow> string \<Rightarrow> 'w store_ops \<Rightarrow> string \<Rightarrow> ('w, action list) io" where
  "read_checkpoint read_what parse_what store key =
     io_bind (io_wrap read_what (st_download store key))
       (\<lambda>data. case decode_checkpoint data of
                 None \<Rightarrow> io_fail (Wrap parse_what json_error)
               | Some actions \<Rightarrow> io_ret actions)"

definition validate_checkpoint ::
  "((string \<times> add) list \<Rightarrow> (string \<times> add) list) \<Rightarrow> 'w checkpoint_validator \<Rightarrow> string \<Rightarrow> snapshot \<Rightarrow> ('w, unit) io" where
  "validate_checkpoint ord v key expected =
     io_bind (read_checkpoint ''read checkpoint file'' ''parse checkpoint JSON'' (cv_store v) key)
       (\<lambda>actions w.
          let errors = sr_errors (validate_checkpoint_structure actions)
                       @ validate_against_snapshot ord actions expected
          in case validate_file_integrity (cv_store v) actions errors w of
               ((failure, errors1), w') \<Rightarrow>
                 let errors2 = (case failure of
                       None \<Rightarrow> errors1
                     | Some e \<Rightarrow> errors1 @ [verr ''file_integrity''
                         (''File integrity validation failed: '' @ err_text e) ''warning''])
                 in if errors2 = [] then (Inr (), w')
                    else (Inl (Msg (''checkpoint validation failed with '' @ dec (int (length errors2)) @ '' errors'')), w'))"

definition recover_from_checkpoint :: "'w checkpoint_validator \<Rightarrow> int \<Rightarrow> ('w, unit) io" where
  "recover_from_checkpoint v version =
     (let key = checkpoint_key (cv_log_prefix v) version
      in io_bind (io_wrap ''check checkpoint existence'' (st_exists (cv_store v) key))
           (\<lambda>found.
              if \<not> found then io_fail (Msg (''checkpoint file does not exist: '' @ key))
              else io_bind (read_checkpoint ''read checkpoint file'' ''parse checkpoint'' (cv_store v) key)
                (\<lambda>actions.
                   let errors = sr_errors (validate_checkpoint_structure actions)
                   in if errors = [] then io_ret ()
                      else io_fail (Msg (''checkpoint failed validation with '' @ dec (int (length errors)) @ '' errors'')))))"

text \<open>
  \<open>validateCheckpointFile\<close> returns what \<open>validateCheckpointStructure\<close> returns, and that function
  always returns nil: the errors it collects are dropped.
\<close>

definition validate_checkpoint_file :: "'w checkpoint_validator \<Rightarrow> string \<Rightarrow> ('w, unit) io" where
  "validate_checkpoint_file v key =
     io_bind (read_checkpoint ''read checkpoint'' ''parse checkpoint'' (cv_store v) key)
       (\<lambda>actions. let result = validate_checkpoint_structure actions in io_ret ())"

function find_valid_checkpoint :: "'w checkpoint_validator \<Rightarrow> int \<Rightarrow> ('w, int) io" where
  "find_valid_checkpoint v version w =
     (if version < 0 then (Inl (Msg ''no valid checkpoint found''), w)
      else let key = checkpoint_key (cv_log_prefix v) version
           in case st_exists (cv_store v) key w of
                (Inr True, w1) \<Rightarrow>
                  (case validate_checkpoint_file v key w1 of
                     (Inr _, w2) \<Rightarrow> (Inr version, w2)
                   | (Inl e, w2) \<Rightarrow> find_valid_checkpoint v (version - 1) w2)
              | (_, w1) \<Rightarrow> find_valid_checkpoint v (version - 1) w1)"
  by pat_completeness auto
termination by (relation "measure (\<lambda>(v, version, w). nat (version + 1))") auto

declare find_valid_checkpoint.simps [simp del]

section \<open>What the checks mean\<close>

text \<open>The kind of an action: the first of its members that is set, in the order of the switch.\<close>

definition is_protocol :: "action \<Rightarrow> bool" where
  "is_protocol a \<longleftrightarrow> ac_protocol a \<noteq> None"

definition is_metadata :: "action \<Rightarrow> bool" where
  "is_metadata a \<longleftrightarrow> ac_protocol a = None \<and> ac_metadata a \<noteq> None"

definition sound_action :: "action \<Rightarrow> bool" where
  "sound_action a \<longleftrightarrow>
     is_protocol a \<or> is_metadata a
     \<or> (case ac_add a of Some f \<Rightarrow> ad_path f \<noteq> [] \<and> 0 \<le> ad_size f | None \<Rightarrow> ac_remove a = None)"

lemma structure_step_fields:
  "sr_has_protocol (structure_step a r) = (sr_has_protocol r \<or> is_protocol a)"
  "sr_has_metadata (structure_step a r) = (sr_has_metadata r \<or> is_metadata a)"
  "sr_errors (structure_step a r) = [] \<longleftrightarrow>
     sr_errors r = [] \<and> sound_action a \<and> (is_protocol a \<longrightarrow> \<not> sr_has_protocol r)
     \<and> (is_metadata a \<longrightarrow> \<not> sr_has_metadata r)"
  by (auto simp: structure_step_def sr_add_errors_def is_protocol_def is_metadata_def sound_action_def
      add_errors_def split: option.splits)

definition at_most_one :: "('a \<Rightarrow> bool) \<Rightarrow> bool \<Rightarrow> 'a list \<Rightarrow> bool" where
  "at_most_one P seen xs \<longleftrightarrow> (if seen then \<forall>x \<in> set xs. \<not> P x else length (filter P xs) \<le> 1)"

lemma at_most_one_Cons:
  "at_most_one P seen (x # xs) \<longleftrightarrow> (P x \<longrightarrow> \<not> seen) \<and> at_most_one P (seen \<or> P x) xs"
  by (auto simp: at_most_one_def filter_empty_conv)

lemma structure_fold:
  "sr_has_protocol (fold structure_step as r) = (sr_has_protocol r \<or> (\<exists>a \<in> set as. is_protocol a))"
  "sr_has_metadata (fold structure_step as r) = (sr_has_metadata r \<or> (\<exists>a \<in> set as. is_metadata a))"
  "sr_errors (fold structure_step as r) = [] \<longleftrightarrow>
     sr_errors r = [] \<and> list_all sound_action as
     \<and> at_most_one is_protocol (sr_has_protocol r) as \<and> at_most_one is_metadata (sr_has_metadata r) as"
proof (induction as arbitrary: r)
  case (Cons a as)
  case 3
  show ?case unfolding fold_simps(2) Cons.IH(3) structure_step_fields at_most_one_Cons by auto
qed (auto simp: structure_step_fields at_most_one_def)

text \<open>The structure check is silent exactly for one protocol, one metadata and sound files.\<close>

lemma structure_valid_iff:
  "sr_errors (validate_checkpoint_structure as) = [] \<longleftrightarrow>
     length (filter is_protocol as) = 1 \<and> length (filter is_metadata as) = 1 \<and> list_all sound_action as"
proof -
  have one: "(\<exists>a \<in> set as. P a) \<and> length (filter P as) \<le> 1 \<longleftrightarrow> length (filter P as) = 1" for P :: "action \<Rightarrow> bool"
    by (cases "filter P as") (auto simp: filter_empty_conv filter_eq_Cons_iff)
  have "sr_errors (validate_checkpoint_structure as) = [] \<longleftrightarrow>
      (\<exists>a \<in> set as. is_protocol a) \<and> (\<exists>a \<in> set as. is_metadata a) \<and> list_all sound_action as
      \<and> length (filter is_protocol as) \<le> 1 \<and> length (filter is_metadata as) \<le> 1"
    by (auto simp: validate_checkpoint_structure_def Let_def structure_fold sr_add_errors_def at_most_one_def)
  then show ?thesis using one [of is_protocol] one [of is_metadata] by blast
qed

lemma map_of_checkpoint_files:
  "map_of (checkpoint_files as) p
   = map_of (rev (map (\<lambda>f. (ad_path f, f)) (List.map_filter ac_add as))) p"
proof -
  have "map_of (fold (\<lambda>a m. case ac_add a of None \<Rightarrow> m | Some f \<Rightarrow> AList.update (ad_path f) f m) as m) p
        = (map_of m ++ map_of (rev (map (\<lambda>f. (ad_path f, f)) (List.map_filter ac_add as)))) p" for m
    by (induction as arbitrary: m)
       (auto simp: List.map_filter_simps map_add_def split: option.splits)
  from this [of "[]"] show ?thesis by (simp add: checkpoint_files_def)
qed

text \<open>A silent comparison: the checkpoint has the snapshot's paths, with their sizes and times.\<close>

lemma expected_file_silent:
  "expected_file_errors files (path, f) = [] \<longleftrightarrow>
     (\<exists>f'. map_of files path = Some f' \<and> ad_size f' = ad_size f \<and> ad_modification_time f' = ad_modification_time f)"
  by (auto simp: expected_file_errors_def split: option.splits)

lemma unexpected_file_silent:
  "unexpected_file_errors expected x = [] \<longleftrightarrow> map_of expected (fst x) \<noteq> None"
  by (simp add: unexpected_file_errors_def case_prod_unfold)

lemma against_snapshot_silent:
  assumes "iteration_order ord" and "keys_distinct (sn_files s)"
  shows "validate_against_snapshot ord as s = [] \<longleftrightarrow>
     (\<forall>path. case (map_of (checkpoint_files as) path, map_of (sn_files s) path) of
        (Some f', Some f) \<Rightarrow> ad_size f' = ad_size f \<and> ad_modification_time f' = ad_modification_time f
      | (None, None) \<Rightarrow> True
      | _ \<Rightarrow> False)"
proof -
  let ?F = "checkpoint_files as"
  have "validate_against_snapshot ord as s = [] \<longleftrightarrow>
      (\<forall>(path, f) \<in> set (sn_files s). expected_file_errors ?F (path, f) = [])
      \<and> (\<forall>(path, f) \<in> set ?F. map_of (sn_files s) path \<noteq> None)"
    unfolding validate_against_snapshot_def Let_def append_is_Nil_conv concat_eq_Nil_conv
    by (simp add: iteration_order_set [OF assms(1)] unexpected_file_silent case_prod_unfold)
  also have "(\<forall>(path, f) \<in> set (sn_files s). expected_file_errors ?F (path, f) = [])
      \<longleftrightarrow> (\<forall>path f. map_of (sn_files s) path = Some f \<longrightarrow> expected_file_errors ?F (path, f) = [])"
    by (auto simp: map_of_eq_Some_iff [OF assms(2)])
  also have "(\<forall>(path, f) \<in> set ?F. map_of (sn_files s) path \<noteq> None)
      \<longleftrightarrow> (\<forall>path. map_of ?F path \<noteq> None \<longrightarrow> map_of (sn_files s) path \<noteq> None)"
    unfolding map_of_eq_None_iff by (auto simp: case_prod_unfold)
  finally have *: "validate_against_snapshot ord as s = [] \<longleftrightarrow>
      (\<forall>path f. map_of (sn_files s) path = Some f \<longrightarrow> expected_file_errors ?F (path, f) = [])
      \<and> (\<forall>path. map_of ?F path \<noteq> None \<longrightarrow> map_of (sn_files s) path \<noteq> None)" .
  have "(\<forall>path. case (map_of ?F path, map_of (sn_files s) path) of
        (Some f', Some f) \<Rightarrow> ad_size f' = ad_size f \<and> ad_modification_time f' = ad_modification_time f
      | (None, None) \<Rightarrow> True
      | _ \<Rightarrow> False)
    \<longleftrightarrow> (\<forall>path. (\<forall>f. map_of (sn_files s) path = Some f \<longrightarrow> expected_file_errors ?F (path, f) = [])
            \<and> (map_of ?F path \<noteq> None \<longrightarrow> map_of (sn_files s) path \<noteq> None))"
  proof (intro iff_allI)
    fix path
    show "(case (map_of ?F path, map_of (sn_files s) path) of
        (Some f', Some f) \<Rightarrow> ad_size f' = ad_size f \<and> ad_modification_time f' = ad_modification_time f
      | (None, None) \<Rightarrow> True
      | _ \<Rightarrow> False)
      \<longleftrightarrow> (\<forall>f. map_of (sn_files s) path = Some f \<longrightarrow> expected_file_errors ?F (path, f) = [])
            \<and> (map_of ?F path \<noteq> None \<longrightarrow> map_of (sn_files s) path \<noteq> None)"
      unfolding expected_file_silent
      by (cases "map_of ?F path"; cases "map_of (sn_files s) path") simp_all
  qed
  then show ?thesis unfolding * by (simp only: all_conj_distrib)
qed

text \<open>
  The file check asks for the bare path. The search accepts any checkpoint whose body parses,
  whatever the structure check found.
\<close>

lemma validate_checkpoint_file_ignores_errors:
  assumes "st_download (cv_store v) key w = (Inr data, w')" and "decode_checkpoint data = Some actions"
  shows "validate_checkpoint_file v key w = (Inr (), w')"
  using assms by (simp add: validate_checkpoint_file_def read_checkpoint_def io_bind_def io_wrap_def)

lemma find_valid_checkpoint_bounds:
  "find_valid_checkpoint v version w = (Inr n, w') \<Longrightarrow> 0 \<le> n \<and> n \<le> version"
proof (induction v version w rule: find_valid_checkpoint.induct)
  case (1 v version w)
  show ?case
  proof (cases "version < 0")
    case True
    with 1(4) show ?thesis by (subst (asm) find_valid_checkpoint.simps) simp
  next
    case False
    obtain r w1 where e: "st_exists (cv_store v) (checkpoint_key (cv_log_prefix v) version) w = (r, w1)"
      by (metis surj_pair)
    have later: "0 \<le> n \<and> n \<le> version" if "0 \<le> n \<and> n \<le> version - 1" using that by simp
    consider "r = Inr True" | "r = Inr False" | x where "r = Inl x" by (cases r) auto
    then show ?thesis
    proof cases
      case 1
      obtain y w2 where c: "validate_checkpoint_file v (checkpoint_key (cv_log_prefix v) version) w1 = (y, w2)"
        by (metis surj_pair)
      show ?thesis
      proof (cases y)
        case (Inl z)
        have "find_valid_checkpoint v (version - 1) w2 = (Inr n, w')"
          using "1.prems" False e c \<open>r = Inr True\<close> Inl by (subst (asm) find_valid_checkpoint.simps) simp
        then show ?thesis
          using "1.IH"(2) [OF False refl e [symmetric] \<open>r = Inr True\<close> refl c [symmetric] Inl] later by blast
      next
        case (Inr u)
        then have "n = version"
          using "1.prems" False e c \<open>r = Inr True\<close> by (subst (asm) find_valid_checkpoint.simps) simp
        with False show ?thesis by simp
      qed
    next
      case 2
      have "find_valid_checkpoint v (version - 1) w1 = (Inr n, w')"
        using "1.prems" False e 2 by (subst (asm) find_valid_checkpoint.simps) simp
      then show ?thesis
        using "1.IH"(3) [OF False refl e [symmetric] 2] later by blast
    next
      case 3
      have "find_valid_checkpoint v (version - 1) w1 = (Inr n, w')"
        using "1.prems" False e 3 by (subst (asm) find_valid_checkpoint.simps) simp
      then show ?thesis
        using "1.IH"(1) [OF False refl e [symmetric] 3] later by blast
    qed
  qed
qed

end
