(* ===== verification/Checkpoints.thy ===== *)
theory Checkpoints
  imports CheckpointValidation
begin

text \<open>
  internal/storage/delta/checkpoint_manager.go and the deprecated manager of checkpoint.go: when a
  checkpoint is due, what it contains, the marker that names it, and the selection of old
  checkpoints. A checkpoint only adds objects the log never mistakes for versions, and replaying
  it gives the snapshot it was made from. Deletion is a stub in the code and in the model.
\<close>

record checkpoint_config =
  cc_frequency :: int
  cc_retention_days :: int
  cc_max_checkpoints :: int
  cc_validation_enabled :: bool
  cc_compaction_enabled :: bool
  cc_size_threshold_mb :: int
  cc_adaptive_mode :: bool
  cc_creation_timeout :: duration

definition checkpoint_defaults :: "checkpoint_config \<Rightarrow> checkpoint_config" where
  "checkpoint_defaults c =
     c\<lparr>cc_frequency := (if cc_frequency c \<le> 0 then 10 else cc_frequency c),
       cc_retention_days := (if cc_retention_days c \<le> 0 then 30 else cc_retention_days c),
       cc_max_checkpoints := (if cc_max_checkpoints c \<le> 0 then 50 else cc_max_checkpoints c),
       cc_size_threshold_mb := (if cc_size_threshold_mb c \<le> 0 then 128 else cc_size_threshold_mb c),
       cc_creation_timeout := (if cc_creation_timeout c \<le> 0 then 30 * minute else cc_creation_timeout c)\<rparr>"

text \<open>The manager's own counters, the part of it that changes.\<close>

record checkpoint_counters =
  ck_count :: int
  ck_last_time :: instant
  ck_total_replay_time :: duration

definition no_checkpoints :: checkpoint_counters where
  "no_checkpoints = \<lparr>ck_count = 0, ck_last_time = zero_time, ck_total_replay_time = 0\<rparr>"

record 'w checkpoint_manager =
  cm_store :: "'w store_ops"
  cm_table :: "'w delta_table"
  cm_validator :: "'w checkpoint_validator"
  cm_config :: checkpoint_config
  cm_last_checkpoint_key :: string
  cm_log_prefix :: string

definition new_checkpoint_manager ::
  "'w store_ops \<Rightarrow> 'w delta_table \<Rightarrow> checkpoint_config \<Rightarrow> string \<Rightarrow> string \<Rightarrow> 'w checkpoint_manager" where
  "new_checkpoint_manager store t config last_key log_prefix =
     \<lparr>cm_store = store, cm_table = t,
      cm_validator = \<lparr>cv_store = store, cv_log_prefix = log_prefix\<rparr>,
      cm_config = checkpoint_defaults config, cm_last_checkpoint_key = last_key,
      cm_log_prefix = log_prefix\<rparr>"

text \<open>\<open>NewDeltaTableWithCheckpoints\<close>: the marker lies next to the versions.\<close>

definition table_checkpoint_manager ::
  "'w store_ops \<Rightarrow> string \<Rightarrow> string \<Rightarrow> string \<Rightarrow> checkpoint_config \<Rightarrow> 'w checkpoint_manager" where
  "table_checkpoint_manager store source object log_prefix config =
     new_checkpoint_manager store (new_delta_table store source object log_prefix) config
       (log_prefix @ ''_last_checkpoint'') log_prefix"

section \<open>The marker\<close>

record last_checkpoint =
  lc_version :: int
  lc_size :: int

definition enc_last_checkpoint :: "last_checkpoint \<Rightarrow> json" where
  "enc_last_checkpoint lc =
     JObj [(''version'', enc_int (lc_version lc)), (''size'', enc_int (lc_size lc))]"

definition into_last_checkpoint :: "last_checkpoint into" where
  "into_last_checkpoint = into_struct
     [(''version'', fld lc_version lc_version_update into_int64),
      (''size'', fld lc_size lc_size_update into_int64)]"

definition get_last_checkpoint :: "'w checkpoint_manager \<Rightarrow> ('w, last_checkpoint) io" where
  "get_last_checkpoint m =
     get_json_into (cm_store m) (cm_last_checkpoint_key m) into_last_checkpoint
       \<lparr>lc_version = 0, lc_size = 0\<rparr>"

lemma into_last_checkpoint_enc [simp, codec]:
  assumes "in_int64 (lc_version lc)" and "in_int64 (lc_size lc)"
  shows "into_last_checkpoint (enc_last_checkpoint lc) z = Some lc"
  using assms by (cases lc; cases z)
    (simp add: into_last_checkpoint_def enc_last_checkpoint_def struct_simps)

lemma wf_json_last_checkpoint [simp]: "wf_json (enc_last_checkpoint lc)"
  by (simp add: enc_last_checkpoint_def)

section \<open>When a checkpoint is due\<close>

text \<open>Versions that cannot be read are skipped; the sum is a 64-bit one.\<close>

fun add_sizes :: "action list \<Rightarrow> int \<Rightarrow> int" where
  "add_sizes [] acc = acc"
| "add_sizes (a # as) acc =
     add_sizes as (case ac_add a of None \<Rightarrow> acc | Some f \<Rightarrow> wrap64 (acc + ad_size f))"

fun volume_loop :: "'w transaction_log \<Rightarrow> int list \<Rightarrow> int \<Rightarrow> 'w \<Rightarrow> int \<times> 'w" where
  "volume_loop l [] acc w = (acc, w)"
| "volume_loop l (v # vs) acc w =
     (case read_version l v w of
        (Inl e, w') \<Rightarrow> volume_loop l vs acc w'
      | (Inr actions, w') \<Rightarrow> volume_loop l vs (add_sizes actions acc) w')"

definition estimate_data_volume :: "'w checkpoint_manager \<Rightarrow> int \<Rightarrow> int \<Rightarrow> ('w, int) io" where
  "estimate_data_volume m from_version to_version w =
     (case volume_loop (dt_log (cm_table m)) [from_version + 1..to_version] 0 w of
        (acc, w') \<Rightarrow> (Inr (quot acc (1024 * 1024)), w'))"

definition should_checkpoint_for_performance :: "int \<Rightarrow> bool" where
  "should_checkpoint_for_performance versions_since \<longleftrightarrow> 50 \<le> versions_since"

definition should_create_checkpoint :: "'w checkpoint_manager \<Rightarrow> int \<Rightarrow> ('w, bool) io" where
  "should_create_checkpoint m version =
     (let c = cm_config m
      in if \<not> cc_adaptive_mode c then io_ret (remi version (cc_frequency c) = 0)
         else io_try (get_last_checkpoint m) (\<lambda>r.
           case r of
             Inl _ \<Rightarrow> io_ret (remi version (cc_frequency c) = 0)
           | Inr marker \<Rightarrow>
               let since = wrap64 (version - lc_version marker)
               in if wrap64 (cc_frequency c * 2) \<le> since then io_ret True
                  else if cc_frequency c \<le> since then
                    io_try (estimate_data_volume m (lc_version marker) version) (\<lambda>r.
                      case r of
                        Inl _ \<Rightarrow> io_ret (cc_frequency c \<le> since)
                      | Inr volume \<Rightarrow>
                          io_ret (cc_size_threshold_mb c \<le> volume \<or> should_checkpoint_for_performance since))
                  else io_ret False))"

section \<open>Creating a checkpoint\<close>

text \<open>\<open>Action{Protocol: p}\<close>, \<open>Action{MetaData: m}\<close>, \<open>Action{Add: f}\<close>.\<close>

definition protocol_action :: "protocol \<Rightarrow> action" where
  "protocol_action p = zero_action\<lparr>ac_protocol := Some p\<rparr>"

definition metadata_action :: "metadata \<Rightarrow> action" where
  "metadata_action m = zero_action\<lparr>ac_metadata := Some m\<rparr>"

definition file_action :: "add \<Rightarrow> action" where
  "file_action f = zero_action\<lparr>ac_add := Some f\<rparr>"

definition build_checkpoint_actions ::
  "((string \<times> add) list \<Rightarrow> (string \<times> add) list) \<Rightarrow> snapshot \<Rightarrow> action list" where
  "build_checkpoint_actions ord snap =
     (case sn_protocol snap of None \<Rightarrow> [] | Some p \<Rightarrow> [protocol_action p])
     @ (case sn_metadata snap of None \<Rightarrow> [] | Some m \<Rightarrow> [metadata_action m])
     @ map (\<lambda>(path, f). file_action f) (ord (sn_files snap))"

text \<open>The compaction hook returns its input.\<close>

definition compact_small_files :: "action list \<Rightarrow> action list" where
  "compact_small_files actions = actions"

definition write_checkpoint_file :: "'w store_ops \<Rightarrow> string \<Rightarrow> action list \<Rightarrow> ('w, unit) io" where
  "write_checkpoint_file store key actions =
     st_upload store key (encode_checkpoint actions) ''application/json''"

record checkpoint_file =
  cf_key :: string
  cf_version :: int
  cf_time :: instant

definition extract_version_from_checkpoint_key :: "string \<Rightarrow> int option" where
  "extract_version_from_checkpoint_key key =
     parse_int (hd (split_on (CHR ''.'') (last (split_on (CHR ''/'') key))))"

fun stamp_files :: "'w runtime \<Rightarrow> (string \<times> int) list \<Rightarrow> 'w \<Rightarrow> checkpoint_file list \<times> 'w" where
  "stamp_files rt [] w = ([], w)"
| "stamp_files rt ((key, v) # kvs) w =
     (case rt_now rt w of
        (now, w1) \<Rightarrow>
          (case stamp_files rt kvs w1 of
             (fs, w2) \<Rightarrow> (\<lparr>cf_key = key, cf_version = v, cf_time = now\<rparr> # fs, w2)))"

definition list_checkpoint_files :: "'w runtime \<Rightarrow> 'w checkpoint_manager \<Rightarrow> ('w, checkpoint_file list) io" where
  "list_checkpoint_files rt m =
     io_bind (st_list (cm_store m) (cm_log_prefix m))
       (\<lambda>keys w.
          case stamp_files rt
                 (List.map_filter (\<lambda>key. if str_contains key ''.checkpoint.json''
                                         then map_option (Pair key) (extract_version_from_checkpoint_key key)
                                         else None) keys) w of
            (fs, w') \<Rightarrow> (Inr fs, w'))"

text \<open>
  The loop from the newest file down. \<open>cutoff\<close> is the retention time the caller computed; the
  loop never reads it.
\<close>

fun select_loop :: "checkpoint_file list \<Rightarrow> int \<Rightarrow> int \<Rightarrow> int \<Rightarrow> checkpoint_file list" where
  "select_loop [] current_version max_checkpoints kept = []"
| "select_loop (f # fs) current_version max_checkpoints kept =
     (if cf_version f = current_version then select_loop fs current_version max_checkpoints (kept + 1)
      else if kept < max_checkpoints then select_loop fs current_version max_checkpoints (kept + 1)
      else f # select_loop fs current_version max_checkpoints kept)"

definition select_checkpoints_for_deletion ::
  "checkpoint_config \<Rightarrow> checkpoint_file list \<Rightarrow> instant \<Rightarrow> int \<Rightarrow> checkpoint_file list" where
  "select_checkpoints_for_deletion c files cutoff current_version =
     (if length files \<le> 1 then [] else select_loop (rev files) current_version (cc_max_checkpoints c) 0)"

text \<open>\<open>deleteCheckpointFile\<close> logs that it is not implemented and reports success.\<close>

definition delete_checkpoint_file :: "string \<Rightarrow> ('w, unit) io" where
  "delete_checkpoint_file key = io_ret ()"

fun delete_files :: "checkpoint_file list \<Rightarrow> ('w, unit) io" where
  "delete_files [] = io_ret ()"
| "delete_files (f # fs) = io_try (delete_checkpoint_file (cf_key f)) (\<lambda>_. delete_files fs)"

definition cleanup_old_checkpoints :: "'w runtime \<Rightarrow> 'w checkpoint_manager \<Rightarrow> int \<Rightarrow> ('w, unit) io" where
  "cleanup_old_checkpoints rt m current_version =
     io_bind (io_wrap ''list checkpoint files'' (list_checkpoint_files rt m))
       (\<lambda>files. io_bind (io_now rt)
         (\<lambda>now. delete_files
           (select_checkpoints_for_deletion (cm_config m) (sort_key cf_version files)
              (now - cc_retention_days (cm_config m) * (24 * hour)) current_version)))"

definition create_checkpoint ::
  "((string \<times> add) list \<Rightarrow> (string \<times> add) list) \<Rightarrow> 'w runtime \<Rightarrow> 'w checkpoint_manager \<Rightarrow> int
   \<Rightarrow> (checkpoint_counters \<times> 'w, unit) io" where
  "create_checkpoint ord rt m version =
     io_bind (io_snd (io_wrap (''snapshot for checkpoint at version '' @ dec version)
                        (table_snapshot (cm_table m) version)))
       (\<lambda>snap.
          let actions0 = build_checkpoint_actions ord snap;
              actions = (if cc_compaction_enabled (cm_config m) then compact_small_files actions0 else actions0);
              key = checkpoint_key (cm_log_prefix m) version
          in io_bind (io_snd (io_wrap ''write checkpoint file'' (write_checkpoint_file (cm_store m) key actions)))
            (\<lambda>_. io_try
              (if cc_validation_enabled (cm_config m)
               then io_snd (validate_checkpoint ord (cm_validator m) key snap) else io_ret ())
              (\<lambda>_. io_bind (io_snd (io_wrap ''write last checkpoint marker''
                       (st_put_json (cm_store m) (cm_last_checkpoint_key m)
                          (enc_last_checkpoint \<lparr>lc_version = version, lc_size = int (length actions)\<rparr>))))
                (\<lambda>_. io_try (io_snd (cleanup_old_checkpoints rt m version))
                  (\<lambda>_. io_bind (io_snd (io_now rt))
                    (\<lambda>now (counters, w).
                       (Inr (), (counters\<lparr>ck_count := ck_count counters + 1, ck_last_time := now\<rparr>, w))))))))"

definition maybe_checkpoint ::
  "((string \<times> add) list \<Rightarrow> (string \<times> add) list) \<Rightarrow> 'w runtime \<Rightarrow> 'w checkpoint_manager \<Rightarrow> int
   \<Rightarrow> (checkpoint_counters \<times> 'w, unit) io" where
  "maybe_checkpoint ord rt m version =
     (if version = 0 then io_ret ()
      else io_bind (io_snd (io_wrap ''determine checkpoint need'' (should_create_checkpoint m version)))
             (\<lambda>due. if \<not> due then io_ret () else create_checkpoint ord rt m version))"

section \<open>The deprecated manager\<close>

definition legacy_create_checkpoint ::
  "((string \<times> add) list \<Rightarrow> (string \<times> add) list) \<Rightarrow> 'w checkpoint_manager \<Rightarrow> int \<Rightarrow> ('w, unit) io" where
  "legacy_create_checkpoint ord m version =
     io_bind (io_wrap (''snapshot for checkpoint at version '' @ dec version)
                (table_snapshot (cm_table m) version))
       (\<lambda>snap.
          let actions = build_checkpoint_actions ord snap;
              key = checkpoint_key (cm_log_prefix m) version
          in io_bind (io_wrap ''upload checkpoint''
                 (st_upload (cm_store m) key (encode_checkpoint actions) ''application/json''))
               (\<lambda>_. io_wrap ''write last checkpoint marker''
                  (st_put_json (cm_store m) (cm_last_checkpoint_key m)
                     (enc_last_checkpoint \<lparr>lc_version = version, lc_size = int (length actions)\<rparr>))))"

definition legacy_maybe_checkpoint ::
  "((string \<times> add) list \<Rightarrow> (string \<times> add) list) \<Rightarrow> 'w checkpoint_manager \<Rightarrow> int \<Rightarrow> ('w, unit) io" where
  "legacy_maybe_checkpoint ord m version =
     (if version = 0 \<or> remi version 10 \<noteq> 0 then io_ret () else legacy_create_checkpoint ord m version)"

section \<open>A checkpoint is its snapshot\<close>

text \<open>Every file is stored under its own path.\<close>

definition keyed_by_path :: "snapshot \<Rightarrow> bool" where
  "keyed_by_path s \<longleftrightarrow> keys_distinct (sn_files s) \<and> (\<forall>(path, f) \<in> set (sn_files s). ad_path f = path)"

lemma keyed_by_path_empty [simp]: "keyed_by_path (empty_snapshot v)"
  by (simp add: keyed_by_path_def empty_snapshot_def)

lemma set_delete_subset: "set (AList.delete k m) \<subseteq> set m"
  by (auto simp: AList.delete_eq)

lemma keyed_by_path_apply: "keyed_by_path s \<Longrightarrow> keyed_by_path (apply_action a s)"
  using set_update_subset set_delete_subset
  by (fastforce simp: keyed_by_path_def apply_action_def split: option.splits)

lemma keyed_by_path_replay: "keyed_by_path s \<Longrightarrow> keyed_by_path (replay as s)"
  by (induction as arbitrary: s) (auto intro: keyed_by_path_apply)

lemma keyed_by_path_replay_log: "replay_log L n s = Some s' \<Longrightarrow> keyed_by_path s \<Longrightarrow> keyed_by_path s'"
  by (induction n arbitrary: s') (auto split: option.splits intro: keyed_by_path_replay)

lemma apply_checkpoint_action [simp]:
  "apply_action (protocol_action p) s = s\<lparr>sn_protocol := Some p\<rparr>"
  "apply_action (metadata_action m) s = s\<lparr>sn_metadata := Some m\<rparr>"
  "apply_action (file_action f) s = s\<lparr>sn_files := AList.update (ad_path f) f (sn_files s)\<rparr>"
  by (simp_all add: apply_action_def protocol_action_def metadata_action_def file_action_def zero_action_def)

lemma replay_file_actions:
  "map_of (sn_files (replay (map (\<lambda>(path, f). file_action f) kvs) s)) p
   = (map_of (sn_files s) ++ map_of (rev (map (\<lambda>(path, f). (ad_path f, f)) kvs))) p"
  "sn_protocol (replay (map (\<lambda>(path, f). file_action f) kvs) s) = sn_protocol s"
  "sn_metadata (replay (map (\<lambda>(path, f). file_action f) kvs) s) = sn_metadata s"
  by (induction kvs arbitrary: s) (auto simp: map_add_def split: option.splits)

text \<open>Replaying a checkpoint on an empty table gives the snapshot back, whatever the map order.\<close>

lemma replay_checkpoint:
  assumes "iteration_order ord" and "keyed_by_path s"
  shows "same_table (replay (build_checkpoint_actions ord s) (empty_snapshot v)) s"
proof -
  let ?kvs = "ord (sn_files s)"
  have same: "map (\<lambda>(path, f). (ad_path f, f)) ?kvs = ?kvs"
    using assms by (intro map_idI) (auto simp: keyed_by_path_def)
  have "map_of (rev ?kvs) = map_of (sn_files s)"
    using assms by (intro map_of_perm) (auto simp: keyed_by_path_def)
  then show ?thesis
    by (auto simp: same_table_def build_checkpoint_actions_def replay_file_actions same
        empty_snapshot_def fun_eq_iff split: option.splits)
qed

text \<open>The same after the trip through the stored JSON.\<close>

definition wf_snapshot :: "snapshot \<Rightarrow> bool" where
  "wf_snapshot s \<longleftrightarrow>
     keyed_by_path s \<and> pred_option wf_protocol (sn_protocol s) \<and> pred_option wf_metadata (sn_metadata s)
     \<and> (\<forall>(path, f) \<in> set (sn_files s). wf_add f)"

lemma wf_build_checkpoint_actions:
  "wf_snapshot s \<Longrightarrow> iteration_order ord \<Longrightarrow> list_all wf_action (build_checkpoint_actions ord s)"
  by (auto simp: wf_snapshot_def build_checkpoint_actions_def list_all_iff wf_action_def protocol_action_def
      metadata_action_def file_action_def zero_action_def split: option.splits)

lemma wf_snapshot_apply:
  "wf_snapshot s \<Longrightarrow> wf_action a \<Longrightarrow> wf_snapshot (apply_action a s)"
  using set_update_subset set_delete_subset keyed_by_path_apply [of s a]
  by (fastforce simp: wf_snapshot_def wf_action_def apply_action_def split: option.splits)

lemma wf_snapshot_replay: "wf_snapshot s \<Longrightarrow> list_all wf_action as \<Longrightarrow> wf_snapshot (replay as s)"
  by (induction as arbitrary: s) (auto intro: wf_snapshot_apply)

lemma wf_snapshot_empty [simp]: "wf_snapshot (empty_snapshot v)"
  by (simp add: wf_snapshot_def) (simp add: empty_snapshot_def)

section \<open>Which checkpoints go\<close>

lemma select_loop_sub: "set (select_loop fs cur mx k) \<subseteq> set fs"
  by (induction fs cur mx k rule: select_loop.induct) auto

lemma select_loop_current: "f \<in> set (select_loop fs cur mx k) \<Longrightarrow> cf_version f \<noteq> cur"
  by (induction fs cur mx k rule: select_loop.induct) (auto split: if_splits)

lemma select_loop_none: "int (length fs) + k \<le> mx \<Longrightarrow> select_loop fs cur mx k = []"
  by (induction fs cur mx k rule: select_loop.induct) auto

text \<open>What goes is older than what stays, the current version apart.\<close>

lemma select_loop_oldest:
  assumes "sorted (rev (map cf_version fs))" and "g \<in> set (select_loop fs cur mx k)"
    and "f \<in> set fs" and "f \<notin> set (select_loop fs cur mx k)" and "cf_version f \<noteq> cur"
  shows "cf_version g \<le> cf_version f"
  using assms
proof (induction fs cur mx k rule: select_loop.induct)
  case (2 h fs cur mx k)
  have sorted: "sorted (rev (map cf_version fs))" and h: "\<forall>x \<in> set fs. cf_version x \<le> cf_version h"
    using "2.prems"(1) by (auto simp: sorted_append)
  have all: "f' \<in> set (select_loop fs' cur mx k')" if "mx \<le> k'" "f' \<in> set fs'" "cf_version f' \<noteq> cur" for f' fs' k'
    using that by (induction fs' arbitrary: k') auto
  show ?case
  proof (cases "cf_version h = cur \<or> k < mx")
    case True
    then show ?thesis
      using 2 sorted h select_loop_sub [of fs cur mx "k + 1"] by (auto split: if_splits)
  next
    case False
    then show ?thesis using "2.prems" all [of k f fs] by (auto split: if_splits)
  qed
qed simp

lemma select_retention_ignored:
  "select_checkpoints_for_deletion c files cutoff cur = select_checkpoints_for_deletion c files cutoff' cur"
  by (simp add: select_checkpoints_for_deletion_def)

section \<open>A fresh checkpoint is valid\<close>

lemma checkpoint_action_kinds [simp]:
  "is_protocol (protocol_action p)" "\<not> is_metadata (protocol_action p)"
  "\<not> is_protocol (metadata_action m)" "is_metadata (metadata_action m)"
  "\<not> is_protocol (file_action f)" "\<not> is_metadata (file_action f)"
  "sound_action (protocol_action p)" "sound_action (metadata_action m)"
  "sound_action (file_action f) \<longleftrightarrow> ad_path f \<noteq> [] \<and> 0 \<le> ad_size f"
  "ac_add (protocol_action p) = None" "ac_add (metadata_action m) = None" "ac_add (file_action f) = Some f"
  by (simp_all add: is_protocol_def is_metadata_def sound_action_def protocol_action_def metadata_action_def
      file_action_def zero_action_def)

lemma filter_file_actions [simp]:
  "filter is_protocol (map (\<lambda>(path, f). file_action f) kvs) = []"
  "filter is_metadata (map (\<lambda>(path, f). file_action f) kvs) = []"
  by (auto simp: filter_empty_conv)

lemma fresh_checkpoint_structure:
  assumes "iteration_order ord" and "sn_protocol s \<noteq> None" and "sn_metadata s \<noteq> None"
    and "\<forall>(path, f) \<in> set (sn_files s). ad_path f \<noteq> [] \<and> 0 \<le> ad_size f"
  shows "sr_errors (validate_checkpoint_structure (build_checkpoint_actions ord s)) = []"
  using assms unfolding structure_valid_iff build_checkpoint_actions_def
  by (auto simp: list_all_iff)

lemma map_filter_file_actions:
  "List.map_filter ac_add (build_checkpoint_actions ord s) = map snd (ord (sn_files s))"
proof -
  have "List.map_filter ac_add (map (\<lambda>(path, f). file_action f) kvs) = map snd kvs" for kvs :: "(string \<times> add) list"
    by (induction kvs) (auto simp: List.map_filter_simps)
  then show ?thesis
    by (auto simp: build_checkpoint_actions_def List.map_filter_simps List.map_filter_def split: option.splits)
qed

lemma fresh_checkpoint_files:
  assumes "iteration_order ord" and "keyed_by_path s"
  shows "map_of (checkpoint_files (build_checkpoint_actions ord s)) = map_of (sn_files s)"
proof -
  have same: "map (\<lambda>f. (ad_path f, f)) (map snd (ord (sn_files s))) = ord (sn_files s)"
    using assms by (auto simp: keyed_by_path_def intro!: map_idI)
  have "map_of (rev (ord (sn_files s))) = map_of (sn_files s)"
    using assms by (intro map_of_perm) (auto simp: keyed_by_path_def)
  then show ?thesis
    by (simp add: map_of_checkpoint_files map_filter_file_actions same fun_eq_iff del: map_map)
qed

lemma fresh_checkpoint_matches:
  assumes "iteration_order ord" and "keyed_by_path s"
  shows "validate_against_snapshot ord (build_checkpoint_actions ord s) s = []"
  using assms fresh_checkpoint_files [OF assms]
  by (subst against_snapshot_silent) (auto simp: keyed_by_path_def split: option.splits)

section \<open>Checkpoints leave the log alone\<close>

lemma io_keeps_snd [intro]: "io_keeps P m \<Longrightarrow> io_keeps (\<lambda>s. P (snd s)) (io_snd m)"
  by (auto simp: io_keeps_def io_snd_def split: prod.splits)

lemma io_keeps_if [intro]: "io_keeps P m \<Longrightarrow> io_keeps P m' \<Longrightarrow> io_keeps P (if b then m else m')"
  by simp

lemma io_keepsI: "(\<And>w r w'. m w = (r, w') \<Longrightarrow> P w \<Longrightarrow> P w') \<Longrightarrow> io_keeps P m"
  by (metis io_keeps_def surj_pair snd_conv)

lemma io_keeps_Pair [simp, intro]: "io_keeps P (Pair x)"
  by (simp add: io_keeps_def)

lemma delete_files_keeps: "io_keeps P (delete_files fs)"
  by (induction fs) (auto simp: delete_checkpoint_file_def)

lemma wf_snapshot_replay_log:
  assumes "replay_log L n (empty_snapshot v) = Some s" and "\<And>i as. i < n \<Longrightarrow> L (int i) = Some as \<Longrightarrow> list_all wf_action as"
  shows "wf_snapshot s"
  using assms
proof (induction n arbitrary: s)
  case (Suc n)
  then obtain s1 as where "replay_log L n (empty_snapshot v) = Some s1" "L (int n) = Some as" "s = replay as s1"
    by (auto split: option.splits)
  moreover have "wf_snapshot s1" by (rule Suc.IH [OF calculation(1)]) (rule Suc.prems(2), simp_all)
  ultimately show ?case using Suc.prems(2) by (auto intro: wf_snapshot_replay)
qed simp

lemma last_checkpoint_neq: "0 \<le> v \<Longrightarrow> p @ ''_last_checkpoint'' \<noteq> checkpoint_key p v"
proof
  assume v: "0 \<le> v" and "p @ ''_last_checkpoint'' = checkpoint_key p v"
  then have "''_last_checkpoint'' = dec_pad 20 v @ ''.checkpoint.json''" by (simp add: checkpoint_key_def)
  then have "hd (dec_pad 20 v) = CHR ''_''" by (metis dec_pad_nonempty hd_append2 list.sel(1))
  then have "\<not> is_digit (hd (dec_pad 20 v))" by (simp add: is_digit_def)
  with dec_pad_digits [OF v, of 20] show False by (metis dec_pad_nonempty hd_in_set list_all_iff)
qed

text \<open>
  A checkpoint stands for the log up to its version: replaying it and then the entries after it
  gives the table that replaying the whole log gives.
\<close>

lemma replay_log_append:
  "replay_log L (n + k) s =
     (case replay_log L n s of None \<Rightarrow> None | Some s' \<Rightarrow> replay_log (\<lambda>i. L (int n + i)) k s')"
  by (induction k) (auto split: option.splits)

lemma checkpoint_then_tail:
  assumes ord: "iteration_order ord" and head: "replay_log L n (empty_snapshot v) = Some s"
    and full: "replay_log L (n + k) (empty_snapshot v') = Some s'"
  shows "\<exists>s''. replay_log (\<lambda>i. L (int n + i)) k (replay (build_checkpoint_actions ord s) (empty_snapshot x)) = Some s''
              \<and> same_table s'' s'"
proof -
  obtain s1 where s1: "replay_log L n (empty_snapshot v') = Some s1" and tail: "replay_log (\<lambda>i. L (int n + i)) k s1 = Some s'"
    using full by (auto simp: replay_log_append split: option.splits)
  have empty: "same_table (empty_snapshot v) (empty_snapshot v')"
    by (simp add: same_table_def empty_snapshot_def)
  have "same_table s s1" using replay_log_start [OF s1 empty] head by auto
  moreover have "same_table (replay (build_checkpoint_actions ord s) (empty_snapshot x)) s"
    using replay_checkpoint [OF ord keyed_by_path_replay_log [OF head]] by simp
  ultimately have "same_table (replay (build_checkpoint_actions ord s) (empty_snapshot x)) s1"
    using same_table_trans by blast
  from replay_log_start [OF tail this] show ?thesis .
qed

context table_env
begin

definition log_from :: "string \<Rightarrow> objects \<Rightarrow> 'a \<Rightarrow> bool" where
  "log_from p m0 w \<longleftrightarrow> log_same p m0 (view w)"

lemma log_from_read: "(\<And>w r w'. m w = (r, w') \<Longrightarrow> view w' = view w) \<Longrightarrow> io_keeps (log_from p m0) m"
  by (rule io_keepsI) (simp add: log_from_def)

lemma log_from_upload:
  assumes "has_prefix k p \<longrightarrow> version_of_key k = None"
  shows "io_keeps (log_from p m0) (st_upload ops k d t)"
proof (rule io_keepsI)
  fix w r w' assume "st_upload ops k d t w = (r, w')" and "log_from p m0 w"
  then show "log_from p m0 w'"
    using upload_cases [of k d t w r w'] log_same_other [OF assms, of "view w" d] log_same_trans
    by (auto simp: log_from_def)
qed

lemma log_from_put_json:
  assumes "has_prefix k p \<longrightarrow> version_of_key k = None"
  shows "io_keeps (log_from p m0) (st_put_json ops k v)"
proof (rule io_keepsI)
  fix w r w' assume "st_put_json ops k v w = (r, w')" and "log_from p m0 w"
  then show "log_from p m0 w'"
    using put_json_cases [of k v w r w'] log_same_other [OF assms, of "view w" "json_indent v"] log_same_trans
    by (auto simp: log_from_def)
qed

lemma log_from_reads:
  "io_keeps (log_from p m0) (st_download ops k)" "io_keeps (log_from p m0) (st_list ops q)"
  "io_keeps (log_from p m0) (st_get_json ops k)" "io_keeps (log_from p m0) (st_exists ops k)"
  "io_keeps (log_from p m0) (io_now rt)"
  by (auto intro!: log_from_read dest: reads_view io_now_view)

lemma table_snapshot_view:
  assumes "dt_log t = \<lparr>tl_store = ops, tl_log_prefix = p\<rparr>" and "table_snapshot t version w = (r, w')"
  shows "view w' = view w"
proof (cases "version = -1")
  case True
  with assms show ?thesis
    by (auto simp: table_snapshot_def io_bind_def dest!: latest_version_view snapshot_loop_view
        split: prod.splits sum.splits if_splits)
next
  case False
  with assms show ?thesis by (auto simp: table_snapshot_def dest: snapshot_loop_view)
qed

lemma file_integrity_view: "validate_file_integrity ops as es w = (r, w') \<Longrightarrow> view w' = view w"
proof (induction as arbitrary: es w)
  case (Cons a as)
  then show ?case
    by (fastforce dest: exists_view split: option.splits prod.splits sum.splits bool.splits)
qed simp

lemma validate_checkpoint_view:
  "validate_checkpoint ord \<lparr>cv_store = ops, cv_log_prefix = q\<rparr> key s w = (r, w') \<Longrightarrow> view w' = view w"
  by (auto simp: validate_checkpoint_def read_checkpoint_def io_bind_def io_wrap_def Let_def
      dest!: download_view file_integrity_view split: prod.splits sum.splits option.splits if_splits)

lemma volume_loop_view:
  "volume_loop \<lparr>tl_store = ops, tl_log_prefix = p\<rparr> vs acc w = (r, w') \<Longrightarrow> view w' = view w"
proof (induction vs arbitrary: acc w)
  case (Cons v vs)
  then show ?case by (fastforce dest: read_version_view split: prod.splits sum.splits)
qed simp

lemma stamp_files_view: "stamp_files rt kvs w = (fs, w') \<Longrightarrow> view w' = view w"
proof (induction kvs arbitrary: fs w)
  case (Cons kv kvs)
  then show ?case by (cases kv) (fastforce dest: now_view split: prod.splits)
qed simp

text \<open>A manager of this table: its store, its log and a marker that is no version.\<close>

definition manager_of :: "string \<Rightarrow> 'a checkpoint_manager \<Rightarrow> bool" where
  "manager_of p m \<longleftrightarrow>
     directory p \<and> cm_store m = ops \<and> cm_log_prefix m = p
     \<and> dt_log (cm_table m) = \<lparr>tl_store = ops, tl_log_prefix = p\<rparr>
     \<and> (\<exists>q. cm_validator m = \<lparr>cv_store = ops, cv_log_prefix = q\<rparr>)
     \<and> version_of_key (cm_last_checkpoint_key m) = None"

lemma manager_of_table:
  "directory p \<Longrightarrow> manager_of p (table_checkpoint_manager ops source object p config)"
  by (simp add: manager_of_def table_checkpoint_manager_def new_checkpoint_manager_def new_delta_table_def
      new_transaction_log_def)

lemma list_checkpoint_files_view:
  assumes "cm_store m = ops" and "list_checkpoint_files rt m w = (r, w')"
  shows "view w' = view w"
proof -
  obtain x w1 where l: "st_list ops (cm_log_prefix m) w = (x, w1)" by (metis surj_pair)
  have "view w' = view w1"
    using assms(2) l unfolding list_checkpoint_files_def assms(1) io_bind_def
    by (auto dest!: stamp_files_view split: prod.splits sum.splits)
  with list_view [OF l] show ?thesis by simp
qed

lemma cleanup_keeps:
  assumes "manager_of p m"
  shows "io_keeps (log_from p m0) (cleanup_old_checkpoints rt m v)"
  unfolding cleanup_old_checkpoints_def
  using assms list_checkpoint_files_view
  by (intro io_keeps_bind io_keeps_wrap delete_files_keeps log_from_reads log_from_read)
     (auto simp: manager_of_def)

lemma due_keeps:
  assumes "manager_of p m"
  shows "io_keeps (log_from p m0) (should_create_checkpoint m v)"
proof -
  have "io_keeps (log_from p m0) (get_last_checkpoint m)"
  proof -
    have "cm_store m = ops" using assms by (simp add: manager_of_def)
    then show ?thesis
      unfolding get_last_checkpoint_def get_json_into_def
      by (intro io_keeps_bind) (simp_all add: log_from_reads split: option.splits)
  qed
  moreover have "io_keeps (log_from p m0) (estimate_data_volume m a b)" for a b
  proof -
    have "dt_log (cm_table m) = \<lparr>tl_store = ops, tl_log_prefix = p\<rparr>"
      using assms by (simp add: manager_of_def)
    then show ?thesis
      by (intro log_from_read)
         (simp add: estimate_data_volume_def volume_loop_view split: prod.splits)
  qed
  ultimately show ?thesis
    unfolding should_create_checkpoint_def Let_def
    by (auto simp: io_keeps_try split: sum.splits)
qed

lemma create_checkpoint_keeps:
  assumes m: "manager_of p m" and v: "0 \<le> v"
  shows "io_keeps (\<lambda>s. log_from p m0 (snd s)) (create_checkpoint ord rt m v)"
proof -
  let ?P = "\<lambda>s. log_from p m0 (snd s)"
  have store: "cm_store m = ops" and log: "dt_log (cm_table m) = \<lparr>tl_store = ops, tl_log_prefix = p\<rparr>"
    and pre: "cm_log_prefix m = p" and dir: "directory p"
    and marker: "version_of_key (cm_last_checkpoint_key m) = None"
    using m by (auto simp: manager_of_def)
  obtain q where val: "cm_validator m = \<lparr>cv_store = ops, cv_log_prefix = q\<rparr>"
    using m by (auto simp: manager_of_def)
  have snap: "io_keeps (log_from p m0) (table_snapshot (cm_table m) v)"
    using table_snapshot_view [OF log] by (rule log_from_read)
  have written: "io_keeps (log_from p m0) (write_checkpoint_file ops (checkpoint_key p v) as)" for as
    unfolding write_checkpoint_file_def using version_of_checkpoint_key [OF dir v]
    by (intro log_from_upload) simp
  have checked: "io_keeps (log_from p m0) (validate_checkpoint ord (cm_validator m) key s)" for key s
    unfolding val using validate_checkpoint_view by (rule log_from_read)
  have put: "io_keeps (log_from p m0) (st_put_json ops (cm_last_checkpoint_key m) j)" for j
    using marker by (intro log_from_put_json) simp
  have final: "io_keeps ?P (\<lambda>(c, w). (Inr (), (f c, w)))" for f :: "checkpoint_counters \<Rightarrow> checkpoint_counters"
    by (auto simp: io_keeps_def)
  show ?thesis
    unfolding create_checkpoint_def Let_def store pre
    by (intro io_keeps_bind io_keeps_try io_keeps_wrap io_keeps_if io_keeps_ret io_keeps_snd snap written checked put
        cleanup_keeps [OF m] log_from_reads final)
qed

lemma maybe_checkpoint_keeps:
  assumes "manager_of p m" and "0 \<le> v"
  shows "io_keeps (\<lambda>s. log_from p m0 (snd s)) (maybe_checkpoint ord rt m v)"
  unfolding maybe_checkpoint_def
  by (intro io_keeps_if io_keeps_ret io_keeps_bind io_keeps_snd io_keeps_wrap due_keeps [OF assms(1)]
      create_checkpoint_keeps [OF assms])

text \<open>
  What a checkpoint that was written holds: the table at its version, encoded, and the marker that
  names the version. Nothing else changes.
\<close>

lemma cleanup_view:
  assumes "manager_of p m" and "cleanup_old_checkpoints rt m v w = (r, w')"
  shows "view w' = view w"
proof -
  have "cm_store m = ops" using assms(1) by (simp add: manager_of_def)
  then have "io_keeps (\<lambda>w'. view w' = view w) (list_checkpoint_files rt m)"
    using list_checkpoint_files_view by (intro io_keepsI) metis
  moreover have "io_keeps (\<lambda>w'. view w' = view w) (io_now rt)"
    using io_now_view by (intro io_keepsI) metis
  ultimately have "io_keeps (\<lambda>w'. view w' = view w) (cleanup_old_checkpoints rt m v)"
    unfolding cleanup_old_checkpoints_def by (intro io_keeps_bind io_keeps_wrap delete_files_keeps)
  from io_keepsD [OF this _ assms(2)] show ?thesis by simp
qed

lemma create_checkpoint_ok:
  assumes run: "create_checkpoint ord rt m v (k, w) = (Inr u, (k', w'))" and m: "manager_of p m" and v: "0 \<le> v"
  shows "\<exists>s. replay_log (log_actions p (view w)) (nat (v + 1)) (empty_snapshot v) = Some s
     \<and> view w' = (view w)(checkpoint_key p v \<mapsto> encode_checkpoint (build_checkpoint_actions ord s),
                          cm_last_checkpoint_key m \<mapsto> json_indent (enc_last_checkpoint
                            \<lparr>lc_version = v, lc_size = int (length (build_checkpoint_actions ord s))\<rparr>))
     \<and> ck_count k' = ck_count k + 1"
proof -
  have store: "cm_store m = ops" and log: "dt_log (cm_table m) = \<lparr>tl_store = ops, tl_log_prefix = p\<rparr>"
    and pre: "cm_log_prefix m = p"
    using m by (auto simp: manager_of_def)
  obtain q where val: "cm_validator m = \<lparr>cv_store = ops, cv_log_prefix = q\<rparr>"
    using m by (auto simp: manager_of_def)
  obtain s w1 where snap: "table_snapshot (cm_table m) v w = (Inr s, w1)"
    using run unfolding create_checkpoint_def by (auto elim!: io_bind_InrE io_sndE io_wrap_InrE)
  let ?as = "build_checkpoint_actions ord s" and ?key = "checkpoint_key p v"
  let ?marker = "\<lparr>lc_version = v, lc_size = int (length ?as)\<rparr>"
  let ?check = "if cc_validation_enabled (cm_config m) then validate_checkpoint ord (cm_validator m) ?key s else io_ret ()"
  obtain r2 w2 where wr: "st_upload ops ?key (encode_checkpoint ?as) ''application/json'' w1 = (r2, w2)"
    by (metis surj_pair)
  obtain x w3 where chk: "?check w2 = (x, w3)" by (metis surj_pair)
  obtain r4 w4 where put: "st_put_json ops (cm_last_checkpoint_key m) (enc_last_checkpoint ?marker) w3 = (r4, w4)"
    by (metis surj_pair)
  obtain y w5 where cln: "cleanup_old_checkpoints rt m v w4 = (y, w5)" by (metis surj_pair)
  obtain now w6 where now: "io_now rt w5 = (Inr now, w6)" by (cases "rt_now rt w5") (auto simp: io_now_def)
  have [simp]: "(if b then compact_small_files as else as) = as" for b as
    by (simp add: compact_small_files_def)
  have "r2 = Inr () \<and> r4 = Inr () \<and> w' = w6 \<and> ck_count k' = ck_count k + 1"
    using run snap wr chk put cln now
    by (cases r2; cases r4; cases "cc_validation_enabled (cm_config m)")
       (auto simp: create_checkpoint_def write_checkpoint_file_def store pre Let_def
         io_bind_def io_snd_def io_wrap_def io_try_def)
  then have ok: "r2 = Inr ()" "r4 = Inr ()" and fin: "w' = w6" "ck_count k' = ck_count k + 1" by auto
  have "view w1 = view w" using table_snapshot_view [OF log snap] .
  moreover have "view w2 = (view w1)(?key \<mapsto> encode_checkpoint ?as)" using upload_ok wr ok(1) by metis
  moreover have "view w3 = view w2"
    using chk validate_checkpoint_view [of ord q ?key s w2 x w3] unfolding val by (auto split: if_splits)
  moreover have "view w4 = (view w3)(cm_last_checkpoint_key m \<mapsto> json_indent (enc_last_checkpoint ?marker))"
    using put_json_ok put ok(2) by metis
  moreover have "view w6 = view w4" using cleanup_view [OF m cln] io_now_view [OF now] by simp
  ultimately show ?thesis using table_snapshot_ok [OF snap log v] fin by auto
qed

end

end
