(* ===== verification/Engine.thy ===== *)
theory Engine
  imports ParquetWriter ValidationReport Consistency RecoveryExec Checkpoints
begin

text \<open>
  internal/sync/engine.go: a run connects, discovers, plans, syncs each planned object, checks consistency,
  reports and saves the state.

  The goroutines of a run are modelled one after another, in the order \<open>en_schedule\<close> puts the plans: exactly
  the runs with a concurrency of 1, where the semaphore lets one goroutine through at a time. \<open>None\<close> as a
  result is a call that does not return: it panics, or blocks on a nil channel.
\<close>

section \<open>The source\<close>

text \<open>
  What a connector streams, as the engine sees it: the batches of the record channel and then the first
  receive from the error channel (\<open>None\<close> when it is closed or holds nil).
\<close>

record 'w connector =
  co_connect :: "('w, unit) io"
  co_close :: "'w \<Rightarrow> 'w"
  co_discover :: "('w, object_metadata list option) io"
  co_describe :: "string \<Rightarrow> ('w, object_metadata) io"
  co_full :: "string \<Rightarrow> 'w \<Rightarrow> (record_batch list \<times> go_error option) \<times> 'w"
  co_incremental :: "string \<Rightarrow> string \<Rightarrow> instant \<Rightarrow> 'w \<Rightarrow> (record_batch list \<times> go_error option) \<times> 'w"

text \<open>The orders of the ranges over maps in a run.\<close>

record orders =
  od_range :: range_order
  od_rate :: rate_order
  od_stats :: stats_order
  od_field1 :: field_order
  od_field2 :: field_order
  od_field3 :: field_order
  od_results :: "(string \<times> object_result) list \<Rightarrow> (string \<times> object_result) list"
  od_rel1 :: rel_order
  od_rel2 :: rel_order
  od_rel3 :: rel_order
  od_files :: "(string \<times> add) list \<Rightarrow> (string \<times> add) list"
  od_batches :: "(string \<times> batch_result list) list \<Rightarrow> (string \<times> batch_result list) list"
  od_object1 :: object_order
  od_drift :: drift_order
  od_object2 :: object_order

record 'w engine =
  en_connector :: "'w connector"
  en_store :: "'w store_ops"
  en_source :: string
  en_objects :: "string list"
  en_tracker :: "consistency_tracker option"
  en_consistency :: "consistency_section option"
  en_validator :: "validator option"
  en_validation :: "validation_section option"
  en_recovery :: "'w recovery_manager"
  en_uuid :: "'w \<Rightarrow> string \<times> 'w"
  en_parquet :: parquet_lib
  en_platform :: platform
  en_marshal :: "gval \<Rightarrow> json option"
  en_orders :: orders
  en_schedule :: "object_plan list \<Rightarrow> object_plan list"

text \<open>What changes from run to run: the breaker of the recovery manager, the collected errors, the validator's detector.\<close>

record engine_state =
  es_breaker :: sync_breaker
  es_errors :: aggregator
  es_detector :: "drift_detector option"

text \<open>What the operations of one run share: the state, the detector, the batch results and the discovered objects.\<close>

record run_state =
  rn_state :: sync_state
  rn_detector :: "drift_detector option"
  rn_results :: "(string, batch_result list) gomap"
  rn_objects :: "object_metadata list option"

section \<open>Building an engine\<close>

text \<open>The configuration of \<open>NewEngineWithValidation\<close>, with what the constructors make of it.\<close>

definition tracker_of :: "string \<Rightarrow> consistency_section option \<Rightarrow> consistency_tracker option" where
  "tracker_of source c =
     (case c of
        None \<Rightarrow> None
      | Some s \<Rightarrow> if cs_enabled s then Some (new_consistency_tracker source s) else None)"

definition custom_check_of :: "custom_rule \<Rightarrow> custom_check" where
  "custom_check_of r =
     \<lparr>ru_field = cr_field r, ru_type = cr_type r, ru_min = cr_min r, ru_max = cr_max r, ru_pattern = cr_pattern r,
      ru_values = cr_values r, ru_required = cr_required r, ru_custom = None\<rparr>"

definition validator_config_of :: "validation_section \<Rightarrow> validator_config" where
  "validator_config_of v =
     \<lparr>vc_error_threshold = vs_error_threshold v, vc_strict = vs_strict_mode v,
      vc_custom = map (\<lambda>(ob, rules). (ob, map custom_check_of rules)) (slice_of (vs_custom_rules v)),
      vc_drift_threshold = vs_drift_threshold v, vc_sampling = Fin 1, vc_max_samples = 10\<rparr>"

definition enabled_validation :: "validation_section option \<Rightarrow> validation_section option" where
  "enabled_validation v = (case v of None \<Rightarrow> None | Some s \<Rightarrow> if vs_enabled s then Some s else None)"

definition validator_of :: "validation_section option \<Rightarrow> validator option" where
  "validator_of v = map_option (\<lambda>s. new_default_validator (validator_config_of s)) (enabled_validation v)"

definition recovery_config_of :: "error_handling_section option \<Rightarrow> recovery_config" where
  "recovery_config_of e =
     (case e of
        None \<Rightarrow> default_recovery_config
      | Some h \<Rightarrow> \<lparr>rg_max_retries = eh_max_retries h, rg_base_delay = eh_base_delay h, rg_max_delay = eh_max_delay h,
          rg_breaker_threshold = eh_breaker_threshold h, rg_breaker_timeout = eh_breaker_timeout h,
          rg_partial_recovery = eh_partial_recovery h, rg_skip_failed = eh_skip_failed_objects h\<rparr>)"

text \<open>\<open>NewEngineWithValidation\<close>; the other two constructors pass nil for what they lack.\<close>

definition new_engine ::
  "'w connector \<Rightarrow> 'w store_ops \<Rightarrow> (string \<Rightarrow> ('w, unit) io) \<Rightarrow> string \<Rightarrow> string list \<Rightarrow> consistency_section option
   \<Rightarrow> validation_section option \<Rightarrow> error_handling_section option \<Rightarrow> ('w \<Rightarrow> string \<times> 'w) \<Rightarrow> parquet_lib \<Rightarrow> platform
   \<Rightarrow> (gval \<Rightarrow> json option) \<Rightarrow> orders \<Rightarrow> (object_plan list \<Rightarrow> object_plan list) \<Rightarrow> 'w engine" where
  "new_engine conn st delete source obs c v h uuid pq pl aj ords sched =
     \<lparr>en_connector = conn, en_store = st, en_source = source, en_objects = obs, en_tracker = tracker_of source c,
      en_consistency = c, en_validator = validator_of v, en_validation = v,
      en_recovery = \<lparr>rm_config = recovery_config_of h, rm_store = s3_recovery_store st delete (''sync/'' @ source)\<rparr>,
      en_uuid = uuid, en_parquet = pq, en_platform = pl, en_marshal = aj, en_orders = ords, en_schedule = sched\<rparr>"

definition new_engine_state :: "validation_section option \<Rightarrow> error_handling_section option \<Rightarrow> engine_state" where
  "new_engine_state v h =
     \<lparr>es_breaker = manager_breaker (recovery_config_of h), es_errors = [],
      es_detector = (case enabled_validation v of None \<Rightarrow> None | Some s \<Rightarrow> initial_detector (validator_config_of s))\<rparr>"

section \<open>Operations that may not return\<close>

definition pio_bind :: "('w, 'a) pio \<Rightarrow> ('a \<Rightarrow> ('w, 'b) pio) \<Rightarrow> ('w, 'b) pio" where
  "pio_bind m f = (\<lambda>w. case m w of
     (None, w') \<Rightarrow> (None, w') | (Some (Inl e), w') \<Rightarrow> (Some (Inl e), w') | (Some (Inr a), w') \<Rightarrow> f a w')"

definition pio_of :: "('w, 'a) io \<Rightarrow> ('w, 'a) pio" where
  "pio_of m = (\<lambda>w. case m w of (r, w') \<Rightarrow> (Some r, w'))"

definition pio_ret :: "'a \<Rightarrow> ('w, 'a) pio" where
  "pio_ret a = (\<lambda>w. (Some (Inr a), w))"

definition pio_fail :: "go_error \<Rightarrow> ('w, 'a) pio" where
  "pio_fail e = (\<lambda>w. (Some (Inl e), w))"

definition pio_wrap :: "string \<Rightarrow> ('w, 'a) pio \<Rightarrow> ('w, 'a) pio" where
  "pio_wrap p m = (\<lambda>w. case m w of (Some (Inl e), w') \<Rightarrow> (Some (Inl (Wrap p e)), w') | x \<Rightarrow> x)"

definition pio_snd :: "('w, 'a) pio \<Rightarrow> ('c \<times> 'w, 'a) pio" where
  "pio_snd m = (\<lambda>(c, w). case m w of (r, w') \<Rightarrow> (r, (c, w')))"

section \<open>One object\<close>

text \<open>A batch through the validator, when there is one: its result is kept, and in strict mode errors end the sync.\<close>

definition validate_step ::
  "'w runtime \<Rightarrow> 'w engine \<Rightarrow> object_plan \<Rightarrow> record_batch \<Rightarrow> batch_result list \<Rightarrow> (run_state \<times> 'w, batch_result list) pio" where
  "validate_step rt en p batch results = (\<lambda>(rn, w).
     case en_validator en of
       None \<Rightarrow> (Some (Inr results), (rn, w))
     | Some va \<Rightarrow>
         (case validate_batch rt (en_platform en) (od_range (en_orders en)) (od_rate (en_orders en)) (od_stats (en_orders en))
                 va batch (op_schema p) (rn_detector rn, w) of
            (None, dd, w1) \<Rightarrow> (None, (rn\<lparr>rn_detector := dd\<rparr>, w1))
          | (Some r, dd, w1) \<Rightarrow>
              if has_errors r \<and> (case en_validation en of None \<Rightarrow> False | Some v \<Rightarrow> vs_strict_mode v)
              then (Some (Inl (Msg (''validation failed for '' @ op_object p @ '': '' @ dec (br_error_records r)
                      @ '' errors found (strict mode enabled)''))), (rn\<lparr>rn_detector := dd\<rparr>, w1))
              else (Some (Inr (results @ [r])), (rn\<lparr>rn_detector := dd\<rparr>, w1))))"

definition stats_text :: "int \<Rightarrow> string" where
  "stats_text rows = ''{'' @ [CHR 0x22] @ ''numRecords'' @ [CHR 0x22] @ '':'' @ dec rows @ ''}''"

text \<open>The loop over the batches: the actions, the number of rows and the validation results so far.\<close>

type_synonym progress = "action list \<times> int \<times> batch_result list"

definition process_batch ::
  "'w runtime \<Rightarrow> 'w engine \<Rightarrow> object_plan \<Rightarrow> record_batch \<Rightarrow> progress \<Rightarrow> (run_state \<times> 'w, progress) pio" where
  "process_batch rt en p batch = (\<lambda>(actions, rows, results).
     if rb_records batch = [] then pio_ret (actions, rows, results)
     else pio_bind (validate_step rt en p batch results) (\<lambda>results'.
       pio_bind (pio_wrap ''write records''
                   (pio_snd (write_records (en_store en) (en_uuid en) (en_parquet en) (en_source en) (op_object p) (op_schema p)
                               (rb_records batch))))
         (\<lambda>written.
            case written of
              None \<Rightarrow> pio_ret (actions, rows, results')
            | Some f \<Rightarrow> (\<lambda>(rn, w). case rt_now rt w of (now, w1) \<Rightarrow>
                (Some (Inr (actions @ [new_add_action now (wf_filename f) (wf_size f) (stats_text (wf_rows f))],
                            rows + wf_rows f, results')), (rn, w1))))))"

fun process_batches ::
  "'w runtime \<Rightarrow> 'w engine \<Rightarrow> object_plan \<Rightarrow> record_batch list \<Rightarrow> progress \<Rightarrow> (run_state \<times> 'w, progress) pio" where
  "process_batches rt en p [] acc = pio_ret acc"
| "process_batches rt en p (b # bs) acc = pio_bind (process_batch rt en p b acc) (process_batches rt en p bs)"

definition object_table :: "'w engine \<Rightarrow> string \<Rightarrow> 'w delta_table" where
  "object_table en object = new_delta_table (en_store en) (en_source en) object (delta_log_prefix (en_source en) object)"

definition lookup_state :: "sync_state \<Rightarrow> string \<Rightarrow> object_state option" where
  "lookup_state s object = map_of (slice_of (ss_objects s)) object"

definition watermark_of :: "sync_state \<Rightarrow> string \<Rightarrow> instant" where
  "watermark_of s object = (case lookup_state s object of None \<Rightarrow> zero_time | Some os \<Rightarrow> os_watermark os)"

text \<open>The stream of the plan's mode; a plan to skip has no channel, and ranging over nil blocks.\<close>

definition extract_records :: "'w engine \<Rightarrow> object_plan \<Rightarrow> (run_state \<times> 'w, record_batch list \<times> go_error option) pio" where
  "extract_records en p = (\<lambda>(rn, w).
     case op_mode p of
       SyncModeFull \<Rightarrow> (case co_full (en_connector en) (op_object p) w of (x, w1) \<Rightarrow> (Some (Inr x), (rn, w1)))
     | SyncModeIncremental \<Rightarrow>
         (case co_incremental (en_connector en) (op_object p) (op_watermark_field p) (watermark_of (rn_state rn) (op_object p)) w of
            (x, w1) \<Rightarrow> (Some (Inr x), (rn, w1)))
     | SyncModeSkip \<Rightarrow> (None, (rn, w)))"

definition object_state_of :: "object_plan \<Rightarrow> instant \<Rightarrow> instant \<Rightarrow> int \<Rightarrow> int \<Rightarrow> object_state" where
  "object_state_of p now1 now2 version rows =
     (let s = zero_object_state\<lparr>os_last_sync := now1, os_watermark_field := op_watermark_field p, os_watermark := now2,
                os_delta_version := version, os_total_records := rows, os_last_sync_records := rows,
                os_sync_type := sync_mode_text (op_mode p)\<rparr>
      in case op_schema p of
           None \<Rightarrow> s
         | Some sch \<Rightarrow> s\<lparr>os_schema_hash := compute_hash sch, os_schema_version := op_new_version p, os_previous_schema := Some sch\<rparr>)"

text \<open>Writing to a nil map panics.\<close>

definition record_object :: "'w runtime \<Rightarrow> object_plan \<Rightarrow> int \<Rightarrow> int \<Rightarrow> (run_state \<times> 'w, unit) pio" where
  "record_object rt p version rows = (\<lambda>(rn, w).
     case rt_now rt w of (now1, w1) \<Rightarrow> case rt_now rt w1 of (now2, w2) \<Rightarrow>
       (case ss_objects (rn_state rn) of
          None \<Rightarrow> (None, (rn, w2))
        | Some m \<Rightarrow>
            (Some (Inr ()),
             (rn\<lparr>rn_state := (rn_state rn)\<lparr>ss_objects := Some (AList.update (op_object p) (object_state_of p now1 now2 version rows) m)\<rparr>\<rparr>,
              w2))))"

text \<open>The table is built for this sync, so its breaker starts closed.\<close>

definition commit_actions :: "'w runtime \<Rightarrow> 'w engine \<Rightarrow> object_plan \<Rightarrow> action list \<Rightarrow> ('w, int) io" where
  "commit_actions rt en p actions = (\<lambda>w.
     case table_commit rt (object_table en (op_object p)) None actions
            (if op_mode p = SyncModeFull then ''WRITE (full sync)'' else ''WRITE'') (Some delta_breaker, w) of
       (r, (cb, w')) \<Rightarrow> (r, w'))"

text \<open>A legacy manager has no configuration: its frequency is a constant.\<close>

definition legacy_config :: checkpoint_config where
  "legacy_config = \<lparr>cc_frequency = 0, cc_retention_days = 0, cc_max_checkpoints = 0, cc_validation_enabled = False,
     cc_compaction_enabled = False, cc_size_threshold_mb = 0, cc_adaptive_mode = False, cc_creation_timeout = 0\<rparr>"

definition object_checkpoint :: "'w engine \<Rightarrow> string \<Rightarrow> int \<Rightarrow> ('w, unit) io" where
  "object_checkpoint en object version =
     legacy_maybe_checkpoint (od_files (en_orders en))
       \<lparr>cm_store = en_store en, cm_table = object_table en object,
        cm_validator = \<lparr>cv_store = en_store en, cv_log_prefix = delta_log_prefix (en_source en) object\<rparr>,
        cm_config = checkpoint_defaults legacy_config,
        cm_last_checkpoint_key = delta_last_checkpoint (en_source en) object,
        cm_log_prefix = delta_log_prefix (en_source en) object\<rparr> version"

definition save_new_schema :: "'w engine \<Rightarrow> object_plan \<Rightarrow> ('w, unit) io" where
  "save_new_schema en p =
     (case op_schema p of
        Some sch \<Rightarrow>
          if op_schema_changed p
          then io_try (save_schema_version (en_store en) (en_source en) (op_object p) (op_new_version p) sch) (\<lambda>_. io_ret ())
          else io_ret ()
      | None \<Rightarrow> io_ret ())"

definition commit_object :: "'w runtime \<Rightarrow> 'w engine \<Rightarrow> object_plan \<Rightarrow> action list \<Rightarrow> int \<Rightarrow> (run_state \<times> 'w, unit) pio" where
  "commit_object rt en p actions rows =
     (if actions = [] then pio_ret ()
      else pio_bind (pio_of (io_snd (io_wrap ''delta commit'' (commit_actions rt en p actions)))) (\<lambda>version.
           pio_bind (record_object rt p version rows) (\<lambda>_.
           pio_bind (pio_of (io_snd (save_new_schema en p))) (\<lambda>_.
             pio_of (io_snd (io_try (object_checkpoint en (op_object p) version) (\<lambda>_. io_ret ())))))))"

definition init_table :: "'w runtime \<Rightarrow> 'w engine \<Rightarrow> object_plan \<Rightarrow> ('w, unit) io" where
  "init_table rt en p =
     (case op_schema p of
        None \<Rightarrow> io_ret ()
      | Some sch \<Rightarrow> io_wrap ''initialize delta table'' (table_initialize rt (object_table en (op_object p)) (to_delta_schema_string sch)))"

definition sync_object :: "'w runtime \<Rightarrow> 'w engine \<Rightarrow> object_plan \<Rightarrow> (run_state \<times> 'w, batch_result list) pio" where
  "sync_object rt en p =
     pio_bind (pio_of (io_snd (init_table rt en p))) (\<lambda>_.
     pio_bind (extract_records en p) (\<lambda>(batches, err).
     pio_bind (process_batches rt en p batches ([], 0, [])) (\<lambda>(actions, rows, results).
       case err of
         Some e \<Rightarrow> pio_fail (Wrap ''extraction error'' e)
       | None \<Rightarrow> pio_bind (commit_object rt en p actions rows) (\<lambda>_. pio_ret results))))"

end
