(* ===== verification/SyncRun.thy ===== *)
theory SyncRun
  imports Engine
begin

text \<open>
  internal/sync/engine.go, \<open>Run\<close>: the phases of a sync run in their order. The world of a run is the breaker of
  the recovery manager, what the operations of the run share, and the world below. Tracing (which runs the
  same operation inside a span) and logging are left out; a panic ends the process, so nothing is said of the
  world after it.
\<close>

type_synonym 'w run_world = "sync_breaker \<times> run_state \<times> 'w"

definition recover_phase ::
  "'w runtime \<Rightarrow> 'w engine \<Rightarrow> string \<Rightarrow> sync_phase \<Rightarrow> (run_state \<times> 'w) sync_op \<Rightarrow> ('w run_world, sync_result) pio" where
  "recover_phase rt en object phase op =
     recover_with_retry (rt_snd rt) (manager_snd (en_recovery en)) (en_source en) object phase op"

text \<open>\<open>NewSyncError(phase, object, err, true).WithCorrelationID(correlationID)\<close>.\<close>

definition phase_error :: "'w runtime \<Rightarrow> string \<Rightarrow> sync_phase \<Rightarrow> string \<Rightarrow> go_error \<Rightarrow> 'w \<Rightarrow> go_error \<times> 'w" where
  "phase_error rt corr phase object e w =
     (case new_sync_error rt phase object e True w of (err, w') \<Rightarrow> (with_correlation corr err, w'))"

section \<open>The operations a run retries\<close>

definition connect_op :: "'w runtime \<Rightarrow> 'w engine \<Rightarrow> string \<Rightarrow> (run_state \<times> 'w) sync_op" where
  "connect_op rt en corr = (\<lambda>(rn, w).
     case co_connect (en_connector en) w of
       (Inr _, w1) \<Rightarrow> (Some (Inr empty_result), (rn, w1))
     | (Inl e, w1) \<Rightarrow> (case phase_error rt corr PhaseConnect [] e w1 of (err, w2) \<Rightarrow> (Some (Inl err), (rn, w2))))"

definition discover_op :: "'w runtime \<Rightarrow> 'w engine \<Rightarrow> string \<Rightarrow> (run_state \<times> 'w) sync_op" where
  "discover_op rt en corr = (\<lambda>(rn, w).
     case co_discover (en_connector en) w of
       (Inr obs, w1) \<Rightarrow> (Some (Inr (empty_result\<lparr>re_records := int (length (slice_of obs))\<rparr>)), (rn\<lparr>rn_objects := obs\<rparr>, w1))
     | (Inl e, w1) \<Rightarrow> (case phase_error rt corr PhaseDiscover [] e w1 of (err, w2) \<Rightarrow> (Some (Inl err), (rn, w2))))"

text \<open>An error that wraps a \<open>SyncError\<close> is replaced by it; any other is wrapped in a new one.\<close>

definition object_op :: "'w runtime \<Rightarrow> 'w engine \<Rightarrow> string \<Rightarrow> object_plan \<Rightarrow> (run_state \<times> 'w) sync_op" where
  "object_op rt en corr p s =
     (case sync_object rt en p s of
        (None, s') \<Rightarrow> (None, s')
      | (Some (Inl e), (rn, w)) \<Rightarrow>
          (case as_sync_error e of
             Some se \<Rightarrow> (Some (Inl se), (rn, w))
           | None \<Rightarrow> (case phase_error rt corr PhaseExtract (op_object p) e w of (err, w') \<Rightarrow> (Some (Inl err), (rn, w'))))
      | (Some (Inr results), (rn, w)) \<Rightarrow>
          (Some (Inr (empty_result\<lparr>re_records := int (length results)\<rparr>)),
           (rn\<lparr>rn_results := AList.update (op_object p) results (rn_results rn)\<rparr>, w)))"

section \<open>Planning\<close>

definition enc_object_metadata :: "object_metadata \<Rightarrow> json" where
  "enc_object_metadata m = JObj (
     [(''name'', JStr (om_name m)), (''label'', JStr (om_label m)), (''queryable'', JBool (om_queryable m)),
      (''retrievable'', JBool (om_retrievable m)), (''replicateable'', JBool (om_replicateable m))]
     @ opt_member (om_record_count m \<noteq> 0) ''recordCount'' (enc_int (om_record_count m))
     @ opt_member (om_watermark_field m \<noteq> []) ''watermarkField'' (JStr (om_watermark_field m))
     @ opt_member (om_schema m \<noteq> None) ''schema'' (enc_ptr enc_schema (om_schema m)))"

definition save_catalog :: "'w engine \<Rightarrow> object_metadata list option \<Rightarrow> ('w, unit) io" where
  "save_catalog en obs =
     io_try (st_put_json (en_store en) (catalog_key (en_source en)) (enc_slice enc_object_metadata obs)) (\<lambda>_. io_ret ())"

text \<open>An object that cannot be described is skipped, like one outside the allow list.\<close>

fun plan_objects :: "'w engine \<Rightarrow> sync_state \<Rightarrow> object_metadata list \<Rightarrow> 'w \<Rightarrow> object_plan list \<times> 'w" where
  "plan_objects en state [] w = ([], w)"
| "plan_objects en state (m # ms) w =
     (case co_describe (en_connector en) (om_name m) w of
        (Inl e, w1) \<Rightarrow> plan_objects en state ms w1
      | (Inr detailed, w1) \<Rightarrow>
          let p = plan_object (od_field1 (en_orders en)) (od_field2 (en_orders en)) (od_field3 (en_orders en)) detailed
                    (lookup_state state (om_name m)) (en_objects en)
          in case plan_objects en state ms w1 of (ps, w2) \<Rightarrow> (if op_mode p \<noteq> SyncModeSkip then p # ps else ps, w2))"

section \<open>Running the plans\<close>

text \<open>What fails is collected; the others go on.\<close>

fun run_plans :: "'w runtime \<Rightarrow> 'w engine \<Rightarrow> string \<Rightarrow> object_plan list \<Rightarrow> aggregator \<Rightarrow> 'w run_world \<Rightarrow> aggregator option \<times> 'w run_world" where
  "run_plans rt en corr [] errs s = (Some errs, s)"
| "run_plans rt en corr (p # ps) errs s =
     (case recover_phase rt en (op_object p) PhaseExtract (object_op rt en corr p) s of
        (None, s') \<Rightarrow> (None, s')
      | (Some (Inr _), s') \<Rightarrow> run_plans rt en corr ps errs s'
      | (Some (Inl e), s') \<Rightarrow> run_plans rt en corr ps (agg_add (Some e) errs) s')"

section \<open>After the plans\<close>

definition fail_on_violation :: "'w engine \<Rightarrow> bool" where
  "fail_on_violation en = (case en_consistency en of None \<Rightarrow> False | Some c \<Rightarrow> cs_fail_on_violation c)"

definition check_consistency :: "'w runtime \<Rightarrow> 'w engine \<Rightarrow> object_plan list \<Rightarrow> sync_state \<Rightarrow> ('w, sync_state) io" where
  "check_consistency rt en plans state w =
     (case en_tracker en of
        None \<Rightarrow> (Inr state, w)
      | Some ct \<Rightarrow>
          (case validate_sync rt (en_uuid en) (od_results (en_orders en)) (od_rel1 (en_orders en)) (od_rel2 (en_orders en))
                  (od_rel3 (en_orders en)) ct plans state w of (r, w1) \<Rightarrow>
             if has_violations r
             then (case store_report (en_store en) ct r w1 of (_, w2) \<Rightarrow> case rt_now rt w2 of (now, w3) \<Rightarrow>
                     if fail_on_violation en \<and> has_critical_violations r
                     then (Inl (Msg (''sync failed due to critical consistency violations: '' @ dec (int (length (cr_violations r)))
                              @ '' violations detected'')), w3)
                     else (Inr (state\<lparr>ss_last_check := now, ss_violations := Some (cr_violations r)\<rparr>), w3))
             else (case rt_now rt w1 of (now, w2) \<Rightarrow> (Inr (state\<lparr>ss_last_check := now, ss_violations := None\<rparr>), w2))))"

definition start_report :: "'w runtime \<Rightarrow> 'w engine \<Rightarrow> instant \<Rightarrow> 'w \<Rightarrow> validation_report option \<times> 'w" where
  "start_report rt en start w =
     (case en_validator en of
        None \<Rightarrow> (None, w)
      | Some _ \<Rightarrow> (case rt_now rt w of (now, w1) \<Rightarrow>
          (Some (create_report (en_source en) (''sync_'' @ dec (start div second)) now), w1)))"

definition finish_report ::
  "'w runtime \<Rightarrow> 'w engine \<Rightarrow> (string, batch_result list) gomap \<Rightarrow> validation_report \<Rightarrow> 'w \<Rightarrow> validation_report \<times> 'w" where
  "finish_report rt en results r w =
     (let od = en_orders en;
          r1 = fold (\<lambda>(ob, bs). add_object_validation (od_stats od) ob bs) (od_batches od results) r
      in case (case en_validation en of
                 None \<Rightarrow> (r1, w)
               | Some v \<Rightarrow> (case rt_now rt w of (now, w1) \<Rightarrow>
                   (generate_alerts (od_object1 od) (od_drift od) (od_object2 od) (vs_error_threshold v) now r1, w1))) of
           (r2, w1) \<Rightarrow> (case rt_now rt w1 of (now, w2) \<Rightarrow> (finalize_report now r2, w2)))"

definition report_validation ::
  "'w runtime \<Rightarrow> 'w engine \<Rightarrow> (string, batch_result list) gomap \<Rightarrow> validation_report option \<Rightarrow> 'w \<Rightarrow> 'w" where
  "report_validation rt en results report w =
     (case report of
        None \<Rightarrow> w
      | Some r \<Rightarrow> (case finish_report rt en results r w of (r', w1) \<Rightarrow>
          snd (save_report (Some (en_store en)) (en_marshal en) r' w1)))"

definition save_run :: "'w runtime \<Rightarrow> 'w engine \<Rightarrow> sync_state \<Rightarrow> ('w, unit) io" where
  "save_run rt en state w =
     (case rt_now rt w of (now, w1) \<Rightarrow>
        io_wrap ''save state''
          (save_state (en_store en) (state\<lparr>ss_last_run := now, ss_run_count := wrap64 (ss_run_count state + 1)\<rparr>)) w1)"

definition run_verdict :: "aggregator \<Rightarrow> go_error + unit" where
  "run_verdict errs =
     (case agg_error errs of
        None \<Rightarrow> Inr ()
      | Some e \<Rightarrow> Inl (Wrap (''sync failed with '' @ dec (int (length (agg_errors errs))) @ '' errors'') e))"

text \<open>From the consistency check to the end, with the errors collected so far.\<close>

definition finish_run ::
  "'w runtime \<Rightarrow> 'w engine \<Rightarrow> validation_report option \<Rightarrow> object_plan list \<Rightarrow> run_state \<Rightarrow> aggregator \<Rightarrow> ('w, unit) io" where
  "finish_run rt en report plans rn errs =
     io_bind (check_consistency rt en plans (rn_state rn)) (\<lambda>state w.
       io_bind (save_run rt en state) (\<lambda>_ w2. case rt_now rt w2 of (_, w3) \<Rightarrow> (run_verdict errs, w3))
         (report_validation rt en (rn_results rn) report w))"

section \<open>A run\<close>

definition leave :: "aggregator \<Rightarrow> 'w run_world \<Rightarrow> engine_state \<times> 'w" where
  "leave errs = (\<lambda>(cb, rn, w). (\<lparr>es_breaker = cb, es_errors = errs, es_detector = rn_detector rn\<rparr>, w))"

text \<open>The deferred \<open>Close\<close>.\<close>

definition closing :: "'w engine \<Rightarrow> engine_state \<times> 'w \<Rightarrow> engine_state \<times> 'w" where
  "closing en = (\<lambda>(es, w). (es, co_close (en_connector en) w))"

text \<open>From the plans on.\<close>

definition run_planned ::
  "'w runtime \<Rightarrow> 'w engine \<Rightarrow> string \<Rightarrow> validation_report option \<Rightarrow> aggregator \<Rightarrow> 'w run_world
   \<Rightarrow> (go_error + unit) option \<times> engine_state \<times> 'w" where
  "run_planned rt en corr report errs = (\<lambda>(cb, rn, w).
     case save_catalog en (rn_objects rn) w of (_, w1) \<Rightarrow>
     case plan_objects en (rn_state rn) (slice_of (rn_objects rn)) w1 of (plans, w2) \<Rightarrow>
     (case run_plans rt en corr (en_schedule en plans) errs (cb, rn, w2) of
        (None, s) \<Rightarrow> (None, leave errs s)
      | (Some errs', (cb', rn', w3)) \<Rightarrow>
          (case finish_run rt en report plans rn' errs' w3 of (r, w4) \<Rightarrow> (Some r, leave errs' (cb', rn', w4)))))"

text \<open>From the load of the state on. \<open>Load\<close> never fails; the code handles it all the same.\<close>

definition run_connected ::
  "'w runtime \<Rightarrow> 'w engine \<Rightarrow> string \<Rightarrow> validation_report option \<Rightarrow> aggregator \<Rightarrow> 'w run_world
   \<Rightarrow> (go_error + unit) option \<times> engine_state \<times> 'w" where
  "run_connected rt en corr report errs = (\<lambda>(cb, rn, w).
     case load_state (en_store en) (en_source en) w of
       (Inl e, w1) \<Rightarrow> (case phase_error rt corr PhaseDiscover [] e w1 of (err, w2) \<Rightarrow>
          (Some (Inl (Wrap ''load state'' err)), leave errs (cb, rn, w2)))
     | (Inr state, w1) \<Rightarrow>
         (case recover_phase rt en ''discovery'' PhaseDiscover (discover_op rt en corr) (cb, rn\<lparr>rn_state := state\<rparr>, w1) of
            (None, s) \<Rightarrow> (None, leave errs s)
          | (Some (Inl e), s) \<Rightarrow> (Some (Inl (Wrap ''discover metadata'' e)), leave errs s)
          | (Some (Inr _), s) \<Rightarrow> run_planned rt en corr report errs s))"

definition start_run :: "engine_state \<Rightarrow> run_state" where
  "start_run es = \<lparr>rn_state = zero_sync_state, rn_detector = es_detector es, rn_results = [], rn_objects = None\<rparr>"

definition run_engine :: "'w runtime \<Rightarrow> 'w engine \<Rightarrow> engine_state \<times> 'w \<Rightarrow> (go_error + unit) option \<times> engine_state \<times> 'w" where
  "run_engine rt en = (\<lambda>(es, w).
     case rt_now rt w of (start, w1) \<Rightarrow> case en_uuid en w1 of (corr, w2) \<Rightarrow>
     case start_report rt en start w2 of (report, w3) \<Rightarrow>
     (case recover_phase rt en ''connection'' PhaseConnect (connect_op rt en corr) (es_breaker es, start_run es, w3) of
        (None, s) \<Rightarrow> (None, leave (es_errors es) s)
      | (Some (Inl e), s) \<Rightarrow> (Some (Inl (Wrap (''connect to '' @ en_source en) e)), leave (es_errors es) s)
      | (Some (Inr _), s) \<Rightarrow>
          (case run_connected rt en corr report (es_errors es) s of (r, es', w') \<Rightarrow> (r, closing en (es', w')))))"

section \<open>The report\<close>

lemma statuses_ok_fold: "statuses_ok r \<Longrightarrow> statuses_ok (fold (\<lambda>(ob, bs). add_object_validation ord ob bs) xs r)"
  by (induction xs arbitrary: r) (auto simp: statuses_ok_add)

lemma finish_report_wf:
  assumes "statuses_ok r" and "finish_report rt en results r w = (r', w')"
  shows "statuses_ok r' \<and> vs_objects (vp_summary r') =
    vs_successful (vp_summary r') + vs_warning (vp_summary r') + vs_error (vp_summary r')"
proof -
  let ?r1 = "fold (\<lambda>(ob, bs). add_object_validation (od_stats (en_orders en)) ob bs) (od_batches (en_orders en) results) r"
  have 1: "statuses_ok ?r1" by (rule statuses_ok_fold [OF assms(1)])
  obtain r2 now where r': "r' = finalize_report now r2" and "vp_objects r2 = vp_objects ?r1"
    using assms(2) by (auto simp: finish_report_def Let_def generate_alerts_def split: prod.splits option.splits)
  then have ok: "statuses_ok r2" using 1 by (simp add: statuses_ok_def)
  moreover have "vp_objects r' = vp_objects r2" by (simp add: r' finalize_report_def Let_def)
  ultimately show ?thesis using finalize_partition [OF ok] r' by (simp add: statuses_ok_def)
qed

end
