(* ===== verification/Lake.thy ===== *)
theory Lake
  imports MemBucket Checkpoints Layout
begin

text \<open>
  The storage stack put together: the Delta table over the S3 client over a bucket. The contract
  of the table (\<open>table_env\<close>) follows from the client's, for every bucket that keeps the S3 contract
  and for the world extended by the counters of a checkpoint manager; the table with checkpoints
  is an instance of the table with a hook.
\<close>

locale lake_env = s3_client_env +
  assumes rt_now_range: "rt_now rt w = (t, w') \<Longrightarrow> in_int64 (unix_milli t)"

lemma lift_snd_run: "lift_snd f s = (a, s') \<Longrightarrow> f (snd s) = (a, snd s') \<and> fst s' = fst s"
  by (cases s) (auto simp: lift_snd_def split: prod.splits)

sublocale lake_env \<subseteq> table: table_env "s3_ops rt c" "client_view c bkt" "rt_snd rt"
proof unfold_locales
  fix s s' :: "breaker \<times> 'a" and t assume "rt_now (rt_snd rt) s = (t, s')"
  then have "rt_now rt (snd s) = (t, snd s')" by (auto dest: lift_snd_run)
  then show "client_view c bkt s' = client_view c bkt s"
    unfolding client_view_def by (simp only: rt_now_bkt)
next
  fix s s' :: "breaker \<times> 'a" and t assume "rt_now (rt_snd rt) s = (t, s')"
  then have "rt_now rt (snd s) = (t, snd s')" by (auto dest: lift_snd_run)
  then show "in_int64 (unix_milli t)" by (rule rt_now_range)
next
  fix d x and s s' :: "breaker \<times> 'a" assume "rt_wait (rt_snd rt) d s = (x, s')"
  then have "rt_wait rt d (snd s) = (x, snd s')" by (auto dest: lift_snd_run)
  then show "client_view c bkt s' = client_view c bkt s"
    unfolding client_view_def by (simp only: rt_wait_bkt)
next
  fix s s' :: "breaker \<times> 'a" and u assume "rt_rand (rt_snd rt) s = (u, s')"
  then have "rt_rand rt (snd s) = (u, snd s')" by (auto dest: lift_snd_run)
  then show "client_view c bkt s' = client_view c bkt s"
    unfolding client_view_def by (simp only: rt_rand_bkt)
qed

interpretation lake: lake_env mem_aws "''lake''" mem_view mem_rt lake_client
proof unfold_locales
  fix w t w' assume "rt_now mem_rt w = (t, w')"
  then have "0 \<le> t" and "t \<le> 2 ^ 62" by (auto simp: mem_rt_def)
  then have "0 \<le> unix_milli t" and "unix_milli t \<le> 2 ^ 62"
    unfolding unix_milli_def by linarith+
  then show "in_int64 (unix_milli t)" by (simp add: in_int64_def)
qed

text \<open>The table's contract in a world with one more component.\<close>

lemma table_env_snd:
  assumes "table_env ops view rt"
  shows "table_env (store_snd ops) (view \<circ> snd) (rt_snd rt)"
proof -
  note s = table_env.axioms(1) [OF assms]
  show ?thesis
  proof (rule table_env.intro [OF store_snd_contract [OF s]], rule table_env_axioms.intro)
    fix w t w' assume "rt_now (rt_snd rt) w = (t, w')"
    then have "rt_now rt (snd w) = (t, snd w')" using lift_snd_run by fastforce
    then show "(view \<circ> snd) w' = (view \<circ> snd) w" and "in_int64 (unix_milli t)"
      using table_env.now_view [OF assms] table_env.now_range [OF assms] by auto
  next
    fix d w x w' assume "rt_wait (rt_snd rt) d w = (x, w')"
    then have "rt_wait rt d (snd w) = (x, snd w')" using lift_snd_run by fastforce
    then show "(view \<circ> snd) w' = (view \<circ> snd) w" using table_env.wait_view [OF assms] by auto
  next
    fix w u w' assume "rt_rand (rt_snd rt) w = (u, w')"
    then have "rt_rand rt (snd w) = (u, snd w')" using lift_snd_run by fastforce
    then show "(view \<circ> snd) w' = (view \<circ> snd) w" using table_env.rand_view [OF assms] by auto
  qed
qed

section \<open>The table's own policy\<close>

text \<open>The waits of the table's retry policy change no object, so the commit laws apply to it.\<close>

context table_env
begin

lemma delta_policy_ok [simp, intro]: "policy_ok delta_retry_policy"
proof (unfold policy_ok_def, intro allI impI)
  fix n e w x w'
  assume "before_next_attempt rt delta_retry_policy n e w = (x, w')"
  then show "view w' = view w"
  proof (rule before_next_attempt_rel [where Q = "\<lambda>w w'. view w' = view w"])
    show "reflp (\<lambda>w w'. view w' = view w)" by (simp add: reflp_def)
    show "transp (\<lambda>w w'. view w' = view w)" by (simp add: transp_def)
    show "rp_on_retry delta_retry_policy = None" by (simp add: delta_retry_policy_def)
    show "pure_backoff b" if "rp_backoff delta_retry_policy = Some b" for b
      using that by (auto simp: delta_retry_policy_def)
  qed (erule rand_view wait_view)+
qed

lemma checkpoint_hook_ok:
  assumes "manager_of p m"
  shows "table_env.hook_ok (view \<circ> snd) p (Some (maybe_checkpoint ord rt m))"
proof -
  have "log_same p ((view \<circ> snd) s) ((view \<circ> snd) s')"
    if "0 \<le> v" "maybe_checkpoint ord rt m v s = (r, s')" for v s r s'
    using io_keepsD [OF maybe_checkpoint_keeps [OF assms that(1), of "view (snd s)" ord] _ that(2)]
    by (simp add: log_from_def)
  then show ?thesis
    using table_env.hook_ok_def [OF table_env_snd [OF table_env_axioms], of p "Some (maybe_checkpoint ord rt m)"]
    by auto
qed

end

lemma new_delta_table_fields [simp]:
  "dt_log (new_delta_table st source object p) = \<lparr>tl_store = st, tl_log_prefix = p\<rparr>"
  "dt_retry_policy (new_delta_table st source object p) = Some delta_retry_policy"
  "rp_max_attempts delta_retry_policy = 3"
  by (simp_all add: new_delta_table_def new_transaction_log_def delta_retry_policy_def)

context lake_env
begin

lemma table_contract: "table_env (s3_ops rt c) (client_view c bkt) (rt_snd rt)"
  by (rule table.table_env_axioms)

lemma store_contract: "s3_store (s3_ops rt c) (client_view c bkt)"
  by (rule client.s3_store_axioms)

end

end
