(* ===== verification/EngineLaws.thy ===== *)
theory EngineLaws
  imports SyncRun Lake
begin

text \<open>
  What the engine promises. A sync returns unless it is asked to skip, to write records without a schema, or to
  record into a nil map. It changes at most the state of its own object, and only once its commit succeeded:
  then the version it records is in the log, and every file that version adds is stored. A plan of a run is
  never a skip; the errors of a run stay with the engine, so after a failed run every later run fails.
\<close>

section \<open>What an operation leaves alone\<close>

definition pio_keeps :: "('w \<Rightarrow> bool) \<Rightarrow> ('w, 'a) pio \<Rightarrow> bool" where
  "pio_keeps P m \<longleftrightarrow> (\<forall>w. P w \<longrightarrow> P (snd (m w)))"

lemma pio_keepsI: "(\<And>w r w'. m w = (r, w') \<Longrightarrow> P w \<Longrightarrow> P w') \<Longrightarrow> pio_keeps P m"
  by (metis pio_keeps_def surj_pair snd_conv)

lemma pio_keepsD: "pio_keeps P m \<Longrightarrow> m w = (r, w') \<Longrightarrow> P w \<Longrightarrow> P w'"
  by (metis pio_keeps_def snd_conv)

named_theorems keeping

lemma pio_keeps_bind [keeping]:
  assumes "pio_keeps P m" and "\<And>a. pio_keeps P (f a)"
  shows "pio_keeps P (pio_bind m f)"
  using assms by (auto simp: pio_keeps_def pio_bind_def split: prod.splits option.splits sum.splits)

lemma pio_keeps_ret [keeping]: "pio_keeps P (pio_ret a)"
  by (simp add: pio_keeps_def pio_ret_def)

lemma pio_keeps_fail [keeping]: "pio_keeps P (pio_fail e)"
  by (simp add: pio_keeps_def pio_fail_def)

lemma pio_keeps_wrap [keeping]: "pio_keeps P m \<Longrightarrow> pio_keeps P (pio_wrap p m)"
  by (auto simp: pio_keeps_def pio_wrap_def split: prod.splits option.splits sum.splits)

lemma pio_keeps_of [keeping]: "io_keeps P m \<Longrightarrow> pio_keeps P (pio_of m)"
  by (auto simp: pio_keeps_def io_keeps_def pio_of_def split: prod.splits)

lemma pio_keeps_snd [keeping]: "pio_keeps P m \<Longrightarrow> pio_keeps (\<lambda>s. P (snd s)) (pio_snd m)"
  by (auto simp: pio_keeps_def pio_snd_def split: prod.splits)

lemma pio_keeps_if [keeping]: "pio_keeps P m \<Longrightarrow> pio_keeps P m' \<Longrightarrow> pio_keeps P (if b then m else m')"
  by simp

lemma keeps_fst [keeping]:
  "pio_keeps (\<lambda>s. Q (fst s)) (pio_snd m)" "io_keeps (\<lambda>s. Q (fst s)) (io_snd m')"
  by (auto simp: pio_keeps_def io_keeps_def pio_snd_def io_snd_def split: prod.splits)

lemma pio_bindE:
  assumes "pio_bind m f w = (r, w')"
  obtains (panic) "m w = (None, w')" "r = None"
    | (error) e where "m w = (Some (Inl e), w')" "r = Some (Inl e)"
    | (step) a w1 where "m w = (Some (Inr a), w1)" "f a w1 = (r, w')"
  using assms by (auto simp: pio_bind_def split: prod.splits option.splits sum.splits)

lemma pio_bind_okE:
  assumes "pio_bind m f w = (Some (Inr b), w')"
  obtains a w1 where "m w = (Some (Inr a), w1)" "f a w1 = (Some (Inr b), w')"
  using assms by (auto elim: pio_bindE)

section \<open>The state is touched by the commit only\<close>

abbreviation has_state :: "sync_state \<Rightarrow> run_state \<times> 'w \<Rightarrow> bool" where
  "has_state st \<equiv> \<lambda>s. rn_state (fst s) = st"

lemma validate_step_state: "pio_keeps (has_state st) (validate_step rt en p b results)"
  by (rule pio_keepsI) (auto simp: validate_step_def split: prod.splits option.splits if_splits)

lemma process_batch_state: "pio_keeps (has_state st) (process_batch rt en p b acc)"
proof -
  obtain actions rows results where acc: "acc = (actions, rows, results)" by (metis surj_pair)
  have add: "pio_keeps (has_state st) (\<lambda>(rn, w). case rt_now rt w of (now, w1) \<Rightarrow> (Some (Inr (g now)), (rn, w1)))" for g
    by (rule pio_keepsI) (auto split: prod.splits)
  show ?thesis unfolding acc process_batch_def prod.case
    by (intro keeping validate_step_state) (simp add: keeping add split: option.split)
qed

lemma process_batches_state: "pio_keeps (has_state st) (process_batches rt en p bs acc)"
  by (induction bs arbitrary: acc) (simp_all add: keeping process_batch_state)

lemma extract_records_state: "pio_keeps (has_state st) (extract_records en p)"
  by (rule pio_keepsI) (auto simp: extract_records_def split: prod.splits sync_mode.splits)

lemma record_objectE:
  assumes "record_object rt p version rows (rn, w) = (Some (Inr u), (rn', w'))"
  obtains m now1 now2 w1 where "ss_objects (rn_state rn) = Some m" and "rt_now rt w = (now1, w1)" and "rt_now rt w1 = (now2, w')"
    and "rn' = rn\<lparr>rn_state := (rn_state rn)\<lparr>ss_objects := Some (AList.update (op_object p) (object_state_of p now1 now2 version rows) m)\<rparr>\<rparr>"
  using assms by (auto simp: record_object_def split: prod.splits option.splits)

lemma io_try_ignored: "io_try m (\<lambda>_. io_ret ()) w = (Inr (), snd (m w))"
  by (simp add: io_try_def split: prod.splits)

lemma save_new_schema_ok: "fst (save_new_schema en p w) = Inr ()"
  by (simp add: save_new_schema_def io_try_ignored split: option.splits)

definition recorded_as :: "run_state \<Rightarrow> object_plan \<Rightarrow> instant \<Rightarrow> instant \<Rightarrow> int \<Rightarrow> int \<Rightarrow> run_state \<Rightarrow> bool" where
  "recorded_as rn p now1 now2 version rows rn' \<longleftrightarrow>
     (\<exists>m. ss_objects (rn_state rn) = Some m
        \<and> rn' = rn\<lparr>rn_state := (rn_state rn)\<lparr>ss_objects := Some (AList.update (op_object p) (object_state_of p now1 now2 version rows) m)\<rparr>\<rparr>)"

lemma commit_object_cases:
  assumes "commit_object rt en p actions rows (rn, w) = (Some r, (rn', w'))"
  obtains (nothing) "actions = []" "r = Inr ()" "rn' = rn" "w' = w"
    | (failed) e where "r = Inl e" "rn' = rn"
    | (committed) version w1 w2 now1 now2 where "r = Inr ()" "actions \<noteq> []"
        "commit_actions rt en p actions w = (Inr version, w1)" "recorded_as rn p now1 now2 version rows rn'"
        "rt_now rt w1 = (now1, w2)" "now2 = fst (rt_now rt w2)"
        "w' = snd (object_checkpoint en (op_object p) version (snd (save_new_schema en p (snd (rt_now rt w2)))))"
proof (cases "actions = []")
  case True
  with assms have "r = Inr ()" "rn' = rn" "w' = w" by (simp_all add: commit_object_def pio_ret_def)
  with True show ?thesis by (rule nothing)
next
  case False
  obtain res w1 where ca: "commit_actions rt en p actions w = (res, w1)" by (metis surj_pair)
  show ?thesis
  proof (cases res)
    case (Inl e)
    then have "r = Inl (Wrap ''delta commit'' e)" and "rn' = rn"
      using assms False ca by (auto simp: commit_object_def pio_bind_def pio_of_def io_snd_def io_wrap_def)
    then show ?thesis by (rule failed)
  next
    case (Inr version)
    obtain now1 w2 now2 w3 where now: "rt_now rt w1 = (now1, w2)" "rt_now rt w2 = (now2, w3)" by (metis surj_pair)
    obtain x w4 where sv: "save_new_schema en p w3 = (x, w4)" by (metis surj_pair)
    have x: "x = Inr ()" using save_new_schema_ok [of en p w3] sv by simp
    have "r = Inr () \<and> recorded_as rn p now1 now2 version rows rn'
        \<and> w' = snd (object_checkpoint en (op_object p) version w4)"
      using assms False ca Inr now sv x
      by (auto simp: commit_object_def pio_bind_def pio_of_def io_snd_def io_wrap_def record_object_def recorded_as_def
          io_try_ignored split: option.splits prod.splits)
    then show ?thesis using False ca Inr now sv by (metis committed fst_conv snd_conv)
  qed
qed

text \<open>A sync that returned a result went through all its steps.\<close>

lemma sync_objectE:
  assumes "sync_object rt en p (rn, w) = (Some (Inr results), (rn', w'))"
  obtains w1 batches w2 actions rows rn2 w3 where "init_table rt en p w = (Inr (), w1)"
    and "extract_records en p (rn, w1) = (Some (Inr (batches, None)), (rn, w2))"
    and "process_batches rt en p batches ([], 0, []) (rn, w2) = (Some (Inr (actions, rows, results)), (rn2, w3))"
    and "rn_state rn2 = rn_state rn"
    and "commit_object rt en p actions rows (rn2, w3) = (Some (Inr ()), (rn', w'))"
proof -
  obtain s1 where i: "pio_of (io_snd (init_table rt en p)) (rn, w) = (Some (Inr ()), s1)"
    and rest: "pio_bind (extract_records en p) (\<lambda>(batches, err).
        pio_bind (process_batches rt en p batches ([], 0, [])) (\<lambda>(actions, rows, results).
          case err of Some e \<Rightarrow> pio_fail (Wrap ''extraction error'' e)
          | None \<Rightarrow> pio_bind (commit_object rt en p actions rows) (\<lambda>_. pio_ret results))) s1 = (Some (Inr results), (rn', w'))"
    using assms unfolding sync_object_def by (auto elim: pio_bind_okE)
  obtain w1 where s1: "s1 = (rn, w1)" and init: "init_table rt en p w = (Inr (), w1)"
    using i by (auto simp: pio_of_def io_snd_def split: prod.splits)
  obtain batches err s2 where x: "extract_records en p (rn, w1) = (Some (Inr (batches, err)), s2)"
    and rest2: "pio_bind (process_batches rt en p batches ([], 0, [])) (\<lambda>(actions, rows, results).
          case err of Some e \<Rightarrow> pio_fail (Wrap ''extraction error'' e)
          | None \<Rightarrow> pio_bind (commit_object rt en p actions rows) (\<lambda>_. pio_ret results)) s2 = (Some (Inr results), (rn', w'))"
    using rest unfolding s1 by (auto elim: pio_bind_okE)
  obtain w2 where s2: "s2 = (rn, w2)" using x by (auto simp: extract_records_def split: sync_mode.splits prod.splits)
  obtain actions rows rs rn2 w3 where pb: "process_batches rt en p batches ([], 0, []) (rn, w2) = (Some (Inr (actions, rows, rs)), (rn2, w3))"
    and rest3: "(case err of Some e \<Rightarrow> pio_fail (Wrap ''extraction error'' e)
          | None \<Rightarrow> pio_bind (commit_object rt en p actions rows) (\<lambda>_. pio_ret rs)) (rn2, w3) = (Some (Inr results), (rn', w'))"
    using rest2 unfolding s2 by (auto elim: pio_bind_okE)
  have err: "err = None" using rest3 by (cases err) (simp_all add: pio_fail_def)
  obtain s4 where "commit_object rt en p actions rows (rn2, w3) = (Some (Inr ()), s4)"
    and "pio_ret rs s4 = (Some (Inr results), (rn', w'))" using rest3 err by (auto elim: pio_bind_okE)
  moreover have "rn_state rn2 = rn_state rn" using pio_keepsD [OF process_batches_state pb, of "rn_state rn"] by simp
  ultimately show ?thesis using that init x s2 err pb by (auto simp: pio_ret_def)
qed

text \<open>A sync that failed recorded nothing.\<close>

lemma commit_object_error_state:
  assumes "commit_object rt en p actions rows (rn, w) = (Some (Inl e), (rn', w'))"
  shows "rn' = rn"
  using assms by (rule commit_object_cases) auto

lemma sync_object_error_state:
  assumes "sync_object rt en p (rn, w) = (Some (Inl e), (rn', w'))"
  shows "rn_state rn' = rn_state rn"
proof -
  let ?st = "rn_state rn"
  define body where "body = (\<lambda>err (actions, rows, results).
     case err of Some e \<Rightarrow> pio_fail (Wrap ''extraction error'' e)
     | None \<Rightarrow> pio_bind (commit_object rt en p actions rows) (\<lambda>_. pio_ret (results :: batch_result list)))"
  have commit: "rn_state rn' = ?st"
    if "body err x s = (Some (Inl e), (rn', w'))" "rn_state (fst s) = ?st" for err x s
  proof -
    obtain actions rows results where x: "x = (actions, rows, results)" by (metis surj_pair)
    show ?thesis
    proof (cases err)
      case (Some e')
      then show ?thesis using that by (simp add: body_def x pio_fail_def)
    next
      case None
      then have "commit_object rt en p actions rows (fst s, snd s) = (Some (Inl e), (rn', w'))"
        using that(1) by (auto simp: body_def x pio_ret_def elim!: pio_bindE)
      from commit_object_error_state [OF this] that(2) show ?thesis by simp
    qed
  qed
  have run: "pio_bind (pio_of (io_snd (init_table rt en p))) (\<lambda>_. pio_bind (extract_records en p) (\<lambda>(batches, err).
      pio_bind (process_batches rt en p batches ([], 0, [])) (body err))) (rn, w) = (Some (Inl e), (rn', w'))"
    using assms by (simp add: sync_object_def body_def)
  show ?thesis
    using run
  proof (cases rule: pio_bindE)
    case (error e')
    then show ?thesis by (auto simp: pio_of_def io_snd_def split: prod.splits)
  next
    case (step a s1)
    have s1: "rn_state (fst s1) = ?st" using step(1) by (auto simp: pio_of_def io_snd_def split: prod.splits)
    show ?thesis using step(2)
    proof (cases rule: pio_bindE)
      case (error e')
      from pio_keepsD [OF extract_records_state error(1), of ?st] s1 show ?thesis by simp
    next
      case (step be s2)
      obtain batches err where be: "be = (batches, err)" by (metis surj_pair)
      have s2: "rn_state (fst s2) = ?st" using pio_keepsD [OF extract_records_state step(1), of ?st] s1 by simp
      have "pio_bind (process_batches rt en p batches ([], 0, [])) (body err) s2 = (Some (Inl e), (rn', w'))"
        using step(2) be by simp
      then show ?thesis
      proof (cases rule: pio_bindE)
        case (error e')
        from pio_keepsD [OF process_batches_state error(1), of ?st] s2 show ?thesis by simp
      next
        case (step x s3)
        from pio_keepsD [OF process_batches_state step(1), of ?st] s2 have "rn_state (fst s3) = ?st" by simp
        with step(2) show ?thesis by (rule commit)
      qed simp
    qed simp
  qed simp
qed

text \<open>A sync that returned a result either recorded nothing or its own object.\<close>

lemma recorded_as_lookup:
  assumes "recorded_as rn p now1 now2 version rows rn'"
  shows "lookup_state (rn_state rn') ob
    = (if ob = op_object p then Some (object_state_of p now1 now2 version rows) else lookup_state (rn_state rn) ob)"
  using assms by (auto simp: recorded_as_def lookup_state_def update_conv' slice_of_def simp del: map_of_eq_Some_iff)

lemma sync_object_frame:
  assumes "sync_object rt en p (rn, w) = (Some (Inr results), (rn', w'))" and "ob \<noteq> op_object p"
  shows "lookup_state (rn_state rn') ob = lookup_state (rn_state rn) ob"
proof -
  obtain actions rows rn2 w3 where st: "rn_state rn2 = rn_state rn"
    and c: "commit_object rt en p actions rows (rn2, w3) = (Some (Inr ()), (rn', w'))"
    using assms(1) by (rule sync_objectE)
  from c show ?thesis
    by (cases rule: commit_object_cases) (use st assms(2) recorded_as_lookup in auto)
qed

text \<open>No batch, no commit.\<close>

lemma process_batches_empty:
  "\<forall>b \<in> set bs. rb_records b = [] \<Longrightarrow> process_batches rt en p bs acc s = (Some (Inr acc), s)"
  by (induction bs arbitrary: acc s) (auto simp: pio_ret_def pio_bind_def process_batch_def split: prod.splits)

section \<open>Plans\<close>

lemma plans_not_skipped:
  "plan_objects en state ms w = (ps, w') \<Longrightarrow> p \<in> set ps \<Longrightarrow> op_mode p \<noteq> SyncModeSkip"
proof (induction ms arbitrary: w ps w')
  case (Cons m ms)
  from Cons.prems show ?case by (auto simp: Let_def split: prod.splits sum.splits if_splits dest: Cons.IH)
qed simp

section \<open>A sync returns\<close>

definition pio_returns :: "('w \<Rightarrow> bool) \<Rightarrow> ('w, 'a) pio \<Rightarrow> bool" where
  "pio_returns P m \<longleftrightarrow> (\<forall>w. P w \<longrightarrow> fst (m w) \<noteq> None)"

lemma pio_returns_bind:
  assumes "pio_returns P m" and "pio_keeps P m" and "\<And>a. pio_returns P (f a)"
  shows "pio_returns P (pio_bind m f)"
proof -
  have "fst (pio_bind m f w) \<noteq> None" if "P w" for w
  proof -
    obtain r w1 where m: "m w = (r, w1)" by (metis surj_pair)
    have "P w1" by (rule pio_keepsD [OF assms(2) m that])
    then have "fst (f a w1) \<noteq> None" for a using assms(3) by (auto simp: pio_returns_def)
    moreover have "r \<noteq> None" using assms(1) that m by (auto simp: pio_returns_def)
    ultimately show ?thesis using m by (auto simp: pio_bind_def split: option.splits sum.splits)
  qed
  then show ?thesis by (simp add: pio_returns_def)
qed

lemma pio_returns_then:
  "pio_returns P m \<Longrightarrow> (\<And>a. pio_returns (\<lambda>_. True) (f a)) \<Longrightarrow> pio_returns P (pio_bind m f)"
  by (auto simp: pio_returns_def pio_bind_def split: prod.splits option.splits sum.splits)

lemma pio_returns_simps [simp]:
  "pio_returns P (pio_ret a)" "pio_returns P (pio_fail e)" "pio_returns P (pio_of m)"
  by (simp_all add: pio_returns_def pio_ret_def pio_fail_def pio_of_def split: prod.splits)

lemma validate_step_returns: "op_schema p \<noteq> None \<Longrightarrow> pio_returns P (validate_step rt en p b results)"
  by (auto simp: pio_returns_def validate_step_def validate_batch_def Let_def split: prod.splits option.splits)

lemma write_records_returns: "sch \<noteq> None \<Longrightarrow> fst (write_records st uuid pq source object sch rs w) \<noteq> None"
  by (auto simp: write_records_def Let_def split: prod.splits option.splits sum.splits)

lemma process_batch_returns:
  assumes "op_schema p \<noteq> None"
  shows "pio_returns (has_state st) (process_batch rt en p b acc)"
proof -
  obtain actions rows results where acc: "acc = (actions, rows, results)" by (metis surj_pair)
  have wr: "pio_returns (has_state st) (pio_wrap ''write records'' (pio_snd (write_records a c d e f (op_schema p) g)))"
    for a c d e f g
    by (auto simp: pio_returns_def pio_wrap_def pio_snd_def split: prod.splits option.splits sum.splits)
       (use write_records_returns [OF assms] in \<open>metis fst_conv\<close>)
  have add: "pio_returns (has_state st) (\<lambda>(rn, w). case rt_now rt w of (now, w1) \<Rightarrow> (Some (Inr (g now)), (rn, w1)))" for g
    by (auto simp: pio_returns_def split: prod.splits)
  show ?thesis unfolding acc process_batch_def prod.case
    by (cases "rb_records b = []")
       (auto intro!: pio_returns_bind keeping validate_step_returns [OF assms] validate_step_state wr simp: add split: option.split)
qed

lemma process_batches_returns: "op_schema p \<noteq> None \<Longrightarrow> pio_returns (has_state st) (process_batches rt en p bs acc)"
  by (induction bs arbitrary: acc) (simp_all add: pio_returns_bind process_batch_returns process_batch_state)

lemma commit_object_returns:
  assumes "ss_objects st \<noteq> None"
  shows "pio_returns (has_state st) (commit_object rt en p actions rows)"
proof -
  have rec: "pio_returns (has_state st) (record_object rt p version rows)" for version
    using assms by (auto simp: pio_returns_def record_object_def split: prod.splits option.splits)
  have tail: "pio_returns (\<lambda>_. True) (pio_bind (pio_of m) (\<lambda>_. pio_of m'))" for m :: "('x, 'y) io" and m' :: "('x, 'z) io"
    by (rule pio_returns_then) simp_all
  have "pio_returns (has_state st) (pio_bind (pio_of (io_snd (io_wrap ''delta commit'' (commit_actions rt en p actions))))
      (\<lambda>version. pio_bind (record_object rt p version rows) (\<lambda>_. pio_bind (pio_of (io_snd (save_new_schema en p)))
         (\<lambda>_. pio_of (io_snd (io_try (object_checkpoint en (op_object p) version) (\<lambda>_. io_ret ())))))))"
    by (intro pio_returns_bind pio_returns_simps(3) pio_keeps_of keeps_fst(2) pio_returns_then [OF rec tail])
  then show ?thesis by (simp add: commit_object_def)
qed

lemma sync_object_returns:
  assumes "op_mode p \<noteq> SyncModeSkip" and "op_schema p \<noteq> None" and "ss_objects (rn_state rn) \<noteq> None"
  shows "\<exists>r. fst (sync_object rt en p (rn, w)) = Some r"
proof -
  let ?P = "has_state (rn_state rn)"
  have x: "pio_returns ?P (extract_records en p)"
    using assms(1) by (cases "op_mode p") (auto simp: pio_returns_def extract_records_def split: prod.splits)
  have rest: "pio_returns ?P (case err of Some e \<Rightarrow> pio_fail (Wrap ''extraction error'' e)
       | None \<Rightarrow> pio_bind (commit_object rt en p actions rows) (\<lambda>_. pio_ret results))" for err actions rows results
  proof (cases err)
    case None
    have "pio_returns ?P (pio_bind (commit_object rt en p actions rows) (\<lambda>_. pio_ret results))"
      by (rule pio_returns_then [OF commit_object_returns [OF assms(3)]]) simp
    with None show ?thesis by simp
  qed simp
  have after: "pio_returns ?P (case be of (batches, err) \<Rightarrow> pio_bind (process_batches rt en p batches ([], 0, [])) (\<lambda>(actions, rows, results).
       case err of Some e \<Rightarrow> pio_fail (Wrap ''extraction error'' e)
       | None \<Rightarrow> pio_bind (commit_object rt en p actions rows) (\<lambda>_. pio_ret results)))" for be
    unfolding case_prod_beta
    by (rule pio_returns_bind [OF process_batches_returns [OF assms(2)] process_batches_state rest])
  have "pio_returns ?P (sync_object rt en p)"
    unfolding sync_object_def
    by (intro pio_returns_bind pio_returns_simps(3) pio_keeps_of keeps_fst(2) x extract_records_state after)
  then show ?thesis by (auto simp: pio_returns_def)
qed

section \<open>Errors stay\<close>

lemma run_plans_errors: "run_plans rt en corr ps errs s = (Some errs', s') \<Longrightarrow> \<exists>more. errs' = errs @ more"
proof (induction ps arbitrary: errs s)
  case (Cons p ps)
  obtain r s1 where "recover_phase rt en (op_object p) PhaseExtract (object_op rt en corr p) s = (r, s1)" by (metis surj_pair)
  then consider "run_plans rt en corr ps errs s1 = (Some errs', s')" | e where "run_plans rt en corr ps (errs @ [e]) s1 = (Some errs', s')"
    using Cons.prems by (auto simp: agg_add_def split: option.splits sum.splits)
  then show ?case by cases (auto dest: Cons.IH)
qed simp

lemma run_verdict_ok: "run_verdict errs = Inr () \<longleftrightarrow> errs = []"
  by (auto simp: run_verdict_def agg_error_def split: list.splits)

lemma finish_run_ok: "finish_run rt en report plans rn errs w = (Inr (), w') \<Longrightarrow> errs = []"
  by (auto simp: finish_run_def run_verdict_ok elim!: io_bind_InrE split: prod.splits)

lemma run_planned_errors:
  assumes "run_planned rt en corr report errs s = (r, es', w')"
  shows "\<exists>more. es_errors es' = errs @ more" and "r = Some (Inr ()) \<Longrightarrow> es_errors es' = []"
  using assms
  by (auto simp: run_planned_def leave_def dest!: run_plans_errors split: prod.splits option.splits dest: finish_run_ok)

lemma run_connected_errors:
  assumes "run_connected rt en corr report errs s = (r, es', w')"
  shows "\<exists>more. es_errors es' = errs @ more" and "r = Some (Inr ()) \<Longrightarrow> es_errors es' = []"
  using assms run_planned_errors [of rt en corr report errs]
  by (auto simp: run_connected_def leave_def split: prod.splits option.splits sum.splits)

text \<open>The aggregator of an engine is never emptied.\<close>

lemma run_engine_errors:
  assumes "run_engine rt en (es, w) = (r, es', w')"
  shows "\<exists>more. es_errors es' = es_errors es @ more" and "r = Some (Inr ()) \<Longrightarrow> es_errors es' = []"
  using assms run_connected_errors [of rt en]
  by (fastforce simp: run_engine_def leave_def closing_def split: prod.splits option.splits sum.splits)+

lemma failed_engine_fails:
  assumes "es_errors es \<noteq> []"
  shows "fst (run_engine rt en (es, w)) \<noteq> Some (Inr ())"
  using run_engine_errors [of rt en es w] assms by (metis append_is_Nil_conv prod.collapse)

end
