(* ===== verification/EngineStore.thy ===== *)
theory EngineStore
  imports EngineLaws
begin

text \<open>
  The engine over a store: what a successful sync leaves there. Objects are only added or overwritten, never
  deleted; the log of the object gets the version the state records, and every file that version adds is stored.
\<close>

definition holds :: "('w \<Rightarrow> objects) \<Rightarrow> string \<Rightarrow> 'w \<Rightarrow> bool" where
  "holds view k w \<longleftrightarrow> k \<in> dom (view w)"

context s3_store
begin

lemma holds_read: "(\<And>w r w'. m w = (r, w') \<Longrightarrow> view w' = view w) \<Longrightarrow> io_keeps (holds view k) m"
  by (rule io_keepsI) (simp add: holds_def)

lemma holds_put:
  "io_keeps (holds view k) (st_upload ops k' d t)" "io_keeps (holds view k) (st_put_json ops k' j)"
proof -
  show "io_keeps (holds view k) (st_upload ops k' d t)"
    by (rule io_keepsI) (use upload_cases in \<open>fastforce simp: holds_def\<close>)
  show "io_keeps (holds view k) (st_put_json ops k' j)"
    by (rule io_keepsI) (use put_json_cases in \<open>fastforce simp: holds_def\<close>)
qed

end

context table_env
begin

lemma holds_log_reads:
  "io_keeps (holds view k) (latest_version \<lparr>tl_store = ops, tl_log_prefix = p\<rparr>)" "io_keeps (holds view k) (io_now rt)"
  by (rule holds_read, erule latest_version_view) (rule holds_read, erule io_now_view)

lemma holds_write_version: "io_keeps (holds view k) (write_version \<lparr>tl_store = ops, tl_log_prefix = p\<rparr> v as)"
  by (simp add: write_version_def io_keeps_wrap holds_put)

lemma holds_initialize:
  assumes "dt_log t = \<lparr>tl_store = ops, tl_log_prefix = p\<rparr>"
  shows "io_keeps (holds view k) (table_initialize rt t schema_string)"
  unfolding table_initialize_def Let_def assms
  by (intro io_keeps_bind io_keeps_wrap io_keeps_if io_keeps_ret holds_log_reads holds_write_version)

lemma holds_commit_op:
  assumes "dt_log t = \<lparr>tl_store = ops, tl_log_prefix = p\<rparr>"
  shows "io_keeps (holds view k) (commit_op rt t None actions operation)"
  unfolding commit_op_def Let_def assms option.case
  by (intro io_keeps_bind io_keeps_wrap io_keeps_ret holds_log_reads holds_write_version)

lemma delta_wait_view: "before_next_attempt rt delta_retry_policy n e w = (x, w') \<Longrightarrow> view w' = view w"
  by (cases x) (use delta_policy_ok in \<open>auto simp: policy_ok_def\<close>)

lemma holds_commit:
  assumes "table_commit rt (new_delta_table ops source object p) None actions operation (Some cb, w) = (r, (cb', w'))"
    and "holds view k w"
  shows "holds view k w'"
proof -
  let ?t = "new_delta_table ops source object p"
  let ?Q = "\<lambda>w w'. holds view k w \<longrightarrow> holds view k w'"
  obtain b' where "execute_with_retry_and_circuit_breaker rt delta_retry_policy (commit_op rt ?t None actions operation) (cb, w)
      = (r, (b', w'))"
    using assms(1) by (auto simp: table_commit_def split: prod.splits)
  then have "?Q w w'"
  proof (rule execute_with_retry_and_circuit_breaker_rel(1))
    show "reflp ?Q" by (simp add: reflp_def)
    show "transp ?Q" by (simp add: transp_def)
    show "?Q w w'" if "commit_op rt ?t None actions operation w = (r, w')" for w r w'
      using io_keepsD [OF holds_commit_op _ that] by simp
  qed (use now_view delta_wait_view in \<open>auto simp: holds_def\<close>)
  with assms(2) show ?thesis by simp
qed

lemma legacy_keeps:
  assumes m: "manager_of p m" and v: "0 \<le> v"
  shows "io_keeps (log_from p m0) (legacy_maybe_checkpoint ord m v)" and "io_keeps (holds view k) (legacy_maybe_checkpoint ord m v)"
proof -
  have store: "cm_store m = ops" and log: "dt_log (cm_table m) = \<lparr>tl_store = ops, tl_log_prefix = p\<rparr>"
    and pre: "cm_log_prefix m = p" and dir: "directory p"
    and marker: "version_of_key (cm_last_checkpoint_key m) = None"
    using m by (auto simp: manager_of_def)
  have up: "io_keeps (log_from p m0) (st_upload ops (checkpoint_key p v) d t)" for d t
    using version_of_checkpoint_key [OF dir v] by (intro log_from_upload) simp
  have put: "io_keeps (log_from p m0) (st_put_json ops (cm_last_checkpoint_key m) j)" for j
    using marker by (intro log_from_put_json) simp
  have snap: "view w' = view w" if "table_snapshot (cm_table m) v w = (r, w')" for w r w'
    by (rule table_snapshot_view [OF log that])
  show "io_keeps (log_from p m0) (legacy_maybe_checkpoint ord m v)"
    unfolding legacy_maybe_checkpoint_def legacy_create_checkpoint_def Let_def store pre
    by (intro io_keeps_if io_keeps_ret io_keeps_bind io_keeps_wrap up put log_from_read) (erule snap)
  show "io_keeps (holds view k) (legacy_maybe_checkpoint ord m v)"
    unfolding legacy_maybe_checkpoint_def legacy_create_checkpoint_def Let_def store pre
    by (intro io_keeps_if io_keeps_ret io_keeps_bind io_keeps_wrap holds_put holds_read) (erule snap)
qed

end

section \<open>An engine over a store\<close>

text \<open>Every call of the source and of the identifier generator is a step of \<open>R\<close>; identifiers have no slash.\<close>

definition source_steps :: "('w \<Rightarrow> 'w \<Rightarrow> bool) \<Rightarrow> 'w engine \<Rightarrow> bool" where
  "source_steps R en \<longleftrightarrow> (\<forall>w. R w (snd (en_uuid en w)) \<and> (\<forall>ob. R w (snd (co_full (en_connector en) ob w)))
     \<and> (\<forall>ob f t. R w (snd (co_incremental (en_connector en) ob f t w))))"

definition plain_ids :: "'w engine \<Rightarrow> bool" where
  "plain_ids en \<longleftrightarrow> (\<forall>w. CHR ''/'' \<notin> set (fst (en_uuid en w)))"

text \<open>
  Reading the source and drawing identifiers changes no object of the store; an identifier is the text of a
  UUID, which has no slash.
\<close>

locale engine_env = table_env +
  fixes en :: "'a engine"
  assumes en_ops [simp]: "en_store en = ops"
    and uuid_view: "en_uuid en w = (u, w') \<Longrightarrow> view w' = view w"
    and uuid_plain: "en_uuid en w = (u, w') \<Longrightarrow> CHR ''/'' \<notin> set u"
    and full_view: "co_full (en_connector en) ob w = (x, w') \<Longrightarrow> view w' = view w"
    and incremental_view: "co_incremental (en_connector en) ob f t w = (x, w') \<Longrightarrow> view w' = view w"
begin

abbreviation log_prefix :: "object_plan \<Rightarrow> string" where
  "log_prefix p \<equiv> delta_log_prefix (en_source en) (op_object p)"

lemma object_table_log [simp]: "dt_log (object_table en ob) = \<lparr>tl_store = ops, tl_log_prefix = delta_log_prefix (en_source en) ob\<rparr>"
  "dt_retry_policy (object_table en ob) = Some delta_retry_policy"
  by (simp_all add: object_table_def)

text \<open>The files of the actions so far are stored.\<close>

definition files_stored :: "object_plan \<Rightarrow> action list \<Rightarrow> 'a \<Rightarrow> bool" where
  "files_stored p actions w \<longleftrightarrow>
     (\<forall>a \<in> set actions. \<exists>f. ac_add a = Some f \<and> holds view (parquet_file (en_source en) (op_object p) (ad_path f)) w)"

lemma files_stored_mono:
  "files_stored p actions w \<Longrightarrow> (\<And>k. holds view k w \<Longrightarrow> holds view k w') \<Longrightarrow> files_stored p actions w'"
  unfolding files_stored_def by blast

text \<open>What the loop over the batches keeps: the log as it was, every key, and the files of the actions.\<close>

definition only_adds :: "object_plan \<Rightarrow> 'a \<Rightarrow> 'a \<Rightarrow> bool" where
  "only_adds p w w' \<longleftrightarrow> log_same (log_prefix p) (view w) (view w') \<and> (\<forall>k. holds view k w \<longrightarrow> holds view k w')"

lemma only_adds_refl: "view w' = view w \<Longrightarrow> only_adds p w w'"
  by (simp add: only_adds_def holds_def)

lemma only_adds_trans: "only_adds p w w' \<Longrightarrow> only_adds p w' w'' \<Longrightarrow> only_adds p w w''"
  unfolding only_adds_def using log_same_trans by blast

lemma batch_records_view: "batch_records rt pl ord va sch n i rs w = (xs, w') \<Longrightarrow> view w' = view w"
proof (induction rs arbitrary: i w xs w')
  case (Cons r rs)
  from Cons.prems show ?case by (auto split: prod.splits if_splits dest!: now_view dest: Cons.IH)
qed simp

lemma validate_step_view:
  assumes "validate_step rt en p b results (rn, w) = (r, (rn', w'))"
  shows "view w' = view w"
  using assms
  by (auto simp: validate_step_def validate_batch_def Let_def dest!: now_view batch_records_view
      split: prod.splits option.splits if_splits)

lemma write_records_adds:
  assumes "write_records ops (en_uuid en) pq (en_source en) (op_object p) sch rs w = (r, w')"
  shows "only_adds p w w'"
proof -
  have name: "CHR ''/'' \<notin> set (parquet_filename u)" if "CHR ''/'' \<notin> set u" for u
    using that by (simp add: parquet_filename_def)
  have up: "only_adds p w w'"
    if "st_upload ops (parquet_file (en_source en) (op_object p) (parquet_filename u)) d t w = (r, w')" "CHR ''/'' \<notin> set u"
    for u d t and w :: 'a and r w'
    using upload_cases [OF that(1)] parquet_file_not_in_log [OF name [OF that(2)], of "en_source en" "op_object p"]
    by (auto simp: only_adds_def holds_def intro!: log_same_other)
  show ?thesis
  proof (cases "\<exists>u w1. en_uuid en w = (u, w1) \<and> w' = w1")
    case True
    then show ?thesis using uuid_view only_adds_refl by blast
  next
    case False
    show ?thesis
    proof (cases "w' = w")
      case True
      then show ?thesis by (simp add: only_adds_refl)
    next
      case other: False
      from assms False other obtain u d w1 r1 where u: "en_uuid en w = (u, w1)"
        and "st_upload ops (parquet_file (en_source en) (op_object p) (parquet_filename u)) d ''application/octet-stream'' w1 = (r1, w')"
        by (auto simp: write_records_def Let_def split: if_splits option.splits prod.splits sum.splits)
      with up uuid_plain [OF u] have "only_adds p w1 w'" by blast
      then show ?thesis using only_adds_refl [OF uuid_view [OF u]] only_adds_trans by blast
    qed
  qed
qed

text \<open>A batch that was written: its file is stored, under the path of the action added for it.\<close>

lemma process_batch_adds:
  assumes "process_batch rt en p b (actions, rows, results) (rn, w) = (r, (rn', w'))"
  shows "only_adds p w w'"
    and "r = Some (Inr (actions', rows', results')) \<Longrightarrow> files_stored p actions w \<Longrightarrow> files_stored p actions' w'"
proof -
  let ?goal = "only_adds p w w' \<and> (\<forall>actions' rows' results'. r = Some (Inr (actions', rows', results'))
      \<longrightarrow> files_stored p actions w \<longrightarrow> files_stored p actions' w')"
  have ?goal
  proof (cases "rb_records b = []")
    case True
    then show ?thesis using assms by (auto simp: process_batch_def pio_ret_def only_adds_refl)
  next
    case False
    let ?wr = "pio_snd (write_records (en_store en) (en_uuid en) (en_parquet en) (en_source en) (op_object p) (op_schema p) (rb_records b))"
    have run: "pio_bind (validate_step rt en p b results) (\<lambda>results'. pio_bind (pio_wrap ''write records'' ?wr)
         (\<lambda>written. case written of None \<Rightarrow> pio_ret (actions, rows, results')
            | Some f \<Rightarrow> (\<lambda>(rn, w). case rt_now rt w of (now, w1) \<Rightarrow>
                (Some (Inr (actions @ [new_add_action now (wf_filename f) (wf_size f) (stats_text (wf_rows f))],
                            rows + wf_rows f, results')), (rn, w1))))) (rn, w) = (r, (rn', w'))"
      using assms False by (simp add: process_batch_def)
    obtain v rn1 w1 where v: "validate_step rt en p b results (rn, w) = (v, (rn1, w1))" by (metis surj_pair)
    have a1: "only_adds p w w1" by (rule only_adds_refl [OF validate_step_view [OF v]])
    obtain x w2 where x: "write_records ops (en_uuid en) (en_parquet en) (en_source en) (op_object p) (op_schema p) (rb_records b) w1
        = (x, w2)" by (metis surj_pair)
    have a2: "only_adds p w w2" by (rule only_adds_trans [OF a1 write_records_adds [OF x]])
    have bad: ?thesis if "\<forall>res. v \<noteq> Some (Inr res)"
      using run v that a1 by (auto simp: pio_bind_def split: option.splits sum.splits)
    have written: ?thesis if "v = Some (Inr res)" "\<forall>f. x \<noteq> Some (Inr (Some f))" for res
    proof -
      have "w' = w2 \<and> (\<forall>y. r = Some (Inr y) \<longrightarrow> y = (actions, rows, res))"
        using run v that x by (auto simp: pio_bind_def pio_wrap_def pio_snd_def pio_ret_def split: option.splits sum.splits)
      with a2 show ?thesis by (auto elim: files_stored_mono simp: only_adds_def)
    qed
    have stored: ?thesis if v': "v = Some (Inr res)" and x': "x = Some (Inr (Some f))" for res f
    proof -
      obtain now w3 where now: "rt_now rt w2 = (now, w3)" by (metis surj_pair)
      have r: "w' = w3" "r = Some (Inr (actions @ [new_add_action now (wf_filename f) (wf_size f) (stats_text (wf_rows f))],
            rows + wf_rows f, res))"
        using run v v' x x' now by (simp_all add: pio_bind_def pio_wrap_def pio_snd_def)
      have a3: "only_adds p w w3" by (rule only_adds_trans [OF a2 only_adds_refl [OF now_view [OF now]]])
      have key: "wf_key f = parquet_file (en_source en) (op_object p) (wf_filename f)"
        using x [unfolded x'] by (rule write_recordsE)
      obtain data where "view w2 = (view w1)(wf_key f \<mapsto> data)"
        using write_records_stored [OF x [unfolded x']] uuid_view by auto
      then have "holds view (parquet_file (en_source en) (op_object p) (wf_filename f)) w3"
        using now_view [OF now] key by (simp add: holds_def)
      moreover have "files_stored p actions w \<Longrightarrow> files_stored p actions w3"
        using a3 by (auto elim: files_stored_mono simp: only_adds_def)
      ultimately have "files_stored p actions w \<Longrightarrow> files_stored p (actions @ [new_add_action now (wf_filename f) (wf_size f)
          (stats_text (wf_rows f))]) w3"
        by (auto simp: files_stored_def new_add_action_def)
      with a3 r show ?thesis by simp
    qed
    show ?thesis using bad written stored by blast
  qed
  then show "only_adds p w w'"
    and "r = Some (Inr (actions', rows', results')) \<Longrightarrow> files_stored p actions w \<Longrightarrow> files_stored p actions' w'"
    by blast+
qed

lemma process_batches_adds:
  "process_batches rt en p bs (actions, rows, results) (rn, w) = (r, (rn', w')) \<Longrightarrow>
   only_adds p w w' \<and> (\<forall>actions' rows' results'. r = Some (Inr (actions', rows', results'))
      \<longrightarrow> files_stored p actions w \<longrightarrow> files_stored p actions' w')"
proof (induction bs arbitrary: actions rows results rn w)
  case Nil
  then show ?case by (auto simp: pio_ret_def only_adds_refl)
next
  case (Cons b bs)
  obtain x rn1 w1 where x: "process_batch rt en p b (actions, rows, results) (rn, w) = (x, (rn1, w1))" by (metis surj_pair)
  note adds = process_batch_adds [OF x]
  show ?case
  proof (cases "\<exists>acc. x = Some (Inr acc)")
    case True
    then obtain actions1 rows1 results1 where acc: "x = Some (Inr (actions1, rows1, results1))" by (metis surj_pair)
    have "process_batches rt en p bs (actions1, rows1, results1) (rn1, w1) = (r, (rn', w'))"
      using Cons.prems x acc by (simp add: pio_bind_def)
    from Cons.IH [OF this] adds(1) adds(2) [OF acc] show ?thesis using only_adds_trans by blast
  next
    case False
    then have "w' = w1" and "\<nexists>acc. r = Some (Inr acc)"
      using Cons.prems x by (auto simp: pio_bind_def split: option.splits sum.splits)
    with adds(1) show ?thesis by blast
  qed
qed

section \<open>The commit of a sync\<close>

lemma extract_records_view: "extract_records en p (rn, w) = (r, (rn', w')) \<Longrightarrow> view w' = view w"
  by (auto simp: extract_records_def dest: full_view incremental_view split: sync_mode.splits prod.splits)

lemma init_table_upto:
  assumes "init_table rt en p w = (Inr u, w')" and "log_upto (log_prefix p) (view w) n"
  shows "\<exists>n'. (n' = n \<or> n' = max n 1) \<and> log_upto (log_prefix p) (view w') n'"
proof (cases "op_schema p")
  case None
  then show ?thesis using assms by (auto simp: init_table_def)
next
  case (Some sch)
  then have "table_initialize rt (object_table en (op_object p)) (to_delta_schema_string sch) w = (Inr u, w')"
    using assms(1) by (auto simp: init_table_def elim: io_wrap_InrE)
  from table_initialize_upto [OF this object_table_log(1) assms(2)] show ?thesis by blast
qed

lemma save_new_schema_adds: "save_new_schema en p w = (r, w') \<Longrightarrow> only_adds p w w'"
proof -
  have key: "\<not> has_prefix (schema_version_key (en_source en) (op_object p) v) (log_prefix p)" for v
    by (simp add: has_prefix_iff schema_version_key_def delta_log_prefix_def)
  have put: "only_adds p w w'" if "st_put_json ops (schema_version_key (en_source en) (op_object p) v) j w = (r, w')" for v j r w w'
    using put_json_cases [OF that] key [of v] by (auto simp: only_adds_def holds_def intro!: log_same_other)
  show "only_adds p w w'" if "save_new_schema en p w = (r, w')"
    using that
    by (auto simp: save_new_schema_def save_schema_version_def io_try_def io_wrap_def only_adds_refl dest: put
        split: option.splits if_splits prod.splits sum.splits)
qed

lemma object_checkpoint_adds:
  assumes "object_checkpoint en (op_object p) v w = (r, w')" and "0 \<le> v"
  shows "only_adds p w w'"
proof -
  have marker: "delta_last_checkpoint (en_source en) (op_object p) = log_prefix p @ ''_last_checkpoint''"
    by (simp add: last_checkpoint_layout)
  let ?m = "\<lparr>cm_store = ops, cm_table = object_table en (op_object p), cm_validator = \<lparr>cv_store = ops, cv_log_prefix = log_prefix p\<rparr>,
     cm_config = checkpoint_defaults legacy_config, cm_last_checkpoint_key = delta_last_checkpoint (en_source en) (op_object p),
     cm_log_prefix = log_prefix p\<rparr>"
  have m: "manager_of (log_prefix p) ?m" by (simp add: manager_of_def marker)
  have run: "legacy_maybe_checkpoint (od_files (en_orders en)) ?m v w = (r, w')"
    using assms(1) by (simp add: object_checkpoint_def)
  have "log_same (log_prefix p) (view w) (view w')"
    using io_keepsD [OF legacy_keeps(1) [OF m assms(2), of "view w"] _ run] by (simp add: log_from_def)
  moreover have "holds view k w'" if "holds view k w" for k
    using io_keepsD [OF legacy_keeps(2) [OF m assms(2), of k] that run] .
  ultimately show ?thesis by (simp add: only_adds_def)
qed

lemma appended_last:
  assumes "appended pre as op (Suc k) m n m'" and "directory pre" and "valid_version (n + int k)"
  shows "\<exists>now. m' (version_key pre (n + int k)) = Some (encode_actions (commit_entry now as op (n + int k)))"
  using assms(1)
proof cases
  case (one m1 now)
  from log_same_version_key [OF one(3) assms(2,3)] show ?thesis by auto
qed

lemma commit_actions_log:
  assumes run: "commit_actions rt en p actions w = (Inr version, w')"
    and upto: "log_upto (log_prefix p) (view w) n" and bound: "n + 3 < 2 ^ 63"
  obtains now operation where "n \<le> version" and "log_upto (log_prefix p) (view w') (version + 1)" and "valid_version version"
    and "view w' (version_key (log_prefix p) version) = Some (encode_actions (commit_entry now actions operation version))"
    and "\<And>k. holds view k w \<Longrightarrow> holds view k w'"
proof -
  define op where "op = (if op_mode p = SyncModeFull then ''WRITE (full sync)'' else ''WRITE'')"
  obtain cb' where tc: "table_commit rt (object_table en (op_object p)) None actions op (Some delta_breaker, w) = (Inr version, (cb', w'))"
    using run by (auto simp: commit_actions_def op_def split: prod.splits)
  have hook: "hook_ok (log_prefix p) None" by (simp add: hook_ok_def)
  have b: "n + rp_max_attempts delta_retry_policy < 2 ^ 63" using bound by simp
  obtain k where k: "int k < 3" "version = n + int k"
    and app: "appended (log_prefix p) actions op (Suc k) (view w) n (view w')"
    using table_commit_ok [OF tc object_table_log hook delta_policy_ok upto b] by auto
  have n: "0 \<le> n" using upto by (simp add: log_upto_def)
  have v: "valid_version (n + int k)" using n k bound by (simp add: valid_version_def)
  have "log_upto (log_prefix p) (view w') (n + int (Suc k))"
    by (rule appended_upto [OF app upto]) (use k bound in simp)
  then have up: "log_upto (log_prefix p) (view w') (version + 1)" using k by (simp add: ac_simps)
  have "holds view key w'" if "holds view key w" for key
    by (rule holds_commit [OF tc [unfolded object_table_def en_ops] that])
  with that up v k n appended_last [OF app directory_delta_log v] show ?thesis by auto
qed

lemma sync_object_committed:
  assumes run: "sync_object rt en p (rn, w) = (Some (Inr results), (rn', w'))" and new: "rn_state rn' \<noteq> rn_state rn"
    and upto: "log_upto (log_prefix p) (view w) n" and bound: "n + 4 < 2 ^ 63"
  shows "\<exists>version actions now operation os. n \<le> version \<and> log_upto (log_prefix p) (view w') (version + 1)
    \<and> view w' (version_key (log_prefix p) version) = Some (encode_actions (commit_entry now actions operation version))
    \<and> actions \<noteq> [] \<and> files_stored p actions w'
    \<and> lookup_state (rn_state rn') (op_object p) = Some os \<and> os_delta_version os = version"
proof -
  obtain w1 batches w2 actions rows rn2 w3 where i: "init_table rt en p w = (Inr (), w1)"
    and x: "extract_records en p (rn, w1) = (Some (Inr (batches, None)), (rn, w2))"
    and pb: "process_batches rt en p batches ([], 0, []) (rn, w2) = (Some (Inr (actions, rows, results)), (rn2, w3))"
    and st: "rn_state rn2 = rn_state rn"
    and c: "commit_object rt en p actions rows (rn2, w3) = (Some (Inr ()), (rn', w'))"
    using run by (rule sync_objectE)
  obtain n1 where n1: "n1 = n \<or> n1 = max n 1" and up1: "log_upto (log_prefix p) (view w1) n1"
    using init_table_upto [OF i upto] by blast
  have v2: "view w2 = view w1" by (rule extract_records_view [OF x])
  note adds = process_batches_adds [OF pb]
  have up3: "log_upto (log_prefix p) (view w3) n1"
    using log_same_upto [OF _ up1] adds v2 by (auto simp: only_adds_def)
  have stored: "files_stored p actions w3" using adds by (simp add: files_stored_def)
  have n13: "n1 + 3 < 2 ^ 63" and nn1: "n \<le> n1" using n1 bound by auto
  from c show ?thesis
  proof (cases rule: commit_object_cases)
    case nothing
    with st new show ?thesis by simp
  next
    case (failed e)
    then show ?thesis by simp
  next
    case (committed version w4 w5 now1 now2)
    obtain now operation where nv: "n1 \<le> version" and up4: "log_upto (log_prefix p) (view w4) (version + 1)"
      and val: "valid_version version"
      and entry: "view w4 (version_key (log_prefix p) version) = Some (encode_actions (commit_entry now actions operation version))"
      and held: "\<And>k. holds view k w3 \<Longrightarrow> holds view k w4"
      using commit_actions_log [OF committed(3) up3 n13] by blast
    obtain w6 where w6: "rt_now rt w5 = (now2, w6)" using committed(6) by (metis surj_pair fst_conv)
    obtain y w7 where w7: "save_new_schema en p w6 = (y, w7)" by (metis surj_pair)
    obtain z where w': "object_checkpoint en (op_object p) version w7 = (z, w')" using committed(7) w6 w7 by (metis surj_pair snd_conv)
    have v0: "0 \<le> version" using val by (simp add: valid_version_def)
    have late: "only_adds p w4 w'"
      using only_adds_refl [OF now_view [OF committed(5)]] only_adds_refl [OF now_view [OF w6]]
        save_new_schema_adds [OF w7] object_checkpoint_adds [OF w' v0] only_adds_trans by blast
    have same: "log_same (log_prefix p) (view w4) (view w')" using late by (simp add: only_adds_def)
    have "files_stored p actions w'"
      using files_stored_mono [OF files_stored_mono [OF stored held]] late by (auto simp: only_adds_def)
    moreover have "view w' (version_key (log_prefix p) version) = Some (encode_actions (commit_entry now actions operation version))"
      using log_same_version_key [OF same directory_delta_log val] entry by simp
    moreover have "log_upto (log_prefix p) (view w') (version + 1)" by (rule log_same_upto [OF same up4])
    moreover have "lookup_state (rn_state rn') (op_object p) = Some (object_state_of p now1 now2 version rows)"
      using recorded_as_lookup [OF committed(4)] by simp
    moreover have "os_delta_version (object_state_of p now1 now2 version rows) = version"
      by (simp add: object_state_of_def Let_def split: option.splits)
    moreover have "n \<le> version" using nv nn1 by simp
    ultimately show ?thesis using committed(2) by blast
  qed
qed

end

text \<open>The contract from the two conditions.\<close>

lemma source_stepsD:
  assumes "source_steps R en"
  shows "en_uuid en w = (u, w') \<Longrightarrow> R w w'" and "co_full (en_connector en) ob w = (x, w') \<Longrightarrow> R w w'"
    and "co_incremental (en_connector en) ob f t w = (y, w') \<Longrightarrow> R w w'"
proof -
  have "R w (snd (en_uuid en w))" "R w (snd (co_full (en_connector en) ob w))" "R w (snd (co_incremental (en_connector en) ob f t w))"
    using assms unfolding source_steps_def by iprover+
  then show "en_uuid en w = (u, w') \<Longrightarrow> R w w'" and "co_full (en_connector en) ob w = (x, w') \<Longrightarrow> R w w'"
    and "co_incremental (en_connector en) ob f t w = (y, w') \<Longrightarrow> R w w'" by simp_all
qed

lemma plain_idsD: "plain_ids en \<Longrightarrow> en_uuid en w = (u, w') \<Longrightarrow> CHR ''/'' \<notin> set u"
  unfolding plain_ids_def by (drule spec [of _ w]) simp

lemma engine_envI:
  assumes "table_env ops view rt" and "en_store en = ops" and "source_steps (\<lambda>w w'. view w' = view w) en" and "plain_ids en"
  shows "engine_env ops view rt en"
  by (rule engine_env.intro [OF assms(1)], rule engine_env_axioms.intro [OF assms(2)])
     (fact source_stepsD [OF assms(3)] plain_idsD [OF assms(4)])+

section \<open>What a run saves\<close>

lemma check_consistency_keeps:
  assumes "check_consistency rt en plans state w = (Inr state', w')"
  shows "ss_source state' = ss_source state" and "ss_objects state' = ss_objects state" and "ss_run_count state' = ss_run_count state"
  using assms by (auto simp: check_consistency_def split: option.splits prod.splits if_splits)

lemma check_consistency_error: "check_consistency rt en plans state w = (Inl e, w') \<Longrightarrow> \<exists>m. e = Msg m"
  by (auto simp: check_consistency_def split: option.splits prod.splits if_splits)

lemma run_verdict_error: "run_verdict errs = Inl e \<Longrightarrow> \<exists>m e'. e = Wrap (''sync failed with '' @ m) e'"
  by (auto simp: run_verdict_def split: option.splits)

text \<open>The state a run ends with, before it is saved.\<close>

definition run_saved :: "sync_state \<Rightarrow> sync_state \<Rightarrow> bool" where
  "run_saved before st \<longleftrightarrow> ss_source st = ss_source before \<and> ss_objects st = ss_objects before
     \<and> ss_run_count st = wrap64 (ss_run_count before + 1)"

context table_env
begin

text \<open>A run that comes to its verdict, good or bad, has saved the state.\<close>

lemma finish_run_saves:
  assumes "en_store en = ops" and "finish_run rt en report plans rn errs w = (run_verdict errs, w')"
  shows "\<exists>st. run_saved (rn_state rn) st
    \<and> view w' (sync_state_key (ss_source (rn_state rn))) = Some (json_indent (enc_sync_state st))"
proof -
  obtain c w1 where c: "check_consistency rt en plans (rn_state rn) w = (c, w1)" by (metis surj_pair)
  let ?w2 = "report_validation rt en (rn_results rn) report w1"
  show ?thesis
  proof (cases c)
    case (Inl e)
    then have "run_verdict errs = Inl e" using assms(2) c by (simp add: finish_run_def io_bind_def)
    with check_consistency_error [OF c [unfolded Inl]] run_verdict_error show ?thesis by blast
  next
    case (Inr state)
    note keeps = check_consistency_keeps [OF c [unfolded Inr]]
    obtain now w3 where now: "rt_now rt ?w2 = (now, w3)" by (metis surj_pair)
    let ?st = "state\<lparr>ss_last_run := now, ss_run_count := wrap64 (ss_run_count state + 1)\<rparr>"
    obtain r w4 where r: "save_state ops ?st w3 = (r, w4)" by (metis surj_pair)
    show ?thesis
    proof (cases r)
      case (Inl e)
      then have "run_verdict errs = Inl (Wrap ''save state'' e)"
        using assms c Inr now r by (simp add: finish_run_def io_bind_def save_run_def io_wrap_def)
      with run_verdict_error show ?thesis by fastforce
    next
      case saved: (Inr u)
      obtain t w5 where t: "rt_now rt w4 = (t, w5)" by (metis surj_pair)
      have w': "w' = w5" using assms c Inr now r saved t by (simp add: finish_run_def io_bind_def save_run_def io_wrap_def)
      obtain "st_put_json ops (sync_state_key (ss_source ?st)) (enc_sync_state ?st) w3 = (Inr u, w4)"
        using r saved by (auto elim: save_stateE)
      from put_json_ok [OF this] now_view [OF t] keeps w' show ?thesis
        by (intro exI [of _ ?st]) (simp add: run_saved_def)
    qed
  qed
qed

end

end
