(* ===== verification/Live.thy ===== *)
theory Live
  imports Lake
begin

text \<open>
  That the operations return: a store that answers (\<open>live_store\<close>) makes \<open>Snapshot\<close> and \<open>Commit\<close> succeed
  on an intact log. The S3 client answers while its breaker is closed and S3 answers it
  (\<open>live_bucket\<close>), and so does the client of the bucket in memory while no fault is scripted.
\<close>

section \<open>One attempt is enough\<close>

lemma execute_first:
  assumes "operation w = (Inr a, w')" and "1 \<le> rp_max_attempts p"
  shows "execute rt p operation w = (Inr a, w')"
proof -
  have "retried rt p operation 1 w 1 w" by (rule retried.start)
  then show ?thesis using assms by (auto simp: execute_success_iff)
qed

definition closed :: "breaker \<Rightarrow> bool" where
  "closed cb \<longleftrightarrow> cb_state cb = StateClosed"

lemma cb_execute_closed:
  assumes "closed cb" and "fn w = (Inr a, w1)"
  shows "\<exists>cb'. closed cb' \<and> cb_execute rt fn (cb, w) = (Inr a, (cb', snd (rt_now rt w1)))"
  using assms
  by (auto simp: closed_def cb_execute_def can_execute_def record_result_def Let_def split: prod.splits)

lemma retry_breaker_closed:
  assumes "closed cb" and "fn w = (Inr a, w1)" and "1 \<le> rp_max_attempts p"
  shows "\<exists>cb'. closed cb' \<and> execute_with_retry_and_circuit_breaker rt p fn (cb, w)
                            = (Inr a, (cb', snd (rt_now rt w1)))"
proof -
  obtain cb' where "closed cb'" and "cb_execute rt fn (cb, w) = (Inr a, (cb', snd (rt_now rt w1)))"
    using cb_execute_closed [of cb fn w a w1 rt] assms(1,2) by blast
  then show ?thesis
    using execute_first [of "cb_execute rt fn" "(cb, w)" a _ "policy_snd p" "rt_snd rt"] assms(3)
    by (auto simp: execute_with_retry_and_circuit_breaker_def)
qed

section \<open>Intact logs\<close>

text \<open>A log is intact when it has the versions below \<open>n\<close> and each of them decodes.\<close>

definition intact :: "string \<Rightarrow> objects \<Rightarrow> int \<Rightarrow> bool" where
  "intact p m n \<longleftrightarrow> log_upto p m n \<and> (\<forall>i. 0 \<le> i \<and> i < n \<longrightarrow> log_actions p m i \<noteq> None)"

lemma intact_empty: "log_upto p m 0 \<Longrightarrow> intact p m 0"
  by (auto simp: intact_def)

lemma intact_appended:
  assumes "appended p as op k m n m'" and "intact p m n" and "n + int k < 2 ^ 63" and "wf_commit as op"
  shows "intact p m' (n + int k)"
  using assms appended_upto [OF assms(1) _ assms(3)] appended_actions [OF assms(1) _ assms(3,4)]
  by (fastforce simp: intact_def split: if_splits)

definition wf_table :: "'w delta_table \<Rightarrow> string \<Rightarrow> bool" where
  "wf_table t schema_string \<longleftrightarrow> valid_utf8 (dt_source t) \<and> valid_utf8 (dt_object t) \<and> valid_utf8 schema_string"

context table_env
begin

lemma wf_create_entry:
  assumes "wf_table t schema_string" and "in_int64 (unix_milli now1)" and "in_int64 (unix_milli now2)"
  shows "list_all wf_action (create_entry now1 now2 t schema_string)"
  using assms
  by (simp add: create_entry_def wf_table_def wf_action_def new_protocol_action_def new_metadata_action_def
      new_commit_info_action_def zero_action_def wf_protocol_def wf_metadata_def wf_commit_info_def wf_format_def
      zero_format_def text_omit_map_def text_map_def wf_map_def valid_utf8_append in_int64_def)

lemma initialize_intact:
  assumes run: "table_initialize rt t schema_string w = (Inr u, w')"
    and t: "dt_log t = \<lparr>tl_store = ops, tl_log_prefix = p\<rparr>" "wf_table t schema_string" and "intact p (view w) n"
  shows "intact p (view w') (max n 1)"
proof (cases "n = 0")
  case True
  have upto: "log_upto p (view w) n" using assms(4) by (simp add: intact_def)
  obtain now1 now2 where now: "in_int64 (unix_milli now1)" "in_int64 (unix_milli now2)"
    and w': "view w' = (view w)(version_key p 0 \<mapsto> encode_actions (create_entry now1 now2 t schema_string))"
    using table_initialize_ok [OF run t(1) upto] True by auto
  have "log_actions p (view w') 0 = Some (create_entry now1 now2 t schema_string)"
    unfolding w' by (subst log_actions_write [OF wf_create_entry [OF t(2) now]]) auto
  then show ?thesis
    using table_initialize_upto [OF run t(1) upto] True by (auto simp: intact_def order_le_less)
next
  case False
  then have "max n 1 = n" using assms(4) by (auto simp: intact_def log_upto_def)
  with False show ?thesis
    using table_initialize_ok [OF run t(1)] assms(4) by (auto simp: intact_def)
qed

end

section \<open>The table over a store that answers\<close>

locale live_store = s3_store ops view for ops :: "'w store_ops" and view +
  fixes up :: "'w \<Rightarrow> bool"
  assumes upload_up: "up w \<Longrightarrow> \<exists>w'. st_upload ops k d t w = (Inr (), w') \<and> up w'"
    and download_up: "up w \<Longrightarrow> view w k = Some d \<Longrightarrow> \<exists>w'. st_download ops k w = (Inr d, w') \<and> up w'"
    and put_json_up: "up w \<Longrightarrow> \<exists>w'. st_put_json ops k v w = (Inr (), w') \<and> up w'"
    and list_up: "up w \<Longrightarrow> \<exists>ks w'. st_list ops p w = (Inr ks, w') \<and> up w'"

locale live_table = live_store ops view up + table_env ops view rt
  for ops :: "'w store_ops" and view up and rt :: "'w runtime" +
  assumes now_up: "up w \<Longrightarrow> up (snd (rt_now rt w))"
begin

lemma latest_version_up:
  assumes "up w"
  shows "\<exists>v w'. latest_version \<lparr>tl_store = ops, tl_log_prefix = p\<rparr> w = (Inr v, w') \<and> up w'"
proof -
  from list_up [OF assms] obtain ks w' where "st_list ops p w = (Inr ks, w')" and "up w'" by blast
  then show ?thesis by (simp add: latest_version_def list_versions_def io_bind_def io_wrap_def)
qed

lemma io_now_up: "up w \<Longrightarrow> \<exists>t w'. io_now rt w = (Inr t, w') \<and> up w'"
  using now_up [of w] by (auto simp: io_now_def split: prod.splits)

lemma write_version_up:
  assumes "up w"
  shows "\<exists>w'. write_version \<lparr>tl_store = ops, tl_log_prefix = p\<rparr> v as w = (Inr (), w') \<and> up w'"
  using upload_up [OF assms, of "version_key p v" "encode_actions as" "''application/json''"]
  by (auto simp: write_version_def io_wrap_def)

lemma read_version_up:
  assumes "up w" and "log_actions p (view w) v = Some as"
  shows "\<exists>w'. read_version \<lparr>tl_store = ops, tl_log_prefix = p\<rparr> v w = (Inr as, w') \<and> up w'"
proof -
  from assms(2) obtain d where d: "view w (version_key p v) = Some d" "decode_actions d = Inr as"
    by (auto simp: log_actions_def split: option.splits sum.splits)
  from download_up [OF assms(1) d(1)] d(2) show ?thesis
    by (auto simp: read_version_def io_bind_def io_wrap_def)
qed

lemma snapshot_loop_up:
  assumes "up w" and "\<And>i. v \<le> i \<Longrightarrow> i \<le> version \<Longrightarrow> log_actions p (view w) i \<noteq> None"
  shows "\<exists>s' w'. snapshot_loop \<lparr>tl_store = ops, tl_log_prefix = p\<rparr> version v s w = (Inr s', w') \<and> up w'"
  using assms
proof (induction "nat (version + 1 - v)" arbitrary: v s w)
  case 0
  then show ?case by (subst snapshot_loop.simps) simp
next
  case (Suc n)
  then have v: "v \<le> version" by simp
  with Suc.prems(2) [of v] obtain as where as: "log_actions p (view w) v = Some as" by auto
  obtain w1 where rd: "read_version \<lparr>tl_store = ops, tl_log_prefix = p\<rparr> v w = (Inr as, w1)" and up: "up w1"
    using read_version_up [OF Suc.prems(1) as] by blast
  have view: "view w1 = view w" using read_version_view [OF rd] .
  have "\<exists>s' w'. snapshot_loop \<lparr>tl_store = ops, tl_log_prefix = p\<rparr> version (v + 1) (replay as s) w1 = (Inr s', w') \<and> up w'"
    by (rule Suc.hyps(1)) (use Suc.hyps(2) Suc.prems(2) up view in auto)
  then show ?case using rd v by (subst snapshot_loop.simps) simp
qed

lemma snapshot_up:
  assumes "up w" and "intact p (view w) n" and "0 < n" and "dt_log t = \<lparr>tl_store = ops, tl_log_prefix = p\<rparr>"
  shows "\<exists>s w'. table_snapshot t (-1) w = (Inr s, w') \<and> up w'"
proof -
  obtain v w1 where lv: "latest_version \<lparr>tl_store = ops, tl_log_prefix = p\<rparr> w = (Inr v, w1)" and up: "up w1"
    using latest_version_up [OF assms(1)] by blast
  have v: "v = n - 1" using latest_of_upto [OF lv] assms(2) by (simp add: intact_def)
  have view: "view w1 = view w" using latest_version_view [OF lv] .
  have "\<exists>s w'. snapshot_loop \<lparr>tl_store = ops, tl_log_prefix = p\<rparr> v 0 (empty_snapshot v) w1 = (Inr s, w') \<and> up w'"
    by (rule snapshot_loop_up [OF up]) (use assms(2) v view in \<open>auto simp: intact_def\<close>)
  then show ?thesis using lv v assms(3,4) by (simp add: table_snapshot_def)
qed

text \<open>A checkpoint without validation is written.\<close>

lemma create_checkpoint_up:
  assumes "up w" and "intact p (view w) n" and "0 \<le> v" and "v < n" and m: "manager_of p m"
    and "\<not> cc_validation_enabled (cm_config m)"
  shows "\<exists>k' w'. create_checkpoint ord rt m v (k, w) = (Inr (), (k', w'))"
proof -
  have store: "cm_store m = ops" and log: "dt_log (cm_table m) = \<lparr>tl_store = ops, tl_log_prefix = p\<rparr>"
    using m by (auto simp: manager_of_def)
  obtain s w1 where snap: "table_snapshot (cm_table m) v w = (Inr s, w1)" and up1: "up w1"
    using snapshot_loop_up [OF assms(1), of 0 v p "empty_snapshot v"] assms(2-4) log
    by (auto simp: table_snapshot_def intact_def)
  obtain w2 where wr: "write_checkpoint_file ops (checkpoint_key (cm_log_prefix m) v) (build_checkpoint_actions ord s) w1 = (Inr (), w2)"
    and up2: "up w2"
    using upload_up [OF up1] unfolding write_checkpoint_file_def by blast
  let ?marker = "enc_last_checkpoint \<lparr>lc_version = v, lc_size = int (length (build_checkpoint_actions ord s))\<rparr>"
  obtain w3 where put: "st_put_json ops (cm_last_checkpoint_key m) ?marker w2 = (Inr (), w3)"
    using put_json_up [OF up2] by blast
  obtain y w4 where cln: "cleanup_old_checkpoints rt m v w3 = (y, w4)" by (metis surj_pair)
  have [simp]: "(if b then compact_small_files as else as) = as" for b as
    by (simp add: compact_small_files_def)
  show ?thesis
    using snap wr put cln assms(6)
    by (cases "rt_now rt w4") (simp add: create_checkpoint_def store Let_def io_bind_def io_snd_def io_wrap_def
        io_try_def io_now_def)
qed

lemma commit_op_up:
  assumes "up w" and "log_upto p (view w) n" and "n + 1 < 2 ^ 63"
    and t: "dt_log t = \<lparr>tl_store = ops, tl_log_prefix = p\<rparr>"
    and hook: "\<And>f w. hook = Some f \<Longrightarrow> up w \<Longrightarrow> up (snd (f n w))"
  shows "\<exists>w'. commit_op rt t hook actions operation w = (Inr n, w') \<and> up w'"
proof -
  obtain v w1 where lv: "latest_version \<lparr>tl_store = ops, tl_log_prefix = p\<rparr> w = (Inr v, w1)" and up1: "up w1"
    using latest_version_up [OF assms(1)] by blast
  have v: "v = n - 1" using latest_of_upto [OF lv assms(2)] .
  have "0 \<le> n" using assms(2) by (simp add: log_upto_def)
  then have n: "wrap64 (v + 1) = n" using v assms(3) by (simp add: in_int64_def)
  obtain now w2 where now: "io_now rt w1 = (Inr now, w2)" and up2: "up w2" using io_now_up [OF up1] by blast
  obtain w3 where wr: "write_version \<lparr>tl_store = ops, tl_log_prefix = p\<rparr> n
      (actions @ [new_commit_info_action now operation v True]) w2 = (Inr (), w3)" and up3: "up w3"
    using write_version_up [OF up2] by blast
  show ?thesis
  proof (cases hook)
    case None
    then show ?thesis using lv n now wr up3 t by (simp add: commit_op_def Let_def)
  next
    case (Some f)
    obtain z w4 where z: "f n w3 = (z, w4)" by (metis surj_pair)
    then show ?thesis using lv n now wr t Some hook [OF Some up3] by (simp add: commit_op_def Let_def)
  qed
qed

lemma table_commit_up:
  assumes "up w" and "closed cb" and "log_upto p (view w) n" and "n + 1 < 2 ^ 63"
    and "dt_log t = \<lparr>tl_store = ops, tl_log_prefix = p\<rparr>" and "dt_retry_policy t = Some P" and "1 \<le> rp_max_attempts P"
    and "\<And>f w. hook = Some f \<Longrightarrow> up w \<Longrightarrow> up (snd (f n w))"
  shows "\<exists>cb' w'. table_commit rt t hook actions operation (Some cb, w) = (Inr n, (Some cb', w')) \<and> closed cb' \<and> up w'"
proof -
  obtain w1 where op: "commit_op rt t hook actions operation w = (Inr n, w1)" and up: "up w1"
    using commit_op_up [of w p n t hook actions operation] assms(1,3-5,8) by blast
  obtain cb' where "closed cb'" "execute_with_retry_and_circuit_breaker rt P (commit_op rt t hook actions operation) (cb, w)
      = (Inr n, (cb', snd (rt_now rt w1)))"
    using retry_breaker_closed [of cb "commit_op rt t hook actions operation" w n w1 P rt] assms(2,7) op by blast
  then show ?thesis using assms(6) now_up [OF up] by (simp add: table_commit_def)
qed

lemma initialize_up:
  assumes "up w" and t: "dt_log t = \<lparr>tl_store = ops, tl_log_prefix = p\<rparr>"
  shows "\<exists>w'. table_initialize rt t schema_string w = (Inr (), w') \<and> up w'"
proof -
  obtain v w1 where lv: "latest_version \<lparr>tl_store = ops, tl_log_prefix = p\<rparr> w = (Inr v, w1)" and up1: "up w1"
    using latest_version_up [OF assms(1)] by blast
  obtain now1 w2 where now1: "io_now rt w1 = (Inr now1, w2)" and up2: "up w2" using io_now_up [OF up1] by blast
  obtain now2 w3 where now2: "io_now rt w2 = (Inr now2, w3)" and up3: "up w3" using io_now_up [OF up2] by blast
  obtain w4 where "write_version \<lparr>tl_store = ops, tl_log_prefix = p\<rparr> 0 (create_entry now1 now2 t schema_string) w3
     = (Inr (), w4)" and "up w4"
    using write_version_up [OF up3] by blast
  then show ?thesis using lv now1 now2 up1 t
    by (auto simp: table_initialize_def Let_def create_entry_def)
qed

end

text \<open>The same in a world with one more component.\<close>

lemma live_table_snd:
  assumes "live_table ops view up rt"
  shows "live_table (store_snd ops) (view \<circ> snd) (up \<circ> snd) (rt_snd rt)"
proof -
  note L = live_table.axioms(1) [OF assms]
  show ?thesis
  proof (intro live_table.intro live_store.intro live_store_axioms.intro live_table_axioms.intro)
    show "s3_store (store_snd ops) (view \<circ> snd)" by (rule store_snd_contract [OF live_store.axioms(1) [OF L]])
    show "table_env (store_snd ops) (view \<circ> snd) (rt_snd rt)"
      by (rule table_env_snd [OF live_table.axioms(2) [OF assms]])
  next
    fix s :: "'c \<times> 'a" and k d t assume "(up \<circ> snd) s"
    then show "\<exists>s'. st_upload (store_snd ops) k d t s = (Inr (), s') \<and> (up \<circ> snd) s'"
      using live_store.upload_up [OF L, of "snd s" k d t] by (cases s) (auto simp: store_snd_def io_snd_def)
  next
    fix s :: "'c \<times> 'a" and k d assume "(up \<circ> snd) s" and "(view \<circ> snd) s k = Some d"
    then show "\<exists>s'. st_download (store_snd ops) k s = (Inr d, s') \<and> (up \<circ> snd) s'"
      using live_store.download_up [OF L, of "snd s" k d] by (cases s) (auto simp: store_snd_def io_snd_def)
  next
    fix s :: "'c \<times> 'a" and k v assume "(up \<circ> snd) s"
    then show "\<exists>s'. st_put_json (store_snd ops) k v s = (Inr (), s') \<and> (up \<circ> snd) s'"
      using live_store.put_json_up [OF L, of "snd s" k v] by (cases s) (auto simp: store_snd_def io_snd_def)
  next
    fix s :: "'c \<times> 'a" and p assume "(up \<circ> snd) s"
    then show "\<exists>ks s'. st_list (store_snd ops) p s = (Inr ks, s') \<and> (up \<circ> snd) s'"
      using live_store.list_up [OF L, of "snd s" p] by (cases s) (auto simp: store_snd_def io_snd_def)
  next
    fix s :: "'c \<times> 'a" assume "(up \<circ> snd) s"
    then show "(up \<circ> snd) (snd (rt_now (rt_snd rt) s))"
      using live_table.now_up [OF assms, of "snd s"] by (cases s) (auto simp: lift_snd_def split: prod.splits)
  qed
qed

section \<open>The S3 client of a bucket that answers\<close>

locale live_bucket = lake_env +
  fixes bup :: "'a \<Rightarrow> bool"
  assumes put_up: "bup w \<Longrightarrow> \<exists>w'. aws_put aws bucket k d t w = (Inr (), w') \<and> bup w'"
    and get_up: "bup w \<Longrightarrow> bkt w k = Some d \<Longrightarrow> \<exists>w'. aws_get aws bucket k w = (Inr (Inr d), w') \<and> bup w'"
    and pages_up: "bup w \<Longrightarrow> \<exists>pages w'. aws_list aws bucket p w = (map Inr pages, w') \<and> bup w'"
    and rt_now_up: "bup w \<Longrightarrow> bup (snd (rt_now rt w))"
    and upload_attempts: "\<And>P. sc_upload_policy c = Some P \<Longrightarrow> 1 \<le> rp_max_attempts P"
    and download_attempts: "\<And>P. sc_download_policy c = Some P \<Longrightarrow> 1 \<le> rp_max_attempts P"
begin

definition client_up :: "breaker \<times> 'a \<Rightarrow> bool" where
  "client_up = (\<lambda>(cb, w). closed cb \<and> bup w)"

lemma run_with_policy_up:
  assumes "client_up (cb, w)" and "operation w = (Inr a, w1)" and "bup w1"
    and "\<And>P. policy = Some P \<Longrightarrow> 1 \<le> rp_max_attempts P"
  shows "\<exists>s'. run_with_policy rt policy operation (cb, w) = (Inr a, s') \<and> client_up s'"
proof (cases policy)
  case None
  then show ?thesis using assms by (simp add: run_with_policy_def client_up_def io_snd_def)
next
  case (Some P)
  have "closed cb" using assms(1) by (simp add: client_up_def)
  from retry_breaker_closed [of cb operation w a w1 P rt, OF this assms(2) assms(4) [OF Some]]
  show ?thesis using Some rt_now_up [OF assms(3)] by (auto simp: run_with_policy_def client_up_def)
qed

lemma collect_pages_up: "collect_pages what (map Inr pages) = Inr (concat pages)"
  by (induction pages) simp_all

end

sublocale live_bucket \<subseteq> live: live_table "s3_ops rt c" "client_view c bkt" client_up "rt_snd rt"
proof unfold_locales
  fix s k v assume up: "client_up s"
  obtain cb w where s: "s = (cb, w)" by (cases s)
  then obtain w1 where "aws_put aws bucket (full_key c k) (json_indent v) ''application/json'' w = (Inr (), w1)" and "bup w1"
    using up put_up [of w "full_key c k" "json_indent v"] by (auto simp: client_up_def)
  then show "\<exists>s'. st_put_json (s3_ops rt c) k v s = (Inr (), s') \<and> client_up s'"
    using run_with_policy_up [OF up [unfolded s], of _ "()" w1 "sc_upload_policy c"] upload_attempts
    by (simp add: s3_ops_def s3_put_json_def s3_upload_def client_aws client_bucket s)
next
  fix s k d t assume up: "client_up s"
  obtain cb w where s: "s = (cb, w)" by (cases s)
  then obtain w1 where "aws_put aws bucket (full_key c k) d t w = (Inr (), w1)" and "bup w1"
    using up put_up [of w "full_key c k" d t] by (auto simp: client_up_def)
  then show "\<exists>s'. st_upload (s3_ops rt c) k d t s = (Inr (), s') \<and> client_up s'"
    using run_with_policy_up [OF up [unfolded s], of _ "()" w1 "sc_upload_policy c"] upload_attempts
    by (simp add: s3_ops_def s3_upload_def client_aws client_bucket s)
next
  fix s k d assume up: "client_up s" and d: "client_view c bkt s k = Some d"
  obtain cb w where s: "s = (cb, w)" by (cases s)
  then obtain w1 where "aws_get aws bucket (full_key c k) w = (Inr (Inr d), w1)" and "bup w1"
    using up d get_up [of w "full_key c k" d] by (auto simp: client_up_def)
  then show "\<exists>s'. st_download (s3_ops rt c) k s = (Inr d, s') \<and> client_up s'"
    using run_with_policy_up [OF up [unfolded s], of _ d w1 "sc_download_policy c"] download_attempts
    by (simp add: s3_ops_def s3_download_def client_aws client_bucket s)
next
  fix s p assume up: "client_up s"
  obtain cb w where s: "s = (cb, w)" by (cases s)
  then obtain pages w1 where "aws_list aws bucket (full_key c p) w = (map Inr pages, w1)" and "bup w1"
    using up pages_up [of w "full_key c p"] by (auto simp: client_up_def)
  then show "\<exists>ks s'. st_list (s3_ops rt c) p s = (Inr ks, s') \<and> client_up s'"
    using up by (simp add: s3_ops_def s3_list_def client_aws client_bucket s collect_pages_up client_up_def)
next
  fix s assume "client_up s"
  then show "client_up (snd (rt_now (rt_snd rt) s))"
    using rt_now_up [of "snd s"] by (cases s) (auto simp: client_up_def lift_snd_def split: prod.splits)
qed

context live_bucket
begin

lemma live_table_up: "live_table (s3_ops rt c) (client_view c bkt) client_up (rt_snd rt)"
  by (rule live.live_table_axioms)

end

definition no_faults :: "mem_world \<Rightarrow> bool" where
  "no_faults w \<longleftrightarrow> mw_faults w = []"

interpretation lake_up: live_bucket mem_aws "''lake''" mem_view mem_rt lake_client no_faults
proof unfold_locales
  fix w p assume "no_faults w"
  then have "aws_list mem_aws ''lake'' p w = (map Inr [map (\<lambda>(k, d). mem_object k d)
      (filter (\<lambda>(k, d). has_prefix k p) (AList.clearjunk (mw_objects w)))], w)"
    by (simp add: mem_aws_def mem_read_def next_fault_def no_faults_def)
  with \<open>no_faults w\<close> show "\<exists>pages w'. aws_list mem_aws ''lake'' p w = (map Inr pages, w') \<and> no_faults w'" by blast
qed (auto simp: mem_aws_def mem_effect_def mem_read_def next_fault_def no_faults_def mem_view_def mem_rt_def
  lake_client_def new_s3_client_def s3_policy_def)

end
