(* ===== verification/EngineLive.thy ===== *)
theory EngineLive
  imports EngineStore Live
begin

text \<open>
  A sync over a store whose calls succeed: it returns, commits the next version, and the state records the
  number of records the source streamed. The lake's engine, over the bucket in memory, is the instance of both
  contracts.
\<close>

text \<open>What the engine's collaborators do when nothing fails; \<open>uuid\<close> and the source keep the store up.\<close>

locale live_engine = live_table ops view up rt + engine_env ops view rt en
  for ops :: "'w store_ops" and view up and rt :: "'w runtime" and en :: "'w engine" +
  assumes uuid_up: "up w \<Longrightarrow> up (snd (en_uuid en w))"
    and full_up: "up w \<Longrightarrow> up (snd (co_full (en_connector en) ob w))"
    and incremental_up: "up w \<Longrightarrow> up (snd (co_incremental (en_connector en) ob f t w))"
begin

lemma now_step_up: "up w \<Longrightarrow> \<exists>t w'. rt_now rt w = (t, w') \<and> up w'"
  using now_up by (metis surj_pair snd_conv)

text \<open>A batch the engine can write: the library takes its records.\<close>

definition writable :: "object_plan \<Rightarrow> record_batch \<Rightarrow> bool" where
  "writable p b \<longleftrightarrow>
     (\<exists>sch data. op_schema p = Some sch \<and> pq_write (en_parquet en) (to_parquet_schema sch) (rb_records b) = None
        \<and> pq_close (en_parquet en) (to_parquet_schema sch) (rb_records b) = Inr data)"

definition lenient :: bool where
  "lenient \<longleftrightarrow> en_validator en = None \<or> (case en_validation en of None \<Rightarrow> True | Some v \<Rightarrow> \<not> vs_strict_mode v)"

lemma write_records_up:
  assumes "up w" and "writable p b" and "rb_records b \<noteq> []"
  shows "\<exists>f w'. write_records ops (en_uuid en) (en_parquet en) (en_source en) (op_object p) (op_schema p) (rb_records b) w
      = (Some (Inr (Some f)), w') \<and> wf_rows f = int (length (rb_records b)) \<and> up w'"
proof -
  obtain sch data where s: "op_schema p = Some sch" "pq_write (en_parquet en) (to_parquet_schema sch) (rb_records b) = None"
      "pq_close (en_parquet en) (to_parquet_schema sch) (rb_records b) = Inr data"
    using assms(2) by (auto simp: writable_def)
  obtain u w1 where u: "en_uuid en w = (u, w1)" by (metis surj_pair)
  have "up w1" using uuid_up [OF assms(1)] u by simp
  from upload_up [OF this] obtain w2 where
    "st_upload ops (parquet_file (en_source en) (op_object p) (parquet_filename u)) data ''application/octet-stream'' w1 = (Inr (), w2)"
    and "up w2" by blast
  then show ?thesis using s u assms(3) by (simp add: write_records_def Let_def)
qed

lemma batch_records_up: "batch_records rt pl ord va sch n i rs w = (xs, w') \<Longrightarrow> up w \<Longrightarrow> up w'"
proof (induction rs arbitrary: i w xs w')
  case (Cons r rs)
  obtain t w1 where "rt_now rt w = (t, w1)" and "up w1" using now_step_up [OF Cons.prems(2)] by blast
  with Cons show ?case by (auto split: if_splits prod.splits)
qed simp

lemma validate_batch_up:
  assumes "up w" and "rb_records b \<noteq> []" and "sch \<noteq> None"
  shows "\<exists>res dd' w'. validate_batch rt pl ord ordm ords va b sch (dd, w) = (Some res, dd', w') \<and> up w'"
proof -
  obtain s where s: "sch = Some s" using assms(3) by blast
  obtain t1 w1 where t1: "rt_now rt w = (t1, w1)" "up w1" using now_step_up [OF assms(1)] by blast
  obtain xs w2 where xs: "batch_records rt pl ord va (Some s) (length (rb_records b)) 0 (rb_records b) w1 = (xs, w2)"
    by (metis surj_pair)
  obtain t2 w3 where t2: "rt_now rt w2 = (t2, w3)" "up w3" using now_step_up [OF batch_records_up [OF xs t1(2)]] by blast
  obtain t3 w4 where t3: "rt_now rt w3 = (t3, w4)" "up w4" using now_step_up [OF t2(2)] by blast
  show ?thesis using s assms(2) t1 xs t2 t3 by (cases dd) (auto simp: validate_batch_def Let_def)
qed

lemma validate_step_up:
  assumes "up w" and "lenient" and "rb_records b \<noteq> []" and "op_schema p \<noteq> None"
  shows "\<exists>results' rn' w'. validate_step rt en p b results (rn, w) = (Some (Inr results'), (rn', w')) \<and> up w'
    \<and> rn_state rn' = rn_state rn"
proof (cases "en_validator en")
  case None
  then show ?thesis using assms(1) by (simp add: validate_step_def)
next
  case (Some va)
  obtain res dd' w' where run: "validate_batch rt (en_platform en) (od_range (en_orders en)) (od_rate (en_orders en))
        (od_stats (en_orders en)) va b (op_schema p) (rn_detector rn, w) = (Some res, dd', w')" and up': "up w'"
    using validate_batch_up [OF assms(1,3,4)] by blast
  have "\<not> (case en_validation en of None \<Rightarrow> False | Some v \<Rightarrow> vs_strict_mode v)"
    using assms(2) Some by (cases "en_validation en") (simp_all add: lenient_def)
  then show ?thesis unfolding validate_step_def using Some run up' by simp
qed

lemma process_batches_up:
  "up w \<Longrightarrow> lenient \<Longrightarrow> op_schema p \<noteq> None \<Longrightarrow> \<forall>b \<in> set bs. rb_records b \<noteq> [] \<longrightarrow> writable p b \<Longrightarrow>
   \<exists>actions' results' rn' w'. process_batches rt en p bs (actions, rows, results) (rn, w)
       = (Some (Inr (actions', rows + int (length (concat (map rb_records bs))), results')), (rn', w'))
     \<and> (actions' = [] \<longleftrightarrow> actions = [] \<and> concat (map rb_records bs) = []) \<and> up w' \<and> rn_state rn' = rn_state rn"
proof (induction bs arbitrary: actions rows results rn w)
  case Nil
  then show ?case by (simp add: pio_ret_def)
next
  case (Cons b bs)
  show ?case
  proof (cases "rb_records b = []")
    case True
    then show ?thesis using Cons.IH [of w actions rows results rn] Cons.prems
      by (simp add: pio_bind_def process_batch_def pio_ret_def)
  next
    case False
    obtain res rn1 w1 where v: "validate_step rt en p b results (rn, w) = (Some (Inr res), (rn1, w1))" "up w1"
      "rn_state rn1 = rn_state rn" using validate_step_up [OF Cons.prems(1,2) False Cons.prems(3)] by blast
    obtain f w2 where wr: "write_records ops (en_uuid en) (en_parquet en) (en_source en) (op_object p) (op_schema p) (rb_records b) w1
        = (Some (Inr (Some f)), w2)" "wf_rows f = int (length (rb_records b))" "up w2"
      using write_records_up [OF v(2) bspec [OF Cons.prems(4) list.set_intros(1), rule_format, OF False] False] by blast
    obtain now w3 where now: "rt_now rt w2 = (now, w3)" "up w3" using now_step_up [OF wr(3)] by blast
    let ?act = "actions @ [new_add_action now (wf_filename f) (wf_size f) (stats_text (wf_rows f))]"
    have step: "process_batch rt en p b (actions, rows, results) (rn, w)
        = (Some (Inr (?act, rows + int (length (rb_records b)), res)), (rn1, w3))"
      using False v(1) wr now by (simp add: process_batch_def pio_bind_def pio_wrap_def pio_snd_def)
    from Cons.IH [of w3 ?act "rows + int (length (rb_records b))" res rn1] now(2) Cons.prems v(3)
    obtain actions' results' rn' w' where
      "process_batches rt en p bs (?act, rows + int (length (rb_records b)), res) (rn1, w3)
        = (Some (Inr (actions', rows + int (length (rb_records b)) + int (length (concat (map rb_records bs))), results')), (rn', w'))"
      and "actions' \<noteq> []" and "up w'" and "rn_state rn' = rn_state rn" by auto
    with step False show ?thesis by (simp add: pio_bind_def)
  qed
qed

lemma init_table_up:
  assumes "up w"
  shows "\<exists>w'. init_table rt en p w = (Inr (), w') \<and> up w'"
proof (cases "op_schema p")
  case (Some sch)
  obtain w' where "table_initialize rt (object_table en (op_object p)) (to_delta_schema_string sch) w = (Inr (), w')" and "up w'"
    using initialize_up [OF assms object_table_log(1)] by blast
  with Some show ?thesis by (simp add: init_table_def io_wrap_def)
qed (simp add: init_table_def assms)

lemma commit_actions_up:
  assumes "up w" and "log_upto (log_prefix p) (view w) n" and "n + 1 < 2 ^ 63"
  shows "\<exists>w'. commit_actions rt en p actions w = (Inr n, w') \<and> up w'"
proof -
  have "closed delta_breaker" by (simp add: closed_def delta_breaker_def new_circuit_breaker_def)
  then obtain cb' w' where "table_commit rt (object_table en (op_object p)) None actions
      (if op_mode p = SyncModeFull then ''WRITE (full sync)'' else ''WRITE'') (Some delta_breaker, w) = (Inr n, (Some cb', w'))"
    and "up w'" using table_commit_up [OF assms(1) _ assms(2,3) object_table_log, of delta_breaker None]
    by (fastforce simp del: split_paired_Ex split del: if_split)
  then show ?thesis by (simp add: commit_actions_def)
qed

text \<open>
  The whole sync. \<open>records\<close> is everything the source streams, in order; the rest of the hypotheses say that
  nothing stands in the way.
\<close>

lemma sync_object_up:
  assumes up: "up w" and upto: "log_upto (log_prefix p) (view w) n" and bound: "n + 2 < 2 ^ 63"
    and plan: "op_mode p \<noteq> SyncModeSkip" "op_schema p \<noteq> None" and objs: "ss_objects (rn_state rn) \<noteq> None" and lenient: "lenient"
    and stream: "\<And>w. \<exists>w'. extract_records en p (rn, w) = (Some (Inr (bs, None)), (rn, w'))"
    and taken: "\<forall>b \<in> set bs. rb_records b \<noteq> [] \<longrightarrow> writable p b" and some: "concat (map rb_records bs) \<noteq> []"
  shows "\<exists>results rn' w' os. sync_object rt en p (rn, w) = (Some (Inr results), (rn', w'))
    \<and> lookup_state (rn_state rn') (op_object p) = Some os \<and> os_delta_version os = max n 1
    \<and> os_total_records os = int (length (concat (map rb_records bs)))"
proof -
  obtain w1 where i: "init_table rt en p w = (Inr (), w1)" and up1: "up w1" using init_table_up [OF up] by blast
  have upto1: "log_upto (log_prefix p) (view w1) (max n 1)"
  proof -
    obtain sch where "op_schema p = Some sch" using plan(2) by blast
    then have "table_initialize rt (object_table en (op_object p)) (to_delta_schema_string sch) w = (Inr (), w1)"
      using i by (auto simp: init_table_def elim: io_wrap_InrE)
    from table_initialize_upto [OF this object_table_log(1) upto] show ?thesis .
  qed
  obtain w2 where x: "extract_records en p (rn, w1) = (Some (Inr (bs, None)), (rn, w2))" using stream by blast
  have up2: "up w2"
    using x up1 full_up [of w1 "op_object p"] incremental_up [of w1 "op_object p" "op_watermark_field p"]
    by (auto simp: extract_records_def split: sync_mode.splits prod.splits) (metis snd_conv)+
  have upto2: "log_upto (log_prefix p) (view w2) (max n 1)" using upto1 extract_records_view [OF x] by simp
  obtain actions results rn3 w3 where pb: "process_batches rt en p bs ([], 0, []) (rn, w2)
      = (Some (Inr (actions, int (length (concat (map rb_records bs))), results)), (rn3, w3))"
    and ne: "actions \<noteq> []" and up3: "up w3" and st: "rn_state rn3 = rn_state rn"
    using process_batches_up [OF up2 lenient plan(2) taken, of "[]" 0 "[]" rn] some by auto
  have upto3: "log_upto (log_prefix p) (view w3) (max n 1)"
    using log_same_upto [OF _ upto2] process_batches_adds [OF pb] by (auto simp: only_adds_def)
  obtain w4 where c: "commit_actions rt en p actions w3 = (Inr (max n 1), w4)"
    using commit_actions_up [OF up3 upto3] bound upto by (auto simp: log_upto_def)
  obtain now1 w5 now2 w6 where now: "rt_now rt w4 = (now1, w5)" "rt_now rt w5 = (now2, w6)" by (metis surj_pair)
  obtain m where m: "ss_objects (rn_state rn) = Some m" using objs by blast
  let ?os = "object_state_of p now1 now2 (max n 1) (int (length (concat (map rb_records bs))))"
  let ?rn = "rn3\<lparr>rn_state := (rn_state rn3)\<lparr>ss_objects := Some (AList.update (op_object p) ?os m)\<rparr>\<rparr>"
  obtain y w7 where sv: "save_new_schema en p w6 = (y, w7)" by (metis surj_pair)
  have y: "y = Inr ()" using save_new_schema_ok [of en p w6] sv by simp
  have "\<exists>w'. commit_object rt en p actions (int (length (concat (map rb_records bs)))) (rn3, w3) = (Some (Inr ()), (?rn, w'))"
    using ne c now m st sv y
    by (simp add: commit_object_def pio_bind_def pio_of_def io_snd_def io_wrap_def record_object_def io_try_ignored)
  then obtain w' where co: "commit_object rt en p actions (int (length (concat (map rb_records bs)))) (rn3, w3) = (Some (Inr ()), (?rn, w'))" ..
  have "sync_object rt en p (rn, w) = (Some (Inr results), (?rn, w'))"
    using i x pb co by (simp add: sync_object_def pio_bind_def pio_of_def io_snd_def pio_ret_def)
  moreover have "lookup_state (rn_state ?rn) (op_object p) = Some ?os"
    by (simp add: lookup_state_def slice_of_def update_conv' del: map_of_eq_Some_iff)
  moreover have "os_delta_version ?os = max n 1" "os_total_records ?os = int (length (concat (map rb_records bs)))"
    by (simp_all add: object_state_of_def Let_def split: option.splits)
  ultimately show ?thesis by blast
qed

end

lemma live_engineI:
  assumes "live_table ops view up rt" and "en_store en = ops" and "source_steps (\<lambda>w w'. view w' = view w) en" and "plain_ids en"
    and "source_steps (\<lambda>w w'. up w \<longrightarrow> up w') en"
  shows "live_engine ops view up rt en"
proof (rule live_engine.intro [OF assms(1) engine_envI [OF live_table.axioms(2) [OF assms(1)] assms(2-4)]], rule live_engine_axioms.intro)
  show "up (snd (en_uuid en w))" if "up w" for w
    using source_stepsD(1) [OF assms(5) prod.collapse [symmetric]] that by blast
  show "up (snd (co_full (en_connector en) ob w))" if "up w" for ob w
    using source_stepsD(2) [OF assms(5) prod.collapse [symmetric]] that by blast
  show "up (snd (co_incremental (en_connector en) ob f t w))" if "up w" for ob f t w
    using source_stepsD(3) [OF assms(5) prod.collapse [symmetric]] that by blast
qed

section \<open>The lake's engine\<close>

text \<open>
  A source that streams a fixed list of batches for each object, identifiers that number the objects of the
  bucket, and a library that writes the number of records: the engine of the lake.
\<close>

definition stream_connector :: "object_metadata list \<Rightarrow> (string \<Rightarrow> record_batch list) \<Rightarrow> 'w connector" where
  "stream_connector obs batches =
     \<lparr>co_connect = io_ret (), co_close = id, co_discover = io_ret (Some obs),
      co_describe = (\<lambda>ob. case find (\<lambda>m. om_name m = ob) obs of None \<Rightarrow> io_fail (Msg ''no such object'') | Some m \<Rightarrow> io_ret m),
      co_full = (\<lambda>ob w. ((batches ob, None), w)), co_incremental = (\<lambda>ob f t w. ((batches ob, None), w))\<rparr>"

definition count_uuid :: "breaker \<times> mem_world \<Rightarrow> string \<times> breaker \<times> mem_world" where
  "count_uuid s = (dec (int (length (mw_objects (snd s)))), s)"

definition count_parquet :: parquet_lib where
  "count_parquet = \<lparr>pq_write = (\<lambda>sch rs. None), pq_close = (\<lambda>sch rs. Inr (dec (int (length rs))))\<rparr>"

definition lake_engine ::
  "string \<Rightarrow> object_metadata list \<Rightarrow> (string \<Rightarrow> record_batch list) \<Rightarrow> string list \<Rightarrow> consistency_section option
   \<Rightarrow> validation_section option \<Rightarrow> error_handling_section option \<Rightarrow> platform \<Rightarrow> (gval \<Rightarrow> json option) \<Rightarrow> orders
   \<Rightarrow> (object_plan list \<Rightarrow> object_plan list) \<Rightarrow> (breaker \<times> mem_world) engine" where
  "lake_engine source obs batches allowed c v h =
     new_engine (stream_connector obs batches) (s3_ops mem_rt lake_client) (s3_delete lake_client) source allowed c v h
       count_uuid count_parquet"

lemma lake_engine_fields:
  "en_store (lake_engine source obs batches allowed c v h pl aj od sched) = s3_ops mem_rt lake_client"
  "en_uuid (lake_engine source obs batches allowed c v h pl aj od sched) = count_uuid"
  "en_connector (lake_engine source obs batches allowed c v h pl aj od sched) = stream_connector obs batches"
  "en_source (lake_engine source obs batches allowed c v h pl aj od sched) = source"
  "en_parquet (lake_engine source obs batches allowed c v h pl aj od sched) = count_parquet"
  by (simp_all add: lake_engine_def new_engine_def)

lemma no_slash_dec: "CHR ''/'' \<notin> set (dec (int n))"
  using dec_nat_digits [of n] is_digit_not_special by (fastforce simp: list_all_iff dec_def)

interpretation lake_sync: live_engine "s3_ops mem_rt lake_client" "client_view lake_client mem_view" lake_up.client_up
  "rt_snd mem_rt" "lake_engine source obs batches allowed c v h pl aj od sched"
  by unfold_locales
    (auto simp: lake_engine_fields stream_connector_def count_uuid_def no_slash_dec)

end
