(* ===== verification/Demo.thy ===== *)
theory Demo
  imports Live
begin

text \<open>
  A small lake, run: an empty bucket, a table \<open>crm/Account\<close> that is initialised, a commit of one
  file with the checkpoint manager's hook, and the snapshots before and after. Every call is
  answered, so each run returns (Live.thy); the properties are applied to these runs.
\<close>

definition demo_start :: "breaker \<times> mem_world" where
  "demo_start = (s3_breaker,
     \<lparr>mw_objects = [], mw_now = 5000000, mw_faults = []\<rparr>)"

definition demo_prefix :: string where
  "demo_prefix = delta_log_prefix ''crm'' ''Account''"

definition demo_rt :: "(checkpoint_counters \<times> breaker \<times> mem_world) runtime" where
  "demo_rt = rt_snd (rt_snd mem_rt)"

definition demo_table :: "(checkpoint_counters \<times> breaker \<times> mem_world) delta_table" where
  "demo_table = new_delta_table (store_snd (s3_ops mem_rt lake_client)) ''crm'' ''Account'' demo_prefix"

definition demo_config :: checkpoint_config where
  "demo_config = \<lparr>cc_frequency = 10, cc_retention_days = 0, cc_max_checkpoints = 0, cc_validation_enabled = False,
     cc_compaction_enabled = False, cc_size_threshold_mb = 0, cc_adaptive_mode = False, cc_creation_timeout = 0\<rparr>"

definition demo_manager :: "(breaker \<times> mem_world) checkpoint_manager" where
  "demo_manager = table_checkpoint_manager (s3_ops mem_rt lake_client) ''crm'' ''Account'' demo_prefix demo_config"

definition demo_actions :: "action list" where
  "demo_actions = [new_add_action 7000000 ''a.parquet'' 10 []]"

definition demo_init :: "(go_error + unit) \<times> (checkpoint_counters \<times> breaker \<times> mem_world)" where
  "demo_init = table_initialize demo_rt demo_table ''{}'' (no_checkpoints, demo_start)"

definition demo_before :: "(go_error + snapshot) \<times> (checkpoint_counters \<times> breaker \<times> mem_world)" where
  "demo_before = table_snapshot demo_table (-1) (snd demo_init)"

definition demo_commit :: "(go_error + int) \<times> (breaker option \<times> checkpoint_counters \<times> breaker \<times> mem_world)" where
  "demo_commit =
     table_commit demo_rt demo_table (Some (maybe_checkpoint rev (rt_snd mem_rt) demo_manager)) demo_actions ''WRITE''
       (Some delta_breaker, snd demo_before)"

definition demo_after :: "(go_error + snapshot) \<times> (checkpoint_counters \<times> breaker \<times> mem_world)" where
  "demo_after = table_snapshot demo_table (-1) (snd (snd demo_commit))"

section \<open>Each run returns\<close>

lemma demo_log:
  "dt_log demo_table = \<lparr>tl_store = store_snd (s3_ops mem_rt lake_client), tl_log_prefix = demo_prefix\<rparr>"
  by (simp add: demo_table_def)

lemma demo_live:
  "live_table (store_snd (s3_ops mem_rt lake_client)) (client_view lake_client mem_view \<circ> snd)
     (lake_up.client_up \<circ> snd) demo_rt"
  unfolding demo_rt_def by (rule live_table_snd [OF lake_up.live.live_table_axioms])

lemma demo_env:
  "table_env (store_snd (s3_ops mem_rt lake_client)) (client_view lake_client mem_view \<circ> snd) demo_rt"
  by (rule live_table.axioms(2) [OF demo_live])

lemma demo_start_up: "(lake_up.client_up \<circ> snd) (no_checkpoints, demo_start)"
  by (simp add: demo_start_def lake_up.client_up_def closed_def s3_breaker_def new_circuit_breaker_def no_faults_def)

lemma demo_start_intact: "intact demo_prefix ((client_view lake_client mem_view \<circ> snd) (no_checkpoints, demo_start)) 0"
  by (rule intact_empty)
     (auto simp: log_upto_def log_clean_def log_versions_def demo_start_def mem_view_def demo_prefix_def)

lemma demo_wf_table: "wf_table demo_table ''{}''"
  by (simp add: wf_table_def demo_table_def new_delta_table_def valid_utf8_ascii)

lemma demo_wf_commit [simp]: "wf_commit demo_actions ''WRITE''"
  by (simp add: wf_commit_def demo_actions_def new_add_action_def zero_action_def wf_action_def wf_add_def
      wf_map_def text_map_def text_omit_map_def unix_milli_def in_int64_def)

lemma demo_init_run:
  obtains "demo_init = (Inr (), snd demo_init)" and "(lake_up.client_up \<circ> snd) (snd demo_init)"
    and "intact demo_prefix ((client_view lake_client mem_view \<circ> snd) (snd demo_init)) 1"
proof -
  obtain w' where w': "table_initialize demo_rt demo_table ''{}'' (no_checkpoints, demo_start) = (Inr (), w')"
    and up: "(lake_up.client_up \<circ> snd) w'"
    using live_table.initialize_up [OF demo_live demo_start_up demo_log] by blast
  have "intact demo_prefix ((client_view lake_client mem_view \<circ> snd) w') (max 0 1)"
    by (rule table_env.initialize_intact [OF demo_env w' demo_log demo_wf_table demo_start_intact])
  with w' up that show thesis by (simp add: demo_init_def)
qed

lemma demo_before_run:
  obtains s where "demo_before = (Inr s, snd demo_before)" and "(lake_up.client_up \<circ> snd) (snd demo_before)"
    and "intact demo_prefix ((client_view lake_client mem_view \<circ> snd) (snd demo_before)) 1"
proof -
  obtain s w' where w': "table_snapshot demo_table (-1) (snd demo_init) = (Inr s, w')"
    and up: "(lake_up.client_up \<circ> snd) w'"
    using live_table.snapshot_up [OF demo_live _ _ _ demo_log] demo_init_run zero_less_one by metis
  have "(client_view lake_client mem_view \<circ> snd) w' = (client_view lake_client mem_view \<circ> snd) (snd demo_init)"
    by (rule table_env.table_snapshot_view [OF demo_env demo_log w'])
  with w' up that show thesis by (metis demo_before_def demo_init_run snd_conv)
qed

lemma demo_hook_idle: "maybe_checkpoint ord rt demo_manager 1 s = (Inr (), s)"
  by (cases s) (simp add: maybe_checkpoint_def demo_manager_def table_checkpoint_manager_def new_checkpoint_manager_def
      checkpoint_defaults_def demo_config_def should_create_checkpoint_def io_bind_def io_snd_def io_wrap_def)

lemma demo_hook_ok:
  "table_env.hook_ok (client_view lake_client mem_view \<circ> snd) demo_prefix
     (Some (maybe_checkpoint rev (rt_snd mem_rt) demo_manager))"
  unfolding demo_manager_def
  by (rule table_env.checkpoint_hook_ok [OF lake.table_contract], rule table_env.manager_of_table [OF lake.table_contract])
     (simp add: demo_prefix_def)

lemma demo_commit_run:
  obtains cb where "demo_commit = (Inr 1, (cb, snd (snd demo_commit)))"
    and "(lake_up.client_up \<circ> snd) (snd (snd demo_commit))"
    and "intact demo_prefix ((client_view lake_client mem_view \<circ> snd) (snd (snd demo_commit))) 2"
proof -
  obtain s where b: "(lake_up.client_up \<circ> snd) (snd demo_before)"
      "intact demo_prefix ((client_view lake_client mem_view \<circ> snd) (snd demo_before)) 1"
    by (rule demo_before_run)
  then have upto: "log_upto demo_prefix ((client_view lake_client mem_view \<circ> snd) (snd demo_before)) 1"
    by (simp add: intact_def)
  have P: "dt_retry_policy demo_table = Some delta_retry_policy" "1 \<le> rp_max_attempts delta_retry_policy"
    by (simp_all add: demo_table_def)
  have c: "closed delta_breaker" by (simp add: closed_def delta_breaker_def new_circuit_breaker_def)
  have hook: "(lake_up.client_up \<circ> snd) (snd (f 1 w))"
    if "Some (maybe_checkpoint rev (rt_snd mem_rt) demo_manager) = Some f" and "(lake_up.client_up \<circ> snd) w" for f w
    using that by (auto simp: demo_hook_idle)
  have "\<exists>cb' w'. table_commit demo_rt demo_table (Some (maybe_checkpoint rev (rt_snd mem_rt) demo_manager))
        demo_actions ''WRITE'' (Some delta_breaker, snd demo_before) = (Inr 1, (Some cb', w'))
      \<and> closed cb' \<and> (lake_up.client_up \<circ> snd) w'"
    by (rule live_table.table_commit_up [OF demo_live b(1) c upto _ demo_log P]) (simp, erule (1) hook)
  then obtain cb' w' where run: "table_commit demo_rt demo_table (Some (maybe_checkpoint rev (rt_snd mem_rt) demo_manager))
        demo_actions ''WRITE'' (Some delta_breaker, snd demo_before) = (Inr 1, (Some cb', w'))"
    and up: "(lake_up.client_up \<circ> snd) w'" by blast
  obtain k where "1 = 1 + int k" and
    "appended demo_prefix demo_actions ''WRITE'' (Suc k) ((client_view lake_client mem_view \<circ> snd) (snd demo_before)) 1
       ((client_view lake_client mem_view \<circ> snd) w')"
    using table_env.table_commit_ok [OF demo_env run demo_log P(1) demo_hook_ok
        table_env.delta_policy_ok [OF demo_env] upto] by auto
  then have "intact demo_prefix ((client_view lake_client mem_view \<circ> snd) w') 2"
    using intact_appended [OF _ b(2) _ demo_wf_commit] by fastforce
  with run up that show thesis by (simp add: demo_commit_def)
qed

lemma demo_after_run:
  obtains s where "demo_after = (Inr s, snd demo_after)"
proof -
  obtain cb where "(lake_up.client_up \<circ> snd) (snd (snd demo_commit))"
    "intact demo_prefix ((client_view lake_client mem_view \<circ> snd) (snd (snd demo_commit))) 2" by (rule demo_commit_run)
  from live_table.snapshot_up [OF demo_live this _ demo_log] that show thesis
    by (auto simp: demo_after_def)
qed

section \<open>The same table in the client's own world\<close>

definition demo_lake_table :: "(breaker \<times> mem_world) delta_table" where
  "demo_lake_table = new_delta_table (s3_ops mem_rt lake_client) ''crm'' ''Account'' demo_prefix"

definition demo_one_version :: "breaker \<times> mem_world" where
  "demo_one_version = snd (snd demo_init)"

lemma demo_one_version_intact:
  "lake_up.client_up demo_one_version" "intact demo_prefix (client_view lake_client mem_view demo_one_version) 1"
  using demo_init_run by (auto simp: demo_one_version_def)

lemma demo_one_version_run:
  obtains s w' where "table_snapshot demo_lake_table 0 demo_one_version = (Inr s, w')"
proof -
  have "\<exists>s w'. snapshot_loop \<lparr>tl_store = s3_ops mem_rt lake_client, tl_log_prefix = demo_prefix\<rparr> 0 0 (empty_snapshot 0)
      demo_one_version = (Inr s, w') \<and> lake_up.client_up w'"
    by (rule live_table.snapshot_loop_up [OF lake_up.live.live_table_axioms demo_one_version_intact(1)])
       (use demo_one_version_intact(2) in \<open>auto simp: intact_def\<close>)
  then show thesis using that by (auto simp: table_snapshot_def demo_lake_table_def)
qed

lemma demo_prefix_directory [simp]: "directory demo_prefix"
  by (simp add: demo_prefix_def)

lemma demo_checkpoint_run:
  obtains k' w' where "create_checkpoint rev (rt_snd mem_rt)
       (table_checkpoint_manager (s3_ops mem_rt lake_client) ''crm'' ''Account'' demo_prefix demo_config)
       0 (no_checkpoints, demo_one_version) = (Inr (), (k', w'))"
proof -
  have "\<not> cc_validation_enabled (cm_config
      (table_checkpoint_manager (s3_ops mem_rt lake_client) ''crm'' ''Account'' demo_prefix demo_config))"
    by (simp add: table_checkpoint_manager_def new_checkpoint_manager_def checkpoint_defaults_def demo_config_def)
  from live_table.create_checkpoint_up [OF lake_up.live.live_table_axioms demo_one_version_intact order_refl zero_less_one
      table_env.manager_of_table [OF lake.table_contract demo_prefix_directory] this] that
  show thesis by blast
qed

lemma demo_one_version_replay:
  obtains s where "replay_log (log_actions demo_prefix (client_view lake_client mem_view demo_one_version)) 1
      (empty_snapshot 0) = Some s"
  using demo_one_version_intact(2) by (fastforce simp: intact_def)

lemma demo_one_version_wf:
  "\<forall>i as. 0 \<le> i \<and> i \<le> 0 \<and> log_actions demo_prefix (client_view lake_client mem_view demo_one_version) i = Some as
      \<longrightarrow> list_all wf_action as"
proof -
  have upto: "log_upto demo_prefix ((client_view lake_client mem_view \<circ> snd) (no_checkpoints, demo_start)) 0"
    using demo_start_intact by (simp add: intact_def)
  have run: "table_initialize demo_rt demo_table ''{}'' (no_checkpoints, demo_start) = (Inr (), snd demo_init)"
    using demo_init_run by (simp add: demo_init_def)
  from table_env.table_initialize_ok [OF demo_env run demo_log upto]
  obtain now1 now2 where now: "in_int64 (unix_milli now1)" "in_int64 (unix_milli now2)"
    and w': "(client_view lake_client mem_view \<circ> snd) (snd demo_init)
      = ((client_view lake_client mem_view \<circ> snd) (no_checkpoints, demo_start))
          (version_key demo_prefix 0 \<mapsto> encode_actions (table_env.create_entry now1 now2 demo_table ''{}''))"
    by auto
  have wf: "list_all wf_action (table_env.create_entry now1 now2 demo_table ''{}'')"
    by (rule table_env.wf_create_entry [OF demo_env demo_wf_table now])
  have "client_view lake_client mem_view demo_one_version = (client_view lake_client mem_view demo_start)
      (version_key demo_prefix 0 \<mapsto> encode_actions (table_env.create_entry now1 now2 demo_table ''{}''))"
    using w' by (simp add: demo_one_version_def)
  then show ?thesis using log_actions_write [OF wf, of 0 0 demo_prefix] wf by auto
qed

lemma demo_lake_log: "dt_log demo_lake_table = \<lparr>tl_store = s3_ops mem_rt lake_client, tl_log_prefix = demo_prefix\<rparr>"
  by (simp add: demo_lake_table_def)

lemma demo_lake_start: "lake_up.client_up demo_start" "log_upto demo_prefix (client_view lake_client mem_view demo_start) 0"
  using demo_start_up demo_start_intact by (simp_all add: intact_def)

lemma demo_initialize_twice:
  obtains w1 w2 where "table_initialize (rt_snd mem_rt) demo_lake_table ''{}'' demo_start = (Inr (), w1)"
    and "table_initialize (rt_snd mem_rt) demo_lake_table ''{}'' w1 = (Inr (), w2)"
  using live_table.initialize_up [OF lake_up.live.live_table_axioms _ demo_lake_log] demo_lake_start(1) by metis

lemma demo_first_commit:
  obtains cb' w' where "table_commit (rt_snd mem_rt) demo_lake_table None demo_actions ''WRITE''
      (Some delta_breaker, demo_start) = (Inr 0, (cb', w'))"
proof -
  have c: "closed delta_breaker" by (simp add: closed_def delta_breaker_def new_circuit_breaker_def)
  have P: "dt_retry_policy demo_lake_table = Some delta_retry_policy" "1 \<le> rp_max_attempts delta_retry_policy"
    by (simp_all add: demo_lake_table_def)
  from live_table.table_commit_up [OF lake_up.live.live_table_axioms demo_lake_start(1) c demo_lake_start(2) _ demo_lake_log P,
      of None demo_actions "''WRITE''"] that
  show thesis by auto
qed

lemma demo_interleaving:
  obtains latest w1 v' w2 w3 where "latest_version (dt_log demo_lake_table) demo_start = (Inr latest, w1)"
    and "commit_op (rt_snd mem_rt) demo_lake_table None demo_actions ''WRITE'' w1 = (Inr v', w2)"
    and "write_version (dt_log demo_lake_table) (latest + 1) [] w2 = (Inr (), w3)"
proof -
  note L = lake_up.live.live_table_axioms
  obtain latest w1 where l: "latest_version (dt_log demo_lake_table) demo_start = (Inr latest, w1)"
    and up1: "lake_up.client_up w1"
    using live_table.latest_version_up [OF L demo_lake_start(1)] unfolding demo_lake_log by blast
  have "client_view lake_client mem_view w1 = client_view lake_client mem_view demo_start"
    using s3_store.latest_version_view [OF lake.store_contract l [unfolded demo_lake_log]] .
  then have upto: "log_upto demo_prefix (client_view lake_client mem_view w1) 0" using demo_lake_start(2) by simp
  obtain w2 where c: "commit_op (rt_snd mem_rt) demo_lake_table None demo_actions ''WRITE'' w1 = (Inr 0, w2)"
    and up2: "lake_up.client_up w2"
    using live_table.commit_op_up [OF L up1 upto _ demo_lake_log, of None demo_actions "''WRITE''"] by auto
  obtain w3 where "write_version (dt_log demo_lake_table) (latest + 1) [] w2 = (Inr (), w3)"
    using live_table.write_version_up [OF L up2] unfolding demo_lake_log by blast
  with l c that show thesis by blast
qed

section \<open>Data for the checkpoint properties\<close>

definition demo_snapshot :: snapshot where
  "demo_snapshot =
     \<lparr>sn_version = 3, sn_protocol = Some \<lparr>pr_min_reader = 1, pr_min_writer = 2\<rparr>,
      sn_metadata = ac_metadata (new_metadata_action 0 ''crm_Account'' ''Account'' ''{}''),
      sn_files = [(''a.parquet'', the (ac_add (new_add_action 0 ''a.parquet'' 10 []))),
                  (''b.parquet'', the (ac_add (new_add_action 0 ''b.parquet'' 20 [])))]\<rparr>"

definition demo_file_store :: "string \<Rightarrow> unit store_ops" where
  "demo_file_store body =
     \<lparr>st_upload = (\<lambda>_ _ _. io_ret ()), st_download = (\<lambda>_. io_ret body), st_list = (\<lambda>_. io_ret []),
      st_put_json = (\<lambda>_ _. io_ret ()), st_get_json = (\<lambda>_. io_fail json_error), st_exists = (\<lambda>_. io_ret False)\<rparr>"

definition demo_checkpoint_files :: "checkpoint_file list" where
  "demo_checkpoint_files = map (\<lambda>v. \<lparr>cf_key = dec v, cf_version = v, cf_time = 0\<rparr>) [1, 2, 9]"

section \<open>Breakers in the middle of a run\<close>

definition demo_breakers :: cb_sys where
  "demo_breakers = \<lparr>sys_cb = new_circuit_breaker ''s3'' 1 minute, sys_pc = (\<lambda>_. Outside), sys_now = 7\<rparr>"

definition demo_half_open :: cb_sys where
  "demo_half_open = \<lparr>sys_cb = (new_circuit_breaker ''s3'' 1 minute)\<lparr>cb_state := StateHalfOpen, cb_failure_count := 1\<rparr>,
     sys_pc = (\<lambda>_. Running), sys_now = 9\<rparr>"

end
