(* ===== verification/SyncDemo.thy ===== *)
theory SyncDemo
  imports EngineLive Demo
begin

text \<open>
  A source to sync, for the witnesses: one object, \<open>Account\<close>, with one field and two batches of records, on the
  empty lake of Demo; and a recovery manager over the same lake.
\<close>

definition demo_schema :: schema where
  "demo_schema = new_schema ''Account''
     (Some [\<lparr>fd_name = ''Id'', fd_type = ''string'', fd_nullable = False\<rparr>]) 1"

definition demo_meta :: object_metadata where
  "demo_meta = \<lparr>om_name = ''Account'', om_label = ''Account'', om_queryable = True, om_retrievable = True,
     om_replicateable = True, om_record_count = 0, om_watermark_field = ''SystemModstamp'', om_schema = Some demo_schema\<rparr>"

definition demo_record :: "string \<Rightarrow> go_record" where
  "demo_record i = [(''Id'', VString i)]"

definition demo_batches :: "record_batch list" where
  "demo_batches =
     [\<lparr>rb_records = [demo_record ''1'', demo_record ''2''], rb_object = ''Account''\<rparr>,
      \<lparr>rb_records = [], rb_object = ''Account''\<rparr>,
      \<lparr>rb_records = [demo_record ''3''], rb_object = ''Account''\<rparr>]"

definition demo_orders :: orders where
  "demo_orders = \<lparr>od_range = id, od_rate = id, od_stats = id, od_field1 = id, od_field2 = id, od_field3 = id, od_results = id,
     od_rel1 = id, od_rel2 = id, od_rel3 = id, od_files = id, od_batches = id, od_object1 = id, od_drift = id, od_object2 = id\<rparr>"

definition demo_platform :: platform where
  "demo_platform = \<lparr>pl_oob = - (2 ^ 63), pl_oob32 = (\<lambda>x. False)\<rparr>"

definition demo_engine :: "(breaker \<times> mem_world) engine" where
  "demo_engine = lake_engine ''crm'' [demo_meta] (\<lambda>ob. if ob = ''Account'' then demo_batches else []) [] None None None
     demo_platform (\<lambda>v. None) demo_orders id"

definition demo_plan :: object_plan where
  "demo_plan = plan_object id id id demo_meta None []"

definition demo_run :: run_state where
  "demo_run = \<lparr>rn_state = fresh_state ''crm'', rn_detector = None, rn_results = [], rn_objects = None\<rparr>"

lemma demo_plan_fields:
  "op_mode demo_plan = SyncModeFull" "op_object demo_plan = ''Account''" "op_schema demo_plan = Some demo_schema"
  by (simp_all add: demo_plan_def plan_object_def demo_meta_def zero_plan_def)

lemmas demo_engine_fields = lake_engine_fields [of "''crm''" "[demo_meta]" "\<lambda>ob. if ob = ''Account'' then demo_batches else []" "[]"
  None None None demo_platform "\<lambda>v. None" demo_orders id, folded demo_engine_def]

lemma demo_engine_validator: "en_validator demo_engine = None"
  by (simp add: demo_engine_def lake_engine_def new_engine_def validator_of_def enabled_validation_def)

lemma demo_engine_source:
  "source_steps (\<lambda>w w'. client_view lake_client mem_view w' = client_view lake_client mem_view w) demo_engine"
  "source_steps (\<lambda>w w'. lake_up.client_up w \<longrightarrow> lake_up.client_up w') demo_engine" "plain_ids demo_engine"
  by (auto simp: source_steps_def plain_ids_def demo_engine_fields stream_connector_def count_uuid_def no_slash_dec)

lemma demo_engine_orders: "en_orders demo_engine = demo_orders" "en_objects demo_engine = []"
  "od_field1 demo_orders = id" "od_field2 demo_orders = id" "od_field3 demo_orders = id"
  by (simp_all add: demo_engine_def lake_engine_def new_engine_def demo_orders_def)

lemma demo_extract: "extract_records demo_engine demo_plan (rn, w) = (Some (Inr (demo_batches, None)), (rn, w))"
  by (simp add: extract_records_def demo_plan_fields demo_engine_fields stream_connector_def)

lemma demo_extract_some: "\<exists>w'. extract_records demo_engine demo_plan (rn, w) = (Some (Inr (demo_batches, None)), (rn, w'))"
  by (simp add: demo_extract)

lemma demo_records: "concat (map rb_records demo_batches) = map demo_record [''1'', ''2'', ''3'']"
  by (simp add: demo_batches_def)

text \<open>The sync of the object, run through the interpretation of the engine's contract on the lake.\<close>

lemma demo_upto:
  "log_upto (delta_log_prefix (en_source demo_engine) (op_object demo_plan)) (client_view lake_client mem_view demo_start) 0"
  using demo_lake_start(2) by (simp add: demo_prefix_def demo_engine_fields demo_plan_fields)

lemma demo_live_engine: "live_engine (s3_ops mem_rt lake_client) (client_view lake_client mem_view) lake_up.client_up (rt_snd mem_rt) demo_engine"
  unfolding demo_engine_def by (rule lake_sync.live_engine_axioms)

lemma demo_sync_run:
  obtains results rn' w' os where "sync_object (rt_snd mem_rt) demo_engine demo_plan (demo_run, demo_start) = (Some (Inr results), (rn', w'))"
    and "lookup_state (rn_state rn') ''Account'' = Some os"
proof -
  have taken: "\<forall>b \<in> set demo_batches. rb_records b \<noteq> [] \<longrightarrow> live_engine.writable demo_engine demo_plan b"
    by (simp add: live_engine.writable_def [OF demo_live_engine] demo_plan_fields demo_engine_fields count_parquet_def)
  have lenient: "live_engine.lenient demo_engine"
    by (simp add: live_engine.lenient_def [OF demo_live_engine] demo_engine_validator)
  have "\<exists>results rn' w' os. sync_object (rt_snd mem_rt) demo_engine demo_plan (demo_run, demo_start) = (Some (Inr results), (rn', w'))
    \<and> lookup_state (rn_state rn') (op_object demo_plan) = Some os \<and> os_delta_version os = max 0 1
    \<and> os_total_records os = int (length (concat (map rb_records demo_batches)))"
    by (rule live_engine.sync_object_up [OF demo_live_engine demo_lake_start(1) demo_upto _ _ _ _ lenient demo_extract_some taken])
       (simp_all add: demo_plan_fields demo_run_def fresh_state_def demo_records)
  with that show ?thesis unfolding demo_plan_fields by blast
qed

lemma demo_planned: "fst (plan_objects demo_engine (fresh_state ''crm'') [demo_meta] demo_start) = [demo_plan]"
  by (simp add: demo_engine_fields stream_connector_def demo_meta_def [symmetric] io_ret_def Let_def lookup_state_def fresh_state_def
      slice_of_def demo_plan_def demo_engine_orders)
     (simp add: demo_plan_fields [unfolded demo_plan_def])

text \<open>A source that breaks off.\<close>

definition demo_broken_engine :: "(breaker \<times> mem_world) engine" where
  "demo_broken_engine = demo_engine\<lparr>en_connector := (en_connector demo_engine)\<lparr>co_full := (\<lambda>ob w. (([], Some (Msg ''gone'')), w))\<rparr>\<rparr>"

lemma demo_broken_sync:
  "fst (sync_object (rt_snd mem_rt) demo_broken_engine (demo_plan\<lparr>op_schema := None\<rparr>) (demo_run, demo_start))
   = Some (Inl (Wrap ''extraction error'' (Msg ''gone'')))"
  by (simp add: sync_object_def pio_bind_def pio_of_def io_snd_def init_table_def extract_records_def demo_plan_fields
      demo_broken_engine_def pio_ret_def pio_fail_def)

section \<open>Saving and retrying on the lake\<close>

lemma demo_time: "time_ok 5000000" "time_ok zero_time"
  by code_simp+

lemma demo_times: "times_ok (fresh_state ''crm''\<lparr>ss_last_run := 5000000, ss_run_count := 1\<rparr>)"
  by (simp add: times_ok_def fresh_state_def zero_sync_state_def demo_time)

lemma demo_now: "rt_now (rt_snd mem_rt) demo_start = (5000000, demo_start)"
  by (simp add: rt_snd_def lift_snd_def mem_rt_def demo_start_def)

lemma demo_finish:
  obtains w' where "finish_run (rt_snd mem_rt) demo_engine None [] demo_run [] demo_start = (run_verdict [], w')"
proof -
  let ?st = "fresh_state ''crm''\<lparr>ss_last_run := 5000000, ss_run_count := 1\<rparr>"
  have tracker: "en_tracker demo_engine = None"
    by (simp add: demo_engine_def lake_engine_def new_engine_def tracker_of_def)
  obtain w1 where put: "st_put_json (s3_ops mem_rt lake_client) (sync_state_key (ss_source ?st)) (enc_sync_state ?st) demo_start = (Inr (), w1)"
    using live_engine.axioms(1) [OF demo_live_engine] demo_lake_start(1) live_table.axioms(1) live_store.put_json_up by metis
  have save: "save_state (s3_ops mem_rt lake_client) ?st demo_start = (Inr (), w1)"
    using put demo_times by (simp add: save_state_def put_value_def io_wrap_def)
  obtain t w2 where t: "rt_now (rt_snd mem_rt) w1 = (t, w2)" by (metis surj_pair)
  have "finish_run (rt_snd mem_rt) demo_engine None [] demo_run [] demo_start = (run_verdict [], w2)"
    using save demo_now t
    by (simp add: finish_run_def io_bind_def check_consistency_def tracker report_validation_def save_run_def io_wrap_def
        demo_engine_fields demo_run_def fresh_state_def zero_sync_state_def wrap64_id in_int64_def)
  then show thesis by (rule that)
qed

definition demo_manager_r :: "(breaker \<times> mem_world) recovery_manager" where
  "demo_manager_r = \<lparr>rm_config = default_recovery_config, rm_store = s3_recovery_store (s3_ops mem_rt lake_client) (s3_delete lake_client) ''sync/crm''\<rparr>"

lemma mem_clock: "clock_monotone (rt_snd mem_rt)"
  by (auto simp: clock_monotone_def rt_snd_def lift_snd_def mem_rt_def)

definition demo_state :: sync_state where
  "demo_state = fresh_state ''crm''\<lparr>ss_last_run := 5000000, ss_run_count := 1\<rparr>"

lemma demo_state_wf: "wf_sync_state demo_state"
  by (simp add: wf_sync_state_def demo_state_def fresh_state_def zero_sync_state_def slice_of_def valid_utf8_ascii in_int64_def demo_time wf_map_def)

lemma demo_save: obtains w1 where "save_state (s3_ops mem_rt lake_client) demo_state demo_start = (Inr (), w1)"
proof -
  obtain w1 where "st_put_json (s3_ops mem_rt lake_client) (sync_state_key (ss_source demo_state)) (enc_sync_state demo_state) demo_start
      = (Inr (), w1)"
    using live_engine.axioms(1) [OF demo_live_engine] demo_lake_start(1) live_table.axioms(1) live_store.put_json_up by metis
  then have "save_state (s3_ops mem_rt lake_client) demo_state demo_start = (Inr (), w1)"
    using times_ok_wf [OF demo_state_wf] by (simp add: save_state_def put_value_def io_wrap_def)
  then show thesis by (rule that)
qed

definition demo_validator_config :: validator_config where
  "demo_validator_config = \<lparr>vc_error_threshold = Fin 0, vc_strict = False, vc_custom = [], vc_drift_threshold = Fin 0,
     vc_sampling = Fin 1, vc_max_samples = 10\<rparr>"

lemma demo_validation:
  obtains res dd' w' where "validate_batch (rt_snd mem_rt) demo_platform id id id (new_default_validator demo_validator_config)
      (hd demo_batches) (Some demo_schema) (None, demo_start) = (Some res, dd', w')"
  using live_engine.validate_batch_up [OF demo_live_engine demo_lake_start(1), of "hd demo_batches" "Some demo_schema"]
  by (fastforce simp: demo_batches_def)

end
