(* ===== verification/SyncProperties.thy ===== *)
theory SyncProperties
  imports SyncDemo
begin

text \<open>The properties of the sync engine and of the parts it runs on.\<close>

section \<open>Syncing an object\<close>

text \<open>
  C2: What a sync records is in the lake. Over the S3 client and any bucket that keeps its contract, with
  whatever faults: if syncing an object returns and has changed the run's state, then the log of its table ends
  with the version the state records for the object, that version holds a commit of at least one action, and
  every file the commit adds is stored under its data key.
\<close>

theorem sync_recorded_is_stored:
  assumes "lake_env aws bucket bkt rt c" and "en_store en = s3_ops rt c"
    and "source_steps (\<lambda>w w'. client_view c bkt w' = client_view c bkt w) en" and "plain_ids en"
    and "sync_object (rt_snd rt) en p (rn, w) = (Some (Inr results), (rn', w'))" and "rn_state rn' \<noteq> rn_state rn"
    and "log_upto (delta_log_prefix (en_source en) (op_object p)) (client_view c bkt w) n" and "n + 4 < 2 ^ 63"
  shows "\<exists>os actions now operation. lookup_state (rn_state rn') (op_object p) = Some os \<and> n \<le> os_delta_version os
    \<and> log_upto (delta_log_prefix (en_source en) (op_object p)) (client_view c bkt w') (os_delta_version os + 1)
    \<and> client_view c bkt w' (version_key (delta_log_prefix (en_source en) (op_object p)) (os_delta_version os))
        = Some (encode_actions (commit_entry now actions operation (os_delta_version os)))
    \<and> actions \<noteq> []
    \<and> (\<forall>a \<in> set actions. \<exists>f. ac_add a = Some f
        \<and> client_view c bkt w' (parquet_file (en_source en) (op_object p) (ad_path f)) \<noteq> None)"
proof -
  have E: "engine_env (s3_ops rt c) (client_view c bkt) (rt_snd rt) en"
    by (rule engine_envI [OF lake_env.table_contract [OF assms(1)] assms(2-4)])
  show ?thesis
    using engine_env.sync_object_committed [OF E assms(5-8)]
    unfolding engine_env.files_stored_def [OF E] holds_def dom_def by blast
qed



theorem sync_recorded_is_stored_witness:
  "\<exists>results rn' w' os. sync_object (rt_snd mem_rt) demo_engine demo_plan (demo_run, demo_start) = (Some (Inr results), (rn', w'))
    \<and> lookup_state (rn_state rn') ''Account'' = Some os
    \<and> log_upto (delta_log_prefix ''crm'' ''Account'') (client_view lake_client mem_view w') (os_delta_version os + 1)"
proof -
  obtain results rn' w' os where run: "sync_object (rt_snd mem_rt) demo_engine demo_plan (demo_run, demo_start) = (Some (Inr results), (rn', w'))"
    and os: "lookup_state (rn_state rn') ''Account'' = Some os"
    by (rule demo_sync_run)
  have new: "rn_state rn' \<noteq> rn_state demo_run" using os by (auto simp: demo_run_def fresh_state_def lookup_state_def slice_of_def)
  obtain os' where "lookup_state (rn_state rn') ''Account'' = Some os'"
    and "log_upto (delta_log_prefix ''crm'' ''Account'') (client_view lake_client mem_view w') (os_delta_version os' + 1)"
    using sync_recorded_is_stored [OF lake.lake_env_axioms demo_engine_fields(1) demo_engine_source(1,3) run new demo_upto]
    unfolding demo_engine_fields demo_plan_fields by auto
  then show ?thesis by (intro exI [of _ results] exI [of _ rn'] exI [of _ w'] exI [of _ os'] conjI run)
qed

text \<open>
  C8: A failed sync records nothing, and a sync never touches another object: an error leaves the state of the
  run as it was (the watermark in particular, so the next sync starts where this one did), and whatever the
  result, the entries of the other objects are the same.
\<close>

theorem failed_sync_keeps_state:
  assumes "sync_object rt en p (rn, w) = (Some r, (rn', w'))"
  shows "(\<forall>e. r = Inl e \<longrightarrow> rn_state rn' = rn_state rn)
    \<and> (\<forall>ob. ob \<noteq> op_object p \<longrightarrow> lookup_state (rn_state rn') ob = lookup_state (rn_state rn) ob)"
proof (cases r)
  case (Inl e)
  then show ?thesis using assms sync_object_error_state [of rt en p rn w e rn' w'] by simp
next
  case (Inr results)
  then show ?thesis using assms sync_object_frame [of rt en p rn w results rn' w'] by simp
qed

theorem failed_sync_keeps_state_witness:
  "rn_state (fst (snd (sync_object (rt_snd mem_rt) demo_broken_engine (demo_plan\<lparr>op_schema := None\<rparr>) (demo_run, demo_start))))
   = fresh_state ''crm''"
proof -
  let ?s = "sync_object (rt_snd mem_rt) demo_broken_engine (demo_plan\<lparr>op_schema := None\<rparr>) (demo_run, demo_start)"
  have run: "?s = (Some (Inl (Wrap ''extraction error'' (Msg ''gone''))), (fst (snd ?s), snd (snd ?s)))"
    by (simp add: prod_eq_iff demo_broken_sync)
  have "rn_state (fst (snd ?s)) = rn_state demo_run" using failed_sync_keeps_state [OF run] by blast
  then show ?thesis by (simp add: demo_run_def)
qed

text \<open>
  A planned sync comes back. The plans a run makes are never skips, so the sync of a planned object with a
  schema, in a state whose object map is not nil, returns a result or an error: it neither waits on a channel
  that is never filled nor panics.
\<close>

theorem planned_sync_returns:
  assumes "p \<in> set (fst (plan_objects en state ms w0))" and "op_schema p \<noteq> None" and "ss_objects (rn_state rn) \<noteq> None"
  shows "\<exists>r. fst (sync_object rt en p (rn, w)) = Some r"
proof -
  obtain ps w1 where "plan_objects en state ms w0 = (ps, w1)" by (metis surj_pair)
  then have "op_mode p \<noteq> SyncModeSkip" using plans_not_skipped assms(1) by (metis fst_conv)
  from sync_object_returns [OF this assms(2,3)] show ?thesis .
qed

theorem planned_sync_returns_witness:
  "\<exists>r. fst (sync_object (rt_snd mem_rt) demo_engine demo_plan (demo_run, demo_start)) = Some r"
  by (rule planned_sync_returns [of demo_plan demo_engine "fresh_state ''crm''" "[demo_meta]" demo_start], simp only: demo_planned)
     (simp_all add: demo_plan_fields demo_run_def fresh_state_def)

section \<open>Runs\<close>

text \<open>
  C33: The errors of an engine stay with it. A run adds to the collected errors and never empties them, so once
  a sync has failed every later run of the engine reports a failure, whatever it does.
\<close>

theorem collected_errors_stay:
  assumes "es_errors es \<noteq> []"
  shows "fst (run_engine rt en (es, w)) \<noteq> Some (Inr ())
    \<and> (\<exists>more. es_errors (fst (snd (run_engine rt en (es, w)))) = es_errors es @ more)"
  using failed_engine_fails [OF assms, of rt en w] run_engine_errors(1) [of rt en es w] by (metis prod.collapse)

theorem collected_errors_stay_witness:
  "fst (run_engine (rt_snd mem_rt) demo_engine
      ((new_engine_state None None)\<lparr>es_errors := [Msg ''sync of Account failed'']\<rparr>, demo_start)) \<noteq> Some (Inr ())"
  using collected_errors_stay [of "(new_engine_state None None)\<lparr>es_errors := [Msg ''sync of Account failed'']\<rparr>"
      "rt_snd mem_rt" demo_engine demo_start] by simp

text \<open>
  C31: A run that comes to its verdict, good or bad, has saved the state: under the source's key lies a state with
  the objects of the run and the run counter advanced by one.
\<close>

theorem finished_run_is_saved:
  assumes "lake_env aws bucket bkt rt c" and "en_store en = s3_ops rt c"
    and "finish_run (rt_snd rt) en report plans rn errs w = (run_verdict errs, w')"
  shows "\<exists>st. run_saved (rn_state rn) st
    \<and> client_view c bkt w' (sync_state_key (ss_source (rn_state rn))) = Some (json_indent (enc_sync_state st))"
  by (rule table_env.finish_run_saves [OF lake_env.table_contract [OF assms(1)] assms(2,3)])

theorem finished_run_is_saved_witness:
  "\<exists>w' st. run_saved (fresh_state ''crm'') st
    \<and> client_view lake_client mem_view w' (sync_state_key ''crm'') = Some (json_indent (enc_sync_state st))"
proof -
  obtain w' where run: "finish_run (rt_snd mem_rt) demo_engine None [] demo_run [] demo_start = (run_verdict [], w')"
    by (rule demo_finish)
  have source: "ss_source (rn_state demo_run) = ''crm''" "rn_state demo_run = fresh_state ''crm''" by (simp_all add: demo_run_def fresh_state_def)
  have source': "ss_source (fresh_state ''crm'') = ''crm''" by (simp add: fresh_state_def)
  obtain st where "run_saved (fresh_state ''crm'') st"
    and "client_view lake_client mem_view w' (sync_state_key ''crm'') = Some (json_indent (enc_sync_state st))"
    using finished_run_is_saved [OF lake.lake_env_axioms demo_engine_fields(1) run] unfolding source source' by blast
  then show ?thesis by (intro exI [of _ w'] exI [of _ st] conjI)
qed

text \<open>
  C32: The saved state is the loaded state: what Save wrote and Load reads is the state itself, unless the read
  fails, and then it is the empty state of the source. Load never fails.
\<close>

theorem saved_state_is_loaded:
  assumes "lake_env aws bucket bkt rt c" and "wf_sync_state s" and "save_state (s3_ops rt c) s w = (Inr u, w1)"
  shows "\<exists>s' w2. load_state (s3_ops rt c) (ss_source s) w1 = (Inr s', w2)
    \<and> (s' = s \<or> s' = fresh_state (ss_source s) \<and> (\<exists>e. fst (st_get_json (s3_ops rt c) (sync_state_key (ss_source s)) w1) = Inl e))"
proof -
  obtain s' w2 where load: "load_state (s3_ops rt c) (ss_source s) w1 = (Inr s', w2)" using load_state_total by metis
  with s3_store.load_saved [OF lake_env.store_contract [OF assms(1)] assms(3,2) load] show ?thesis by auto
qed

theorem saved_state_is_loaded_witness:
  "\<exists>w1 s' w2. load_state (s3_ops mem_rt lake_client) ''crm'' w1 = (Inr s', w2)
    \<and> (s' = demo_state \<or> s' = fresh_state ''crm'' \<and> (\<exists>e. fst (st_get_json (s3_ops mem_rt lake_client) (sync_state_key ''crm'') w1) = Inl e))"
proof -
  obtain w1 where save: "save_state (s3_ops mem_rt lake_client) demo_state demo_start = (Inr (), w1)" by (rule demo_save)
  have source: "ss_source demo_state = ''crm''" by (simp add: demo_state_def fresh_state_def)
  obtain s' w2 where "load_state (s3_ops mem_rt lake_client) ''crm'' w1 = (Inr s', w2)"
    and "s' = demo_state \<or> s' = fresh_state ''crm'' \<and> (\<exists>e. fst (st_get_json (s3_ops mem_rt lake_client) (sync_state_key ''crm'') w1) = Inl e)"
    using saved_state_is_loaded [OF lake.lake_env_axioms demo_state_wf save] unfolding source by metis
  then show ?thesis by (intro exI [of _ w1] exI [of _ s'] exI [of _ w2] conjI)
qed

section \<open>Schemas and plans\<close>

text \<open>
  C19: The comparison of two schemas is exact and does not depend on the order of its ranges over maps: breaking
  exactly when a field is lost or changes its type, additive exactly when none is and one is new, no change
  exactly when the same names have the same types; and then, names being distinct, the hashes agree.
\<close>

theorem schema_comparison_exact:
  assumes "iteration_order ord1" and "iteration_order ord2" and "iteration_order ord3"
  shows "df_change (compare_schemas ord1 ord2 ord3 old new) =
      (if fields_lost old new then ChangeBreaking else if fields_gained old new then ChangeAdditive else ChangeNone)
    \<and> (df_change (compare_schemas ord1 ord2 ord3 old new) = ChangeNone \<longleftrightarrow> type_of old = type_of new)
    \<and> (distinct_names old \<and> distinct_names new \<and> df_change (compare_schemas ord1 ord2 ord3 old new) = ChangeNone
        \<longrightarrow> compute_hash old = compute_hash new)"
  using compare_exact [OF assms] no_change_iff [OF assms] same_types_same_hash by blast

theorem schema_comparison_exact_witness:
  "df_change (compare_schemas rev id rev demo_schema demo_schema) = ChangeNone"
  by (rule schema_comparison_exact [THEN conjunct2, THEN conjunct1, THEN iffD2]) simp_all



section \<open>Recovery\<close>

text \<open>
  C24: ExecuteWithRetry returns. With a clock that does not go back and an operation that does not panic it comes
  back with a result or an error, having run the operation at most as often as the retries the recovery state
  on record leaves.
\<close>

theorem recovery_returns:
  assumes "clock_monotone rt" and "panic_free op"
  shows "\<exists>r cb' n w' rs w1. recover_with_retry (rt_snd rt) (manager_snd rm) source object phase (count_op op) (cb, (0, w))
        = (Some r, (cb', (n, w')))
    \<and> find_recovery_state (rt_snd rt) (manager_snd rm) source object phase (snd (rt_now (rt_snd rt) (0 :: nat, w))) = (rs, w1)
    \<and> int n \<le> max 0 (rg_max_retries (rm_config rm) - rv_attempts rs)"
proof -
  have clock: "clock_monotone (rt_snd rt)" and op: "panic_free (count_op op)"
    using clock_monotone_snd [OF assms(1)] panic_free_count [OF assms(2)] by simp_all
  obtain x cb' n w' where run: "recover_with_retry (rt_snd rt) (manager_snd rm) source object phase (count_op op) (cb, (0, w))
      = (x, (cb', (n, w')))" by (metis surj_pair)
  obtain r where r: "x = Some r" using recover_no_panic [OF clock op, of "manager_snd rm" source object phase "(cb, (0, w))"] run by auto
  obtain rs w1 where rs: "find_recovery_state (rt_snd rt) (manager_snd rm) source object phase (snd (rt_now (rt_snd rt) (0 :: nat, w))) = (rs, w1)"
    and "int n \<le> max 0 (rg_max_retries (rm_config rm) - rv_attempts rs)"
    using counting.count_recover [OF run] unfolding manager_snd_config fst_conv by fastforce
  with run [unfolded r] rs show ?thesis by (intro exI conjI)
qed

theorem recovery_returns_witness:
  "\<exists>r cb' n w' rs w1. recover_with_retry (rt_snd (rt_snd mem_rt)) (manager_snd demo_manager_r) ''crm'' ''Account'' PhaseExtract
        (count_op (\<lambda>w. (Some (Inl (Msg ''rate limited'')), w))) (manager_breaker default_recovery_config, (0, demo_start))
        = (Some r, (cb', (n, w')))
    \<and> find_recovery_state (rt_snd (rt_snd mem_rt)) (manager_snd demo_manager_r) ''crm'' ''Account'' PhaseExtract
        (snd (rt_now (rt_snd (rt_snd mem_rt)) (0 :: nat, demo_start))) = (rs, w1)
    \<and> int n \<le> max 0 (rg_max_retries (rm_config demo_manager_r) - rv_attempts rs)"
  by (rule recovery_returns [OF mem_clock]) (simp add: panic_free_def)

text \<open>
  C34: It never waits. CanRetry is only true once the next retry is due, and the wait only happens while it is
  not: with a clock that does not go back the outcome is the same whatever waiting does, so a retry whose delay
  has not passed is given up instead of waited for.
\<close>

theorem recovery_never_waits:
  assumes "clock_monotone rt"
  shows "recover_with_retry (rt\<lparr>rt_wait := f\<rparr>) rm source object phase op s = recover_with_retry rt rm source object phase op s"
  by (rule recover_never_waits [OF assms])

theorem recovery_never_waits_witness:
  "recover_with_retry ((rt_snd mem_rt)\<lparr>rt_wait := (\<lambda>d w. (Some CtxDeadline, w))\<rparr>) demo_manager_r ''crm'' ''Account'' PhaseExtract
      (\<lambda>w. (Some (Inr empty_result), w)) (manager_breaker default_recovery_config, demo_start)
   = recover_with_retry (rt_snd mem_rt) demo_manager_r ''crm'' ''Account'' PhaseExtract
      (\<lambda>w. (Some (Inr empty_result), w)) (manager_breaker default_recovery_config, demo_start)"
  by (rule recovery_never_waits [OF mem_clock])

text \<open>
  The sync package's breaker: called by one goroutine it is closed exactly while it has counted fewer
  failures than its limit, after every call, and a call that succeeds leaves it closed.
\<close>

theorem sync_breaker_invariant:
  assumes "sb_inv cb" and "sb_failures cb < 2 ^ 63 - 1" and "sb_execute rt op (cb, w) = (r, cb', w')"
  shows "sb_inv cb' \<and> (\<forall>a. r = Some (Inr a) \<longrightarrow> sb_state cb' = StateClosed)"
  using sb_execute_inv [OF assms] by blast

theorem sync_breaker_invariant_witness:
  "sb_inv (fst (snd (sb_execute (rt_snd mem_rt) (\<lambda>w. (Some (Inl (Msg ''down'')) :: (go_error + unit) option, w))
     (new_sync_breaker ''sync_operations'' 1 minute, demo_start))))"
proof -
  obtain r cb' w' where run: "sb_execute (rt_snd mem_rt) (\<lambda>w. (Some (Inl (Msg ''down'')) :: (go_error + unit) option, w))
     (new_sync_breaker ''sync_operations'' 1 minute, demo_start) = (r, cb', w')" by (metis surj_pair)
  have "sb_failures (new_sync_breaker ''sync_operations'' 1 minute) < 2 ^ 63 - 1" by (simp add: new_sync_breaker_def)
  from sync_breaker_invariant [OF sb_inv_new this run] run show ?thesis by simp
qed

section \<open>Consistency\<close>



section \<open>Validation\<close>

text \<open>
  C10: A batch is valid exactly when every record that is looked at has, for every field of the schema, a value
  that is allowed: nil where the field is nullable, otherwise of the field's type and accepted by the custom
  rules; the valid and the invalid records are the records looked at, and with full sampling or at most a
  hundred records that is all of them.
\<close>

theorem batch_validity_exact:
  assumes "validate_batch rt pl ord ordm ords (new_default_validator c) batch (Some s) (dd, w) = (Some res, dd', w')"
    and "rb_records batch \<noteq> []"
  shows "(br_valid res \<longleftrightarrow> (\<forall>i \<in> set (looked_at c (length (rb_records batch))). \<forall>f \<in> set (slice_of (sch_fields s)).
           field_ok pl c (sch_object s) (rb_records batch ! i) f))
    \<and> br_valid_records res + br_error_records res = int (length (looked_at c (length (rb_records batch))))
    \<and> (f64_le (Fin 1) (vc_sampling c) \<or> length (rb_records batch) \<le> 100
        \<longrightarrow> looked_at c (length (rb_records batch)) = [0..<length (rb_records batch)])"
  using validate_batch_valid [OF assms] validate_batch_counts(1) [OF assms] looked_at_all
  by (auto simp: new_default_validator_def)

theorem batch_validity_exact_witness:
  "\<exists>res dd' w'. validate_batch (rt_snd mem_rt) demo_platform id id id (new_default_validator demo_validator_config) (hd demo_batches)
      (Some demo_schema) (None, demo_start) = (Some res, dd', w')
    \<and> br_valid_records res + br_error_records res = 2"
proof -
  obtain res dd' w' where run: "validate_batch (rt_snd mem_rt) demo_platform id id id (new_default_validator demo_validator_config)
      (hd demo_batches) (Some demo_schema) (None, demo_start) = (Some res, dd', w')"
    by (rule demo_validation)
  from batch_validity_exact [OF run] run show ?thesis by (auto simp: demo_batches_def)
qed



end
