(* ===== verification/ContractValidator.thy ===== *)
theory ContractValidator
  imports Contracts
begin

text \<open>The validator of internal/contracts (validator.go) and what its verdict means.\<close>

section \<open>Validating data against a schema\<close>

record contract_config =
  kw_strict :: bool
  kw_tolerance :: duration
  kw_max_retries :: int
  kw_ignored :: "string list"

definition default_contract_config :: contract_config where
  "default_contract_config = \<lparr>kw_strict = False, kw_tolerance = 5 * second, kw_max_retries = 3, kw_ignored = []\<rparr>"

text \<open>
  What the validator takes from outside: \<open>regexp.MatchString\<close> (\<open>None\<close> is an error), the text of values of other
  types, and the orders of the ranges over maps: of the properties and of the data at each path, of the expected
  status codes, of the headers and of the endpoints.
\<close>

record 'x contract_env =
  ce_match :: "string \<Rightarrow> string \<Rightarrow> bool option"
  ce_text :: "'x \<Rightarrow> string"
  ce_properties :: "string \<Rightarrow> (string \<times> contract_violation list) list \<Rightarrow> (string \<times> contract_violation list) list"
  ce_data :: "string \<Rightarrow> string list \<Rightarrow> string list"
  ce_codes :: "int list \<Rightarrow> int list"
  ce_headers :: "(string \<times> string) list \<Rightarrow> (string \<times> string) list"
  ce_endpoints :: "(string \<times> 'x endpoint_contract) list \<Rightarrow> (string \<times> 'x endpoint_contract) list"

fun get_json_type :: "'x gdata \<Rightarrow> string" where
  "get_json_type DNil = ''null''"
| "get_json_type (DBool b) = ''boolean''"
| "get_json_type (DFloat x) = ''number''"
| "get_json_type (DInt i) = ''number''"
| "get_json_type (DInt64 i) = ''number''"
| "get_json_type (DString s) = ''string''"
| "get_json_type (DArray xs) = ''array''"
| "get_json_type DNilArray = ''array''"
| "get_json_type (DObject m) = ''object''"
| "get_json_type DNilObject = ''object''"
| "get_json_type (DOther x) = ''unknown''"

text \<open>The type assertions.\<close>

fun as_map :: "'x gdata \<Rightarrow> (string \<times> 'x gdata) list option" where
  "as_map (DObject m) = Some m"
| "as_map DNilObject = Some []"
| "as_map _ = None"

fun as_array :: "'x gdata \<Rightarrow> 'x gdata list option" where
  "as_array (DArray xs) = Some xs"
| "as_array DNilArray = Some []"
| "as_array _ = None"

fun as_text :: "'x gdata \<Rightarrow> string option" where
  "as_text (DString s) = Some s"
| "as_text _ = None"

fun as_number :: "'x gdata \<Rightarrow> f64 option" where
  "as_number (DFloat x) = Some x"
| "as_number (DInt i) = Some (f64_of_int i)"
| "as_number (DInt64 i) = Some (f64_of_int i)"
| "as_number _ = None"

definition join_path :: "string \<Rightarrow> string \<Rightarrow> string" where
  "join_path base field = (if base = [] then field else base @ ''.'' @ field)"

definition schema_violation :: "string \<Rightarrow> string \<Rightarrow> string \<Rightarrow> string \<Rightarrow> contract_severity \<Rightarrow> contract_violation" where
  "schema_violation field expected actual description severity =
     \<lparr>kn_type = ViolationTypeSchema, kn_field = field, kn_expected = expected, kn_actual = actual,
      kn_description = description, kn_severity = severity\<rparr>"

definition enum_violations :: "'x contract_env \<Rightarrow> string \<Rightarrow> 'x gdata list \<Rightarrow> 'x gdata \<Rightarrow> contract_violation list" where
  "enum_violations ce path en d =
     (if en = [] \<or> list_ex (deep_equal d) en then []
      else [schema_violation path (''one of '' @ slice_text (map (data_text (ce_text ce)) en)) (data_text (ce_text ce) d)
              (''value not in enum at path '' @ path) SeverityMedium])"

definition required_violations :: "string \<Rightarrow> string list \<Rightarrow> (string \<times> 'x gdata) list \<Rightarrow> contract_violation list" where
  "required_violations path req m =
     map (\<lambda>r. schema_violation (join_path path r) ''required property'' ''missing'' (''required property '' @ r @ '' is missing'') SeverityHigh)
       (filter (\<lambda>r. map_of m r = None) req)"

definition unexpected_violations :: "'x contract_env \<Rightarrow> string \<Rightarrow> string list \<Rightarrow> (string \<times> 'x gdata) list \<Rightarrow> contract_violation list" where
  "unexpected_violations ce path names m =
     map (\<lambda>n. schema_violation (join_path path n) ''property defined in schema'' ''unexpected property'' (''unexpected property '' @ n) SeverityLow)
       (filter (\<lambda>n. n \<notin> set names) (ce_data ce path (map fst m)))"

definition string_violations ::
  "'x contract_env \<Rightarrow> string \<Rightarrow> string \<Rightarrow> int option \<Rightarrow> int option \<Rightarrow> string \<Rightarrow> contract_violation list" where
  "string_violations ce path pat min_length max_length s =
     (if pat \<noteq> [] \<and> ce_match ce pat s = Some False
      then [schema_violation path (''pattern: '' @ pat) s (''string does not match pattern at path '' @ path) SeverityMedium] else [])
   @ (case min_length of
        None \<Rightarrow> []
      | Some n \<Rightarrow> if int (length s) < n
          then [schema_violation path (''min length: '' @ dec n) (''length: '' @ dec (int (length s))) (''string too short at path '' @ path)
                  SeverityMedium] else [])
   @ (case max_length of
        None \<Rightarrow> []
      | Some n \<Rightarrow> if n < int (length s)
          then [schema_violation path (''max length: '' @ dec n) (''length: '' @ dec (int (length s))) (''string too long at path '' @ path)
                  SeverityMedium] else [])"

definition number_violations :: "string \<Rightarrow> f64 option \<Rightarrow> f64 option \<Rightarrow> f64 \<Rightarrow> contract_violation list" where
  "number_violations path minimum maximum x =
     (case minimum of
        None \<Rightarrow> []
      | Some b \<Rightarrow> if f64_less x b
          then [schema_violation path (''minimum: '' @ fixed_text 6 b) (''value: '' @ fixed_text 6 x) (''number below minimum at path '' @ path)
                  SeverityMedium] else [])
   @ (case maximum of
        None \<Rightarrow> []
      | Some b \<Rightarrow> if f64_less b x
          then [schema_violation path (''maximum: '' @ fixed_text 6 b) (''value: '' @ fixed_text 6 x) (''number above maximum at path '' @ path)
                  SeverityMedium] else [])"

text \<open>
  The recursion follows the schema. The range over the properties visits them in the order \<open>ce_properties\<close> gives,
  so the lists of violations are put together in that order. A nil schema has no violations.
\<close>

lemma property_size: "(n, Some s) \<in> set props \<Longrightarrow> size s < size_list (size_prod (\<lambda>_. 0) (size_option size)) props"
  by (induction props) auto

function schema_violations :: "'x contract_env \<Rightarrow> bool \<Rightarrow> string \<Rightarrow> 'x json_schema \<Rightarrow> 'x gdata \<Rightarrow> contract_violation list" where
  "schema_violations ce strict path (JSONSchema ty props items req en pat min_length max_length minimum maximum descr) d =
     (if ty \<noteq> [] \<and> ty \<noteq> get_json_type d
      then [schema_violation path (''type: '' @ ty) (''type: '' @ get_json_type d) (''type mismatch at path '' @ path) SeverityMedium]
      else enum_violations ce path en d @
        (if ty = ''object''
         then (case as_map d of
                 None \<Rightarrow> []
               | Some m \<Rightarrow>
                   required_violations path req m
                   @ concat (map snd (ce_properties ce path (map (\<lambda>p.
                       (fst p, case snd p of
                                 None \<Rightarrow> []
                               | Some s \<Rightarrow> (case map_of m (fst p) of
                                   None \<Rightarrow> []
                                 | Some v \<Rightarrow> schema_violations ce strict (join_path path (fst p)) s v))) props)))
                   @ (if strict then unexpected_violations ce path (map fst props) m else []))
         else if ty = ''array''
         then (case as_array d of
                 None \<Rightarrow> []
               | Some xs \<Rightarrow> (case items of
                   None \<Rightarrow> []
                 | Some s \<Rightarrow> concat (map (\<lambda>p. schema_violations ce strict (path @ ''['' @ dec (int (fst p)) @ '']'') s (snd p))
                     (enumerate 0 xs))))
         else if ty = ''string''
         then (case as_text d of None \<Rightarrow> [] | Some s \<Rightarrow> string_violations ce path pat min_length max_length s)
         else if ty = ''number'' \<or> ty = ''integer''
         then (case as_number d of None \<Rightarrow> [] | Some x \<Rightarrow> number_violations path minimum maximum x)
         else []))"
  by pat_completeness auto
termination
  by (relation "measure (\<lambda>(ce, strict, path, s, d). size s)") (auto dest!: property_size)

declare schema_violations.simps [simp del]

definition validate_schema :: "'x contract_env \<Rightarrow> bool \<Rightarrow> 'x json_schema option \<Rightarrow> 'x gdata \<Rightarrow> contract_violation list" where
  "validate_schema ce strict s d = (case s of None \<Rightarrow> [] | Some s \<Rightarrow> schema_violations ce strict [] s d)"

section \<open>Validating a recorded call\<close>

text \<open>\<open>strings.ToUpper\<close>, on the ASCII letters an HTTP method consists of.\<close>

definition upper_char :: "char \<Rightarrow> char" where
  "upper_char c =
     (if 97 \<le> (of_char c :: nat) \<and> (of_char c :: nat) \<le> 122 then char_of ((of_char c :: nat) - 32) else c)"

definition same_method :: "string \<Rightarrow> string \<Rightarrow> bool" where
  "same_method a b \<longleftrightarrow> map upper_char a = map upper_char b"

definition path_matches :: "string \<Rightarrow> string \<Rightarrow> bool" where
  "path_matches contract_path url \<longleftrightarrow> has_suffix url contract_path"

definition endpoint_matches :: "'x endpoint_contract \<Rightarrow> 'x contract_recording \<Rightarrow> bool" where
  "endpoint_matches ep r \<longleftrightarrow> same_method (ke_method ep) (kd_method r) \<and> path_matches (ke_path ep) (kd_url r)"

definition find_matching_endpoint :: "'x contract_env \<Rightarrow> 'x api_contract \<Rightarrow> 'x contract_recording \<Rightarrow> 'x endpoint_contract option" where
  "find_matching_endpoint ce c r =
     map_option snd (find (\<lambda>(n, ep). endpoint_matches ep r) (ce_endpoints ce (kc_endpoints c)))"

definition expected_status_codes :: "'x contract_env \<Rightarrow> 'x endpoint_contract \<Rightarrow> int list" where
  "expected_status_codes ce ep = ce_codes ce (map fst (ke_response_schemas ep))"

definition status_violations :: "'x contract_env \<Rightarrow> 'x endpoint_contract \<Rightarrow> 'x contract_recording \<Rightarrow> contract_violation list" where
  "status_violations ce ep r =
     (case map_of (ke_response_schemas ep) (kd_status r) of
        Some _ \<Rightarrow> []
      | None \<Rightarrow>
          [\<lparr>kn_type = ViolationTypeStatusCode, kn_field = [],
            kn_expected = ''one of '' @ slice_text (map dec (expected_status_codes ce ep)), kn_actual = dec (kd_status r),
            kn_description = ''unexpected status code'', kn_severity = SeverityHigh\<rparr>])"

text \<open>The response headers are compared with the request headers of the contract.\<close>

definition header_violation :: "(string, string) gomap \<Rightarrow> string \<times> string \<Rightarrow> contract_violation list" where
  "header_violation actual = (\<lambda>(h, expected).
     case map_of actual h of
       None \<Rightarrow>
         [\<lparr>kn_type = ViolationTypeHeaders, kn_field = h, kn_expected = ''header present'', kn_actual = ''header missing'',
           kn_description = ''expected header '' @ h @ '' is missing'', kn_severity = SeverityMedium\<rparr>]
     | Some v \<Rightarrow>
         if expected \<noteq> [] \<and> expected \<noteq> v
         then [\<lparr>kn_type = ViolationTypeHeaders, kn_field = h, kn_expected = expected, kn_actual = v,
                kn_description = ''header '' @ h @ '' value mismatch'', kn_severity = SeverityMedium\<rparr>]
         else [])"

definition response_header_violations :: "'x contract_env \<Rightarrow> 'x endpoint_contract \<Rightarrow> 'x contract_recording \<Rightarrow> contract_violation list" where
  "response_header_violations ce ep r =
     concat (map (header_violation (kd_response_headers r)) (ce_headers ce (ke_request_headers ep)))"

definition response_schema_violations ::
  "'x contract_env \<Rightarrow> contract_config \<Rightarrow> 'x endpoint_contract \<Rightarrow> 'x contract_recording \<Rightarrow> contract_violation list" where
  "response_schema_violations ce cfg ep r =
     (case map_of (ke_response_schemas ep) (kd_status r) of
        None \<Rightarrow> []
      | Some s \<Rightarrow> validate_schema ce (kw_strict cfg) s (body_data (kd_response_body r)))"

definition timeout_violations :: "contract_config \<Rightarrow> 'x endpoint_contract \<Rightarrow> 'x contract_recording \<Rightarrow> contract_violation list" where
  "timeout_violations cfg ep r =
     (if 0 < ke_timeout ep \<and> wrap64 (ke_timeout ep + kw_tolerance cfg) < kd_duration r
      then [\<lparr>kn_type = ViolationTypeTimeout, kn_field = [], kn_expected = duration_text (ke_timeout ep),
             kn_actual = duration_text (kd_duration r), kn_description = ''response time exceeded timeout threshold'',
             kn_severity = SeverityMedium\<rparr>]
      else [])"

definition serious :: "contract_violation \<Rightarrow> bool" where
  "serious v \<longleftrightarrow> kn_severity v = SeverityHigh \<or> kn_severity v = SeverityCritical"

definition method_violations :: "'x endpoint_contract \<Rightarrow> 'x contract_recording \<Rightarrow> contract_violation list" where
  "method_violations ep r =
     (if same_method (ke_method ep) (kd_method r) then []
      else [schema_violation ''method'' (ke_method ep) (kd_method r) ''HTTP method mismatch'' SeverityHigh])"

definition response_metrics :: "duration \<Rightarrow> int \<Rightarrow> int \<Rightarrow> contract_metrics" where
  "response_metrics d request response =
     \<lparr>km_response_time = d, km_request_size = request, km_response_size = response, km_retry_count = 0, km_error_rate = Fin 0\<rparr>"

definition validate_endpoint ::
  "'w runtime \<Rightarrow> 'x contract_env \<Rightarrow> contract_config \<Rightarrow> 'x endpoint_contract \<Rightarrow> 'x contract_recording \<Rightarrow> 'w \<Rightarrow> contract_result \<times> 'w" where
  "validate_endpoint rt ce cfg ep r w =
     (case rt_now rt w of (now, w') \<Rightarrow>
        let mv = method_violations ep r;
            vs = mv @ status_violations ce ep r @ response_header_violations ce ep r @ response_schema_violations ce cfg ep r
                   @ timeout_violations cfg ep r
        in (\<lparr>kz_contract = [], kz_endpoint = ke_method ep @ '' '' @ ke_path ep,
             kz_success = (mv = [] \<and> \<not> list_ex serious vs), kz_timestamp = now, kz_violations = vs,
             kz_metrics = response_metrics (kd_duration r) 0 0\<rparr>, w'))"

definition no_endpoint_violation :: "'x contract_recording \<Rightarrow> contract_violation" where
  "no_endpoint_violation r =
     \<lparr>kn_type = ViolationTypeConnectivity, kn_field = [], kn_expected = ''matching endpoint in contract'',
      kn_actual = kd_method r @ '' '' @ kd_url r, kn_description = ''no matching endpoint found in contract'',
      kn_severity = SeverityCritical\<rparr>"

text \<open>\<open>ValidateEndpoint\<close> always returns a nil error.\<close>

definition validate_contract ::
  "'w runtime \<Rightarrow> 'x contract_env \<Rightarrow> contract_config \<Rightarrow> 'x api_contract option \<Rightarrow> 'x contract_recording option \<Rightarrow> ('w, contract_result) io" where
  "validate_contract rt ce cfg c r w =
     (case c of
        None \<Rightarrow> (Inl (Msg ''contract cannot be nil''), w)
      | Some c \<Rightarrow> (case r of
          None \<Rightarrow> (Inl (Msg ''recording cannot be nil''), w)
        | Some r \<Rightarrow> (case rt_now rt w of (now, w1) \<Rightarrow>
            let res = \<lparr>kz_contract = kc_name c, kz_endpoint = kd_method r @ '' '' @ kd_url r, kz_success = True, kz_timestamp = now,
                  kz_violations = [],
                  kz_metrics = response_metrics (kd_duration r) (int (length (data_text (ce_text ce) (body_data (kd_request_body r)))))
                    (int (length (data_text (ce_text ce) (body_data (kd_response_body r)))))\<rparr>
            in (case find_matching_endpoint ce c r of
                  None \<Rightarrow> (Inr (res\<lparr>kz_violations := [no_endpoint_violation r], kz_success := False\<rparr>), w1)
                | Some ep \<Rightarrow> (case validate_endpoint rt ce cfg ep r w1 of (e, w2) \<Rightarrow>
                    (Inr (res\<lparr>kz_violations := kz_violations e, kz_success := kz_success e\<rparr>), w2))))))"

section \<open>When a validation succeeds\<close>

lemma method_violations_serious: "v \<in> set (method_violations ep r) \<Longrightarrow> serious v"
  by (simp add: method_violations_def schema_violation_def serious_def split: if_splits)

lemma validate_endpoint_success:
  assumes "validate_endpoint rt ce cfg ep r w = (res, w')"
  shows "kz_success res \<longleftrightarrow> (\<forall>v \<in> set (kz_violations res). \<not> serious v)"
proof -
  obtain now w1 where now: "rt_now rt w = (now, w1)" by (metis surj_pair)
  note res = assms [unfolded validate_endpoint_def now prod.case Let_def, THEN arg_cong [where f = fst], unfolded fst_conv, symmetric]
  have ok: "kz_success res \<longleftrightarrow> method_violations ep r = [] \<and> \<not> list_ex serious (kz_violations res)"
    unfolding res by simp
  have sub: "set (method_violations ep r) \<subseteq> set (kz_violations res)" unfolding res by simp
  show ?thesis
  proof (cases "method_violations ep r")
    case Nil
    then show ?thesis using ok by (simp add: list_ex_iff)
  next
    case (Cons v vs)
    then have "v \<in> set (kz_violations res)" "serious v" using sub method_violations_serious [of v ep r] by simp_all
    then show ?thesis using ok Cons by auto
  qed
qed

lemma validate_contract_success:
  assumes "validate_contract rt ce cfg c r w = (Inr res, w')"
  shows "kz_success res \<longleftrightarrow> (\<forall>v \<in> set (kz_violations res). \<not> serious v)"
proof -
  obtain c' r' where cr: "c = Some c'" "r = Some r'" using assms by (cases c; cases r; simp add: validate_contract_def)
  obtain now w1 where now: "rt_now rt w = (now, w1)" by (metis surj_pair)
  show ?thesis
  proof (cases "find_matching_endpoint ce c' r'")
    case None
    then show ?thesis using assms cr now by (auto simp: validate_contract_def Let_def serious_def no_endpoint_violation_def)
  next
    case (Some ep)
    obtain e w2 where e: "validate_endpoint rt ce cfg ep r' w1 = (e, w2)" by (metis surj_pair)
    have "kz_success res = kz_success e" "kz_violations res = kz_violations e"
      using assms cr now Some e by (auto simp: validate_contract_def Let_def)
    then show ?thesis using validate_endpoint_success [OF e] by simp
  qed
qed

lemma find_matching_none:
  assumes "iteration_order (ce_endpoints ce)" and "\<forall>(n, ep) \<in> set (kc_endpoints c). \<not> endpoint_matches ep r"
  shows "find_matching_endpoint ce c r = None"
  using assms by (auto simp: find_matching_endpoint_def find_None_iff)

lemma validate_contract_runs:
  obtains res w' where "validate_contract rt ce cfg (Some c) (Some r) w = (Inr res, w')"
  by (cases "validate_contract rt ce cfg (Some c) (Some r) w") (auto simp: validate_contract_def Let_def split: option.splits prod.splits)

section \<open>What conforms to a schema\<close>

text \<open>The schema language, without paths, orders and messages. \<open>m\<close> is \<open>regexp.MatchString\<close>.\<close>

definition enum_ok :: "'x gdata list \<Rightarrow> 'x gdata \<Rightarrow> bool" where
  "enum_ok en d \<longleftrightarrow> en = [] \<or> (\<exists>e \<in> set en. deep_equal d e)"

definition string_ok :: "(string \<Rightarrow> string \<Rightarrow> bool option) \<Rightarrow> string \<Rightarrow> int option \<Rightarrow> int option \<Rightarrow> string \<Rightarrow> bool" where
  "string_ok m pat min_length max_length s \<longleftrightarrow> (pat = [] \<or> m pat s \<noteq> Some False)
     \<and> (\<forall>n. min_length = Some n \<longrightarrow> n \<le> int (length s)) \<and> (\<forall>n. max_length = Some n \<longrightarrow> int (length s) \<le> n)"

definition number_ok :: "f64 option \<Rightarrow> f64 option \<Rightarrow> f64 \<Rightarrow> bool" where
  "number_ok minimum maximum x \<longleftrightarrow> (\<forall>b. minimum = Some b \<longrightarrow> \<not> f64_less x b) \<and> (\<forall>b. maximum = Some b \<longrightarrow> \<not> f64_less b x)"

inductive conforms :: "(string \<Rightarrow> string \<Rightarrow> bool option) \<Rightarrow> bool \<Rightarrow> 'x json_schema \<Rightarrow> 'x gdata \<Rightarrow> bool" for m strict where
  any_value: "\<lbrakk>js_type s = []; enum_ok (js_enum s) d\<rbrakk> \<Longrightarrow> conforms m strict s d"
| null_value: "\<lbrakk>js_type s = ''null''; enum_ok (js_enum s) DNil\<rbrakk> \<Longrightarrow> conforms m strict s DNil"
| boolean_value: "\<lbrakk>js_type s = ''boolean''; enum_ok (js_enum s) (DBool b)\<rbrakk> \<Longrightarrow> conforms m strict s (DBool b)"
| unknown_value: "\<lbrakk>js_type s = ''unknown''; enum_ok (js_enum s) (DOther x)\<rbrakk> \<Longrightarrow> conforms m strict s (DOther x)"
| text_value: "\<lbrakk>js_type s = ''string''; enum_ok (js_enum s) (DString t); string_ok m (js_pattern s) (js_min_length s) (js_max_length s) t\<rbrakk>
    \<Longrightarrow> conforms m strict s (DString t)"
| number_value: "\<lbrakk>js_type s = ''number''; enum_ok (js_enum s) d; as_number d = Some x; number_ok (js_minimum s) (js_maximum s) x\<rbrakk>
    \<Longrightarrow> conforms m strict s d"
| array_value: "\<lbrakk>js_type s = ''array''; enum_ok (js_enum s) d; as_array d = Some xs;
      \<And>i x. js_items s = Some i \<Longrightarrow> x \<in> set xs \<Longrightarrow> conforms m strict i x\<rbrakk> \<Longrightarrow> conforms m strict s d"
| object_value: "\<lbrakk>js_type s = ''object''; enum_ok (js_enum s) d; as_map d = Some ps; set (js_required s) \<subseteq> fst ` set ps;
      \<And>n p v. (n, Some p) \<in> set (js_properties s) \<Longrightarrow> map_of ps n = Some v \<Longrightarrow> conforms m strict p v;
      strict \<Longrightarrow> fst ` set ps \<subseteq> fst ` set (js_properties s)\<rbrakk> \<Longrightarrow> conforms m strict s d"

inductive_cases conformsE: "conforms m strict s d"

lemma as_map_type: "as_map d = Some m \<Longrightarrow> get_json_type d = ''object''"
  by (cases d) auto

lemma as_array_type: "as_array d = Some xs \<Longrightarrow> get_json_type d = ''array''"
  by (cases d) auto

lemma as_number_type: "as_number d = Some x \<Longrightarrow> get_json_type d = ''number''"
  by (cases d) auto

lemma type_as:
  "get_json_type d = ''object'' \<Longrightarrow> \<exists>m. as_map d = Some m"
  "get_json_type d = ''array'' \<Longrightarrow> \<exists>xs. as_array d = Some xs"
  "get_json_type d = ''number'' \<Longrightarrow> \<exists>x. as_number d = Some x"
  "get_json_type d = ''string'' \<Longrightarrow> \<exists>t. d = DString t"
  "get_json_type d = ''null'' \<Longrightarrow> d = DNil"
  "get_json_type d = ''boolean'' \<Longrightarrow> \<exists>b. d = DBool b"
  "get_json_type d = ''unknown'' \<Longrightarrow> \<exists>x. d = DOther x"
  by (cases d; simp)+

lemma get_json_type_cases:
  obtains "get_json_type d = ''object''" | "get_json_type d = ''array''" | "get_json_type d = ''number''" | "get_json_type d = ''string''"
    | "get_json_type d = ''null''" | "get_json_type d = ''boolean''" | "get_json_type d = ''unknown''"
  by (cases d) auto

text \<open>What the type of the schema asks for, once the value has it.\<close>

definition content_ok :: "(string \<Rightarrow> string \<Rightarrow> bool option) \<Rightarrow> bool \<Rightarrow> 'x json_schema \<Rightarrow> 'x gdata \<Rightarrow> bool" where
  "content_ok m strict s d \<longleftrightarrow>
     (\<forall>t. js_type s = ''string'' \<and> d = DString t \<longrightarrow> string_ok m (js_pattern s) (js_min_length s) (js_max_length s) t)
   \<and> (\<forall>x. js_type s = ''number'' \<and> as_number d = Some x \<longrightarrow> number_ok (js_minimum s) (js_maximum s) x)
   \<and> (\<forall>xs i x. js_type s = ''array'' \<and> as_array d = Some xs \<and> js_items s = Some i \<and> x \<in> set xs \<longrightarrow> conforms m strict i x)
   \<and> (\<forall>ps. js_type s = ''object'' \<and> as_map d = Some ps \<longrightarrow> set (js_required s) \<subseteq> fst ` set ps
        \<and> (\<forall>n p v. (n, Some p) \<in> set (js_properties s) \<and> map_of ps n = Some v \<longrightarrow> conforms m strict p v)
        \<and> (strict \<longrightarrow> fst ` set ps \<subseteq> fst ` set (js_properties s)))"

lemma conforms_iff:
  "conforms m strict s d \<longleftrightarrow> (js_type s = [] \<or> js_type s = get_json_type d) \<and> enum_ok (js_enum s) d \<and> content_ok m strict s d"
proof
  assume "conforms m strict s d"
  then show "(js_type s = [] \<or> js_type s = get_json_type d) \<and> enum_ok (js_enum s) d \<and> content_ok m strict s d"
    by (cases rule: conforms.cases) (auto simp: content_ok_def as_map_type as_array_type as_number_type)
next
  assume a: "(js_type s = [] \<or> js_type s = get_json_type d) \<and> enum_ok (js_enum s) d \<and> content_ok m strict s d"
  then have en: "enum_ok (js_enum s) d" and ok: "content_ok m strict s d" by simp_all
  show "conforms m strict s d"
  proof (cases "js_type s = []")
    case True
    then show ?thesis using en by (rule any_value)
  next
    case False
    then have ty: "js_type s = get_json_type d" using a by simp
    show ?thesis
    proof (rule get_json_type_cases [of d])
      assume t: "get_json_type d = ''object''"
      then obtain ps where ps: "as_map d = Some ps" using type_as(1) by blast
      show ?thesis
        by (rule object_value [OF ty [unfolded t] en ps]) (use ok ty t ps in \<open>auto simp: content_ok_def\<close>)
    next
      assume t: "get_json_type d = ''array''"
      then obtain xs where xs: "as_array d = Some xs" using type_as(2) by blast
      show ?thesis
        by (rule array_value [OF ty [unfolded t] en xs]) (use ok ty t xs in \<open>auto simp: content_ok_def\<close>)
    next
      assume t: "get_json_type d = ''number''"
      then obtain x where x: "as_number d = Some x" using type_as(3) by blast
      show ?thesis
        by (rule number_value [OF ty [unfolded t] en x]) (use ok ty t x in \<open>auto simp: content_ok_def\<close>)
    next
      assume t: "get_json_type d = ''string''"
      then obtain x where x: "d = DString x" using type_as(4) by blast
      show ?thesis unfolding x
        by (rule text_value [OF ty [unfolded t] en [unfolded x]]) (use ok ty t x in \<open>auto simp: content_ok_def\<close>)
    next
      assume t: "get_json_type d = ''null''"
      then have "d = DNil" by (rule type_as(5))
      then show ?thesis using null_value ty t en by simp
    next
      assume t: "get_json_type d = ''boolean''"
      then obtain b where "d = DBool b" using type_as(6) by blast
      then show ?thesis using boolean_value ty t en by simp
    next
      assume t: "get_json_type d = ''unknown''"
      then obtain x where "d = DOther x" using type_as(7) by blast
      then show ?thesis using unknown_value ty t en by simp
    qed
  qed
qed

lemma conforms_objectE:
  assumes "conforms m strict s d" and "js_type s = ''object''"
  obtains ps where "as_map d = Some ps" and "set (js_required s) \<subseteq> fst ` set ps"
    and "\<And>n p v. (n, Some p) \<in> set (js_properties s) \<Longrightarrow> map_of ps n = Some v \<Longrightarrow> conforms m strict p v"
proof -
  have ty: "get_json_type d = ''object''" and ok: "content_ok m strict s d" using assms by (auto simp: conforms_iff [of m strict s d])
  obtain ps where ps: "as_map d = Some ps" using type_as(1) [OF ty] by blast
  show ?thesis using ok assms(2) ps unfolding content_ok_def by (intro that [OF ps]) blast+
qed

section \<open>The validation is exact\<close>

definition map_orders :: "'x contract_env \<Rightarrow> bool" where
  "map_orders ce \<longleftrightarrow> (\<forall>path. iteration_order (ce_properties ce path)) \<and> (\<forall>path. iteration_order (ce_data ce path))"

lemma enum_violations_empty: "enum_violations ce path en d = [] \<longleftrightarrow> enum_ok en d"
  by (auto simp: enum_violations_def enum_ok_def list_ex_iff)

lemma required_violations_empty: "required_violations path req m = [] \<longleftrightarrow> set req \<subseteq> fst ` set m"
  by (auto simp: required_violations_def filter_empty_conv map_of_eq_None_iff)

lemma unexpected_violations_empty:
  "map_orders ce \<Longrightarrow> unexpected_violations ce path names m = [] \<longleftrightarrow> fst ` set m \<subseteq> set names"
  by (auto simp: unexpected_violations_def map_orders_def filter_empty_conv)

lemma string_violations_empty:
  "string_violations ce path pat mi ma s = [] \<longleftrightarrow> string_ok (ce_match ce) pat mi ma s"
  by (auto simp: string_violations_def string_ok_def split: option.splits)

lemma number_violations_empty: "number_violations path mi ma x = [] \<longleftrightarrow> number_ok mi ma x"
  by (auto simp: number_violations_def number_ok_def split: option.splits)

lemma properties_empty:
  "map_orders ce \<Longrightarrow> concat (map snd (ce_properties ce path xs)) = [] \<longleftrightarrow> (\<forall>x \<in> set xs. snd x = [])"
  by (auto simp: map_orders_def)

lemma mismatch_empty:
  assumes "js_type s \<noteq> []" and "js_type s \<noteq> get_json_type d"
  shows "schema_violations ce strict path s d \<noteq> []" and "\<not> conforms m strict s d"
proof -
  show "schema_violations ce strict path s d \<noteq> []" using assms by (cases s) (simp add: schema_violations.simps)
  show "\<not> conforms m strict s d" using assms by (subst conforms_iff) simp
qed

lemma object_violations:
  assumes "ty = ''object''" and "get_json_type d = ''object''" and "as_map d = Some ps"
  shows "schema_violations ce strict path (JSONSchema ty props items req en pat mi ma lo hi descr) d =
    enum_violations ce path en d @ required_violations path req ps
    @ concat (map snd (ce_properties ce path (map (\<lambda>p. (fst p, case snd p of None \<Rightarrow> [] | Some s \<Rightarrow> (case map_of ps (fst p) of None \<Rightarrow> []
          | Some v \<Rightarrow> schema_violations ce strict (join_path path (fst p)) s v))) props)))
    @ (if strict then unexpected_violations ce path (map fst props) ps else [])"
  using assms by (subst schema_violations.simps) simp

lemma array_violations:
  assumes "ty = ''array''" and "get_json_type d = ''array''" and "as_array d = Some xs"
  shows "schema_violations ce strict path (JSONSchema ty props items req en pat mi ma lo hi descr) d =
    enum_violations ce path en d @ (case items of None \<Rightarrow> [] | Some s \<Rightarrow>
      concat (map (\<lambda>p. schema_violations ce strict (path @ ''['' @ dec (int (fst p)) @ '']'') s (snd p)) (enumerate 0 xs)))"
  using assms by (subst schema_violations.simps) simp

lemma scalar_violations_empty:
  assumes "js_type s \<noteq> ''object''" and "js_type s \<noteq> ''array''" and "js_type s = [] \<or> js_type s = get_json_type d"
  shows "schema_violations ce strict path s d = [] \<longleftrightarrow> conforms (ce_match ce) strict s d"
proof (cases s)
  case (JSONSchema ty props items req en pat mi ma lo hi descr)
  have ty: "ty \<noteq> ''object''" "ty \<noteq> ''array''" "\<not> (ty \<noteq> [] \<and> ty \<noteq> get_json_type d)" using assms JSONSchema by auto
  have c: "conforms (ce_match ce) strict s d \<longleftrightarrow> enum_ok en d
      \<and> (\<forall>t. ty = ''string'' \<and> d = DString t \<longrightarrow> string_ok (ce_match ce) pat mi ma t)
      \<and> (\<forall>x. ty = ''number'' \<and> as_number d = Some x \<longrightarrow> number_ok lo hi x)"
    using ty JSONSchema by (subst conforms_iff) (auto simp: content_ok_def)
  have v: "schema_violations ce strict path s d = enum_violations ce path en d @
      (if ty = ''string'' then (case as_text d of None \<Rightarrow> [] | Some s \<Rightarrow> string_violations ce path pat mi ma s)
       else if ty = ''number'' \<or> ty = ''integer'' then (case as_number d of None \<Rightarrow> [] | Some x \<Rightarrow> number_violations path lo hi x) else [])"
    unfolding JSONSchema schema_violations.simps if_not_P [OF ty(3)] if_not_P [OF ty(1)] if_not_P [OF ty(2)] ..
  have "get_json_type d \<noteq> ''integer''" by (cases d) simp_all
  then have "ty \<noteq> ''integer''" using ty(3) by auto
  then show ?thesis unfolding c v using ty(3)
    by (cases d) (simp_all add: enum_violations_empty string_violations_empty number_violations_empty split: if_split)
qed

lemma schema_violations_empty:
  assumes "map_orders ce"
  shows "schema_violations ce strict path s d = [] \<longleftrightarrow> conforms (ce_match ce) strict s d"
  using assms
proof (induction ce strict path s d rule: schema_violations.induct)
  case (1 ce strict path ty props items req en pat mi ma lo hi descr d)
  note orders = 1(3)
  let ?s = "JSONSchema ty props items req en pat mi ma lo hi descr"
  consider "ty \<noteq> []" "ty \<noteq> get_json_type d" | "ty = ''object''" "get_json_type d = ''object''"
    | "ty = ''array''" "get_json_type d = ''array''" | "ty = [] \<or> ty = get_json_type d" "ty \<noteq> ''object''" "ty \<noteq> ''array''"
    by (cases "ty = get_json_type d"; cases "ty = ''object''"; cases "ty = ''array''") auto
  then show ?case
  proof cases
    case 1
    then show ?thesis using mismatch_empty [of ?s d] by simp
  next
    case 2
    then have ok: "\<not> (ty \<noteq> [] \<and> ty \<noteq> get_json_type d)" by simp
    obtain ps where ps: "as_map d = Some ps" using 2 type_as(1) by blast
    have props: "(schema_violations ce strict (join_path path n) p v = []) = conforms (ce_match ce) strict p v"
      if "(n, Some p) \<in> set props" "map_of ps n = Some v" for n p v
      using 1(1) [OF ok 2(1) ps that(1)] that(2) orders by simp
    let ?vs = "\<lambda>p. case snd p of None \<Rightarrow> [] | Some s \<Rightarrow> (case map_of ps (fst p) of None \<Rightarrow> []
        | Some v \<Rightarrow> schema_violations ce strict (join_path path (fst p)) s v)"
    have "(\<forall>p \<in> set props. ?vs p = []) \<longleftrightarrow>
        (\<forall>n p v. (n, Some p) \<in> set props \<and> map_of ps n = Some v \<longrightarrow> conforms (ce_match ce) strict p v)"
    proof (intro iffI ballI allI impI)
      fix n p v assume all: "\<forall>p \<in> set props. ?vs p = []" and np: "(n, Some p) \<in> set props \<and> map_of ps n = Some v"
      then have "?vs (n, Some p) = []" by blast
      then show "conforms (ce_match ce) strict p v" using np props [of n p v] by simp
    next
      fix p assume all: "\<forall>n p v. (n, Some p) \<in> set props \<and> map_of ps n = Some v \<longrightarrow> conforms (ce_match ce) strict p v"
        and p: "p \<in> set props"
      show "?vs p = []"
      proof (cases "snd p")
        case (Some s)
        then have s: "(fst p, Some s) \<in> set props" using p by (metis prod.collapse)
        then show ?thesis using Some all props [OF s] by (simp split: option.split)
      qed simp
    qed
    then have p: "concat (map snd (ce_properties ce path (map (\<lambda>p. (fst p, ?vs p)) props))) = [] \<longleftrightarrow>
        (\<forall>n p v. (n, Some p) \<in> set props \<and> map_of ps n = Some v \<longrightarrow> conforms (ce_match ce) strict p v)"
      unfolding properties_empty [OF orders] by simp
    have c: "conforms (ce_match ce) strict ?s d \<longleftrightarrow> enum_ok en d \<and> set req \<subseteq> fst ` set ps
        \<and> (\<forall>n p v. (n, Some p) \<in> set props \<and> map_of ps n = Some v \<longrightarrow> conforms (ce_match ce) strict p v)
        \<and> (strict \<longrightarrow> fst ` set ps \<subseteq> fst ` set props)"
      using 2 ps by (subst conforms_iff) (simp add: content_ok_def)
    show ?thesis unfolding object_violations [OF 2 ps] append_is_Nil_conv c enum_violations_empty required_violations_empty p
      using unexpected_violations_empty [OF orders, of path "map fst props" ps] by (simp split: if_split)
  next
    case 3
    then have ok: "\<not> (ty \<noteq> [] \<and> ty \<noteq> get_json_type d)" "ty \<noteq> ''object''" by simp_all
    obtain xs where xs: "as_array d = Some xs" using 3 type_as(2) by blast
    have c: "conforms (ce_match ce) strict ?s d \<longleftrightarrow> enum_ok en d
        \<and> (\<forall>i x. items = Some i \<and> x \<in> set xs \<longrightarrow> conforms (ce_match ce) strict i x)"
      using 3 xs by (subst conforms_iff) (simp add: content_ok_def)
    show ?thesis
    proof (cases items)
      case None
      then show ?thesis unfolding array_violations [OF 3 xs] c by (simp add: enum_violations_empty)
    next
      case (Some i)
      have "(schema_violations ce strict (path @ ''['' @ dec (int (fst p)) @ '']'') i (snd p) = []) = conforms (ce_match ce) strict i (snd p)"
        if "p \<in> set (enumerate 0 xs)" for p
        using 1(2) [OF ok 3(1) xs Some that] orders by simp
      then have "(\<forall>p \<in> set (enumerate 0 xs). schema_violations ce strict (path @ ''['' @ dec (int (fst p)) @ '']'') i (snd p) = [])
          \<longleftrightarrow> (\<forall>p \<in> set (enumerate 0 xs). conforms (ce_match ce) strict i (snd p))" by blast
      also have "\<dots> \<longleftrightarrow> (\<forall>x \<in> snd ` set (enumerate 0 xs). conforms (ce_match ce) strict i x)" by blast
      also have "snd ` set (enumerate 0 xs) = set xs" using map_snd_enumerate [of 0 xs] by (metis list.set_map)
      finally show ?thesis unfolding array_violations [OF 3 xs] c append_is_Nil_conv enum_violations_empty
        using Some by simp blast
    qed
  next
    case 4
    then show ?thesis by (intro scalar_violations_empty) simp_all
  qed
qed

end
