(* ===== verification/GithubContracts.thy ===== *)
theory GithubContracts
  imports ContractValidator
begin

text \<open>
  The contracts of the GitHub API (github_contracts.go), and what the validator makes of them: no response with a
  success status satisfies its contract, and the contracts of issues and pull requests match no real URL.
\<close>

section \<open>Schemas\<close>

text \<open>Composite literals leave the other fields at their zero values.\<close>

definition of_type :: "string \<Rightarrow> 'x json_schema" where
  "of_type t = JSONSchema t [] None [] [] [] None None None None []"

definition text_of :: "int option \<Rightarrow> int option \<Rightarrow> 'x json_schema" where
  "text_of min_length max_length = JSONSchema ''string'' [] None [] [] [] min_length max_length None None []"

definition text_in :: "string list \<Rightarrow> 'x json_schema" where
  "text_in xs = JSONSchema ''string'' [] None [] (map DString xs) [] None None None None []"

definition array_of :: "'x json_schema \<Rightarrow> 'x json_schema" where
  "array_of s = JSONSchema ''array'' [] (Some s) [] [] [] None None None None []"

definition object_of :: "(string \<times> 'x json_schema) list \<Rightarrow> string list \<Rightarrow> 'x json_schema" where
  "object_of props req = JSONSchema ''object'' (map (\<lambda>(n, s). (n, Some s)) props) None req [] [] None None None None []"

definition user_schema :: "'x json_schema" where
  "user_schema = object_of
     [(''login'', of_type ''string''), (''id'', of_type ''integer''), (''name'', of_type ''string''), (''email'', of_type ''string''),
      (''public_repos'', of_type ''integer''), (''followers'', of_type ''integer''), (''following'', of_type ''integer''),
      (''created_at'', of_type ''string''), (''updated_at'', of_type ''string'')]
     [''login'', ''id'']"

definition repository_schema :: "'x json_schema" where
  "repository_schema = object_of
     [(''id'', of_type ''integer''), (''name'', of_type ''string''), (''full_name'', of_type ''string''),
      (''description'', of_type ''string''), (''private'', of_type ''boolean''), (''html_url'', of_type ''string''),
      (''clone_url'', of_type ''string''), (''created_at'', of_type ''string''), (''updated_at'', of_type ''string''),
      (''pushed_at'', of_type ''string''), (''size'', of_type ''integer''), (''language'', of_type ''string''), (''owner'', user_schema)]
     [''id'', ''name'', ''full_name'', ''owner'']"

definition repository_list_schema :: "'x json_schema" where
  "repository_list_schema = array_of repository_schema"

definition label_list_schema :: "'x json_schema" where
  "label_list_schema = array_of (object_of
     [(''id'', of_type ''integer''), (''name'', of_type ''string''), (''color'', of_type ''string'')] [''id'', ''name'', ''color''])"

definition issue_schema :: "'x json_schema" where
  "issue_schema = object_of
     [(''id'', of_type ''integer''), (''number'', of_type ''integer''), (''title'', of_type ''string''), (''body'', of_type ''string''),
      (''state'', text_in [''open'', ''closed'']), (''user'', user_schema), (''assignee'', user_schema), (''labels'', label_list_schema),
      (''created_at'', of_type ''string''), (''updated_at'', of_type ''string''), (''closed_at'', of_type ''string'')]
     [''id'', ''number'', ''title'', ''state'', ''user'']"

definition issue_list_schema :: "'x json_schema" where
  "issue_list_schema = array_of issue_schema"

definition branch_schema :: "'x json_schema" where
  "branch_schema = object_of
     [(''ref'', of_type ''string''), (''sha'', of_type ''string''), (''repo'', repository_schema)] [''ref'', ''sha'']"

definition pull_request_schema :: "'x json_schema" where
  "pull_request_schema = object_of
     [(''id'', of_type ''integer''), (''number'', of_type ''integer''), (''title'', of_type ''string''), (''body'', of_type ''string''),
      (''state'', text_in [''open'', ''closed'']), (''user'', user_schema), (''head'', branch_schema), (''base'', branch_schema),
      (''mergeable'', of_type ''boolean''), (''created_at'', of_type ''string''), (''updated_at'', of_type ''string''),
      (''merged_at'', of_type ''string'')]
     [''id'', ''number'', ''title'', ''state'', ''user'', ''head'', ''base'']"

definition pull_request_list_schema :: "'x json_schema" where
  "pull_request_list_schema = array_of pull_request_schema"

definition create_repo_schema :: "'x json_schema" where
  "create_repo_schema = object_of
     [(''name'', text_of (Some 1) (Some 100)), (''description'', of_type ''string''), (''private'', of_type ''boolean''),
      (''auto_init'', of_type ''boolean'')]
     [''name'']"

definition create_issue_schema :: "'x json_schema" where
  "create_issue_schema = object_of
     [(''title'', text_of (Some 1) None), (''body'', of_type ''string''), (''assignees'', array_of (of_type ''string'')),
      (''labels'', array_of (of_type ''string''))]
     [''title'']"

definition create_pull_request_schema :: "'x json_schema" where
  "create_pull_request_schema = object_of
     [(''title'', text_of (Some 1) None), (''body'', of_type ''string''), (''head'', of_type ''string''), (''base'', of_type ''string'')]
     [''title'', ''head'', ''base'']"

definition error_schema :: "'x json_schema" where
  "error_schema = object_of [(''message'', of_type ''string''), (''documentation_url'', of_type ''string'')] [''message'']"

definition validation_error_schema :: "'x json_schema" where
  "validation_error_schema = object_of
     [(''message'', of_type ''string''),
      (''errors'', array_of (object_of [(''resource'', of_type ''string''), (''field'', of_type ''string''), (''code'', of_type ''string'')] []))]
     [''message'']"

section \<open>Endpoints\<close>

definition endpoint_of :: "string \<Rightarrow> string \<Rightarrow> int \<Rightarrow> (int \<times> 'x json_schema) list \<Rightarrow> 'x endpoint_contract" where
  "endpoint_of method path seconds schemas =
     \<lparr>ke_method = method, ke_path = path, ke_query = [], ke_request_headers = [], ke_request_schema = None,
      ke_response_schemas = map (\<lambda>(c, s). (c, Some s)) schemas, ke_examples = [], ke_timeout = seconds * second, ke_rate_limiting = None\<rparr>"

definition optional_param :: "string \<Rightarrow> string \<Rightarrow> string list \<Rightarrow> string \<Rightarrow> param_spec" where
  "optional_param t dflt en descr =
     \<lparr>kp_type = t, kp_required = False, kp_default = dflt, kp_enum = en, kp_description = descr\<rparr>"

definition user_example :: "'x example_request" where
  "user_example =
     \<lparr>kx_name = ''get-authenticated-user'', kx_description = ''Get details about the authenticated user'',
      kx_request = \<lparr>kq_query = [], kq_headers = [(''Authorization'', ''Bearer token'')], kq_body = []\<rparr>,
      kx_response = \<lparr>ks_status = 200, ks_headers = [], ks_body =
        [(''login'', DString ''octocat''), (''id'', DInt 1), (''name'', DString ''The Octocat''), (''email'', DString ''octocat@github.com''),
         (''public_repos'', DInt 8), (''followers'', DInt 20), (''following'', DInt 0)]\<rparr>,
      kx_prerequisites = []\<rparr>"

definition github_endpoints :: "(string, 'x endpoint_contract) gomap" where
  "github_endpoints =
     [(''get-user'',
       (endpoint_of ''GET'' ''/user'' 5 [(200, user_schema), (401, error_schema), (403, error_schema)])\<lparr>ke_examples := [user_example]\<rparr>),
      (''list-repos'',
       (endpoint_of ''GET'' ''/user/repos'' 10 [(200, repository_list_schema), (401, error_schema), (403, error_schema)])
         \<lparr>ke_query :=
           [(''type'', optional_param ''string'' ''owner'' [''all'', ''owner'', ''public'', ''private'', ''member''] ''Repository type filter''),
            (''sort'', optional_param ''string'' ''full_name'' [''created'', ''updated'', ''pushed'', ''full_name''] ''Sort repositories by''),
            (''per_page'', optional_param ''integer'' ''30'' [] ''Results per page (max 100)'')]\<rparr>)]"

definition repo_endpoints :: "(string, 'x endpoint_contract) gomap" where
  "repo_endpoints =
     [(''get-repo'', endpoint_of ''GET'' ''/repos/{owner}/{repo}'' 5 [(200, repository_schema), (404, error_schema)]),
      (''create-repo'',
       (endpoint_of ''POST'' ''/user/repos'' 10 [(201, repository_schema), (400, error_schema), (422, validation_error_schema)])
         \<lparr>ke_request_schema := Some create_repo_schema\<rparr>)]"

definition issue_endpoints :: "(string, 'x endpoint_contract) gomap" where
  "issue_endpoints =
     [(''list-issues'',
       (endpoint_of ''GET'' ''/repos/{owner}/{repo}/issues'' 10 [(200, issue_list_schema), (404, error_schema)])
         \<lparr>ke_query :=
           [(''state'', optional_param ''string'' ''open'' [''open'', ''closed'', ''all''] ''Issue state filter''),
            (''labels'', optional_param ''string'' [] [] ''Comma-separated list of label names''),
            (''sort'', optional_param ''string'' ''created'' [''created'', ''updated'', ''comments''] ''Sort issues by''),
            (''per_page'', optional_param ''integer'' ''30'' [] ''Results per page (max 100)'')]\<rparr>),
      (''create-issue'',
       (endpoint_of ''POST'' ''/repos/{owner}/{repo}/issues'' 10 [(201, issue_schema), (400, error_schema), (422, validation_error_schema)])
         \<lparr>ke_request_schema := Some create_issue_schema\<rparr>),
      (''get-issue'', endpoint_of ''GET'' ''/repos/{owner}/{repo}/issues/{issue_number}'' 5 [(200, issue_schema), (404, error_schema)])]"

definition pull_request_endpoints :: "(string, 'x endpoint_contract) gomap" where
  "pull_request_endpoints =
     [(''list-pull-requests'',
       (endpoint_of ''GET'' ''/repos/{owner}/{repo}/pulls'' 10 [(200, pull_request_list_schema), (404, error_schema)])
         \<lparr>ke_query :=
           [(''state'', optional_param ''string'' ''open'' [''open'', ''closed'', ''all''] ''Pull request state filter''),
            (''sort'', optional_param ''string'' ''created'' [''created'', ''updated'', ''popularity'', ''long-running''] ''Sort pull requests by'')]\<rparr>),
      (''create-pull-request'',
       (endpoint_of ''POST'' ''/repos/{owner}/{repo}/pulls'' 10 [(201, pull_request_schema), (422, validation_error_schema)])
         \<lparr>ke_request_schema := Some create_pull_request_schema\<rparr>),
      (''get-pull-request'', endpoint_of ''GET'' ''/repos/{owner}/{repo}/pulls/{pull_number}'' 5 [(200, pull_request_schema), (404, error_schema)])]"

section \<open>Contracts\<close>

definition github_contract :: "string \<Rightarrow> instant \<Rightarrow> string \<Rightarrow> (string, 'x endpoint_contract) gomap \<Rightarrow> 'x api_contract" where
  "github_contract name now descr endpoints =
     \<lparr>kc_name = name, kc_base_url = ''https://api.github.com'',
      kc_version = \<lparr>kv_version = ''2022-11-28'', kv_created_at = now, kv_description = descr\<rparr>,
      kc_endpoints = endpoints, kc_headers = [], kc_auth = \<lparr>ka_type = [], ka_config = []\<rparr>\<rparr>"

definition github_api_contract :: "instant \<Rightarrow> 'x api_contract" where
  "github_api_contract now =
     (github_contract ''github-api'' now ''GitHub REST API v3 contract'' github_endpoints)
       \<lparr>kc_headers := [(''Accept'', ''application/vnd.github.v3+json''), (''User-Agent'', ''agentbrain/1.0'')],
        kc_auth := \<lparr>ka_type = ''bearer'', ka_config = [(''token_header'', ''Authorization''), (''token_prefix'', ''Bearer'')]\<rparr>\<rparr>"

definition repos_contract :: "instant \<Rightarrow> 'x api_contract" where
  "repos_contract now = github_contract ''github-repos'' now ''GitHub Repositories API contract'' repo_endpoints"

definition issues_contract :: "instant \<Rightarrow> 'x api_contract" where
  "issues_contract now = github_contract ''github-issues'' now ''GitHub Issues API contract'' issue_endpoints"

definition pull_requests_contract :: "instant \<Rightarrow> 'x api_contract" where
  "pull_requests_contract now =
     github_contract ''github-pull-requests'' now ''GitHub Pull Requests API contract'' pull_request_endpoints"

definition github_suite :: "'w runtime \<Rightarrow> 'w \<Rightarrow> (string, 'x api_contract) gomap \<times> 'w" where
  "github_suite rt w =
     (case rt_now rt w of (n1, w1) \<Rightarrow> case rt_now rt w1 of (n2, w2) \<Rightarrow> case rt_now rt w2 of (n3, w3) \<Rightarrow> case rt_now rt w3 of (n4, w4) \<Rightarrow>
        ([(''github-api'', github_api_contract n1), (''github-repos'', repos_contract n2), (''github-issues'', issues_contract n3),
          (''github-pull-requests'', pull_requests_contract n4)], w4))"

definition get_contract :: "(string, 'x api_contract) gomap \<Rightarrow> string \<Rightarrow> 'x api_contract option" where
  "get_contract suite name = map_of suite name"

definition list_contracts :: "(string list \<Rightarrow> string list) \<Rightarrow> (string, 'x api_contract) gomap \<Rightarrow> string list" where
  "list_contracts ord suite = ord (map fst suite)"

section \<open>What satisfies them\<close>

text \<open>The type of an integer schema is compared with \<open>number\<close>.\<close>

lemma integer_unsatisfiable: "\<not> conforms m strict (of_type ''integer'') d"
  by (cases d) (auto simp: conforms_iff of_type_def)

lemma required_property:
  assumes "conforms m strict (object_of props req) d" and "n \<in> set req" and "(n, s) \<in> set props"
  obtains v where "conforms m strict s v"
proof -
  have o: "js_type (object_of props req) = ''object''" "js_required (object_of props req) = req"
    "(n, Some s) \<in> set (js_properties (object_of props req))" using assms(3) by (force simp: object_of_def)+
  obtain ps where req: "set req \<subseteq> fst ` set ps"
    and ok: "\<And>v. map_of ps n = Some v \<Longrightarrow> conforms m strict s v"
    using conforms_objectE [OF assms(1) o(1)] o(2,3) by metis
  obtain v where "map_of ps n = Some v" using req assms(2) by (metis map_of_eq_None_iff not_None_eq subsetD)
  then show ?thesis using ok that by blast
qed

lemma integer_required:
  "\<lbrakk>n \<in> set req; (n, of_type ''integer'') \<in> set props\<rbrakk> \<Longrightarrow> \<not> conforms m strict (object_of props req) d"
  using required_property integer_unsatisfiable by metis

lemma unsatisfiable_schemas:
  "\<not> conforms m strict user_schema d" "\<not> conforms m strict repository_schema d" "\<not> conforms m strict issue_schema d"
  "\<not> conforms m strict pull_request_schema d"
  unfolding user_schema_def repository_schema_def issue_schema_def pull_request_schema_def
  by (rule integer_required [where n = "''id''"]; simp)+

text \<open>A response body is an object, never an array.\<close>

lemma body_not_array: "\<not> conforms m strict (array_of s) (body_data b)"
  by (cases b) (auto simp: conforms_iff array_of_def body_data_def)

lemmas suite_defs = github_api_contract_def repos_contract_def issues_contract_def pull_requests_contract_def github_contract_def
  github_endpoints_def repo_endpoints_def issue_endpoints_def pull_request_endpoints_def endpoint_of_def

lemma success_schemas:
  assumes "github_suite rt w = (suite, w')" and "(name, c) \<in> set suite" and "(n, ep) \<in> set (kc_endpoints c)"
    and "(code, Some s) \<in> set (ke_response_schemas ep)" and "200 \<le> code" and "code < 300"
  shows "s \<in> {user_schema, repository_schema, issue_schema, pull_request_schema, array_of repository_schema, array_of issue_schema,
    array_of pull_request_schema}"
  using assms by (auto simp: github_suite_def suite_defs repository_list_schema_def issue_list_schema_def pull_request_list_schema_def
      split: prod.splits)

lemma success_unsatisfiable:
  assumes "github_suite rt w = (suite, w')" and "(name, c) \<in> set suite" and "(n, ep) \<in> set (kc_endpoints c)"
    and "(code, Some s) \<in> set (ke_response_schemas ep)" and "200 \<le> code" and "code < 300"
  shows "\<not> conforms m strict s (body_data b)"
  using success_schemas [OF assms] unsatisfiable_schemas body_not_array by blast

lemma github_schemas_present:
  assumes "github_suite rt w = (suite, w')" and "(name, c) \<in> set suite" and "(n, ep) \<in> set (kc_endpoints c)"
    and "(code, x) \<in> set (ke_response_schemas ep)"
  obtains s where "x = Some s"
  using assms by (auto simp: github_suite_def suite_defs split: prod.splits)

text \<open>Every endpoint with a placeholder in its path needs that placeholder in the URL.\<close>

lemma issue_paths:
  assumes "(name, ep) \<in> set (kc_endpoints (issues_contract now)) \<union> set (kc_endpoints (pull_requests_contract now))"
  shows "CHR ''{'' \<in> set (ke_path ep)"
  using assms by (auto simp: suite_defs)

lemma braces_unmatched: "\<lbrakk>CHR ''{'' \<in> set (ke_path ep); CHR ''{'' \<notin> set (kd_url r)\<rbrakk> \<Longrightarrow> \<not> endpoint_matches ep r"
  by (auto simp: endpoint_matches_def path_matches_def has_suffix_def) (metis in_set_dropD)

end
