(* ===== verification/ContractProperties.thy ===== *)
theory ContractProperties
  imports GithubContracts
begin

text \<open>The properties of the contracts and their validator, with a clock that stands still for the witnesses.\<close>

definition still_clock :: "unit runtime" where
  "still_clock = \<lparr>rt_now = (\<lambda>w. (0, w)), rt_rand = (\<lambda>w. (0, w)), rt_wait = (\<lambda>d w. (None, w)), rt_f64_oob = 0\<rparr>"

definition demo_contract_env :: "unit contract_env" where
  "demo_contract_env = \<lparr>ce_match = (\<lambda>p s. Some (p = s)), ce_text = (\<lambda>x. []), ce_properties = (\<lambda>path. rev), ce_data = (\<lambda>path. rev),
     ce_codes = rev, ce_headers = rev, ce_endpoints = rev\<rparr>"

definition demo_recording :: "string \<Rightarrow> (string \<times> unit gdata) list \<Rightarrow> unit contract_recording" where
  "demo_recording url body =
     \<lparr>kd_timestamp = 0, kd_request_id = ''1'', kd_method = ''get'', kd_url = url, kd_headers = [], kd_query = [], kd_request_body = None,
      kd_status = 200, kd_response_headers = [], kd_response_body = Some body, kd_duration = second, kd_error = []\<rparr>"

lemma demo_orders: "map_orders demo_contract_env"
  by (simp add: map_orders_def demo_contract_env_def)

text \<open>
  C13: The schema validation is exact: it reports nothing exactly when the data conforms to the schema, in
  whatever order the ranges over properties and data run, with and without strict mode.
\<close>

theorem contract_validation_exact:
  assumes "map_orders ce"
  shows "validate_schema ce strict (Some s) d = [] \<longleftrightarrow> conforms (ce_match ce) strict s d"
  using schema_violations_empty [OF assms] by (simp add: validate_schema_def)

theorem contract_validation_exact_witness:
  "validate_schema demo_contract_env True (Some error_schema) (DObject [(''message'', DString ''Not Found'')] :: unit gdata) = []"
proof -
  have message: "conforms (ce_match demo_contract_env) True (of_type ''string'') (DString ''Not Found'' :: unit gdata)"
    by (rule text_value) (simp_all add: of_type_def enum_ok_def string_ok_def)
  have "conforms (ce_match demo_contract_env) True error_schema (DObject [(''message'', DString ''Not Found'')] :: unit gdata)"
    by (rule object_value) (use message in \<open>auto simp: error_schema_def object_of_def enum_ok_def split: if_splits\<close>)
  then show ?thesis by (simp only: contract_validation_exact [OF demo_orders])
qed

text \<open>
  C28: The verdict: a validation succeeds exactly when no violation is high or critical, and it is the missing
  endpoint that is reported exactly when no endpoint of the contract matches the recorded call.
\<close>

theorem contract_verdict:
  assumes "validate_contract rt ce cfg (Some c) (Some r) w = (Inr res, w')" and "iteration_order (ce_endpoints ce)"
  shows "(kz_success res \<longleftrightarrow> (\<forall>v \<in> set (kz_violations res). \<not> serious v))
    \<and> ((\<forall>(n, ep) \<in> set (kc_endpoints c). \<not> endpoint_matches ep r) \<longrightarrow> kz_violations res = [no_endpoint_violation r])"
proof -
  have "kz_violations res = [no_endpoint_violation r]" if "\<forall>(n, ep) \<in> set (kc_endpoints c). \<not> endpoint_matches ep r"
    using assms(1) find_matching_none [OF assms(2) that]
    by (auto simp: validate_contract_def Let_def split: prod.splits)
  then show ?thesis using validate_contract_success [OF assms(1)] by blast
qed

theorem contract_verdict_witness:
  "kz_success (projr (fst (validate_contract still_clock demo_contract_env default_contract_config (Some (issues_contract 0))
     (Some (demo_recording ''https://api.github.com/repos/a/b/issues'' [])) ()))) = False"
proof -
  let ?r = "demo_recording ''https://api.github.com/repos/a/b/issues'' []"
  obtain res w' where run: "validate_contract still_clock demo_contract_env default_contract_config (Some (issues_contract 0)) (Some ?r) ()
      = (Inr res, w')"
    by (rule validate_contract_runs)
  have "\<not> endpoint_matches ep ?r" if "(n, ep) \<in> set (kc_endpoints (issues_contract 0))" for n ep
    using that by (intro braces_unmatched issue_paths [of n ep 0]) (simp_all add: demo_recording_def)
  then have "kz_violations res = [no_endpoint_violation ?r]"
    using contract_verdict [OF run] by (auto simp: demo_contract_env_def)
  moreover have "kz_success res \<longleftrightarrow> (\<forall>v \<in> set (kz_violations res). \<not> serious v)"
    using contract_verdict [OF run] by (simp add: demo_contract_env_def)
  ultimately show ?thesis using run by (simp add: no_endpoint_violation_def serious_def)
qed

text \<open>
  C21: The GitHub contracts reject every success: whatever a response with a status from 200 to 299 contains, its
  validation against any endpoint of the suite reports a violation. Their schemas ask for integers, a type no value
  has for the validator, and lists, which a body never is.
\<close>

theorem github_rejects_success:
  assumes "github_suite rt w = (suite, w1)" and "map_orders ce" and "(name, c) \<in> set suite" and "(n, ep) \<in> set (kc_endpoints c)"
    and "200 \<le> kd_status r" and "kd_status r < 300" and "validate_endpoint rt' ce cfg ep r v = (res, v')"
  shows "kz_violations res \<noteq> []"
proof (cases "map_of (ke_response_schemas ep) (kd_status r)")
  case None
  then show ?thesis using assms(7) by (auto simp: validate_endpoint_def Let_def status_violations_def split: prod.splits)
next
  case (Some x)
  note entry = map_of_SomeD [OF Some]
  obtain s where s: "x = Some s" using entry github_schemas_present [OF assms(1,3,4)] by blast
  have "\<not> conforms (ce_match ce) (kw_strict cfg) s (body_data (kd_response_body r))"
    using success_unsatisfiable [OF assms(1,3,4) entry [unfolded s] assms(5,6)] .
  then have "response_schema_violations ce cfg ep r \<noteq> []"
    using schema_violations_empty [OF assms(2)] Some s by (simp add: response_schema_violations_def validate_schema_def)
  then show ?thesis using assms(7) by (auto simp: validate_endpoint_def Let_def split: prod.splits)
qed

theorem github_rejects_success_witness:
  "kz_violations (fst (validate_endpoint still_clock demo_contract_env default_contract_config
     (endpoint_of ''GET'' ''/repos/{owner}/{repo}'' 5 [(200, repository_schema), (404, error_schema)]) (demo_recording ''/user'' []) ())) \<noteq> []"
proof -
  obtain suite w1 where suite: "github_suite still_clock () = (suite :: (string, unit api_contract) gomap, w1)" by (metis surj_pair)
  have c: "(''github-repos'', repos_contract 0) \<in> set suite" using suite by (auto simp: github_suite_def still_clock_def)
  show ?thesis
    by (rule github_rejects_success [OF suite demo_orders c, of "''get-repo''" _ "demo_recording ''/user'' []" still_clock
          default_contract_config "()"])
       (simp_all add: suite_defs demo_recording_def prod_eq_iff)
qed

text \<open>
  C35: The contracts for issues and pull requests match no real request: their paths hold placeholders that are
  compared literally, so every call whose URL has no brace is reported as having no endpoint.
\<close>

theorem github_issues_unmatched:
  assumes "c = issues_contract now \<or> c = pull_requests_contract now" and "iteration_order (ce_endpoints ce)"
    and "CHR ''{'' \<notin> set (kd_url r)" and "validate_contract rt ce cfg (Some c) (Some r) w = (Inr res, w')"
  shows "kz_violations res = [no_endpoint_violation r] \<and> \<not> kz_success res"
proof -
  have none: "\<forall>(n, ep) \<in> set (kc_endpoints c). \<not> endpoint_matches ep r"
    using assms(1,3) issue_paths braces_unmatched by fast
  have "find_matching_endpoint ce c r = None" by (rule find_matching_none [OF assms(2) none])
  then show ?thesis using assms(4) by (auto simp: validate_contract_def Let_def split: prod.splits)
qed

theorem github_issues_unmatched_witness:
  "\<exists>res. validate_contract still_clock demo_contract_env default_contract_config (Some (pull_requests_contract 0))
     (Some (demo_recording ''https://api.github.com/repos/a/b/pulls'' [])) () = (Inr res, ()) \<and> \<not> kz_success res"
proof -
  let ?r = "demo_recording ''https://api.github.com/repos/a/b/pulls'' []"
  obtain res w' where run: "validate_contract still_clock demo_contract_env default_contract_config (Some (pull_requests_contract 0)) (Some ?r) ()
      = (Inr res, w')"
    by (rule validate_contract_runs)
  have "CHR ''{'' \<notin> set (kd_url ?r)" by (simp add: demo_recording_def)
  from github_issues_unmatched [OF disjI2 [OF refl] _ this run] run show ?thesis by (simp add: demo_contract_env_def)
qed

end
