(* ===== verification/Backup.thy ===== *)
theory Backup
  imports DeltaTable GoTime Schema
begin

text \<open>
  internal/backup/types.go and backup.go: backups of a table to another place of the bucket. A backup is a list of
  copied files with their checksums, kept in a manifest that is written three times. The goroutines that copy data
  files take their turns in the order an argument gives. Times are shown in UTC.
\<close>

section \<open>The types\<close>

datatype backup_status = BackupStatusPending | BackupStatusInProgress | BackupStatusCompleted | BackupStatusFailed

text \<open>A manifest that is read back can hold any text, so the metadata holds the text.\<close>

fun backup_status_text :: "backup_status \<Rightarrow> string" where
  "backup_status_text BackupStatusPending = ''pending''"
| "backup_status_text BackupStatusInProgress = ''in_progress''"
| "backup_status_text BackupStatusCompleted = ''completed''"
| "backup_status_text BackupStatusFailed = ''failed''"

record backup_file =
  bf_original :: string
  bf_backup :: string
  bf_size :: int
  bf_checksum :: string
  bf_type :: string

record backup_metadata =
  bd_id :: string
  bd_source :: string
  bd_table :: string
  bd_created :: instant
  bd_completed :: "instant option"
  bd_version :: int
  bd_source_path :: string
  bd_format :: int
  bd_checksum :: string
  bd_total_files :: int
  bd_total_size :: int
  bd_status :: string
  bd_error :: string
  bd_duration :: duration
  bd_files :: "backup_file list option"

record backup_config =
  bg_enabled :: bool
  bg_bucket :: string
  bg_region :: string
  bg_schedule :: string
  bg_retention_days :: int
  bg_cross_region :: bool
  bg_key :: string
  bg_mode :: string
  bg_uploads :: int
  bg_chunk_mb :: int

record backup_issue =
  bi_severity :: string
  bi_file :: string
  bi_issue :: string
  bi_description :: string

record backup_check =
  bh_valid :: bool
  bh_issues :: "backup_issue list"
  bh_checked :: int
  bh_duration :: duration
  bh_timestamp :: instant

definition add_issue_error :: "string \<Rightarrow> string \<Rightarrow> string \<Rightarrow> backup_check \<Rightarrow> backup_check" where
  "add_issue_error file issue description r =
     r\<lparr>bh_valid := False,
       bh_issues := bh_issues r @ [\<lparr>bi_severity = ''error'', bi_file = file, bi_issue = issue, bi_description = description\<rparr>]\<rparr>"

definition add_issue_warning :: "string \<Rightarrow> string \<Rightarrow> string \<Rightarrow> backup_check \<Rightarrow> backup_check" where
  "add_issue_warning file issue description r =
     r\<lparr>bh_issues := bh_issues r @ [\<lparr>bi_severity = ''warning'', bi_file = file, bi_issue = issue, bi_description = description\<rparr>]\<rparr>"

section \<open>Names\<close>

text \<open>The two layouts of \<open>time.Format\<close>; the text \<open>-00\<close> after \<open>Z07\<close> is no element of a layout and stands for itself.\<close>

definition stamp_text :: "string \<Rightarrow> string \<Rightarrow> instant \<Rightarrow> string" where
  "stamp_text sep zone t =
     (let s = t div second; (y, m, d) = civil_of_days (s div day_second); r = s mod day_second
      in dec_pad 4 y @ ''-'' @ dec_pad 2 m @ ''-'' @ dec_pad 2 d @ ''T'' @ dec_pad 2 (r div 3600) @ sep
         @ dec_pad 2 (r div 60 mod 60) @ sep @ dec_pad 2 (r mod 60) @ ''.'' @ dec_pad 3 (t mod second div millisecond) @ zone)"

definition generate_backup_id :: "string \<Rightarrow> string \<Rightarrow> instant \<Rightarrow> string" where
  "generate_backup_id source tbl t =
     hex_text (take 8 (sha256 (source @ ''_'' @ tbl @ ''_'' @ stamp_text '':'' ''Z'' t)))"

definition generate_checksum :: "string \<Rightarrow> string" where
  "generate_checksum data = hex_text (sha256 data)"

definition validate_backup_path :: "string \<Rightarrow> bool" where
  "validate_backup_path p \<longleftrightarrow> 0 < length p \<and> last p = CHR ''/''"

definition source_path :: "string \<Rightarrow> string \<Rightarrow> string" where
  "source_path source tbl = source @ ''/'' @ tbl"

definition backup_path :: "string \<Rightarrow> string \<Rightarrow> instant \<Rightarrow> string" where
  "backup_path source tbl t = ''backups/'' @ source @ ''/'' @ tbl @ ''/'' @ stamp_text ''-'' ''Z-00'' t @ ''/''"

definition manifest_key :: "backup_metadata \<Rightarrow> string" where
  "manifest_key m = backup_path (bd_source m) (bd_table m) (bd_created m) @ ''manifest.json''"

text \<open>The log directory of the backup, which is not \<open>Layout.DeltaLogPrefix\<close>.\<close>

definition backup_log_prefix :: "string \<Rightarrow> string \<Rightarrow> string" where
  "backup_log_prefix source tbl = source @ ''/'' @ tbl @ ''/_delta_log''"

section \<open>JSON\<close>

definition enc_backup_file :: "backup_file \<Rightarrow> json" where
  "enc_backup_file f = JObj [(''original_path'', JStr (bf_original f)), (''backup_path'', JStr (bf_backup f)),
     (''size'', enc_int (bf_size f)), (''checksum'', JStr (bf_checksum f)), (''type'', JStr (bf_type f))]"

definition zero_backup_file :: backup_file where
  "zero_backup_file = \<lparr>bf_original = [], bf_backup = [], bf_size = 0, bf_checksum = [], bf_type = []\<rparr>"

definition into_backup_file :: "backup_file into" where
  "into_backup_file = into_struct
     [(''original_path'', fld bf_original bf_original_update into_string),
      (''backup_path'', fld bf_backup bf_backup_update into_string),
      (''size'', fld bf_size bf_size_update into_int64),
      (''checksum'', fld bf_checksum bf_checksum_update into_string),
      (''type'', fld bf_type bf_type_update into_string)]"

definition enc_backup_metadata :: "backup_metadata \<Rightarrow> json" where
  "enc_backup_metadata m = JObj (
     [(''backup_id'', JStr (bd_id m)), (''source'', JStr (bd_source m)), (''table'', JStr (bd_table m)),
      (''created_at'', enc_time (bd_created m))]
     @ opt_member (bd_completed m \<noteq> None) ''completed_at'' (enc_ptr enc_time (bd_completed m))
     @ [(''source_version'', enc_int (bd_version m)), (''source_path'', JStr (bd_source_path m)),
      (''format_version'', enc_int (bd_format m)), (''checksum'', JStr (bd_checksum m)), (''total_files'', enc_int (bd_total_files m)),
      (''total_size'', enc_int (bd_total_size m)), (''status'', JStr (bd_status m))]
     @ opt_member (bd_error m \<noteq> []) ''error_message'' (JStr (bd_error m))
     @ [(''duration'', enc_int (bd_duration m)), (''files'', enc_slice enc_backup_file (bd_files m))])"

definition zero_backup_metadata :: backup_metadata where
  "zero_backup_metadata =
     \<lparr>bd_id = [], bd_source = [], bd_table = [], bd_created = zero_time, bd_completed = None, bd_version = 0, bd_source_path = [],
      bd_format = 0, bd_checksum = [], bd_total_files = 0, bd_total_size = 0, bd_status = [], bd_error = [], bd_duration = 0,
      bd_files = None\<rparr>"

definition backup_fields :: "(string \<times> backup_metadata into) list" where
  "backup_fields =
     [(''backup_id'', fld bd_id bd_id_update into_string), (''source'', fld bd_source bd_source_update into_string),
      (''table'', fld bd_table bd_table_update into_string), (''created_at'', fld bd_created bd_created_update into_time),
      (''completed_at'', fld bd_completed bd_completed_update (into_ptr zero_time into_time)),
      (''source_version'', fld bd_version bd_version_update into_int64),
      (''source_path'', fld bd_source_path bd_source_path_update into_string),
      (''format_version'', fld bd_format bd_format_update into_int64),
      (''checksum'', fld bd_checksum bd_checksum_update into_string),
      (''total_files'', fld bd_total_files bd_total_files_update into_int64),
      (''total_size'', fld bd_total_size bd_total_size_update into_int64),
      (''status'', fld bd_status bd_status_update into_string), (''error_message'', fld bd_error bd_error_update into_string),
      (''duration'', fld bd_duration bd_duration_update into_int64),
      (''files'', fld bd_files bd_files_update (into_slice zero_backup_file into_backup_file))]"

definition into_backup_metadata :: "backup_metadata into" where
  "into_backup_metadata = into_struct backup_fields"

text \<open>\<open>Marshal\<close> refuses the times it refuses.\<close>

definition backup_times_ok :: "backup_metadata \<Rightarrow> bool" where
  "backup_times_ok m \<longleftrightarrow> time_ok (bd_created m) \<and> (case bd_completed m of None \<Rightarrow> True | Some t \<Rightarrow> time_ok t)"

section \<open>Copying files\<close>

record 'w backup_engine =
  be_store :: "'w store_ops"
  be_delete :: "string \<Rightarrow> ('w, unit) io"
  be_config :: backup_config

text \<open>The functions below fill in the metadata as they go: it is part of their world.\<close>

definition md_store :: "'w backup_engine \<Rightarrow> (backup_metadata \<times> 'w) store_ops" where
  "md_store be = store_snd (be_store be)"

definition record_file :: "string \<Rightarrow> string \<Rightarrow> string \<Rightarrow> string \<Rightarrow> (backup_metadata \<times> 'w, unit) io" where
  "record_file original backup data ty = (\<lambda>(m, w).
     (Inr (), (m\<lparr>bd_files := Some (slice_of (bd_files m) @
          [\<lparr>bf_original = original, bf_backup = backup, bf_size = int (length data), bf_checksum = generate_checksum data, bf_type = ty\<rparr>]),
        bd_total_files := wrap64 (bd_total_files m + 1)\<rparr>, w)))"

definition copy_log_file :: "'w backup_engine \<Rightarrow> string \<Rightarrow> string \<Rightarrow> string \<Rightarrow> (backup_metadata \<times> 'w, unit) io" where
  "copy_log_file be base source name =
     io_bind (io_wrap (''download log file '' @ source) (st_download (md_store be) source)) (\<lambda>data.
     io_bind (io_wrap (''upload log file to backup '' @ base @ ''_delta_log/'' @ name)
                (st_upload (md_store be) (base @ ''_delta_log/'' @ name) data ''application/json'')) (\<lambda>_.
       record_file source (base @ ''_delta_log/'' @ name) data ''log''))"

definition copy_version :: "'w backup_engine \<Rightarrow> string \<Rightarrow> string \<Rightarrow> int \<Rightarrow> (backup_metadata \<times> 'w, unit) io" where
  "copy_version be base prefix v =
     (let name = dec_pad 20 v @ ''.json''; source = prefix @ ''/'' @ name;
          checkpoint = dec_pad 20 v @ ''.checkpoint.parquet''
      in io_bind (io_wrap (''check log file existence '' @ source) (st_exists (md_store be) source)) (\<lambda>found.
           if found then copy_log_file be base source name
           else io_bind (io_wrap (''check checkpoint file existence '' @ prefix @ ''/'' @ checkpoint)
                           (st_exists (md_store be) (prefix @ ''/'' @ checkpoint))) (\<lambda>found.
                  if found then copy_log_file be base (prefix @ ''/'' @ checkpoint) checkpoint else io_ret ())))"

fun copy_versions :: "'w backup_engine \<Rightarrow> string \<Rightarrow> string \<Rightarrow> int list \<Rightarrow> (backup_metadata \<times> 'w, unit) io" where
  "copy_versions be base prefix [] = io_ret ()"
| "copy_versions be base prefix (v # vs) = io_bind (copy_version be base prefix v) (\<lambda>_. copy_versions be base prefix vs)"

definition copy_last_checkpoint :: "'w backup_engine \<Rightarrow> string \<Rightarrow> string \<Rightarrow> (backup_metadata \<times> 'w, unit) io" where
  "copy_last_checkpoint be base prefix =
     (let source = prefix @ ''/_last_checkpoint''; target = base @ ''_delta_log/_last_checkpoint''
      in io_bind (io_wrap ''check last checkpoint file'' (st_exists (md_store be) source)) (\<lambda>found.
           if \<not> found then io_ret ()
           else io_bind (io_wrap ''download last checkpoint file'' (st_download (md_store be) source)) (\<lambda>data.
                io_bind (io_wrap ''upload last checkpoint to backup'' (st_upload (md_store be) target data ''application/json'')) (\<lambda>_.
                  record_file source target data ''checkpoint''))))"

definition backup_transaction_logs :: "'w backup_engine \<Rightarrow> string \<Rightarrow> string \<Rightarrow> int \<Rightarrow> string \<Rightarrow> (backup_metadata \<times> 'w, unit) io" where
  "backup_transaction_logs be source tbl version base =
     io_bind (copy_versions be base (backup_log_prefix source tbl) [0..version])
       (\<lambda>_. copy_last_checkpoint be base (backup_log_prefix source tbl))"

definition copy_data_file :: "'w backup_engine \<Rightarrow> string \<Rightarrow> add \<Rightarrow> (backup_metadata \<times> 'w, unit) io" where
  "copy_data_file be base f =
     io_bind (io_wrap (''download data file '' @ ad_path f) (st_download (md_store be) (ad_path f))) (\<lambda>data.
     io_bind (io_wrap (''upload data file to backup '' @ base @ ''data/'' @ ad_path f)
                (st_upload (md_store be) (base @ ''data/'' @ ad_path f) data ''application/octet-stream'')) (\<lambda>_.
       record_file (ad_path f) (base @ ''data/'' @ ad_path f) data ''data''))"

text \<open>Every goroutine runs; the first error is the result.\<close>

fun run_all :: "('a \<Rightarrow> ('w, unit) io) \<Rightarrow> 'a list \<Rightarrow> go_error option \<Rightarrow> ('w, unit) io" where
  "run_all f [] first = (case first of None \<Rightarrow> io_ret () | Some e \<Rightarrow> io_fail e)"
| "run_all f (x # xs) first =
     io_try (f x) (\<lambda>r. run_all f xs (case (first, r) of (None, Inl e) \<Rightarrow> Some e | _ \<Rightarrow> first))"

definition backup_data_files ::
  "'w backup_engine \<Rightarrow> ((string \<times> add) list \<Rightarrow> (string \<times> add) list) \<Rightarrow> snapshot \<Rightarrow> string \<Rightarrow> (backup_metadata \<times> 'w, unit) io" where
  "backup_data_files be sched snap base = run_all (copy_data_file be base) (map snd (sched (sn_files snap))) None"

text \<open>The manifest, with the metadata as it is before the backup is complete, and its checksum.\<close>

definition create_manifest :: "'w backup_engine \<Rightarrow> string \<Rightarrow> (backup_metadata \<times> 'w, unit) io" where
  "create_manifest be base = (\<lambda>(m, w).
     if \<not> backup_times_ok m then (Inl (Wrap ''marshal manifest'' json_error), (m, w))
     else let text = json_indent (enc_backup_metadata m)
          in io_bind (io_wrap ''upload manifest'' (st_upload (md_store be) (base @ ''manifest.json'') text ''application/json'')) (\<lambda>_.
               io_wrap ''upload checksum''
                 (st_upload (md_store be) (base @ ''checksum.sha256'') (generate_checksum text) ''text/plain'')) (m, w))"

definition perform_backup ::
  "'w backup_engine \<Rightarrow> ((string \<times> add) list \<Rightarrow> (string \<times> add) list) \<Rightarrow> string \<Rightarrow> string \<Rightarrow> int \<Rightarrow> string \<Rightarrow> (backup_metadata \<times> 'w, unit) io" where
  "perform_backup be sched source tbl version base =
     io_bind (io_wrap ''get table snapshot''
       (table_snapshot (new_delta_table (md_store be) source tbl (backup_log_prefix source tbl)) version)) (\<lambda>snap.
     io_bind (io_wrap ''backup transaction logs'' (backup_transaction_logs be source tbl version base)) (\<lambda>_.
     io_bind (io_wrap ''backup data files'' (backup_data_files be sched snap base)) (\<lambda>_.
       io_wrap ''create manifest'' (create_manifest be base))))"

section \<open>Creating a backup\<close>

definition save_backup_metadata :: "'w backup_engine \<Rightarrow> backup_metadata \<Rightarrow> ('w, unit) io" where
  "save_backup_metadata be m =
     (if backup_times_ok m then st_put_json (be_store be) (manifest_key m) (enc_backup_metadata m)
      else io_fail (Wrap (''marshal JSON for '' @ manifest_key m) json_error))"

fun calculate_total_size :: "backup_file list \<Rightarrow> int \<Rightarrow> int" where
  "calculate_total_size [] acc = acc"
| "calculate_total_size (f # fs) acc = calculate_total_size fs (wrap64 (acc + bf_size f))"

definition calculate_backup_checksum :: "backup_metadata \<Rightarrow> string" where
  "calculate_backup_checksum m = generate_checksum (json_marshal (enc_slice enc_backup_file (bd_files m)))"

definition initial_metadata :: "string \<Rightarrow> string \<Rightarrow> int \<Rightarrow> instant \<Rightarrow> backup_metadata" where
  "initial_metadata source tbl version start =
     zero_backup_metadata\<lparr>bd_id := generate_backup_id source tbl start, bd_source := source, bd_table := tbl, bd_created := start,
       bd_version := version, bd_source_path := source_path source tbl, bd_format := 1,
       bd_status := backup_status_text BackupStatusInProgress, bd_files := Some []\<rparr>"

definition failed_metadata :: "go_error \<Rightarrow> backup_metadata \<Rightarrow> backup_metadata" where
  "failed_metadata e m =
     m\<lparr>bd_status := backup_status_text BackupStatusFailed, bd_error := err_text e, bd_completed := Some (bd_created m)\<rparr>"

definition completed_metadata :: "instant \<Rightarrow> backup_metadata \<Rightarrow> backup_metadata" where
  "completed_metadata now m =
     (let m1 = m\<lparr>bd_status := backup_status_text BackupStatusCompleted, bd_completed := Some now,
                 bd_duration := time_sub now (bd_created m),
                 bd_total_size := calculate_total_size (slice_of (bd_files m)) 0\<rparr>
      in m1\<lparr>bd_checksum := calculate_backup_checksum m1\<rparr>)"

definition create_backup ::
  "'w runtime \<Rightarrow> 'w backup_engine \<Rightarrow> ((string \<times> add) list \<Rightarrow> (string \<times> add) list) \<Rightarrow> string \<Rightarrow> string \<Rightarrow> int \<Rightarrow> ('w, backup_metadata) io" where
  "create_backup rt be sched source tbl version w =
     (if \<not> bg_enabled (be_config be) then (Inl (Msg ''backup is not enabled''), w)
      else case rt_now rt w of (start, w1) \<Rightarrow>
        let m = initial_metadata source tbl version start in
        (case save_backup_metadata be m w1 of
           (Inl e, w2) \<Rightarrow> (Inl (Wrap ''save initial metadata'' e), w2)
         | (Inr _, w2) \<Rightarrow>
             (case perform_backup be sched source tbl version (backup_path source tbl start) (m, w2) of
                (Inl e, (m', w3)) \<Rightarrow>
                  (case save_backup_metadata be (failed_metadata e m') w3 of (_, w4) \<Rightarrow> (Inl (Wrap ''perform backup'' e), w4))
              | (Inr _, (m', w3)) \<Rightarrow>
                  (case rt_now rt w3 of (now, w4) \<Rightarrow>
                     io_bind (io_wrap ''save final metadata'' (save_backup_metadata be (completed_metadata now m')))
                       (\<lambda>_. io_ret (completed_metadata now m')) w4))))"

section \<open>Finding, deleting and checking backups\<close>

definition load_manifest :: "'w backup_engine \<Rightarrow> string \<Rightarrow> ('w, backup_metadata) io" where
  "load_manifest be key = get_json_into (be_store be) key into_backup_metadata zero_backup_metadata"

definition is_manifest :: "string \<Rightarrow> bool" where
  "is_manifest key \<longleftrightarrow> has_suffix key ''/manifest.json''"

text \<open>Manifests that cannot be read are skipped.\<close>

fun load_manifests :: "'w backup_engine \<Rightarrow> string list \<Rightarrow> ('w, backup_metadata list) io" where
  "load_manifests be [] = io_ret []"
| "load_manifests be (key # keys) =
     (if \<not> is_manifest key then load_manifests be keys
      else io_try (load_manifest be key) (\<lambda>r. case r of
             Inl e \<Rightarrow> load_manifests be keys
           | Inr m \<Rightarrow> io_bind (load_manifests be keys) (\<lambda>ms. io_ret (m # ms))))"

definition list_backups :: "'w backup_engine \<Rightarrow> string \<Rightarrow> string \<Rightarrow> ('w, backup_metadata list) io" where
  "list_backups be source tbl =
     io_bind (io_wrap ''list backup directories'' (st_list (be_store be) (''backups/'' @ source @ ''/'' @ tbl @ ''/''))) (load_manifests be)"

fun find_manifest :: "'w backup_engine \<Rightarrow> string \<Rightarrow> string list \<Rightarrow> ('w, backup_metadata) io" where
  "find_manifest be ident [] = io_fail (Msg (''backup not found: '' @ ident))"
| "find_manifest be ident (key # keys) =
     (if \<not> is_manifest key then find_manifest be ident keys
      else io_try (load_manifest be key) (\<lambda>r. case r of
             Inl e \<Rightarrow> find_manifest be ident keys
           | Inr m \<Rightarrow> if bd_id m = ident then io_ret m else find_manifest be ident keys))"

definition get_backup_metadata :: "'w backup_engine \<Rightarrow> string \<Rightarrow> ('w, backup_metadata) io" where
  "get_backup_metadata be ident =
     io_bind (io_wrap ''list backup keys'' (st_list (be_store be) ''backups/'')) (find_manifest be ident)"

fun delete_objects :: "'w backup_engine \<Rightarrow> string list \<Rightarrow> ('w, unit) io" where
  "delete_objects be [] = io_ret ()"
| "delete_objects be (key # keys) = io_try (be_delete be key) (\<lambda>_. delete_objects be keys)"

definition delete_backup :: "'w backup_engine \<Rightarrow> string \<Rightarrow> ('w, unit) io" where
  "delete_backup be ident =
     io_bind (io_wrap ''get backup metadata'' (get_backup_metadata be ident)) (\<lambda>m.
     io_bind (io_wrap ''list backup files'' (st_list (be_store be) (backup_path (bd_source m) (bd_table m) (bd_created m))))
       (delete_objects be))"

definition checks_content :: "backup_config \<Rightarrow> bool" where
  "checks_content c \<longleftrightarrow> bg_mode c = ''checksum'' \<or> bg_mode c = ''full''"

definition check_file :: "'w backup_engine \<Rightarrow> backup_file \<Rightarrow> backup_check \<Rightarrow> 'w \<Rightarrow> backup_check \<times> 'w" where
  "check_file be f r w =
     (let r1 = r\<lparr>bh_checked := wrap64 (bh_checked r + 1)\<rparr> in
      case st_exists (be_store be) (bf_backup f) w of
        (Inl e, w1) \<Rightarrow> (add_issue_error (bf_backup f) ''existence_check_failed'' (err_text e) r1, w1)
      | (Inr found, w1) \<Rightarrow>
          if \<not> found then (add_issue_error (bf_backup f) ''file_missing'' ''backup file does not exist'' r1, w1)
          else if \<not> checks_content (be_config be) then (r1, w1)
          else (case st_download (be_store be) (bf_backup f) w1 of
                  (Inl e, w2) \<Rightarrow> (add_issue_error (bf_backup f) ''download_failed'' (err_text e) r1, w2)
                | (Inr data, w2) \<Rightarrow>
                    if generate_checksum data = bf_checksum f then (r1, w2)
                    else (add_issue_error (bf_backup f) ''checksum_mismatch''
                            (''expected '' @ bf_checksum f @ '', got '' @ generate_checksum data) r1, w2)))"

fun check_files :: "'w backup_engine \<Rightarrow> backup_file list \<Rightarrow> backup_check \<Rightarrow> 'w \<Rightarrow> backup_check \<times> 'w" where
  "check_files be [] r w = (r, w)"
| "check_files be (f # fs) r w = (case check_file be f r w of (r', w') \<Rightarrow> check_files be fs r' w')"

definition empty_check :: "instant \<Rightarrow> backup_check" where
  "empty_check now = \<lparr>bh_valid = True, bh_issues = [], bh_checked = 0, bh_duration = 0, bh_timestamp = now\<rparr>"

definition validate_backup :: "'w runtime \<Rightarrow> 'w backup_engine \<Rightarrow> string \<Rightarrow> ('w, backup_check) io" where
  "validate_backup rt be ident w =
     (case rt_now rt w of (start, w1) \<Rightarrow>
        io_bind (io_wrap ''get backup metadata'' (get_backup_metadata be ident)) (\<lambda>m w2.
          case check_files be (slice_of (bd_files m)) (empty_check start) w2 of (r, w3) \<Rightarrow>
          case rt_now rt w3 of (now, w4) \<Rightarrow>
            (Inr (r\<lparr>bh_duration := time_sub now start, bh_valid := (bh_issues r = [])\<rparr>), w4)) w1)"

end
