(* ===== verification/BackupRestore.thy ===== *)
theory BackupRestore
  imports Backup GoFmt
begin

text \<open>
  internal/backup/restore.go and validator.go: restoring a table from a backup and the validations of a backup, over
  the interface \<open>BackupEngine\<close> as a record of operations. The goroutines that restore data files take their turns
  in the order an argument gives.
\<close>

section \<open>The interface\<close>

record 'w backup_api =
  ba_create :: "string \<Rightarrow> string \<Rightarrow> int \<Rightarrow> ('w, backup_metadata) io"
  ba_list :: "string \<Rightarrow> string \<Rightarrow> ('w, backup_metadata list) io"
  ba_get :: "string \<Rightarrow> ('w, backup_metadata) io"
  ba_delete :: "string \<Rightarrow> ('w, unit) io"
  ba_validate :: "string \<Rightarrow> ('w, backup_check) io"

definition engine_api ::
  "'w runtime \<Rightarrow> 'w backup_engine \<Rightarrow> ((string \<times> add) list \<Rightarrow> (string \<times> add) list) \<Rightarrow> 'w backup_api" where
  "engine_api rt be sched =
     \<lparr>ba_create = create_backup rt be sched, ba_list = list_backups be, ba_get = get_backup_metadata be,
      ba_delete = delete_backup be, ba_validate = validate_backup rt be\<rparr>"

section \<open>Restoring\<close>

record 'w restore_engine =
  rz_store :: "'w store_ops"
  rz_backups :: "'w backup_api"
  rz_config :: backup_config

text \<open>\<open>strings.Replace(s, old, new, 1)\<close>.\<close>

fun replace_first :: "string \<Rightarrow> string \<Rightarrow> string \<Rightarrow> string" where
  "replace_first old new [] = (if old = [] then new else [])"
| "replace_first old new (c # cs) =
     (if has_prefix (c # cs) old then new @ drop (length old) (c # cs) else c # replace_first old new cs)"

definition is_log_file :: "backup_file \<Rightarrow> bool" where
  "is_log_file f \<longleftrightarrow> bf_type f = ''log'' \<or> bf_type f = ''checkpoint''"

definition restore_target :: "backup_metadata \<Rightarrow> string \<Rightarrow> string \<Rightarrow> backup_file \<Rightarrow> string" where
  "restore_target m source tbl f =
     (if is_log_file f
      then replace_first (backup_log_prefix (bd_source m) (bd_table m)) (backup_log_prefix source tbl) (bf_original f)
      else replace_first (source_path (bd_source m) (bd_table m)) (source_path source tbl) (bf_original f))"

definition restore_content_type :: "backup_file \<Rightarrow> string" where
  "restore_content_type f =
     (if is_log_file f \<and> has_suffix (bf_original f) ''.json'' then ''application/json'' else ''application/octet-stream'')"

definition restore_file :: "'w restore_engine \<Rightarrow> backup_metadata \<Rightarrow> string \<Rightarrow> string \<Rightarrow> backup_file \<Rightarrow> ('w, unit) io" where
  "restore_file rz m source tbl f =
     io_bind (io_wrap ''download from backup'' (st_download (rz_store rz) (bf_backup f))) (\<lambda>data.
       if generate_checksum data \<noteq> bf_checksum f
       then io_fail (Msg (''checksum mismatch: expected '' @ bf_checksum f @ '', got '' @ generate_checksum data))
       else io_wrap ''upload to target''
              (st_upload (rz_store rz) (restore_target m source tbl f) data (restore_content_type f)))"

fun restore_logs :: "'w restore_engine \<Rightarrow> backup_metadata \<Rightarrow> string \<Rightarrow> string \<Rightarrow> backup_file list \<Rightarrow> ('w, unit) io" where
  "restore_logs rz m source tbl [] = io_ret ()"
| "restore_logs rz m source tbl (f # fs) =
     io_bind (io_wrap (''restore log file '' @ bf_original f) (restore_file rz m source tbl f)) (\<lambda>_. restore_logs rz m source tbl fs)"

text \<open>An existing target only gives a warning.\<close>

definition perform_restore ::
  "'w restore_engine \<Rightarrow> (backup_file list \<Rightarrow> backup_file list) \<Rightarrow> backup_metadata \<Rightarrow> string \<Rightarrow> string \<Rightarrow> ('w, unit) io" where
  "perform_restore rz sched m source tbl =
     io_bind (io_wrap ''check target existence''
       (io_wrap ''list target location'' (st_list (rz_store rz) (backup_log_prefix source tbl)))) (\<lambda>_.
     io_bind (restore_logs rz m source tbl (filter is_log_file (slice_of (bd_files m)))) (\<lambda>_.
       run_all (\<lambda>f. io_wrap (''restore data file '' @ bf_original f) (restore_file rz m source tbl f))
         (sched (filter (\<lambda>f. \<not> is_log_file f) (slice_of (bd_files m)))) None))"

text \<open>What \<open>ValidateRestore\<close> asks of the metadata.\<close>

definition first_entry :: string where
  "first_entry = ''00000000000000000000.json''"

definition restorable :: "backup_metadata \<Rightarrow> string \<Rightarrow> string \<Rightarrow> go_error + unit" where
  "restorable m source tbl =
     (let logs = filter is_log_file (slice_of (bd_files m))
      in if source = [] \<or> tbl = [] then Inl (Msg ''target source and table must not be empty'')
         else if logs = [] then Inl (Msg ''backup does not contain transaction log files'')
         else if \<not> list_ex (\<lambda>f. str_contains (bf_original f) first_entry) logs
              then Inl (Msg ''backup does not contain table metadata'')
         else Inr ())"

definition validate_restore :: "'w restore_engine \<Rightarrow> string \<Rightarrow> string \<Rightarrow> string \<Rightarrow> ('w, unit) io" where
  "validate_restore rz ident source tbl =
     io_bind (io_wrap ''get backup metadata'' (ba_get (rz_backups rz) ident)) (\<lambda>m.
     io_bind (io_wrap ''validate backup'' (ba_validate (rz_backups rz) ident)) (\<lambda>r.
       if \<not> bh_valid r
       then io_fail (Msg (''backup is not valid: '' @ dec (int (length (bh_issues r))) @ '' issues found''))
       else (\<lambda>w. (restorable m source tbl, w))))"

definition restore_from_backup ::
  "'w restore_engine \<Rightarrow> (backup_file list \<Rightarrow> backup_file list) \<Rightarrow> string \<Rightarrow> string \<Rightarrow> string \<Rightarrow> ('w, unit) io" where
  "restore_from_backup rz sched ident source tbl =
     io_bind (io_wrap ''get backup metadata'' (ba_get (rz_backups rz) ident)) (\<lambda>m.
     io_bind (io_wrap ''validate restore'' (validate_restore rz ident source tbl)) (\<lambda>_.
       io_wrap ''perform restore'' (perform_restore rz sched m source tbl)))"

section \<open>The preview\<close>

record restore_preview =
  pv_id :: string
  pv_source :: string
  pv_table :: string
  pv_version :: int
  pv_created :: instant
  pv_files :: "backup_file list option"
  pv_size :: int
  pv_estimate :: duration

definition estimate_seconds :: "int \<Rightarrow> int" where
  "estimate_seconds bytes = (let s = quot bytes (10 * 1024 * 1024) in if s < 1 then 1 else s)"

definition get_restore_preview :: "'w restore_engine \<Rightarrow> string \<Rightarrow> ('w, restore_preview) io" where
  "get_restore_preview rz ident =
     io_bind (io_wrap ''get backup metadata'' (ba_get (rz_backups rz) ident)) (\<lambda>m.
       io_ret \<lparr>pv_id = ident, pv_source = bd_source m, pv_table = bd_table m, pv_version = bd_version m, pv_created = bd_created m,
               pv_files = bd_files m, pv_size = bd_total_size m,
               pv_estimate = wrap64 (estimate_seconds (bd_total_size m) * second)\<rparr>)"

text \<open>\<open>time.RFC3339\<close>, in UTC.\<close>

definition rfc3339_text :: "instant \<Rightarrow> string" where
  "rfc3339_text t =
     (let s = t div second; (y, m, d) = civil_of_days (s div day_second); r = s mod day_second
      in dec_pad 4 y @ ''-'' @ dec_pad 2 m @ ''-'' @ dec_pad 2 d @ ''T'' @ dec_pad 2 (r div 3600) @ '':''
         @ dec_pad 2 (r div 60 mod 60) @ '':'' @ dec_pad 2 (r mod 60) @ ''Z'')"

definition preview_text :: "restore_preview \<Rightarrow> string" where
  "preview_text p =
     ''Backup ID: '' @ pv_id p @ [CHR 0x0A] @ ''Source: '' @ pv_source p @ ''/'' @ pv_table p @ [CHR 0x0A]
     @ ''Version: '' @ dec (pv_version p) @ [CHR 0x0A] @ ''Created: '' @ rfc3339_text (pv_created p) @ [CHR 0x0A]
     @ ''Files to restore: '' @ dec (int (length (slice_of (pv_files p)))) @ [CHR 0x0A]
     @ ''Total size: '' @ fixed_text 2 (f64_div (f64_of_int (pv_size p)) (f64_of_int (1024 * 1024))) @ '' MB'' @ [CHR 0x0A]
     @ ''Estimated duration: '' @ duration_text (pv_estimate p) @ [CHR 0x0A]"

section \<open>Validations\<close>

record 'w backup_validator =
  vb_store :: "'w store_ops"
  vb_backups :: "'w backup_api"
  vb_config :: backup_config

text \<open>A check that adds issues and may return an error.\<close>

type_synonym 'w check_step = "backup_check \<Rightarrow> 'w \<Rightarrow> go_error option \<times> backup_check \<times> 'w"

definition validate_manifest_file :: "'w backup_validator \<Rightarrow> string \<Rightarrow> 'w check_step" where
  "validate_manifest_file vb key r w =
     (case st_exists (vb_store vb) key w of
        (Inl e, w1) \<Rightarrow> (Some e, add_issue_error key ''existence_check_failed'' (err_text e) r, w1)
      | (Inr found, w1) \<Rightarrow>
          if \<not> found
          then (Some (Msg ''manifest file missing''), add_issue_error key ''manifest_missing'' ''backup manifest file does not exist'' r, w1)
          else (case get_json_into (vb_store vb) key into_backup_metadata zero_backup_metadata w1 of
                  (Inl e, w2) \<Rightarrow> (Some e, add_issue_error key ''manifest_invalid'' (''cannot parse manifest: '' @ err_text e) r, w2)
                | (Inr _, w2) \<Rightarrow> (None, r, w2)))"

text \<open>Only the length of the checksum file is looked at.\<close>

definition validate_checksum_file :: "'w backup_validator \<Rightarrow> string \<Rightarrow> 'w check_step" where
  "validate_checksum_file vb key r w =
     (case st_exists (vb_store vb) key w of
        (Inl e, w1) \<Rightarrow> (Some e, r, w1)
      | (Inr found, w1) \<Rightarrow>
          if \<not> found then (None, add_issue_warning key ''checksum_file_missing'' ''checksum file not found'' r, w1)
          else (case st_download (vb_store vb) key w1 of
                  (Inl e, w2) \<Rightarrow> (Some (Wrap ''download checksum file'' e), r, w2)
                | (Inr data, w2) \<Rightarrow>
                    (None, if length data \<noteq> 64
                           then add_issue_warning key ''invalid_checksum_format'' ''checksum is not valid SHA256 format'' r else r, w2)))"

definition validate_file_checksum :: "'w backup_validator \<Rightarrow> backup_file \<Rightarrow> backup_check \<Rightarrow> 'w \<Rightarrow> backup_check \<times> 'w" where
  "validate_file_checksum vb f r w =
     (case st_download (vb_store vb) (bf_backup f) w of
        (Inl e, w1) \<Rightarrow> (add_issue_error (bf_backup f) ''download_failed'' (err_text e) r, w1)
      | (Inr data, w1) \<Rightarrow>
          let r1 = (if generate_checksum data = bf_checksum f then r
                    else add_issue_error (bf_backup f) ''checksum_mismatch''
                           (''expected '' @ bf_checksum f @ '', got '' @ generate_checksum data) r)
          in (if int (length data) = bf_size f then r1
              else add_issue_error (bf_backup f) ''size_mismatch''
                     (''expected '' @ dec (bf_size f) @ '' bytes, got '' @ dec (int (length data)) @ '' bytes'') r1, w1))"

text \<open>Errors are logged; the issues they leave are what counts.\<close>

definition validate_backup_file :: "'w backup_validator \<Rightarrow> backup_file \<Rightarrow> backup_check \<Rightarrow> 'w \<Rightarrow> backup_check \<times> 'w" where
  "validate_backup_file vb f r w =
     (case st_exists (vb_store vb) (bf_backup f) w of
        (Inl e, w1) \<Rightarrow> (add_issue_error (bf_backup f) ''existence_check_failed'' (err_text e) r, w1)
      | (Inr found, w1) \<Rightarrow>
          if \<not> found then (add_issue_error (bf_backup f) ''file_missing'' ''backup file does not exist'' r, w1)
          else if checks_content (vb_config vb) then validate_file_checksum vb f r w1
          else (r, w1))"

fun validate_backup_files :: "'w backup_validator \<Rightarrow> backup_file list \<Rightarrow> backup_check \<Rightarrow> 'w \<Rightarrow> backup_check \<times> 'w" where
  "validate_backup_files vb [] r w = (r, w)"
| "validate_backup_files vb (f # fs) r w =
     (case validate_backup_file vb f (r\<lparr>bh_checked := wrap64 (bh_checked r + 1)\<rparr>) w of (r', w') \<Rightarrow> validate_backup_files vb fs r' w')"

definition no_errors :: "backup_check \<Rightarrow> bool" where
  "no_errors r \<longleftrightarrow> filter (\<lambda>i. bi_severity i = ''error'') (bh_issues r) = []"

definition checked :: "instant \<Rightarrow> instant \<Rightarrow> backup_check \<Rightarrow> backup_check" where
  "checked start now r = r\<lparr>bh_duration := time_sub now start, bh_valid := no_errors r\<rparr>"

text \<open>An error comes with the result so far; every caller drops the result then.\<close>

definition validate_integrity :: "'w runtime \<Rightarrow> 'w backup_validator \<Rightarrow> string \<Rightarrow> ('w, backup_check) io" where
  "validate_integrity rt vb ident w =
     (case rt_now rt w of (start, w1) \<Rightarrow>
        io_bind (io_wrap ''get backup metadata'' (ba_get (vb_backups vb) ident)) (\<lambda>m w2.
          let key = manifest_key m; sum_key = replace_first ''manifest.json'' ''checksum.sha256'' key in
          case validate_manifest_file vb key (empty_check start) w2 of
            (Some e, r, w3) \<Rightarrow> (Inl e, w3)
          | (None, r, w3) \<Rightarrow>
              (case validate_checksum_file vb sum_key r w3 of (err, r1, w4) \<Rightarrow>
                 let r2 = (case err of None \<Rightarrow> r1 | Some e \<Rightarrow> add_issue_warning sum_key ''checksum_file_invalid'' (err_text e) r1) in
                 case validate_backup_files vb (slice_of (bd_files m)) r2 w4 of (r3, w5) \<Rightarrow>
                 case rt_now rt w5 of (now, w6) \<Rightarrow> (Inr (checked start now r3), w6))) w1)"

definition validate_required_components :: "backup_metadata \<Rightarrow> backup_check \<Rightarrow> backup_check" where
  "validate_required_components m r =
     (let logs = filter (\<lambda>f. bf_type f = ''log'') (slice_of (bd_files m));
          first = list_ex (\<lambda>f. str_contains (bf_original f) first_entry) logs;
          r1 = (if logs = [] then add_issue_error [] ''missing_log_files'' ''backup does not contain any transaction log files'' r else r);
          r2 = (if first then r1 else add_issue_error [] ''missing_protocol'' ''backup does not contain Delta Lake protocol information'' r1)
      in if first then r2 else add_issue_error [] ''missing_metadata'' ''backup does not contain table metadata'' r2)"

text \<open>
  \<open>fmt.Sscanf(path, "%*[^/]/%020d.json", &version)\<close>. Go's scanning knows neither \<open>*\<close> nor sets: the verb \<open>%*\<close> is
  refused for an integer, so nothing is ever scanned.
\<close>

definition scan_log_version :: "string \<Rightarrow> int option" where
  "scan_log_version path = None"

definition log_file_versions :: "backup_metadata \<Rightarrow> int list" where
  "log_file_versions m =
     List.map_filter (\<lambda>f. scan_log_version (bf_original f))
       (filter (\<lambda>f. bf_type f = ''log'' \<and> str_contains (bf_original f) ''.json'') (slice_of (bd_files m)))"

definition validate_log_file_sequence :: "backup_metadata \<Rightarrow> backup_check \<Rightarrow> backup_check" where
  "validate_log_file_sequence m r =
     (let versions = log_file_versions m
      in fold (\<lambda>v r. if v \<in> set versions then r
                     else add_issue_warning [] ''version_gap'' (''transaction log version '' @ dec v @ '' is missing'') r)
           [0..fold max versions (-1)] r)"

definition validate_data_file_references :: "backup_metadata \<Rightarrow> backup_check \<Rightarrow> backup_check" where
  "validate_data_file_references m r =
     (if filter (\<lambda>f. bf_type f = ''data'') (slice_of (bd_files m)) = []
      then add_issue_warning [] ''no_data_files'' ''backup contains no data files'' r else r)"

definition validate_completeness :: "'w runtime \<Rightarrow> 'w backup_validator \<Rightarrow> string \<Rightarrow> ('w, backup_check) io" where
  "validate_completeness rt vb ident w =
     (case rt_now rt w of (start, w1) \<Rightarrow>
        io_bind (io_wrap ''get backup metadata'' (ba_get (vb_backups vb) ident)) (\<lambda>m w2.
          case rt_now rt w2 of (now, w3) \<Rightarrow>
            (Inr (checked start now
               (validate_data_file_references m (validate_log_file_sequence m (validate_required_components m (empty_check start))))), w3)) w1)"

definition validate_backup_format :: "backup_metadata \<Rightarrow> backup_check \<Rightarrow> backup_check" where
  "validate_backup_format m r =
     (if bd_format m \<in> {1} then r
      else add_issue_error [] ''unsupported_format'' (''backup format version '' @ dec (bd_format m) @ '' is not supported'') r)"

definition validate_delta_lake_components :: "backup_metadata \<Rightarrow> backup_check \<Rightarrow> backup_check" where
  "validate_delta_lake_components m r =
     (if list_ex (\<lambda>f. str_contains (bf_original f) ''_delta_log'') (slice_of (bd_files m)) then r
      else add_issue_error [] ''missing_delta_log'' ''backup does not contain Delta Lake transaction log'' r)"

definition validate_restorability :: "'w runtime \<Rightarrow> 'w backup_validator \<Rightarrow> string \<Rightarrow> ('w, backup_check) io" where
  "validate_restorability rt vb ident w =
     (case rt_now rt w of (start, w1) \<Rightarrow>
        io_bind (io_wrap ''validate integrity'' (validate_integrity rt vb ident)) (\<lambda>ri.
        io_bind (io_wrap ''validate completeness'' (validate_completeness rt vb ident)) (\<lambda>rc.
        io_bind (io_wrap ''get backup metadata'' (ba_get (vb_backups vb) ident)) (\<lambda>m w2.
          let r = (empty_check start)\<lparr>bh_valid := bh_valid ri \<and> bh_valid rc, bh_issues := bh_issues ri @ bh_issues rc,
                     bh_checked := bh_checked ri\<rparr>;
              r1 = validate_delta_lake_components m (validate_backup_format m r)
          in case rt_now rt w2 of (now, w3) \<Rightarrow> (Inr (checked start now r1), w3)))) w1)"

end
