(* ===== verification/BackupScheduler.thy ===== *)
theory BackupScheduler
  imports BackupRestore Config
begin

text \<open>
  internal/backup/scheduler.go and manager.go: scheduled backups over a cron library, which is an argument, the
  cleanup of old backups, and the manager that puts the parts together. The methods run under the scheduler's lock,
  so each is one step on its state.
\<close>

section \<open>The scheduler\<close>

text \<open>
  What the scheduler uses of robfig/cron: adding a job (the source and table it backs up) under a schedule, removing
  an entry, the next run of an entry, and starting and stopping.
\<close>

record 'w cron_ops =
  cn_add :: "string \<Rightarrow> string \<times> string \<Rightarrow> ('w, int) io"
  cn_remove :: "int \<Rightarrow> 'w \<Rightarrow> 'w"
  cn_next :: "int \<Rightarrow> 'w \<Rightarrow> instant"
  cn_start :: "'w \<Rightarrow> 'w"
  cn_stop :: "'w \<Rightarrow> 'w"

record scheduled_backup =
  sk_source :: string
  sk_table :: string
  sk_schedule :: string
  sk_last :: "instant option"
  sk_next :: instant
  sk_enabled :: bool

record backup_scheduler =
  sd_jobs :: "(string, int) gomap"
  sd_scheduled :: "(string, scheduled_backup) gomap"
  sd_running :: bool

record job_status =
  jt_key :: string
  jt_source :: string
  jt_table :: string
  jt_schedule :: string
  jt_next :: instant
  jt_last :: "instant option"
  jt_enabled :: bool

definition new_backup_scheduler :: backup_scheduler where
  "new_backup_scheduler = \<lparr>sd_jobs = [], sd_scheduled = [], sd_running = False\<rparr>"

definition job_key :: "string \<Rightarrow> string \<Rightarrow> string" where
  "job_key source tbl = source @ ''_'' @ tbl"

text \<open>When adding fails the old job is already gone, but its entry in the list of scheduled backups stays.\<close>

definition schedule_backup :: "'w cron_ops \<Rightarrow> backup_config \<Rightarrow> string \<Rightarrow> string \<Rightarrow> string \<Rightarrow> (backup_scheduler \<times> 'w, unit) io" where
  "schedule_backup cn c source tbl schedule = (\<lambda>(sd, w).
     if \<not> bg_enabled c then (Inl (Msg ''backup is not enabled''), (sd, w))
     else let key = job_key source tbl in
       case (case map_of (sd_jobs sd) key of
               None \<Rightarrow> (sd, w)
             | Some i \<Rightarrow> (sd\<lparr>sd_jobs := AList.delete key (sd_jobs sd)\<rparr>, cn_remove cn i w)) of (sd1, w1) \<Rightarrow>
       (case cn_add cn schedule (source, tbl) w1 of
          (Inl e, w2) \<Rightarrow> (Inl (Wrap ''add cron job'' e), (sd1, w2))
        | (Inr i, w2) \<Rightarrow>
            (Inr (),
             (sd1\<lparr>sd_jobs := AList.update key i (sd_jobs sd1),
                 sd_scheduled := AList.update key
                   \<lparr>sk_source = source, sk_table = tbl, sk_schedule = schedule, sk_last = None, sk_next = cn_next cn i w2,
                    sk_enabled = True\<rparr> (sd_scheduled sd1)\<rparr>, w2))))"

definition unschedule_backup :: "'w cron_ops \<Rightarrow> string \<Rightarrow> string \<Rightarrow> (backup_scheduler \<times> 'w, unit) io" where
  "unschedule_backup cn source tbl = (\<lambda>(sd, w).
     case map_of (sd_jobs sd) (job_key source tbl) of
       None \<Rightarrow> (Inl (Msg (''no scheduled backup found for '' @ source @ ''/'' @ tbl)), (sd, w))
     | Some i \<Rightarrow>
         (Inr (), (sd\<lparr>sd_jobs := AList.delete (job_key source tbl) (sd_jobs sd),
                     sd_scheduled := AList.delete (job_key source tbl) (sd_scheduled sd)\<rparr>, cn_remove cn i w)))"

definition start_scheduler :: "'w cron_ops \<Rightarrow> (backup_scheduler \<times> 'w, unit) io" where
  "start_scheduler cn = (\<lambda>(sd, w).
     if sd_running sd then (Inl (Msg ''scheduler is already running''), (sd, w))
     else (Inr (), (sd\<lparr>sd_running := True\<rparr>, cn_start cn w)))"

text \<open>Whether the running jobs end in time is only logged.\<close>

definition stop_scheduler :: "'w cron_ops \<Rightarrow> (backup_scheduler \<times> 'w, unit) io" where
  "stop_scheduler cn = (\<lambda>(sd, w).
     if \<not> sd_running sd then (Inr (), (sd, w)) else (Inr (), (sd\<lparr>sd_running := False\<rparr>, cn_stop cn w)))"

definition get_scheduled_backups ::
  "'w cron_ops \<Rightarrow> ((string \<times> scheduled_backup) list \<Rightarrow> (string \<times> scheduled_backup) list) \<Rightarrow> backup_scheduler \<Rightarrow> 'w \<Rightarrow> scheduled_backup list" where
  "get_scheduled_backups cn ord sd w =
     map (\<lambda>(k, b). case map_of (sd_jobs sd) (job_key (sk_source b) (sk_table b)) of
                    None \<Rightarrow> b | Some i \<Rightarrow> b\<lparr>sk_next := cn_next cn i w\<rparr>) (ord (sd_scheduled sd))"

text \<open>The zero value of a scheduled backup, for a job without one.\<close>

definition zero_scheduled_backup :: scheduled_backup where
  "zero_scheduled_backup =
     \<lparr>sk_source = [], sk_table = [], sk_schedule = [], sk_last = None, sk_next = zero_time, sk_enabled = False\<rparr>"

definition get_job_status :: "'w cron_ops \<Rightarrow> backup_scheduler \<Rightarrow> 'w \<Rightarrow> (string, job_status) gomap" where
  "get_job_status cn sd w =
     map (\<lambda>(key, i).
       let b = (case map_of (sd_scheduled sd) key of None \<Rightarrow> zero_scheduled_backup | Some b \<Rightarrow> b)
       in (key, \<lparr>jt_key = key, jt_source = sk_source b, jt_table = sk_table b, jt_schedule = sk_schedule b, jt_next = cn_next cn i w,
                 jt_last = sk_last b, jt_enabled = sk_enabled b\<rparr>)) (sd_jobs sd)"

text \<open>A scheduled job: a backup of version -1, which stands for the latest one.\<close>

definition execute_backup :: "'w runtime \<Rightarrow> 'w backup_api \<Rightarrow> string \<Rightarrow> string \<Rightarrow> backup_scheduler \<times> 'w \<Rightarrow> backup_scheduler \<times> 'w" where
  "execute_backup rt api source tbl = (\<lambda>(sd, w).
     case rt_now rt w of (start, w1) \<Rightarrow>
     (case ba_create api source tbl (-1) w1 of
        (Inl e, w2) \<Rightarrow> (sd, w2)
      | (Inr m, w2) \<Rightarrow>
          (case map_of (sd_scheduled sd) (job_key source tbl) of
             None \<Rightarrow> (sd, w2)
           | Some b \<Rightarrow> (sd\<lparr>sd_scheduled := AList.update (job_key source tbl) (b\<lparr>sk_last := Some start\<rparr>) (sd_scheduled sd)\<rparr>, w2))))"

section \<open>The cleanup\<close>

definition cleanup_cutoff :: "backup_config \<Rightarrow> instant \<Rightarrow> instant" where
  "cleanup_cutoff c now = now - bg_retention_days c * day_second * second"

text \<open>Errors of a deletion are logged.\<close>

fun delete_old :: "'w backup_api \<Rightarrow> instant \<Rightarrow> backup_metadata list \<Rightarrow> 'w \<Rightarrow> 'w" where
  "delete_old api cutoff [] w = w"
| "delete_old api cutoff (m # ms) w =
     delete_old api cutoff ms (if bd_created m < cutoff then snd (ba_delete api (bd_id m) w) else w)"

fun cleanup_tables :: "'w backup_api \<Rightarrow> instant \<Rightarrow> scheduled_backup list \<Rightarrow> 'w \<Rightarrow> 'w" where
  "cleanup_tables api cutoff [] w = w"
| "cleanup_tables api cutoff (b # bs) w =
     (case ba_list api (sk_source b) (sk_table b) w of
        (Inl e, w1) \<Rightarrow> cleanup_tables api cutoff bs w1
      | (Inr ms, w1) \<Rightarrow> cleanup_tables api cutoff bs (delete_old api cutoff ms w1))"

definition perform_cleanup ::
  "'w runtime \<Rightarrow> 'w backup_api \<Rightarrow> 'w cron_ops \<Rightarrow> backup_config \<Rightarrow> ((string \<times> scheduled_backup) list \<Rightarrow> (string \<times> scheduled_backup) list)
   \<Rightarrow> backup_scheduler \<Rightarrow> 'w \<Rightarrow> 'w" where
  "perform_cleanup rt api cn c ord sd w =
     (case rt_now rt w of (now, w1) \<Rightarrow> cleanup_tables api (cleanup_cutoff c now) (get_scheduled_backups cn ord sd w1) w1)"

text \<open>One tick of the cleanup routine; without a retention there is no routine.\<close>

definition cleanup_tick ::
  "'w runtime \<Rightarrow> 'w backup_api \<Rightarrow> 'w cron_ops \<Rightarrow> backup_config \<Rightarrow> ((string \<times> scheduled_backup) list \<Rightarrow> (string \<times> scheduled_backup) list)
   \<Rightarrow> backup_scheduler \<Rightarrow> 'w \<Rightarrow> 'w" where
  "cleanup_tick rt api cn c ord sd w = (if bg_retention_days c \<le> 0 then w else perform_cleanup rt api cn c ord sd w)"

section \<open>The manager\<close>

definition backup_config_of :: "backup_section \<Rightarrow> backup_config" where
  "backup_config_of b =
     \<lparr>bg_enabled = bk_enabled b, bg_bucket = bk_destination_bucket b, bg_region = bk_destination_region b, bg_schedule = bk_schedule b,
      bg_retention_days = bk_retention_days b, bg_cross_region = bk_cross_region b, bg_key = bk_encryption_key b,
      bg_mode = bk_validation_mode b, bg_uploads = bk_concurrent_uploads b, bg_chunk_mb = bk_chunk_size_mb b\<rparr>"

record 'w backup_manager =
  mg_engine :: "'w backup_engine"
  mg_restore :: "'w restore_engine"
  mg_validator :: "'w backup_validator"
  mg_scheduler :: backup_scheduler
  mg_config :: backup_section

definition new_backup_manager ::
  "'w runtime \<Rightarrow> 'w store_ops \<Rightarrow> (string \<Rightarrow> ('w, unit) io) \<Rightarrow> ((string \<times> add) list \<Rightarrow> (string \<times> add) list) \<Rightarrow> backup_section \<Rightarrow> 'w backup_manager" where
  "new_backup_manager rt store del sched section =
     (let c = backup_config_of section; be = \<lparr>be_store = store, be_delete = del, be_config = c\<rparr>; api = engine_api rt be sched
      in \<lparr>mg_engine = be, mg_restore = \<lparr>rz_store = store, rz_backups = api, rz_config = c\<rparr>,
          mg_validator = \<lparr>vb_store = store, vb_backups = api, vb_config = c\<rparr>, mg_scheduler = new_backup_scheduler, mg_config = section\<rparr>)"

definition manager_start :: "'w cron_ops \<Rightarrow> backup_section \<Rightarrow> (backup_scheduler \<times> 'w, unit) io" where
  "manager_start cn section = (if \<not> bk_enabled section then io_ret () else io_wrap ''start backup scheduler'' (start_scheduler cn))"

definition manager_stop :: "'w cron_ops \<Rightarrow> backup_section \<Rightarrow> (backup_scheduler \<times> 'w, unit) io" where
  "manager_stop cn section = (if \<not> bk_enabled section then io_ret () else io_wrap ''stop backup scheduler'' (stop_scheduler cn))"

section \<open>What the scheduler keeps\<close>

text \<open>Jobs and scheduled backups are maps, and every job has a scheduled backup.\<close>

definition scheduler_ok :: "backup_scheduler \<Rightarrow> bool" where
  "scheduler_ok sd \<longleftrightarrow> keys_distinct (sd_jobs sd) \<and> keys_distinct (sd_scheduled sd)
     \<and> fst ` set (sd_jobs sd) \<subseteq> fst ` set (sd_scheduled sd)"

lemma scheduler_ok_new: "scheduler_ok new_backup_scheduler"
  by (simp add: scheduler_ok_def new_backup_scheduler_def)

lemma keys_delete: "fst ` set (AList.delete k m) = fst ` set m - {k}"
  by (metis delete_keys set_map set_removeAll)

end
