(* ===== verification/BackupLaws.thy ===== *)
theory BackupLaws
  imports BackupScheduler Lake
begin

text \<open>
  What backups and restores promise. A backup engine over a store is a \<open>backup_source\<close>: it reads manifests, and
  calls valid only what is there. On such a source a restore that reports success has written only data whose
  checksum the manifest names. A backup of a table of the lake, however, cannot be made: its snapshot looks for the
  log under a name no log has.
\<close>

section \<open>The source of backups\<close>

lemma run_all_error [simp]: "run_all f xs (Some e) w \<noteq> (Inr u, w')"
  by (induction xs arbitrary: w) (auto simp: io_try_def split: prod.splits)

text \<open>The bucket holds a manifest for \<open>ident\<close> that reads as \<open>m\<close>.\<close>

definition has_manifest :: "objects \<Rightarrow> string \<Rightarrow> backup_metadata \<Rightarrow> bool" where
  "has_manifest v ident m \<longleftrightarrow> bd_id m = ident \<and>
     (\<exists>key d j. is_manifest key \<and> has_prefix key ''backups/'' \<and> v key = Some d \<and> json_unmarshal d = Some j
        \<and> into_backup_metadata j zero_backup_metadata = Some m)"

definition files_intact :: "backup_config \<Rightarrow> objects \<Rightarrow> backup_file list \<Rightarrow> bool" where
  "files_intact c v fs \<longleftrightarrow>
     (\<forall>f \<in> set fs. \<exists>d. v (bf_backup f) = Some d \<and> (checks_content c \<longrightarrow> generate_checksum d = bf_checksum f))"

locale backup_source = s3_store ops view for ops :: "'w store_ops" and view +
  fixes api :: "'w backup_api" and c :: backup_config
  assumes get_view: "ba_get api ident w = (x, w') \<Longrightarrow> view w' = view w"
    and get_manifest: "ba_get api ident w = (Inr m, w') \<Longrightarrow> has_manifest (view w) ident m"
    and validate_view: "ba_validate api ident w = (y, w') \<Longrightarrow> view w' = view w"
    and valid_intact: "ba_validate api ident w = (Inr r, w') \<Longrightarrow> bh_valid r
      \<Longrightarrow> \<exists>m. has_manifest (view w) ident m \<and> files_intact c (view w) (slice_of (bd_files m))"
begin

lemma validate_restore_ok:
  assumes "rz_backups rz = api" and "validate_restore rz ident source tbl w = (Inr u, w')"
  shows "view w' = view w" and "\<exists>m. has_manifest (view w) ident m \<and> files_intact c (view w) (slice_of (bd_files m))"
    and "\<exists>m. has_manifest (view w) ident m \<and> restorable m source tbl = Inr ()"
proof -
  obtain m w1 where m: "ba_get api ident w = (Inr m, w1)" and rest: "io_bind (io_wrap ''validate backup'' (ba_validate (rz_backups rz) ident)) (\<lambda>r.
       if \<not> bh_valid r
       then io_fail (Msg (''backup is not valid: '' @ dec (int (length (bh_issues r))) @ '' issues found''))
       else (\<lambda>w. (restorable m source tbl, w))) w1 = (Inr u, w')"
    using assms unfolding validate_restore_def by (auto elim!: io_bind_InrE io_wrap_InrE)
  obtain r w2 where r: "ba_validate api ident w1 = (Inr r, w2)" and ok: "bh_valid r" "restorable m source tbl = Inr u" "w2 = w'"
    using rest assms(1) by (auto elim!: io_bind_InrE io_wrap_InrE split: if_splits)
  have w1: "view w1 = view w" by (rule get_view [OF m])
  show "view w' = view w" using validate_view [OF r] w1 ok(3) by simp
  show "\<exists>m. has_manifest (view w) ident m \<and> files_intact c (view w) (slice_of (bd_files m))"
    using valid_intact [OF r ok(1)] w1 by simp
  show "\<exists>m. has_manifest (view w) ident m \<and> restorable m source tbl = Inr ()"
    using get_manifest [OF m] ok(2) by auto
qed

text \<open>The files of \<open>done\<close> are restored, each from a file of \<open>fs\<close> with the same target.\<close>

definition restored :: "backup_metadata \<Rightarrow> string \<Rightarrow> string \<Rightarrow> backup_file list \<Rightarrow> backup_file set \<Rightarrow> objects \<Rightarrow> bool" where
  "restored m source tbl fs finished v \<longleftrightarrow>
     (\<forall>f \<in> finished. \<exists>g \<in> set fs. restore_target m source tbl g = restore_target m source tbl f
        \<and> (\<exists>d. v (restore_target m source tbl f) = Some d \<and> generate_checksum d = bf_checksum g))"

lemma restore_file_ok:
  assumes "rz_store rz = ops" and "restore_file rz m source tbl f w = (Inr u, w')"
    and "restored m source tbl fs finished (view w)" and "f \<in> set fs"
  shows "restored m source tbl fs (insert f finished) (view w')"
proof -
  obtain data w1 where d: "st_download ops (bf_backup f) w = (Inr data, w1)" and sum: "generate_checksum data = bf_checksum f"
    and up: "st_upload ops (restore_target m source tbl f) data (restore_content_type f) w1 = (Inr u, w')"
    using assms(1,2) unfolding restore_file_def by (auto elim!: io_bind_InrE io_wrap_InrE split: if_splits)
  have "view w' = (view w)(restore_target m source tbl f \<mapsto> data)" using upload_ok [OF up] download_view [OF d] by simp
  then show ?thesis using assms(3,4) sum unfolding restored_def by fastforce
qed

lemma restore_logs_ok:
  assumes "rz_store rz = ops"
  shows "restore_logs rz m source tbl xs w = (Inr u, w') \<Longrightarrow> restored m source tbl fs finished (view w) \<Longrightarrow> set xs \<subseteq> set fs
    \<Longrightarrow> restored m source tbl fs (set xs \<union> finished) (view w')"
proof (induction xs arbitrary: w finished)
  case (Cons f xs)
  obtain u1 w1 where f: "restore_file rz m source tbl f w = (Inr u1, w1)" and rest: "restore_logs rz m source tbl xs w1 = (Inr u, w')"
    using Cons.prems(1) by (auto elim!: io_bind_InrE io_wrap_InrE)
  have "restored m source tbl fs (insert f finished) (view w1)"
    by (rule restore_file_ok [OF assms f Cons.prems(2)]) (use Cons.prems(3) in simp)
  from Cons.IH [OF rest this] Cons.prems(3) show ?case by simp
qed simp

lemma restore_data_ok:
  assumes "rz_store rz = ops"
  shows "run_all (\<lambda>f. io_wrap (''restore data file '' @ bf_original f) (restore_file rz m source tbl f)) xs None w = (Inr u, w')
    \<Longrightarrow> restored m source tbl fs finished (view w) \<Longrightarrow> set xs \<subseteq> set fs \<Longrightarrow> restored m source tbl fs (set xs \<union> finished) (view w')"
proof (induction xs arbitrary: w finished)
  case (Cons f xs)
  obtain r w1 where f: "restore_file rz m source tbl f w = (r, w1)" by (metis surj_pair)
  show ?case
  proof (cases r)
    case (Inl e)
    then show ?thesis using Cons.prems(1) f by (simp add: io_try_def run_all_error)
  next
    case (Inr u1)
    then have "run_all (\<lambda>f. io_wrap (''restore data file '' @ bf_original f) (restore_file rz m source tbl f)) xs None w1 = (Inr u, w')"
      using Cons.prems(1) f by (auto simp: io_try_def)
    moreover have "restored m source tbl fs (insert f finished) (view w1)"
      by (rule restore_file_ok [OF assms f [unfolded Inr] Cons.prems(2)]) (use Cons.prems(3) in simp)
    ultimately show ?thesis using Cons.IH [of w1 "insert f finished"] Cons.prems(3) by simp
  qed
qed simp

lemma perform_restore_ok:
  assumes "rz_store rz = ops" and "iteration_order sched" and "perform_restore rz sched m source tbl w = (Inr u, w')"
  shows "restored m source tbl (slice_of (bd_files m)) (set (slice_of (bd_files m))) (view w')"
proof -
  let ?fs = "slice_of (bd_files m)"
  obtain u1 w1 w2 where logs: "restore_logs rz m source tbl (filter is_log_file ?fs) w1 = (Inr u1, w2)"
    and data: "run_all (\<lambda>f. io_wrap (''restore data file '' @ bf_original f) (restore_file rz m source tbl f))
      (sched (filter (\<lambda>f. \<not> is_log_file f) ?fs)) None w2 = (Inr u, w')"
    using assms(3) unfolding perform_restore_def by (auto elim!: io_bind_InrE io_wrap_InrE)
  have "restored m source tbl ?fs {} (view w1)" by (simp add: restored_def)
  from restore_logs_ok [OF assms(1) logs this] have "restored m source tbl ?fs (set (filter is_log_file ?fs)) (view w2)" by simp
  from restore_data_ok [OF assms(1) data this]
  have "restored m source tbl ?fs (set (sched (filter (\<lambda>f. \<not> is_log_file f) ?fs)) \<union> set (filter is_log_file ?fs)) (view w')"
    using assms(2) by simp
  moreover have "set (sched (filter (\<lambda>f. \<not> is_log_file f) ?fs)) \<union> set (filter is_log_file ?fs) = set ?fs" using assms(2) by auto
  ultimately show ?thesis by simp
qed

lemma restore_verified:
  assumes "rz_store rz = ops" and "rz_backups rz = api" and "iteration_order sched"
    and "restore_from_backup rz sched ident source tbl w = (Inr u, w')"
  shows "\<exists>m. has_manifest (view w) ident m \<and> (\<forall>f \<in> set (slice_of (bd_files m)). \<exists>g \<in> set (slice_of (bd_files m)).
      restore_target m source tbl g = restore_target m source tbl f
      \<and> (\<exists>d. view w' (restore_target m source tbl f) = Some d \<and> generate_checksum d = bf_checksum g))"
proof -
  obtain m w1 u2 w2 where m: "ba_get api ident w = (Inr m, w1)" and v: "validate_restore rz ident source tbl w1 = (Inr u2, w2)"
    and p: "perform_restore rz sched m source tbl w2 = (Inr u, w')"
    using assms(2,4) unfolding restore_from_backup_def by (auto elim!: io_bind_InrE io_wrap_InrE)
  from perform_restore_ok [OF assms(1,3) p] get_manifest [OF m] show ?thesis unfolding restored_def by blast
qed

end

section \<open>The engine is a source of backups\<close>

context s3_store
begin

lemma load_manifest_view:
  assumes "be_store be = ops" and "load_manifest be key w = (r, w')"
  shows "view w' = view w"
  using assms(2) unfolding load_manifest_def get_json_into_def assms(1) io_bind_def
  by (auto dest: get_json_view split: prod.splits sum.splits option.splits)

lemma load_manifest_ok:
  assumes "be_store be = ops" and "load_manifest be key w = (Inr m, w')"
  shows "\<exists>d j. view w key = Some d \<and> json_unmarshal d = Some j \<and> into_backup_metadata j zero_backup_metadata = Some m"
  using assms(2) get_json_ok unfolding load_manifest_def get_json_into_def assms(1)
  by (fastforce elim!: io_bind_InrE split: option.splits)

lemma find_manifest_view:
  assumes "be_store be = ops"
  shows "find_manifest be ident keys w = (r, w') \<Longrightarrow> view w' = view w"
proof (induction keys arbitrary: w)
  case (Cons key keys)
  obtain x w1 where x: "load_manifest be key w = (x, w1)" by (metis surj_pair)
  have "view w1 = view w" by (rule load_manifest_view [OF assms x])
  then show ?case using Cons x by (cases x) (auto split: if_splits)
qed simp

lemma find_manifest_ok:
  assumes "be_store be = ops"
  shows "find_manifest be ident keys w = (Inr m, w') \<Longrightarrow> bd_id m = ident \<and> (\<exists>key \<in> set keys. is_manifest key \<and>
    (\<exists>d j. view w key = Some d \<and> json_unmarshal d = Some j \<and> into_backup_metadata j zero_backup_metadata = Some m))"
proof (induction keys arbitrary: w)
  case (Cons key keys)
  obtain x w1 where x: "load_manifest be key w = (x, w1)" by (metis surj_pair)
  have w1: "view w1 = view w" by (rule load_manifest_view [OF assms x])
  show ?case
  proof (cases "is_manifest key \<and> (\<exists>m'. x = Inr m' \<and> bd_id m' = ident)")
    case True
    then have "x = Inr m" and "bd_id m = ident" using Cons.prems x by auto
    then show ?thesis using load_manifest_ok [OF assms] x True by auto
  next
    case False
    then have "find_manifest be ident keys w1 = (Inr m, w') \<or> find_manifest be ident keys w = (Inr m, w')"
      using Cons.prems x by (cases x) (auto split: if_splits)
    then show ?thesis using Cons.IH [of w1] Cons.IH [of w] w1 by auto
  qed
qed simp

lemma get_backup_view:
  assumes "be_store be = ops" and "get_backup_metadata be ident w = (r, w')"
  shows "view w' = view w"
proof -
  obtain k w1 where k: "st_list ops ''backups/'' w = (k, w1)" by (metis surj_pair)
  have w1: "view w1 = view w" by (rule list_view [OF k])
  show ?thesis
  proof (cases k)
    case (Inl e)
    then show ?thesis using assms k w1 by (auto simp: get_backup_metadata_def io_bind_def io_wrap_def)
  next
    case (Inr keys)
    then have "find_manifest be ident keys w1 = (r, w')"
      using assms k by (auto simp: get_backup_metadata_def io_bind_def io_wrap_def)
    then show ?thesis using find_manifest_view [OF assms(1)] w1 by simp
  qed
qed

lemma get_backup_manifest:
  assumes "be_store be = ops" and "get_backup_metadata be ident w = (Inr m, w')"
  shows "has_manifest (view w) ident m"
proof -
  obtain keys w1 where k: "st_list ops ''backups/'' w = (Inr keys, w1)" and f: "find_manifest be ident keys w1 = (Inr m, w')"
    using assms unfolding get_backup_metadata_def by (auto elim!: io_bind_InrE io_wrap_InrE)
  have "view w1 = view w" by (rule list_view [OF k])
  then show ?thesis using find_manifest_ok [OF assms(1) f] list_ok [OF k] unfolding has_manifest_def by auto
qed

lemma check_file_view:
  assumes "be_store be = ops" and "check_file be f r w = (r', w')"
  shows "view w' = view w"
proof -
  obtain x w1 where x: "st_exists ops (bf_backup f) w = (x, w1)" by (metis surj_pair)
  obtain y w2 where y: "st_download ops (bf_backup f) w1 = (y, w2)" by (metis surj_pair)
  have "view w1 = view w" and "view w2 = view w1" using exists_view [OF x] download_view [OF y] by simp_all
  moreover have "w' = w1 \<or> w' = w2"
    using assms x y by (auto simp: check_file_def Let_def split: sum.splits if_splits)
  ultimately show ?thesis by auto
qed

text \<open>Issues are only added; a file that adds none is there, with its checksum where contents are checked.\<close>

lemma check_file_issues:
  assumes "be_store be = ops" and "check_file be f r w = (r', w')" and "bh_issues r' = []"
  shows "bh_issues r = []"
    and "\<exists>d. view w (bf_backup f) = Some d \<and> (checks_content (be_config be) \<longrightarrow> generate_checksum d = bf_checksum f)"
proof -
  obtain x w1 where x: "st_exists ops (bf_backup f) w = (x, w1)" by (metis surj_pair)
  obtain y w2 where y: "st_download ops (bf_backup f) w1 = (y, w2)" by (metis surj_pair)
  have w1: "view w1 = view w" by (rule exists_view [OF x])
  have "bh_issues r = [] \<and> x = Inr True \<and> (checks_content (be_config be) \<longrightarrow> (\<exists>d. y = Inr d \<and> generate_checksum d = bf_checksum f))"
    using assms x y by (auto simp: check_file_def Let_def add_issue_error_def split: sum.splits if_splits)
  then show "bh_issues r = []"
    and "\<exists>d. view w (bf_backup f) = Some d \<and> (checks_content (be_config be) \<longrightarrow> generate_checksum d = bf_checksum f)"
    using exists_ok [of "bf_backup f" w True w1] download_ok [of "bf_backup f" w1] x y w1 by (auto simp: dom_def)
qed

lemma check_files_view:
  assumes "be_store be = ops"
  shows "check_files be fs r w = (r', w') \<Longrightarrow> view w' = view w"
proof (induction fs arbitrary: r w)
  case (Cons f fs)
  obtain r1 w1 where f: "check_file be f r w = (r1, w1)" by (metis surj_pair)
  show ?case using Cons.IH [of r1 w1] Cons.prems check_file_view [OF assms f] f by simp
qed simp

lemma check_files_issues:
  assumes "be_store be = ops"
  shows "check_files be fs r w = (r', w') \<Longrightarrow> bh_issues r' = [] \<Longrightarrow> bh_issues r = [] \<and> files_intact (be_config be) (view w) fs"
proof (induction fs arbitrary: r w)
  case (Cons f fs)
  obtain r1 w1 where f: "check_file be f r w = (r1, w1)" by (metis surj_pair)
  have IH: "bh_issues r1 = [] \<and> files_intact (be_config be) (view w1) fs" using Cons.IH [of r1 w1] Cons.prems f by simp
  have "view w1 = view w" by (rule check_file_view [OF assms f])
  then show ?case using IH check_file_issues [OF assms f] by (simp add: files_intact_def)
qed (simp add: files_intact_def)

end

lemma engine_backup_source:
  assumes "s3_store ops view" and "\<And>w t w'. rt_now rt w = (t, w') \<Longrightarrow> view w' = view w" and "be_store be = ops"
  shows "backup_source ops view (engine_api rt be sched) (be_config be)"
proof (rule backup_source.intro [OF assms(1)], rule backup_source_axioms.intro)
  note S = assms(1)
  show "view w' = view w" if "ba_get (engine_api rt be sched) ident w = (x, w')" for ident w x w'
    using s3_store.get_backup_view [OF S assms(3)] that by (simp add: engine_api_def)
  show "has_manifest (view w) ident m" if "ba_get (engine_api rt be sched) ident w = (Inr m, w')" for ident w m w'
    using s3_store.get_backup_manifest [OF S assms(3)] that by (simp add: engine_api_def)
  have run: "view w' = view w \<and> (\<forall>r. y = Inr r \<and> bh_valid r \<longrightarrow>
      (\<exists>m. has_manifest (view w) ident m \<and> files_intact (be_config be) (view w) (slice_of (bd_files m))))"
    if v: "validate_backup rt be ident w = (y, w')" for ident w y w'
  proof -
    obtain start w1 where start: "rt_now rt w = (start, w1)" by (metis surj_pair)
    obtain g w2 where g: "get_backup_metadata be ident w1 = (g, w2)" by (metis surj_pair)
    have w2: "view w2 = view w" using s3_store.get_backup_view [OF S assms(3) g] assms(2) [OF start] by simp
    show ?thesis
    proof (cases g)
      case (Inl e)
      then show ?thesis using v start g w2 by (auto simp: validate_backup_def)
    next
      case (Inr m)
      obtain r w3 where r: "check_files be (slice_of (bd_files m)) (empty_check start) w2 = (r, w3)" by (metis surj_pair)
      obtain now w4 where now: "rt_now rt w3 = (now, w4)" by (metis surj_pair)
      have y: "y = Inr (r\<lparr>bh_duration := time_sub now start, bh_valid := (bh_issues r = [])\<rparr>)" "w' = w4"
        using v start g r now Inr by (simp_all add: validate_backup_def)
      have "view w4 = view w" using assms(2) [OF now] s3_store.check_files_view [OF S assms(3) r] w2 by simp
      moreover have "has_manifest (view w) ident m"
        using s3_store.get_backup_manifest [OF S assms(3) g [unfolded Inr]] assms(2) [OF start] by simp
      ultimately show ?thesis using y s3_store.check_files_issues [OF S assms(3) r] w2 by auto
    qed
  qed
  show "view w' = view w" if "ba_validate (engine_api rt be sched) ident w = (y, w')" for ident w y w'
    using run [of ident w y w'] that by (simp add: engine_api_def)
  show "\<exists>m. has_manifest (view w) ident m \<and> files_intact (be_config be) (view w) (slice_of (bd_files m))"
    if "ba_validate (engine_api rt be sched) ident w = (Inr r, w')" "bh_valid r" for ident w r w'
    using run [of ident w "Inr r" w'] that by (simp add: engine_api_def)
qed

end
