(* ===== verification/BackupCopy.thy ===== *)
theory BackupCopy
  imports BackupLaws
begin

text \<open>
  What a backup that reports success has written. The metadata grow along the copies, so the invariant is one over
  the metadata and the bucket together; it holds for every order of the goroutines. Then the manifest: what is
  written is what is read.
\<close>

section \<open>The manifest\<close>

definition wf_backup :: "backup_metadata \<Rightarrow> bool" where
  "wf_backup m \<longleftrightarrow> valid_utf8 (bd_id m) \<and> valid_utf8 (bd_source m) \<and> valid_utf8 (bd_table m) \<and> valid_utf8 (bd_source_path m)
     \<and> valid_utf8 (bd_checksum m) \<and> valid_utf8 (bd_status m) \<and> valid_utf8 (bd_error m) \<and> backup_times_ok m
     \<and> in_int64 (bd_version m) \<and> in_int64 (bd_format m) \<and> in_int64 (bd_total_files m) \<and> in_int64 (bd_total_size m)
     \<and> in_int64 (bd_duration m)
     \<and> (\<forall>f \<in> set (slice_of (bd_files m)). valid_utf8 (bf_original f) \<and> valid_utf8 (bf_backup f) \<and> valid_utf8 (bf_checksum f)
          \<and> valid_utf8 (bf_type f) \<and> in_int64 (bf_size f))"

lemma into_backup_file_enc [simp, codec]: "in_int64 (bf_size f) \<Longrightarrow> into_backup_file (enc_backup_file f) zero_backup_file = Some f"
  by (cases f) (simp add: into_backup_file_def enc_backup_file_def zero_backup_file_def into_struct_def find_field_exact fld_def codec)

lemma into_backup_files_enc:
  assumes "wf_backup m"
  shows "into_slice zero_backup_file into_backup_file (enc_slice enc_backup_file (bd_files m)) y = Some (bd_files m)"
  using assms by (intro into_slice_enc) (auto simp: wf_backup_def slice_of_def)

lemma backup_field_names:
  "find_field backup_fields ''backup_id'' = Some (fld bd_id bd_id_update into_string)"
  "find_field backup_fields ''source'' = Some (fld bd_source bd_source_update into_string)"
  "find_field backup_fields ''table'' = Some (fld bd_table bd_table_update into_string)"
  "find_field backup_fields ''created_at'' = Some (fld bd_created bd_created_update into_time)"
  "find_field backup_fields ''completed_at'' = Some (fld bd_completed bd_completed_update (into_ptr zero_time into_time))"
  "find_field backup_fields ''source_version'' = Some (fld bd_version bd_version_update into_int64)"
  "find_field backup_fields ''source_path'' = Some (fld bd_source_path bd_source_path_update into_string)"
  "find_field backup_fields ''format_version'' = Some (fld bd_format bd_format_update into_int64)"
  "find_field backup_fields ''checksum'' = Some (fld bd_checksum bd_checksum_update into_string)"
  "find_field backup_fields ''total_files'' = Some (fld bd_total_files bd_total_files_update into_int64)"
  "find_field backup_fields ''total_size'' = Some (fld bd_total_size bd_total_size_update into_int64)"
  "find_field backup_fields ''status'' = Some (fld bd_status bd_status_update into_string)"
  "find_field backup_fields ''error_message'' = Some (fld bd_error bd_error_update into_string)"
  "find_field backup_fields ''duration'' = Some (fld bd_duration bd_duration_update into_int64)"
  "find_field backup_fields ''files'' = Some (fld bd_files bd_files_update (into_slice zero_backup_file into_backup_file))"
  by (simp_all add: backup_fields_def find_field_exact)

lemma into_backup_metadata_enc:
  assumes "wf_backup m"
  shows "into_backup_metadata (enc_backup_metadata m) zero_backup_metadata = Some m"
proof -
  note fs = into_backup_files_enc [OF assms, of None]
  have c: "into_ptr zero_time into_time (enc_ptr enc_time (bd_completed m)) None = Some (bd_completed m)" if "bd_completed m = Some t" for t
  proof -
    have "enc_time t \<noteq> JNull" by (simp add: enc_time_def)
    with that show ?thesis
      using assms by (intro into_ptr_enc) (simp_all add: wf_backup_def backup_times_ok_def)
  qed
  have ints: "into_int64 (enc_int (bd_version m)) 0 = Some (bd_version m)" "into_int64 (enc_int (bd_format m)) 0 = Some (bd_format m)"
    "into_int64 (enc_int (bd_total_files m)) 0 = Some (bd_total_files m)" "into_int64 (enc_int (bd_total_size m)) 0 = Some (bd_total_size m)"
    "into_int64 (enc_int (bd_duration m)) 0 = Some (bd_duration m)" "into_time (enc_time (bd_created m)) zero_time = Some (bd_created m)"
    using assms by (simp_all add: wf_backup_def backup_times_ok_def codec)
  obtain a1 a2 a3 a4 a5 a6 a7 a8 a9 a10 a11 a12 a13 a14 a15 where m: "m = \<lparr>bd_id = a1, bd_source = a2, bd_table = a3,
      bd_created = a4, bd_completed = a5, bd_version = a6, bd_source_path = a7,
      bd_format = a8, bd_checksum = a9, bd_total_files = a10, bd_total_size = a11, bd_status = a12, bd_error = a13, bd_duration = a14,
      bd_files = a15\<rparr>" by (cases m)
  show ?thesis
    using fs c ints unfolding m
    by (cases a5; cases "a13 = []")
      (simp_all add: into_backup_metadata_def enc_backup_metadata_def zero_backup_metadata_def into_struct_def backup_field_names fld_def)
qed

lemma wf_json_backup:
  assumes "wf_backup m"
  shows "wf_json (enc_backup_metadata m)"
proof -
  have "wf_json (enc_slice enc_backup_file (bd_files m))"
    using assms by (cases "bd_files m") (auto simp: wf_backup_def enc_slice_def enc_backup_file_def wf_elems_iff slice_of_def)
  then show ?thesis
    using assms by (cases "bd_completed m") (simp_all add: wf_backup_def backup_times_ok_def enc_backup_metadata_def enc_ptr_def)
qed

lemma has_manifest_stored:
  assumes "v key = Some (json_indent (enc_backup_metadata m))" and "wf_backup m" and "is_manifest key" and "has_prefix key ''backups/''"
  shows "has_manifest v (bd_id m) m"
  using assms into_backup_metadata_enc wf_json_backup unfolding has_manifest_def by (metis json_unmarshal_indent)

lemma manifest_key_simps [simp]: "is_manifest (manifest_key m)" "has_prefix (manifest_key m) ''backups/''"
  by (simp_all add: is_manifest_def manifest_key_def backup_path_def has_suffix_def has_prefix_def)

section \<open>The copies\<close>

text \<open>Every file of the metadata is under the path of the backup, and the object there has the size and checksum of a file with that place.\<close>

definition copied :: "string \<Rightarrow> backup_file list \<Rightarrow> objects \<Rightarrow> bool" where
  "copied base fs v \<longleftrightarrow> (\<forall>f \<in> set fs.
     (\<exists>x. bf_backup f = base @ ''_delta_log/'' @ x \<or> bf_backup f = base @ ''data/'' @ x)
     \<and> (\<exists>g \<in> set fs. \<exists>d. bf_backup g = bf_backup f \<and> v (bf_backup f) = Some d \<and> generate_checksum d = bf_checksum g
          \<and> int (length d) = bf_size g))"

definition same_backup :: "backup_metadata \<Rightarrow> backup_metadata \<Rightarrow> bool" where
  "same_backup m m' \<longleftrightarrow> bd_id m' = bd_id m \<and> bd_source m' = bd_source m \<and> bd_table m' = bd_table m \<and> bd_created m' = bd_created m
     \<and> bd_version m' = bd_version m \<and> set (slice_of (bd_files m)) \<subseteq> set (slice_of (bd_files m'))"

lemma same_backup_refl [simp]: "same_backup m m"
  by (simp add: same_backup_def)

lemma same_backup_trans: "same_backup m m' \<Longrightarrow> same_backup m' m'' \<Longrightarrow> same_backup m m''"
  by (auto simp: same_backup_def)

lemma copied_add:
  assumes "copied base fs v" and "bf_backup f = base @ ''_delta_log/'' @ x \<or> bf_backup f = base @ ''data/'' @ x"
    and "generate_checksum d = bf_checksum f" and "int (length d) = bf_size f"
  shows "copied base (fs @ [f]) (v(bf_backup f \<mapsto> d))"
  using assms unfolding copied_def by (auto 4 3)

lemma copied_other:
  assumes "copied base fs v" and "\<And>x. k \<noteq> base @ ''_delta_log/'' @ x" and "\<And>x. k \<noteq> base @ ''data/'' @ x"
  shows "copied base fs (v(k \<mapsto> d))"
  using assms unfolding copied_def by (metis (no_types, lifting) fun_upd_other)

text \<open>
  A step that, where the objects \<open>need\<close> are there, keeps the copies and every object there is and has recorded the
  files \<open>named\<close> when it succeeds.
\<close>

definition copies :: "('w \<Rightarrow> objects) \<Rightarrow> string \<Rightarrow> string set \<Rightarrow> string set \<Rightarrow> (backup_metadata \<times> 'w, unit) io \<Rightarrow> bool" where
  "copies view base need named step \<longleftrightarrow> (\<forall>m w u m' w'. step (m, w) = (Inr u, (m', w'))
     \<longrightarrow> copied base (slice_of (bd_files m)) (view w) \<longrightarrow> need \<subseteq> dom (view w)
     \<longrightarrow> copied base (slice_of (bd_files m')) (view w') \<and> dom (view w) \<subseteq> dom (view w') \<and> same_backup m m'
         \<and> named \<subseteq> bf_original ` set (slice_of (bd_files m')))"

lemma copiesI:
  assumes "\<And>m w u m' w'. step (m, w) = (Inr u, (m', w')) \<Longrightarrow> copied base (slice_of (bd_files m)) (view w) \<Longrightarrow> need \<subseteq> dom (view w)
     \<Longrightarrow> copied base (slice_of (bd_files m')) (view w') \<and> dom (view w) \<subseteq> dom (view w') \<and> same_backup m m'
         \<and> named \<subseteq> bf_original ` set (slice_of (bd_files m'))"
  shows "copies view base need named step"
  using assms unfolding copies_def by blast

lemma copiesD:
  assumes "copies view base need named step" and "step (m, w) = (Inr u, (m', w'))" and "copied base (slice_of (bd_files m)) (view w)"
    and "need \<subseteq> dom (view w)"
  shows "copied base (slice_of (bd_files m')) (view w')" and "dom (view w) \<subseteq> dom (view w')" and "same_backup m m'"
    and "named \<subseteq> bf_original ` set (slice_of (bd_files m'))"
  using assms unfolding copies_def by blast+

lemma copies_ret [simp]: "copies view base need {} (io_ret ())"
  by (simp add: copies_def io_ret_def)

lemma copies_wrap: "copies view base need named step \<Longrightarrow> copies view base need named (io_wrap msg step)"
  by (rule copiesI) (elim io_wrap_InrE, blast dest: copiesD)

lemma copies_bind:
  assumes "copies view base need1 named1 f" and "copies view base need2 named2 (g ())"
  shows "copies view base (need1 \<union> need2) (named1 \<union> named2) (io_bind f g)"
proof (rule copiesI)
  fix m w u m' w'
  assume run: "io_bind f g (m, w) = (Inr u, (m', w'))" and c: "copied base (slice_of (bd_files m)) (view w)"
    and need: "need1 \<union> need2 \<subseteq> dom (view w)"
  obtain m1 w1 where f: "f (m, w) = (Inr (), (m1, w1))" and g: "g () (m1, w1) = (Inr u, (m', w'))"
    using run by (auto elim!: io_bind_InrE)
  have n1: "need1 \<subseteq> dom (view w)" using need by simp
  note 1 = copiesD [OF assms(1) f c n1]
  have n2: "need2 \<subseteq> dom (view w1)" using need 1(2) by blast
  note 2 = copiesD [OF assms(2) g 1(1) n2]
  have "named1 \<subseteq> bf_original ` set (slice_of (bd_files m'))"
    using 1(4) 2(3) unfolding same_backup_def by blast
  moreover have "dom (view w) \<subseteq> dom (view w')" using 1(2) 2(2) by blast
  ultimately show "copied base (slice_of (bd_files m')) (view w') \<and> dom (view w) \<subseteq> dom (view w') \<and> same_backup m m'
      \<and> named1 \<union> named2 \<subseteq> bf_original ` set (slice_of (bd_files m'))"
    using 2(1,4) same_backup_trans [OF 1(3) 2(3)] by blast
qed

lemma run_all_succeeds: "run_all f (x # xs) None s = (Inr u, s') \<longleftrightarrow> io_bind (f x) (\<lambda>_. run_all f xs None) s = (Inr u, s')"
  by (auto simp: io_try_def io_bind_def split: prod.splits sum.splits)

lemma copies_run_all:
  assumes "\<And>x. x \<in> set xs \<Longrightarrow> copies view base {} (named x) (f x)"
  shows "copies view base {} (\<Union> (named ` set xs)) (run_all f xs None)"
  using assms
proof (induction xs)
  case Nil
  show ?case by (simp add: copies_def)
next
  case (Cons x xs)
  have "copies view base ({} \<union> {}) (named x \<union> \<Union> (named ` set xs)) (io_bind (f x) (\<lambda>_. run_all f xs None))"
    by (rule copies_bind) (use Cons in auto)
  then show ?case unfolding copies_def run_all_succeeds by simp
qed

section \<open>The steps of a backup\<close>

text \<open>Where a backup takes the entries of the log from.\<close>

definition log_source :: "string \<Rightarrow> string \<Rightarrow> int \<Rightarrow> string" where
  "log_source source tbl v = backup_log_prefix source tbl @ ''/'' @ dec_pad 20 v @ ''.json''"

context s3_store
begin

lemma download_upload_copies:
  assumes "be_store be = ops" and "key = base @ ''_delta_log/'' @ x \<or> key = base @ ''data/'' @ x"
  shows "copies view base {} {source}
    (io_bind (io_wrap m1 (st_download (md_store be) source)) (\<lambda>data.
     io_bind (io_wrap m2 (st_upload (md_store be) key data ct)) (\<lambda>_. record_file source key data ty)))"
proof (rule copiesI)
  fix m w u m' w'
  assume run: "io_bind (io_wrap m1 (st_download (md_store be) source)) (\<lambda>data.
     io_bind (io_wrap m2 (st_upload (md_store be) key data ct)) (\<lambda>_. record_file source key data ty)) (m, w) = (Inr u, (m', w'))"
    and c: "copied base (slice_of (bd_files m)) (view w)"
  let ?f = "\<lambda>data. \<lparr>bf_original = source, bf_backup = key, bf_size = int (length data), bf_checksum = generate_checksum data, bf_type = ty\<rparr>"
  obtain data w1 u2 where d: "st_download ops source w = (Inr data, w1)" and up: "st_upload ops key data ct w1 = (Inr u2, w')"
    and m': "m' = m\<lparr>bd_files := Some (slice_of (bd_files m) @ [?f data]), bd_total_files := wrap64 (bd_total_files m + 1)\<rparr>"
    using run assms(1)
    by (auto simp: md_store_def store_snd_def record_file_def io_snd_run elim!: io_bind_InrE io_wrap_InrE split: prod.splits)
  have v: "view w' = (view w)(key \<mapsto> data)" using upload_ok [OF up] download_view [OF d] by simp
  have "copied base (slice_of (bd_files m) @ [?f data]) ((view w)(bf_backup (?f data) \<mapsto> data))"
    by (rule copied_add [OF c]) (use assms(2) in auto)
  then show "copied base (slice_of (bd_files m')) (view w') \<and> dom (view w) \<subseteq> dom (view w') \<and> same_backup m m'
      \<and> {source} \<subseteq> bf_original ` set (slice_of (bd_files m'))"
    unfolding m' v by (auto simp: slice_of_def same_backup_def)
qed

lemma copies_exists:
  assumes "be_store be = ops" and "copies view base {} {key} f" and "copies view base {} {} g"
  shows "copies view base (N \<inter> {key}) (N \<inter> {key}) (io_bind (io_wrap msg (st_exists (md_store be) key)) (\<lambda>found. if found then f else g))"
proof (rule copiesI)
  fix m w u m' w'
  assume run: "io_bind (io_wrap msg (st_exists (md_store be) key)) (\<lambda>found. if found then f else g) (m, w) = (Inr u, (m', w'))"
    and c: "copied base (slice_of (bd_files m)) (view w)" and need: "N \<inter> {key} \<subseteq> dom (view w)"
  obtain found w1 where e: "st_exists ops key w = (Inr found, w1)" and r: "(if found then f else g) (m, w1) = (Inr u, (m', w'))"
    using run assms(1) by (auto simp: md_store_def store_snd_def io_snd_run elim!: io_bind_InrE io_wrap_InrE split: prod.splits)
  have w1: "view w1 = view w" by (rule exists_view [OF e])
  show "copied base (slice_of (bd_files m')) (view w') \<and> dom (view w) \<subseteq> dom (view w') \<and> same_backup m m'
      \<and> N \<inter> {key} \<subseteq> bf_original ` set (slice_of (bd_files m'))"
  proof (cases found)
    case True
    with copiesD [OF assms(2), of m w1 u m' w'] r c w1 show ?thesis by auto
  next
    case False
    moreover have "N \<inter> {key} = {}" using need exists_ok [OF e] False by blast
    ultimately show ?thesis using copiesD [OF assms(3), of m w1 u m' w'] r c w1 by auto
  qed
qed

lemma copy_version_copies:
  assumes "be_store be = ops"
  shows "copies view base (N \<inter> {prefix @ ''/'' @ dec_pad 20 v @ ''.json''}) (N \<inter> {prefix @ ''/'' @ dec_pad 20 v @ ''.json''})
    (copy_version be base prefix v)"
proof -
  have log: "copies view base {} {k} (copy_log_file be base k name)" for k name
    unfolding copy_log_file_def by (rule download_upload_copies [OF assms]) blast
  have cp: "copies view base {} {} (io_bind (io_wrap msg (st_exists (md_store be) k)) (\<lambda>found.
      if found then copy_log_file be base k name else io_ret ()))" for k name msg
    using copies_exists [where N = "{}", OF assms log copies_ret] by (simp only: Int_empty_left)
  show ?thesis unfolding copy_version_def Let_def by (rule copies_exists [OF assms log cp])
qed

lemma copy_versions_copies:
  assumes "be_store be = ops"
  shows "copies view base (N \<inter> (\<lambda>v. prefix @ ''/'' @ dec_pad 20 v @ ''.json'') ` set vs)
    (N \<inter> (\<lambda>v. prefix @ ''/'' @ dec_pad 20 v @ ''.json'') ` set vs) (copy_versions be base prefix vs)"
proof (induction vs)
  case Nil
  show ?case by (simp add: copies_def)
next
  case (Cons v vs)
  from copies_bind [OF copy_version_copies [OF assms, where N = N and v = v and base = base and prefix = prefix] Cons]
  show ?case by (simp add: Int_Un_distrib [symmetric])
qed

lemma if_not_swap: "(if \<not> b then x else y) = (if b then y else x)"
  by simp

lemma copy_last_checkpoint_copies:
  assumes "be_store be = ops"
  shows "copies view base {} {} (copy_last_checkpoint be base prefix)"
proof -
  let ?k = "prefix @ ''/_last_checkpoint''" and ?t = "base @ ''_delta_log/_last_checkpoint''"
  have "copies view base {} {?k} (io_bind (io_wrap ''download last checkpoint file'' (st_download (md_store be) ?k)) (\<lambda>data.
      io_bind (io_wrap ''upload last checkpoint to backup'' (st_upload (md_store be) ?t data ''application/json'')) (\<lambda>_.
        record_file ?k ?t data ''checkpoint'')))"
    by (rule download_upload_copies [OF assms, of _ _ "''_last_checkpoint''"]) simp
  from copies_exists [where N = "{}", OF assms this copies_ret]
  have "copies view base {} {} (io_bind (io_wrap ''check last checkpoint file'' (st_exists (md_store be) ?k))
      (\<lambda>found. if found then io_bind (io_wrap ''download last checkpoint file'' (st_download (md_store be) ?k)) (\<lambda>data.
      io_bind (io_wrap ''upload last checkpoint to backup'' (st_upload (md_store be) ?t data ''application/json'')) (\<lambda>_.
        record_file ?k ?t data ''checkpoint'')) else io_ret ()))"
    by (simp only: Int_empty_left)
  then show ?thesis unfolding copy_last_checkpoint_def Let_def if_not_swap .
qed

lemma create_manifest_copies:
  assumes "be_store be = ops"
  shows "copies view base {} {} (create_manifest be base)"
proof (rule copiesI)
  fix m w u m' w'
  assume run: "create_manifest be base (m, w) = (Inr u, (m', w'))" and c: "copied base (slice_of (bd_files m)) (view w)"
  obtain w1 u1 d1 d2 t1 t2 where u1: "st_upload ops (base @ ''manifest.json'') d1 t1 w = (Inr u1, w1)"
    and u2: "st_upload ops (base @ ''checksum.sha256'') d2 t2 w1 = (Inr u, w')" and m': "m' = m"
    using run assms by (auto simp: create_manifest_def md_store_def store_snd_def io_snd_run Let_def elim!: io_bind_InrE io_wrap_InrE
        split: prod.splits if_splits)
  have v: "view w' = (view w)(base @ ''manifest.json'' \<mapsto> d1, base @ ''checksum.sha256'' \<mapsto> d2)"
    using upload_ok [OF u1] upload_ok [OF u2] by simp
  have "copied base (slice_of (bd_files m)) (view w')"
    unfolding v by (intro copied_other c) simp_all
  then show "copied base (slice_of (bd_files m')) (view w') \<and> dom (view w) \<subseteq> dom (view w') \<and> same_backup m m'
      \<and> {} \<subseteq> bf_original ` set (slice_of (bd_files m'))"
    using m' v by auto
qed

lemma backup_data_copies:
  assumes "be_store be = ops" and "iteration_order sched"
  shows "copies view base {} (ad_path ` snd ` set (sn_files snap)) (backup_data_files be sched snap base)"
proof -
  have f: "copies view base {} {ad_path f} (copy_data_file be base f)" for f
    unfolding copy_data_file_def by (rule download_upload_copies [OF assms(1)]) blast
  have "copies view base {} (\<Union> ((\<lambda>f. {ad_path f}) ` set (map snd (sched (sn_files snap))))) (backup_data_files be sched snap base)"
    unfolding backup_data_files_def by (rule copies_run_all [where named = "\<lambda>f. {ad_path f}"], rule f)
  moreover have "set (map snd (sched (sn_files snap))) = snd ` set (sn_files snap)"
    using assms(2) by simp
  moreover have "(\<Union>f \<in> snd ` set (sn_files snap). {ad_path f}) = ad_path ` snd ` set (sn_files snap)" by blast
  ultimately show ?thesis by (simp only:)
qed

end

section \<open>The backup\<close>

lemma replay_log_upto_Some: "replay_log L n s = Some s' \<Longrightarrow> k \<le> n \<Longrightarrow> replay_log L k s \<noteq> None"
  by (induction n arbitrary: s') (auto simp: le_Suc_eq split: option.splits)

lemma fst_keeps [simp, intro]: "io_keeps (\<lambda>s. fst s = c) (io_snd m)"
  by (auto simp: io_keeps_def io_snd_def split: prod.splits)

lemma read_version_keeps: "io_keeps P (st_download st (version_key p v)) \<Longrightarrow> io_keeps P (read_version \<lparr>tl_store = st, tl_log_prefix = p\<rparr> v)"
  by (auto simp: read_version_def)

lemma snapshot_loop_keeps:
  assumes "\<And>k. io_keeps P (st_download st k)"
  shows "io_keeps P (snapshot_loop \<lparr>tl_store = st, tl_log_prefix = p\<rparr> version v s)"
proof (induction "nat (version + 1 - v)" arbitrary: v s)
  case 0
  then show ?case by (subst snapshot_loop.simps) simp
next
  case (Suc n)
  have "io_keeps P (snapshot_loop \<lparr>tl_store = st, tl_log_prefix = p\<rparr> version (v + 1) s')" for s'
    using Suc(1) [of "v + 1"] Suc(2) by simp
  then show ?case by (subst snapshot_loop.simps) (auto intro!: read_version_keeps assms)
qed

lemma table_snapshot_keeps:
  assumes "\<And>k. io_keeps P (st_download st k)" and "\<And>q. io_keeps P (st_list st q)"
  shows "io_keeps P (table_snapshot (new_delta_table st source tbl p) version)"
proof -
  have "io_keeps P (latest_version \<lparr>tl_store = st, tl_log_prefix = p\<rparr>)"
    unfolding latest_version_def list_versions_def by (auto intro: assms)
  then show ?thesis
    unfolding table_snapshot_def new_delta_table_def new_transaction_log_def
    by (auto intro!: snapshot_loop_keeps assms io_keeps_if)
qed

end
