(* ===== verification/BackupMade.thy ===== *)
theory BackupMade
  imports BackupCopy
begin

text \<open>
  Backups made by the engine as a whole: one that reports success holds verified copies of all files of a snapshot of
  the table, and none can be made of a table whose log is where the layout puts it.
\<close>

text \<open>A snapshot for a backup needs the first version of the log.\<close>

lemma backup_snapshot:
  assumes "table_env ops view rt" and "be_store be = ops"
    and "table_snapshot (new_delta_table (md_store be) source tbl p) version (m, w) = (Inr snap, (m', w'))"
  shows "m' = m" and "view w' = view w" and "-1 \<le> version \<Longrightarrow> view w (version_key p 0) \<noteq> None"
    and "0 \<le> version \<Longrightarrow> replay_log (log_actions p (view w)) (nat (version + 1)) (empty_snapshot version) = Some snap"
proof -
  have E: "table_env (md_store be) (view \<circ> snd) (rt_snd rt)"
    using table_env_snd [OF assms(1)] by (simp add: md_store_def assms(2))
  let ?t = "new_delta_table (md_store be) source tbl p"
  have t: "dt_log ?t = \<lparr>tl_store = md_store be, tl_log_prefix = p\<rparr>"
    by (simp add: new_delta_table_def new_transaction_log_def)
  have "io_keeps (\<lambda>s. fst s = m) (table_snapshot ?t version)"
    by (rule table_snapshot_keeps) (simp_all add: md_store_def store_snd_def)
  from io_keepsD [OF this _ assms(3)] show "m' = m" by simp
  show "view w' = view w" using table_env.table_snapshot_view [OF E t assms(3)] by simp
  have first: "view w (version_key p 0) \<noteq> None"
    if l: "snapshot_loop \<lparr>tl_store = md_store be, tl_log_prefix = p\<rparr> v 0 (empty_snapshot v) (m, w1) = (Inr snap, (m', w'))" and "0 \<le> v"
      and w1: "view w1 = view w" for v w1
  proof -
    have n: "nat (v + 1 - 0) = Suc (nat v)" using \<open>0 \<le> v\<close> by simp
    have "replay_log (log_actions p (view w)) (Suc (nat v)) (empty_snapshot v) = Some snap"
      using table_env.snapshot_loop_ok [OF E l] unfolding n comp_apply snd_conv w1 add_0 .
    from replay_log_upto_Some [OF this, of "Suc 0"] have "log_actions p (view w) 0 \<noteq> None" by auto
    then show ?thesis by (auto simp: log_actions_def split: option.splits)
  qed
  show "0 \<le> version \<Longrightarrow> replay_log (log_actions p (view w)) (nat (version + 1)) (empty_snapshot version) = Some snap"
    using table_env.table_snapshot_ok [OF E assms(3) t] by simp
  show "view w (version_key p 0) \<noteq> None" if "-1 \<le> version"
  proof (cases "version = -1")
    case False
    then have "0 \<le> version" using that by simp
    then show ?thesis using first [of version w] assms(3) t False by (simp add: table_snapshot_def)
  next
    case True
    have "io_bind (latest_version \<lparr>tl_store = md_store be, tl_log_prefix = p\<rparr>) (\<lambda>latest. if latest < 0 then io_fail (Msg ''table has no versions'')
        else snapshot_loop \<lparr>tl_store = md_store be, tl_log_prefix = p\<rparr> latest 0 (empty_snapshot latest)) (m, w) = (Inr snap, (m', w'))"
      using assms(3) unfolding table_snapshot_def t by (simp only: True simp_thms if_True)
    then obtain v s1 where l: "latest_version \<lparr>tl_store = md_store be, tl_log_prefix = p\<rparr> (m, w) = (Inr v, s1)"
      and step: "(if v < 0 then io_fail (Msg ''table has no versions'')
        else snapshot_loop \<lparr>tl_store = md_store be, tl_log_prefix = p\<rparr> v 0 (empty_snapshot v)) s1 = (Inr snap, (m', w'))"
      by (rule io_bind_InrE)
    have "0 \<le> v" and rest: "snapshot_loop \<lparr>tl_store = md_store be, tl_log_prefix = p\<rparr> v 0 (empty_snapshot v) s1 = (Inr snap, (m', w'))"
      using step by (cases "v < 0"; simp)+
    have "io_keeps (\<lambda>s. fst s = m) (latest_version \<lparr>tl_store = md_store be, tl_log_prefix = p\<rparr>)"
      unfolding latest_version_def list_versions_def by (auto simp: md_store_def store_snd_def)
    from io_keepsD [OF this _ l] have "fst s1 = m" by simp
    then obtain w1 where s1: "s1 = (m, w1)" by (cases s1) simp
    have v: "view w1 = view w"
      using s3_store.latest_version_view [OF table_env.axioms(1) [OF E] l] by (simp add: s1)
    note rest [unfolded s1]
    from first [OF this \<open>0 \<le> v\<close> v] show ?thesis .
  qed
qed

lemma save_backupE:
  assumes "save_backup_metadata be m w = (Inr u, w')"
  obtains "backup_times_ok m" and "st_put_json (be_store be) (manifest_key m) (enc_backup_metadata m) w = (Inr u, w')"
  using assms by (auto simp: save_backup_metadata_def split: if_splits)

lemma create_backupE:
  assumes "create_backup rt be sched source tbl version w = (Inr m, w')"
  obtains start w1 w2 m1 w3 now w4 where "rt_now rt w = (start, w1)"
    and "save_backup_metadata be (initial_metadata source tbl version start) w1 = (Inr (), w2)"
    and "perform_backup be sched source tbl version (backup_path source tbl start) (initial_metadata source tbl version start, w2)
      = (Inr (), (m1, w3))"
    and "rt_now rt w3 = (now, w4)" and "m = completed_metadata now m1" and "save_backup_metadata be m w4 = (Inr (), w')"
proof -
  obtain start w1 where n: "rt_now rt w = (start, w1)" by (metis surj_pair)
  obtain x w2 where s: "save_backup_metadata be (initial_metadata source tbl version start) w1 = (x, w2)" by (metis surj_pair)
  obtain y m1 w3 where p: "perform_backup be sched source tbl version (backup_path source tbl start) (initial_metadata source tbl version start, w2)
      = (y, (m1, w3))" by (metis surj_pair)
  obtain now w4 where n2: "rt_now rt w3 = (now, w4)" by (metis surj_pair)
  have "bg_enabled (be_config be)" using assms by (auto simp: create_backup_def split: if_splits)
  moreover have x: "x = Inr ()" using assms n s calculation
    by (cases x) (auto simp: create_backup_def Let_def)
  moreover have y: "y = Inr ()" using assms n s x p calculation
    by (cases y) (auto simp: create_backup_def Let_def split: prod.splits)
  ultimately have "io_bind (io_wrap ''save final metadata'' (save_backup_metadata be (completed_metadata now m1)))
      (\<lambda>_. io_ret (completed_metadata now m1)) w4 = (Inr m, w')"
    using assms n s p n2 by (simp add: create_backup_def Let_def)
  then have "m = completed_metadata now m1" and "save_backup_metadata be m w4 = (Inr (), w')"
    by (auto elim!: io_bind_InrE io_wrap_InrE)
  then show ?thesis using that n s [unfolded x] p [unfolded y] n2 by blast
qed

lemma perform_backupE:
  assumes "table_env ops view rt" and "be_store be = ops" and "iteration_order sched"
    and "perform_backup be sched source tbl version base (m, w) = (Inr u, (m', w'))"
    and "copied base (slice_of (bd_files m)) (view w)"
  obtains snap w1 where "table_snapshot (new_delta_table (md_store be) source tbl (backup_log_prefix source tbl)) version (m, w) = (Inr snap, (m, w1))"
    and "view w1 = view w" and "copied base (slice_of (bd_files m')) (view w')" and "same_backup m m'"
    and "\<And>v. 0 \<le> v \<Longrightarrow> v \<le> version \<Longrightarrow> log_source source tbl v \<in> dom (view w) \<Longrightarrow> log_source source tbl v \<in> bf_original ` set (slice_of (bd_files m'))"
    and "ad_path ` snd ` set (sn_files snap) \<subseteq> bf_original ` set (slice_of (bd_files m'))"
proof -
  have S: "s3_store ops view" by (rule table_env.axioms(1) [OF assms(1)])
  obtain snap s1 where snap0: "io_wrap ''get table snapshot'' (table_snapshot (new_delta_table (md_store be) source tbl (backup_log_prefix source tbl)) version) (m, w)
      = (Inr snap, s1)"
    and rest1: "io_bind (io_wrap ''backup transaction logs'' (backup_transaction_logs be source tbl version base)) (\<lambda>_.
      io_bind (io_wrap ''backup data files'' (backup_data_files be sched snap base)) (\<lambda>_.
       io_wrap ''create manifest'' (create_manifest be base))) s1 = (Inr u, (m', w'))"
    using assms(4) unfolding perform_backup_def by (rule io_bind_InrE)
  have snap1: "table_snapshot (new_delta_table (md_store be) source tbl (backup_log_prefix source tbl)) version (m, w) = (Inr snap, s1)"
    using snap0 by (rule io_wrap_InrE)
  obtain m0 w1 where s1: "s1 = (m0, w1)" by (cases s1)
  note snap = snap1 [unfolded s1] and rest = rest1 [unfolded s1]
  have m0: "m0 = m" and w1: "view w1 = view w" using backup_snapshot [OF assms(1,2) snap] by simp_all
  let ?logs = "dom (view w) \<inter> log_source source tbl ` set [0..version]"
  let ?data = "ad_path ` snd ` set (sn_files snap)"
  have logs: "copies view base ?logs ?logs (copy_versions be base (backup_log_prefix source tbl) [0..version])"
    using s3_store.copy_versions_copies [OF S assms(2)] unfolding log_source_def by blast
  have tl: "copies view base (?logs \<union> {}) (?logs \<union> {}) (backup_transaction_logs be source tbl version base)"
    unfolding backup_transaction_logs_def
    by (rule copies_bind [OF logs s3_store.copy_last_checkpoint_copies [OF S assms(2)]])
  have "copies view base ((?logs \<union> {}) \<union> ({} \<union> {})) ((?logs \<union> {}) \<union> (?data \<union> {}))
      (io_bind (io_wrap ''backup transaction logs'' (backup_transaction_logs be source tbl version base)) (\<lambda>_.
      io_bind (io_wrap ''backup data files'' (backup_data_files be sched snap base)) (\<lambda>_.
       io_wrap ''create manifest'' (create_manifest be base))))"
    by (intro copies_bind copies_wrap tl s3_store.backup_data_copies [OF S assms(2,3)] s3_store.create_manifest_copies [OF S assms(2)])
  note c = copiesD [OF this rest] 
  have p: "copied base (slice_of (bd_files m0)) (view w1)" "(?logs \<union> {}) \<union> ({} \<union> {}) \<subseteq> dom (view w1)"
    using assms(5) m0 w1 by auto
  show ?thesis
  proof (rule that [OF snap [unfolded m0] w1 c(1) [OF p] _ _ _])
    show "same_backup m m'" using c(3) [OF p] m0 by simp
    show "log_source source tbl v \<in> bf_original ` set (slice_of (bd_files m'))"
      if "0 \<le> v" "v \<le> version" "log_source source tbl v \<in> dom (view w)" for v
      using c(4) [OF p] that by auto
    show "?data \<subseteq> bf_original ` set (slice_of (bd_files m'))" using c(4) [OF p] by auto
  qed
qed

lemma version_key_not_manifest:
  assumes "0 \<le> v"
  shows "version_key p v \<noteq> manifest_key m"
proof
  let ?b = "backup_path (bd_source m) (bd_table m) (bd_created m)"
  assume "version_key p v = manifest_key m"
  then have "(p @ dec_pad 20 v) @ ''.json'' = (?b @ ''manifest'') @ ''.json''" by (simp add: version_key_def manifest_key_def)
  then have "p @ dec_pad 20 v = ?b @ ''manifest''" by (simp only: append_same_eq)
  then have "last (p @ dec_pad 20 v) = CHR ''t''" by simp
  then have "CHR ''t'' \<in> set (dec_pad 20 v)" by (metis dec_pad_nonempty last_appendR last_in_set)
  with dec_pad_digits [OF assms, of 20] show False by (auto simp: list_all_iff is_digit_def)
qed

lemma manifest_keys [simp]: "manifest_key (initial_metadata source tbl version start) = backup_path source tbl start @ ''manifest.json''"
  by (simp add: manifest_key_def initial_metadata_def)

text \<open>No backup without a first version under the name the snapshot looks for.\<close>

lemma no_backup_without_log:
  assumes "table_env ops view rt" and "be_store be = ops" and "-1 \<le> version" and "iteration_order sched"
    and "view w (version_key (backup_log_prefix source tbl) 0) = None"
  shows "create_backup rt be sched source tbl version w \<noteq> (Inr m, w')"
proof
  assume "create_backup rt be sched source tbl version w = (Inr m, w')"
  then obtain start w1 w2 m1 w3 where n: "rt_now rt w = (start, w1)"
    and s: "save_backup_metadata be (initial_metadata source tbl version start) w1 = (Inr (), w2)"
    and p: "perform_backup be sched source tbl version (backup_path source tbl start) (initial_metadata source tbl version start, w2)
      = (Inr (), (m1, w3))" by (rule create_backupE)
  have "view w2 = (view w)(manifest_key (initial_metadata source tbl version start)
      \<mapsto> json_indent (enc_backup_metadata (initial_metadata source tbl version start)))"
    using s assms(2) s3_store.put_json_ok [OF table_env.axioms(1) [OF assms(1)]] table_env.now_view [OF assms(1) n]
    by (auto elim!: save_backupE)
  then have "view w2 (version_key (backup_log_prefix source tbl) 0) = None"
    using assms(5) version_key_not_manifest [of 0 "backup_log_prefix source tbl"] by (simp del: manifest_keys)
  moreover have "copied (backup_path source tbl start) (slice_of (bd_files (initial_metadata source tbl version start))) (view w2)"
    by (simp add: copied_def initial_metadata_def slice_of_def)
  then obtain snap w4 where "table_snapshot (new_delta_table (md_store be) source tbl (backup_log_prefix source tbl)) version
      (initial_metadata source tbl version start, w2) = (Inr snap, (initial_metadata source tbl version start, w4))"
    by (rule perform_backupE [OF assms(1,2,4) p])
  from backup_snapshot(3) [OF assms(1,2) this assms(3)]
  have "view w2 (version_key (backup_log_prefix source tbl) 0) \<noteq> None" .
  ultimately show False by simp
qed

text \<open>What a backup that succeeds has done.\<close>

lemma backup_made:
  assumes "table_env ops view rt" and "be_store be = ops" and "0 \<le> version" and "iteration_order sched"
    and "create_backup rt be sched source tbl version w = (Inr m, w')"
  shows "\<exists>snap. replay_log (log_actions (backup_log_prefix source tbl) (view w)) (nat (version + 1)) (empty_snapshot version) = Some snap
      \<and> ad_path ` snd ` set (sn_files snap) \<subseteq> bf_original ` set (slice_of (bd_files m))"
    and "0 \<le> v \<Longrightarrow> v \<le> version \<Longrightarrow> view w (log_source source tbl v) \<noteq> None
      \<Longrightarrow> log_source source tbl v \<in> bf_original ` set (slice_of (bd_files m))"
    and "f \<in> set (slice_of (bd_files m)) \<Longrightarrow> \<exists>g \<in> set (slice_of (bd_files m)). \<exists>d. bf_backup g = bf_backup f
      \<and> view w' (bf_backup f) = Some d \<and> generate_checksum d = bf_checksum g \<and> int (length d) = bf_size g"
    and "view w' (manifest_key m) = Some (json_indent (enc_backup_metadata m))"
    and "bd_status m = ''completed'' \<and> bd_source m = source \<and> bd_table m = tbl \<and> bd_version m = version"
proof -
  have S: "s3_store ops view" by (rule table_env.axioms(1) [OF assms(1)])
  obtain start w1 w2 m1 w3 now w4 where n: "rt_now rt w = (start, w1)"
    and s: "save_backup_metadata be (initial_metadata source tbl version start) w1 = (Inr (), w2)"
    and p: "perform_backup be sched source tbl version (backup_path source tbl start) (initial_metadata source tbl version start, w2)
      = (Inr (), (m1, w3))"
    and n2: "rt_now rt w3 = (now, w4)" and m: "m = completed_metadata now m1" and fin: "save_backup_metadata be m w4 = (Inr (), w')"
    by (rule create_backupE [OF assms(5)])
  let ?m0 = "initial_metadata source tbl version start" and ?p = "backup_log_prefix source tbl" and ?base = "backup_path source tbl start"
  have w2: "view w2 = (view w)(manifest_key ?m0 \<mapsto> json_indent (enc_backup_metadata ?m0))"
    using s assms(2) s3_store.put_json_ok [OF S] table_env.now_view [OF assms(1) n] by (auto elim!: save_backupE)
  have c0: "copied ?base (slice_of (bd_files ?m0)) (view w2)" by (simp add: copied_def initial_metadata_def slice_of_def)
  obtain snap w5 where snap: "table_snapshot (new_delta_table (md_store be) source tbl ?p) version (?m0, w2) = (Inr snap, (?m0, w5))"
    and c: "copied ?base (slice_of (bd_files m1)) (view w3)" and same: "same_backup ?m0 m1"
    and logs: "\<And>v. 0 \<le> v \<Longrightarrow> v \<le> version \<Longrightarrow> log_source source tbl v \<in> dom (view w2)
      \<Longrightarrow> log_source source tbl v \<in> bf_original ` set (slice_of (bd_files m1))"
    and data: "ad_path ` snd ` set (sn_files snap) \<subseteq> bf_original ` set (slice_of (bd_files m1))"
    by (rule perform_backupE [OF assms(1,2,4) p c0]) blast
  have files: "bd_files m = bd_files m1" by (simp add: m completed_metadata_def Let_def)
  have meta: "bd_status m = ''completed'' \<and> bd_source m = source \<and> bd_table m = tbl \<and> bd_version m = version \<and> bd_created m = start"
    using same by (simp add: m completed_metadata_def Let_def same_backup_def initial_metadata_def)
  then show "bd_status m = ''completed'' \<and> bd_source m = source \<and> bd_table m = tbl \<and> bd_version m = version" by blast
  have key: "manifest_key m = ?base @ ''manifest.json''" using meta by (simp add: manifest_key_def)
  have w': "view w' = (view w3)(manifest_key m \<mapsto> json_indent (enc_backup_metadata m))"
    using fin assms(2) s3_store.put_json_ok [OF S] table_env.now_view [OF assms(1) n2] by (auto elim!: save_backupE)
  then show "view w' (manifest_key m) = Some (json_indent (enc_backup_metadata m))" by simp
  have "log_actions ?p (view w2) v = log_actions ?p (view w) v" if "0 \<le> v" for v
    using version_key_not_manifest [OF that, of ?p ?m0] by (simp add: w2 log_actions_def del: manifest_keys)
  then have "replay_log (log_actions ?p (view w)) (nat (version + 1)) (empty_snapshot version)
      = replay_log (log_actions ?p (view w2)) (nat (version + 1)) (empty_snapshot version)"
    by (intro replay_log_cong) simp
  then show "\<exists>snap. replay_log (log_actions ?p (view w)) (nat (version + 1)) (empty_snapshot version) = Some snap
      \<and> ad_path ` snd ` set (sn_files snap) \<subseteq> bf_original ` set (slice_of (bd_files m))"
    using backup_snapshot(4) [OF assms(1,2) snap assms(3)] data files by auto
  show "0 \<le> v \<Longrightarrow> v \<le> version \<Longrightarrow> view w (log_source source tbl v) \<noteq> None
      \<Longrightarrow> log_source source tbl v \<in> bf_original ` set (slice_of (bd_files m))"
    using logs [of v] w2 files by (auto simp: dom_def)
  have "copied ?base (slice_of (bd_files m)) (view w')"
    unfolding w' files by (intro copied_other c) (simp_all add: key)
  then show "f \<in> set (slice_of (bd_files m)) \<Longrightarrow> \<exists>g \<in> set (slice_of (bd_files m)). \<exists>d. bf_backup g = bf_backup f
      \<and> view w' (bf_backup f) = Some d \<and> generate_checksum d = bf_checksum g \<and> int (length d) = bf_size g"
    unfolding copied_def by blast
qed

end
