(* ===== verification/BackupDemo.thy ===== *)
theory BackupDemo
  imports BackupMade
begin

text \<open>
  A plain store in memory, on which the steps of a backup succeed, and a backup made there: for the witnesses.
\<close>

section \<open>A plain store\<close>

text \<open>Objects in a list, and a clock that stands still.\<close>

type_synonym plain_world = "(string, string) gomap"

definition plain_read :: "string \<Rightarrow> (plain_world, string) io" where
  "plain_read k w = (case map_of w k of None \<Rightarrow> Inl (Msg ''not found'') | Some d \<Rightarrow> Inr d, w)"

definition plain_store :: "plain_world store_ops" where
  "plain_store =
     \<lparr>st_upload = (\<lambda>k d t w. (Inr (), AList.update k d w)), st_download = plain_read,
      st_list = (\<lambda>p w. (Inr (remdups (filter (\<lambda>k. has_prefix k p) (map fst w))), w)),
      st_put_json = (\<lambda>k v w. (Inr (), AList.update k (json_indent v) w)),
      st_get_json = (\<lambda>k. io_bind (plain_read k) (\<lambda>d. case json_unmarshal d of None \<Rightarrow> io_fail json_error | Some j \<Rightarrow> io_ret j)),
      st_exists = (\<lambda>k w. (Inr (map_of w k \<noteq> None), w))\<rparr>"

definition plain_rt :: "'w runtime" where
  "plain_rt = \<lparr>rt_now = (\<lambda>w. (0, w)), rt_rand = (\<lambda>w. (0, w)), rt_wait = (\<lambda>d w. (None, w)), rt_f64_oob = - (2 ^ 63)\<rparr>"

lemma plain_fields:
  "st_upload plain_store k d t w = (Inr (), AList.update k d w)" "st_download plain_store = plain_read"
  "st_list plain_store p w = (Inr (remdups (filter (\<lambda>k. has_prefix k p) (map fst w))), w)"
  "st_put_json plain_store k v w = (Inr (), AList.update k (json_indent v) w)"
  "st_exists plain_store k w = (Inr (map_of w k \<noteq> None), w)"
  "st_get_json plain_store k = io_bind (plain_read k) (\<lambda>d. case json_unmarshal d of None \<Rightarrow> io_fail json_error | Some j \<Rightarrow> io_ret j)"
  "rt_now plain_rt w' = (0, w')" "rt_rand plain_rt w' = (0, w')" "rt_wait plain_rt du w' = (None, w')"
  by (simp_all add: plain_store_def plain_rt_def)

lemma plain_read_view: "plain_read k w = (r, w') \<Longrightarrow> w' = w"
  by (simp add: plain_read_def)

lemma plain_table: "table_env plain_store (map_of :: plain_world \<Rightarrow> objects) plain_rt"
proof (rule table_env.intro, rule s3_store.intro)
  fix p w ks w' assume "st_list plain_store p w = (Inr ks, w')"
  then show "distinct ks \<and> set ks = {k \<in> dom (map_of w). has_prefix k p}"
    by (force simp: plain_fields dom_map_of_conv_image_fst)
next
  fix k w j w' assume "st_get_json plain_store k w = (Inr j, w')"
  then show "\<exists>d. map_of w k = Some d \<and> json_unmarshal d = Some j"
    by (auto simp: plain_fields plain_read_def io_bind_def split: option.splits)
next
  fix k w z w' assume "st_get_json plain_store k w = (z, w')"
  then show "map_of w' = map_of w"
    by (auto simp: plain_fields plain_read_def io_bind_def split: option.splits)
next
  show "table_env_axioms map_of plain_rt"
    by (rule table_env_axioms.intro) (auto simp: plain_fields unix_milli_def in_int64_def)
qed (auto simp: plain_fields plain_read_def update_conv' split: option.splits)

lemma io_bind_step: "f s = (Inr a, s') \<Longrightarrow> io_bind f g s = g a s'"
  by (simp add: io_bind_def)

text \<open>On the plain store the steps of a backup succeed as long as the objects \<open>K\<close> they copy are there.\<close>

definition plain_goes :: "string set \<Rightarrow> (backup_metadata \<times> plain_world, unit) io \<Rightarrow> bool" where
  "plain_goes K step \<longleftrightarrow> (\<forall>m w. backup_times_ok m \<longrightarrow> K \<subseteq> dom (map_of w)
     \<longrightarrow> (\<exists>m' w'. step (m, w) = (Inr (), (m', w')) \<and> backup_times_ok m' \<and> K \<subseteq> dom (map_of w')))"

lemma plain_goesD:
  assumes "plain_goes K step" and "backup_times_ok m" and "K \<subseteq> dom (map_of w)"
  obtains m' w' where "step (m, w) = (Inr (), (m', w'))" and "backup_times_ok m'" and "K \<subseteq> dom (map_of w')"
  using assms unfolding plain_goes_def by blast

lemma plain_goes_ret [simp]: "plain_goes K (io_ret ())" "plain_goes K (Pair (Inr ()))"
  by (auto simp: plain_goes_def io_ret_def)

lemma plain_goes_wrap: "plain_goes K step \<Longrightarrow> plain_goes K (io_wrap msg step)"
  unfolding plain_goes_def io_wrap_def by fastforce

lemma plain_goes_bind:
  assumes "plain_goes K f" and "plain_goes K (g ())"
  shows "plain_goes K (io_bind f g)"
  unfolding plain_goes_def
proof (intro allI impI)
  fix m and w :: plain_world assume m: "backup_times_ok m" and w: "K \<subseteq> dom (map_of w)"
  obtain m1 w1 where f: "f (m, w) = (Inr (), (m1, w1))" "backup_times_ok m1" "K \<subseteq> dom (map_of w1)"
    by (rule plain_goesD [OF assms(1) m w])
  obtain m2 w2 where "g () (m1, w1) = (Inr (), (m2, w2))" "backup_times_ok m2" "K \<subseteq> dom (map_of w2)"
    by (rule plain_goesD [OF assms(2) f(2,3)])
  then show "\<exists>m' w'. io_bind f g (m, w) = (Inr (), (m', w')) \<and> backup_times_ok m' \<and> K \<subseteq> dom (map_of w')"
    using f(1) by (simp add: io_bind_def)
qed

lemma plain_goes_run_all:
  assumes "\<And>x. x \<in> set xs \<Longrightarrow> plain_goes K (f x)"
  shows "plain_goes K (run_all f xs None)"
  using assms
proof (induction xs)
  case (Cons x xs)
  then have "plain_goes K (io_bind (f x) (\<lambda>_. run_all f xs None))" by (intro plain_goes_bind) auto
  then show ?case unfolding plain_goes_def run_all_succeeds .
qed simp

text \<open>Copying an object that is there.\<close>

lemma plain_copy:
  assumes "be_store be = plain_store" and "map_of w source = Some d" and "backup_times_ok m" and "K \<subseteq> dom (map_of w)"
  shows "\<exists>m' w'. io_bind (io_wrap m1 (st_download (md_store be) source)) (\<lambda>data.
     io_bind (io_wrap m2 (st_upload (md_store be) key data ct)) (\<lambda>_. record_file source key data ty)) (m, w) = (Inr (), (m', w'))
     \<and> backup_times_ok m' \<and> K \<subseteq> dom (map_of w')"
  using assms(2-4)
  by (auto simp: md_store_def store_snd_def assms(1) plain_fields plain_read_def io_snd_def io_bind_def io_wrap_def record_file_def
      backup_times_ok_def update_conv')

lemma plain_exists:
  assumes "be_store be = plain_store"
  shows "st_exists (md_store be) k (m, w) = (Inr (map_of w k \<noteq> None), (m, w))"
  by (simp add: md_store_def store_snd_def assms io_snd_def plain_fields)

lemma plain_copy_version:
  assumes "be_store be = plain_store"
  shows "plain_goes K (copy_version be base prefix v)"
  unfolding plain_goes_def
proof (intro allI impI)
  fix m and w :: plain_world assume m: "backup_times_ok m" and w: "K \<subseteq> dom (map_of w)"
  let ?n = "dec_pad 20 v @ ''.json''" and ?c = "dec_pad 20 v @ ''.checkpoint.parquet''"
  have cp: "\<exists>m' w'. copy_log_file be base k name (m, w) = (Inr (), (m', w')) \<and> backup_times_ok m' \<and> K \<subseteq> dom (map_of w')"
    if "map_of w k \<noteq> None" for k name
    using that plain_copy [OF assms _ m w, of k] unfolding copy_log_file_def by blast
  show "\<exists>m' w'. copy_version be base prefix v (m, w) = (Inr (), (m', w')) \<and> backup_times_ok m' \<and> K \<subseteq> dom (map_of w')"
    using cp [of "prefix @ ''/'' @ ?n" ?n] cp [of "prefix @ ''/'' @ ?c" ?c] m w
    by (cases "map_of w (prefix @ ''/'' @ ?n) = None"; cases "map_of w (prefix @ ''/'' @ ?c) = None")
      (simp_all add: copy_version_def Let_def io_bind_def io_wrap_def plain_exists [OF assms] io_ret_def)
qed

lemma plain_transaction_logs:
  assumes "be_store be = plain_store"
  shows "plain_goes K (backup_transaction_logs be source tbl version base)"
proof -
  have v: "plain_goes K (copy_versions be base prefix vs)" for prefix vs
    by (induction vs) (simp_all add: plain_goes_bind plain_copy_version [OF assms])
  have "plain_goes K (copy_last_checkpoint be base prefix)" for prefix
    unfolding plain_goes_def
  proof (intro allI impI)
    fix m and w :: plain_world assume m: "backup_times_ok m" and w: "K \<subseteq> dom (map_of w)"
    show "\<exists>m' w'. copy_last_checkpoint be base prefix (m, w) = (Inr (), (m', w')) \<and> backup_times_ok m' \<and> K \<subseteq> dom (map_of w')"
    proof (cases "map_of w (prefix @ ''/_last_checkpoint'')")
      case None
      then show ?thesis using m w
        by (simp add: copy_last_checkpoint_def Let_def io_bind_def io_wrap_def plain_exists [OF assms] io_ret_def)
    next
      case (Some d)
      then show ?thesis using plain_copy [OF assms Some m w] unfolding copy_last_checkpoint_def Let_def
        by (simp add: io_bind_def [of "io_wrap ''check last checkpoint file'' x" for x] io_wrap_def [of "''check last checkpoint file''"]
            plain_exists [OF assms])
    qed
  qed
  then show ?thesis unfolding backup_transaction_logs_def by (intro plain_goes_bind v)
qed

lemma plain_perform_backup:
  assumes "be_store be = plain_store" and "backup_times_ok m" and "ad_path ` snd ` set (sn_files snap) \<subseteq> dom (map_of w)"
    and "iteration_order sched"
    and "table_snapshot (new_delta_table (md_store be) source tbl (backup_log_prefix source tbl)) version (m, w) = (Inr snap, (m, w))"
  shows "\<exists>m' w'. perform_backup be sched source tbl version base (m, w) = (Inr (), (m', w')) \<and> backup_times_ok m'"
proof -
  let ?K = "ad_path ` snd ` set (sn_files snap)"
  have one: "plain_goes ?K (copy_data_file be base f)" if f: "f \<in> set (map snd (sched (sn_files snap)))" for f
    unfolding plain_goes_def
  proof (intro allI impI)
    fix m and w :: plain_world assume m: "backup_times_ok m" and w: "?K \<subseteq> dom (map_of w)"
    have "f \<in> snd ` set (sn_files snap)" using f assms(4) by simp
    then obtain d where "map_of w (ad_path f) = Some d" using w by blast
    then show "\<exists>m' w'. copy_data_file be base f (m, w) = (Inr (), (m', w')) \<and> backup_times_ok m' \<and> ?K \<subseteq> dom (map_of w')"
      unfolding copy_data_file_def by (rule plain_copy [OF assms(1) _ m w])
  qed
  have data: "plain_goes ?K (backup_data_files be sched snap base)"
    unfolding backup_data_files_def by (rule plain_goes_run_all [OF one])
  have manifest: "plain_goes ?K (create_manifest be base)"
    by (auto simp: plain_goes_def create_manifest_def md_store_def store_snd_def assms(1) plain_fields Let_def io_snd_def io_bind_def
        io_wrap_def update_conv')
  have "plain_goes ?K (io_bind (io_wrap ''backup transaction logs'' (backup_transaction_logs be source tbl version base)) (\<lambda>_.
     io_bind (io_wrap ''backup data files'' (backup_data_files be sched snap base)) (\<lambda>_.
       io_wrap ''create manifest'' (create_manifest be base))))"
    by (intro plain_goes_bind plain_goes_wrap data manifest plain_transaction_logs [OF assms(1)])
  then obtain m' w' where run: "io_bind (io_wrap ''backup transaction logs'' (backup_transaction_logs be source tbl version base)) (\<lambda>_.
     io_bind (io_wrap ''backup data files'' (backup_data_files be sched snap base)) (\<lambda>_.
       io_wrap ''create manifest'' (create_manifest be base))) (m, w) = (Inr (), (m', w'))" and "backup_times_ok m'"
    by (rule plain_goesD [OF _ assms(2,3)])
  let ?snap = "io_wrap ''get table snapshot'' (table_snapshot (new_delta_table (md_store be) source tbl (backup_log_prefix source tbl)) version)"
  have "?snap (m, w) = (Inr snap, (m, w))" by (simp only: io_wrap_def assms(5) prod.case sum.case)
  then have "perform_backup be sched source tbl version base (m, w) = (Inr (), (m', w'))"
    unfolding perform_backup_def using run by (subst io_bind_step [where f = ?snap and a = snap and s' = "(m, w)"])
  with \<open>backup_times_ok m'\<close> show ?thesis by blast
qed

section \<open>An example\<close>

definition demo_backup_config :: backup_config where
  "demo_backup_config = \<lparr>bg_enabled = True, bg_bucket = [], bg_region = [], bg_schedule = [], bg_retention_days = 30,
     bg_cross_region = False, bg_key = [], bg_mode = ''checksum'', bg_uploads = 4, bg_chunk_mb = 64\<rparr>"

definition demo_backup_engine :: "plain_world backup_engine" where
  "demo_backup_engine = \<lparr>be_store = plain_store, be_delete = (\<lambda>k w. (Inr (), AList.delete k w)), be_config = demo_backup_config\<rparr>"

definition demo_entry :: string where
  "demo_entry = json_marshal (JObj [(''add'', JObj [(''path'', JStr ''a'')])])"

definition demo_objects :: plain_world where
  "demo_objects = [(''s/t/_delta_log00000000000000000000.json'', demo_entry),
     (''s/t/_delta_log/00000000000000000000.json'', ''{}''), (''a'', ''x'')]"

definition demo_backed_up :: snapshot where
  "demo_backed_up = (case decode_actions demo_entry of
     Inl e \<Rightarrow> empty_snapshot 0 | Inr as \<Rightarrow> replay as (empty_snapshot 0))"

lemma demo_backed_up_files: "map (ad_path \<circ> snd) (sn_files demo_backed_up) = [''a'']"
  by code_simp

lemma demo_backup_runs: "\<exists>m w'. create_backup plain_rt demo_backup_engine id ''s'' ''t'' 0 demo_objects = (Inr m, w')"
proof -
  let ?m = "initial_metadata ''s'' ''t'' 0 0" and ?be = demo_backup_engine
  have be: "be_store ?be = plain_store" "bg_enabled (be_config ?be)" by (simp_all add: demo_backup_engine_def demo_backup_config_def)
  have ok: "time_ok 0" by code_simp
  then have m: "backup_times_ok ?m" by (simp add: backup_times_ok_def initial_metadata_def zero_backup_metadata_def)
  obtain w1 where s: "save_backup_metadata ?be ?m demo_objects = (Inr (), w1)" and w1: "w1 = AList.update (manifest_key ?m) (json_indent (enc_backup_metadata ?m)) demo_objects"
    using m by (simp add: save_backup_metadata_def be plain_fields)
  have at: "map_of w1 k = map_of demo_objects k" if "k \<noteq> manifest_key ?m" for k
    using that by (simp add: w1 update_conv' del: manifest_keys)
  have log: "map_of w1 ''s/t/_delta_log00000000000000000000.json'' = Some demo_entry" and "map_of w1 ''a'' = Some ''x''"
    using at [of "''s/t/_delta_log00000000000000000000.json''"] at [of "''a''"] by (simp_all add: demo_objects_def backup_path_def)
  moreover have "ad_path ` snd ` set (sn_files demo_backed_up) = {''a''}"
    using arg_cong [OF demo_backed_up_files, of set] by (simp add: image_comp)
  ultimately have data: "ad_path ` snd ` set (sn_files demo_backed_up) \<subseteq> dom (map_of w1)" by auto
  have key: "version_key (backup_log_prefix ''s'' ''t'') 0 = ''s/t/_delta_log00000000000000000000.json''"
    by code_simp
  have read: "read_version \<lparr>tl_store = md_store ?be, tl_log_prefix = backup_log_prefix ''s'' ''t''\<rparr> 0 (?m, w1) = (decode_actions demo_entry, (?m, w1))"
    using log by (simp add: read_version_def key md_store_def store_snd_def be plain_fields plain_read_def io_snd_def io_bind_def io_wrap_def)
  obtain as where as: "decode_actions demo_entry = Inr as" and snap: "demo_backed_up = replay as (empty_snapshot 0)"
    using demo_backed_up_files by (cases "decode_actions demo_entry") (simp_all add: demo_backed_up_def empty_snapshot_def)
  have "table_snapshot (new_delta_table (md_store ?be) ''s'' ''t'' (backup_log_prefix ''s'' ''t'')) 0 (?m, w1) = (Inr demo_backed_up, (?m, w1))"
    using read as by (simp add: table_snapshot_def new_delta_table_def new_transaction_log_def snapshot_loop.simps [of _ 0 0]
        snapshot_loop.simps [of _ 0 1] io_bind_def io_wrap_def snap)
  from plain_perform_backup [OF be(1) m data iteration_order_identity this]
  obtain m' w' where p: "perform_backup ?be id ''s'' ''t'' 0 (backup_path ''s'' ''t'' 0) (?m, w1) = (Inr (), (m', w'))"
    and "backup_times_ok m'" by blast
  with ok have "backup_times_ok (completed_metadata 0 m')" by (simp add: completed_metadata_def Let_def backup_times_ok_def)
  then show ?thesis using be s p
    by (simp add: create_backup_def plain_fields Let_def save_backup_metadata_def io_bind_def io_wrap_def io_ret_def)
qed

end
