(* ===== verification/BackupProperties.thy ===== *)
theory BackupProperties
  imports BackupDemo
begin

text \<open>
  The properties of backups, restores and their schedule, with their witnesses on the plain store, and the
  interpretation of the source of backups on the engine over the lake.
\<close>

section \<open>Making a backup\<close>



text \<open>
  C22: no backup can be made of a table where the bucket has no object named \<open>_delta_log\<close> followed by the number of
  the first version without a slash, whatever the log directory holds: \<open>CreateBackup\<close> returns an error for every
  version and for -1, which stands for the latest one.
\<close>

theorem no_backup_of_a_log_directory:
  assumes "table_env ops view rt" and "be_store be = ops" and "-1 \<le> version" and "iteration_order sched"
    and "view w (source @ ''/'' @ tbl @ ''/_delta_log'' @ ''00000000000000000000.json'') = None"
  shows "\<exists>e. fst (create_backup rt be sched source tbl version w) = Inl e"
proof (cases "create_backup rt be sched source tbl version w")
  case (Pair x w')
  have d: "dec_pad 20 0 = ''00000000000000000000''" by code_simp
  have "view w (version_key (backup_log_prefix source tbl) 0) = None"
    using assms(5) by (simp add: version_key_def backup_log_prefix_def d)
  from no_backup_without_log [OF assms(1-4) this] Pair show ?thesis by (cases x) auto
qed

theorem no_backup_of_a_log_directory_witness:
  "\<exists>e. fst (create_backup plain_rt demo_backup_engine id ''s'' ''t'' (-1) [(delta_log_entry ''s'' ''t'' 0, demo_entry)]) = Inl e"
proof (rule no_backup_of_a_log_directory [OF plain_table _ _ iteration_order_identity])
  have "delta_log_entry ''s'' ''t'' 0 = ''data/s/t/_delta_log/00000000000000000000.json''" by code_simp
  then show "map_of [(delta_log_entry ''s'' ''t'' 0, demo_entry)] (''s'' @ ''/'' @ ''t'' @ ''/_delta_log'' @ ''00000000000000000000.json'') = None"
    by simp
qed (simp_all add: demo_backup_engine_def)

section \<open>Restoring\<close>

text \<open>The engine over the lake is a source of backups.\<close>

definition lake_backup_engine :: "backup_config \<Rightarrow> (string \<Rightarrow> (breaker \<times> mem_world, unit) io) \<Rightarrow> (breaker \<times> mem_world) backup_engine" where
  "lake_backup_engine c del = \<lparr>be_store = s3_ops mem_rt lake_client, be_delete = del, be_config = c\<rparr>"

interpretation lake_backups: backup_source "s3_ops mem_rt lake_client" "client_view lake_client mem_view"
  "engine_api (rt_snd mem_rt) (lake_backup_engine c del) sched" c
proof -
  have "backup_source (s3_ops mem_rt lake_client) (client_view lake_client mem_view)
      (engine_api (rt_snd mem_rt) (lake_backup_engine c del) sched) (be_config (lake_backup_engine c del))"
    by (rule engine_backup_source [OF lake.store_contract])
      (use lake.table.now_view in \<open>auto simp: lake_backup_engine_def\<close>)
  then show "backup_source (s3_ops mem_rt lake_client) (client_view lake_client mem_view)
      (engine_api (rt_snd mem_rt) (lake_backup_engine c del) sched) c" by (simp add: lake_backup_engine_def)
qed

text \<open>
  C12: when \<open>RestoreFromBackup\<close> of the manager succeeds, the bucket held a manifest with the backup's id whose files
  were all restored: at the place of each file in the target table is data whose checksum the manifest gives for a
  file with that place.
\<close>

theorem restored_files_verified:
  assumes "table_env ops view rt" and "iteration_order sched"
    and "restore_from_backup (mg_restore (new_backup_manager rt ops del bsched section)) sched ident source tbl w = (Inr u, w')"
  shows "\<exists>m. has_manifest (view w) ident m \<and> (\<forall>f \<in> set (slice_of (bd_files m)). \<exists>g \<in> set (slice_of (bd_files m)).
      restore_target m source tbl g = restore_target m source tbl f
      \<and> (\<exists>d. view w' (restore_target m source tbl f) = Some d \<and> generate_checksum d = bf_checksum g))"
proof -
  let ?mg = "new_backup_manager rt ops del bsched section"
  have be: "be_store (mg_engine ?mg) = ops" and rz: "rz_store (mg_restore ?mg) = ops"
    and api: "rz_backups (mg_restore ?mg) = engine_api rt (mg_engine ?mg) bsched"
    by (simp_all add: new_backup_manager_def Let_def)
  have "backup_source ops view (engine_api rt (mg_engine ?mg) bsched) (be_config (mg_engine ?mg))"
    by (rule engine_backup_source [OF table_env.axioms(1) [OF assms(1)] _ be]) (rule table_env.now_view [OF assms(1)])
  from backup_source.restore_verified [OF this rz api assms(2,3)] show ?thesis .
qed

definition demo_manifest :: backup_metadata where
  "demo_manifest = zero_backup_metadata\<lparr>bd_id := ''b1'', bd_source := ''s'', bd_table := ''t'', bd_created := 0, bd_format := 1,
     bd_status := ''completed'', bd_files := Some [\<lparr>bf_original = ''s/t/_delta_log/00000000000000000000.json'', bf_backup = ''backups/log'',
       bf_size = 2, bf_checksum = generate_checksum ''{}'', bf_type = ''log''\<rparr>]\<rparr>"

definition demo_backup_objects :: plain_world where
  "demo_backup_objects = [(''backups/m/manifest.json'', json_indent (enc_backup_metadata demo_manifest)), (''backups/log'', ''{}'')]"

definition demo_section :: backup_section where
  "demo_section = \<lparr>bk_enabled = True, bk_destination_bucket = [], bk_destination_region = [], bk_schedule = [], bk_retention_days = 30,
     bk_cross_region = False, bk_encryption_key = [], bk_validation_mode = ''checksum'', bk_concurrent_uploads = 4, bk_chunk_size_mb = 64\<rparr>"

lemma valid_utf8_hex_text: "valid_utf8 (hex_text s)"
proof -
  have d: "byte (hex_digit n) < 128" if "n < 16" for n
    using that by (simp add: hex_digit_def take_bit_eq_mod)
  have "(of_char c :: nat) div 16 < 16" for c using of_char_lt_256 [of c] by (simp add: less_mult_imp_div_less)
  then show ?thesis by (intro valid_utf8_ascii) (auto simp: hex_text_def list_all_iff d)
qed

lemma demo_manifest_wf: "wf_backup demo_manifest"
proof -
  have "time_ok 0" by code_simp
  then show ?thesis
    by (simp add: wf_backup_def demo_manifest_def zero_backup_metadata_def backup_times_ok_def slice_of_def generate_checksum_def
        valid_utf8_hex_text in_int64_def)
qed

lemma demo_get_backup:
  assumes "be_store be = plain_store"
  shows "get_backup_metadata be ''b1'' demo_backup_objects = (Inr demo_manifest, demo_backup_objects)"
proof -
  have "is_manifest ''backups/m/manifest.json''" by code_simp
  moreover have "bd_id demo_manifest = ''b1''" by (simp add: demo_manifest_def)
  moreover have "has_prefix ''backups/m/manifest.json'' ''backups/''" "has_prefix ''backups/log'' ''backups/''" by code_simp+
  ultimately show ?thesis
    by (simp add: get_backup_metadata_def assms plain_fields demo_backup_objects_def io_bind_def io_wrap_def io_try_def load_manifest_def
        get_json_into_def plain_read_def json_unmarshal_indent [OF wf_json_backup [OF demo_manifest_wf]] io_ret_def
        into_backup_metadata_enc [OF demo_manifest_wf])
qed

lemma demo_validate:
  assumes "be_store be = plain_store"
  shows "\<exists>r. validate_backup plain_rt be ''b1'' demo_backup_objects = (Inr r, demo_backup_objects) \<and> bh_valid r"
proof -
  have f: "slice_of (bd_files demo_manifest) = [\<lparr>bf_original = ''s/t/_delta_log/00000000000000000000.json'', bf_backup = ''backups/log'',
       bf_size = 2, bf_checksum = generate_checksum ''{}'', bf_type = ''log''\<rparr>]" by (simp add: demo_manifest_def slice_of_def)
  have g: "map_of demo_backup_objects ''backups/log'' = Some ''{}''" by (simp add: demo_backup_objects_def)
  show ?thesis
    by (simp add: validate_backup_def plain_fields io_bind_def io_wrap_def demo_get_backup [OF assms] f check_file_def assms plain_read_def g
        Let_def empty_check_def)
qed

lemma demo_restore:
  "\<exists>w'. restore_from_backup (mg_restore (new_backup_manager plain_rt plain_store (\<lambda>k w. (Inr (), w)) id demo_section)) id ''b1'' ''s2'' ''t2''
     demo_backup_objects = (Inr (), w')"
proof -
  let ?mg = "new_backup_manager plain_rt plain_store (\<lambda>k w. (Inr (), w)) id demo_section"
  let ?rz = "mg_restore ?mg" and ?f = "\<lparr>bf_original = ''s/t/_delta_log/00000000000000000000.json'', bf_backup = ''backups/log'',
       bf_size = 2, bf_checksum = generate_checksum ''{}'', bf_type = ''log''\<rparr>"
  have be: "be_store (mg_engine ?mg) = plain_store" and rz: "rz_store ?rz = plain_store"
    and api: "rz_backups ?rz = engine_api plain_rt (mg_engine ?mg) id"
    by (simp_all add: new_backup_manager_def Let_def)
  obtain r where r: "validate_backup plain_rt (mg_engine ?mg) ''b1'' demo_backup_objects = (Inr r, demo_backup_objects)" and valid: "bh_valid r"
    using demo_validate [OF be] by blast
  have get: "ba_get (rz_backups ?rz) ''b1'' demo_backup_objects = (Inr demo_manifest, demo_backup_objects)"
    and check: "ba_validate (rz_backups ?rz) ''b1'' demo_backup_objects = (Inr r, demo_backup_objects)"
    by (simp_all add: api engine_api_def demo_get_backup [OF be] r)
  have f: "slice_of (bd_files demo_manifest) = [?f]" by (simp add: demo_manifest_def slice_of_def)
  have g: "map_of demo_backup_objects ''backups/log'' = Some ''{}''" by (simp add: demo_backup_objects_def)
  have "str_contains ''s/t/_delta_log/00000000000000000000.json'' first_entry" by code_simp
  then have ok: "restorable demo_manifest ''s2'' ''t2'' = Inr ()" by (simp add: restorable_def f is_log_file_def)
  have "validate_restore ?rz ''b1'' ''s2'' ''t2'' demo_backup_objects = (Inr (), demo_backup_objects)"
    by (simp add: validate_restore_def io_bind_def io_wrap_def get check valid ok)
  moreover have "\<exists>w'. perform_restore ?rz id demo_manifest ''s2'' ''t2'' demo_backup_objects = (Inr (), w')"
    by (simp add: perform_restore_def io_bind_def io_wrap_def rz plain_fields f is_log_file_def restore_file_def plain_read_def g io_ret_def)
  ultimately show ?thesis by (auto simp: restore_from_backup_def io_bind_def io_wrap_def get)
qed

theorem restored_files_verified_witness:
  "\<exists>u w' m. restore_from_backup (mg_restore (new_backup_manager plain_rt plain_store (\<lambda>k w. (Inr (), w)) id demo_section)) id ''b1'' ''s2'' ''t2''
     demo_backup_objects = (Inr u, w') \<and> has_manifest (map_of demo_backup_objects) ''b1'' m"
  using demo_restore restored_files_verified [OF plain_table iteration_order_identity] by blast

section \<open>The schedule\<close>

text \<open>The calls that change the scheduler, and the runs of its jobs.\<close>

inductive scheduler_step :: "'w runtime \<Rightarrow> 'w backup_api \<Rightarrow> 'w cron_ops \<Rightarrow> backup_config \<Rightarrow> backup_scheduler \<times> 'w \<Rightarrow> backup_scheduler \<times> 'w \<Rightarrow> bool"
  for rt :: "'w runtime" and api :: "'w backup_api" and cn :: "'w cron_ops" and c :: backup_config where
  schedule: "scheduler_step rt api cn c s (snd (schedule_backup cn c source tbl schedule s))"
| unschedule: "scheduler_step rt api cn c s (snd (unschedule_backup cn source tbl s))"
| start: "scheduler_step rt api cn c s (snd (start_scheduler cn s))"
| stop: "scheduler_step rt api cn c s (snd (stop_scheduler cn s))"
| job: "scheduler_step rt api cn c s (execute_backup rt api source tbl s)"

definition entry_ok :: "string \<times> scheduled_backup \<Rightarrow> bool" where
  "entry_ok e \<longleftrightarrow> fst e = job_key (sk_source (snd e)) (sk_table (snd e)) \<and> sk_enabled (snd e)"

definition entries_ok :: "backup_scheduler \<Rightarrow> bool" where
  "entries_ok sd \<longleftrightarrow> (\<forall>e \<in> set (sd_scheduled sd). entry_ok e)"

lemma set_update_cases: "e \<in> set (AList.update k v m) \<Longrightarrow> e = (k, v) \<or> e \<in> set m"
  by (induction m) (auto split: if_splits)

lemma in_delete: "e \<in> set (AList.delete k m) \<Longrightarrow> e \<in> set m"
  by (induction m) (auto split: if_splits)

lemma entries_ok_add:
  assumes "entries_ok sd" and "entry_ok (k, b)"
  shows "entries_ok (sd\<lparr>sd_scheduled := AList.update k b (sd_scheduled sd)\<rparr>)"
    and "entries_ok (sd\<lparr>sd_jobs := jobs, sd_scheduled := AList.update k b (sd_scheduled sd)\<rparr>)"
  using assms set_update_cases by (fastforce simp: entries_ok_def)+

lemma entries_ok_jobs: "entries_ok (sd\<lparr>sd_jobs := jobs\<rparr>) = entries_ok sd"
  by (simp add: entries_ok_def)

lemma scheduler_ok_drop: "scheduler_ok sd \<Longrightarrow> scheduler_ok (sd\<lparr>sd_jobs := AList.delete k (sd_jobs sd)\<rparr>)"
  by (auto simp: scheduler_ok_def keys_delete distinct_delete)

lemma scheduler_ok_add:
  "scheduler_ok sd \<Longrightarrow> scheduler_ok (sd\<lparr>sd_jobs := AList.update k i (sd_jobs sd), sd_scheduled := AList.update k b (sd_scheduled sd)\<rparr>)"
  by (auto simp: scheduler_ok_def distinct_update dom_update)

lemma schedule_backup_ok:
  assumes "scheduler_ok sd" and "entries_ok sd" and "schedule_backup cn c source tbl schedule (sd, w) = (r, (sd', w'))"
  shows "scheduler_ok sd' \<and> entries_ok sd'"
proof (cases "bg_enabled c")
  case False
  then show ?thesis using assms by (simp add: schedule_backup_def)
next
  case True
  let ?k = "job_key source tbl"
  obtain sd1 w1 where 1: "(case map_of (sd_jobs sd) ?k of None \<Rightarrow> (sd, w)
      | Some i \<Rightarrow> (sd\<lparr>sd_jobs := AList.delete ?k (sd_jobs sd)\<rparr>, cn_remove cn i w)) = (sd1, w1)" by (metis surj_pair)
  then have ok: "scheduler_ok sd1" "entries_ok sd1"
    using assms(1,2) scheduler_ok_drop entries_ok_jobs by (auto split: option.splits)
  obtain a w2 where a: "cn_add cn schedule (source, tbl) w1 = (a, w2)" by (metis surj_pair)
  show ?thesis
  proof (cases a)
    case (Inl e)
    then have "sd' = sd1" using assms(3) True 1 a by (simp add: schedule_backup_def Let_def)
    with ok show ?thesis by simp
  next
    case (Inr i)
    let ?b = "\<lparr>sk_source = source, sk_table = tbl, sk_schedule = schedule, sk_last = None, sk_next = cn_next cn i w2, sk_enabled = True\<rparr>"
    have "sd' = sd1\<lparr>sd_jobs := AList.update ?k i (sd_jobs sd1), sd_scheduled := AList.update ?k ?b (sd_scheduled sd1)\<rparr>"
      using assms(3) True 1 a Inr by (auto simp: schedule_backup_def Let_def)
    moreover have "entry_ok (?k, ?b)" by (simp add: entry_ok_def)
    ultimately show ?thesis using scheduler_ok_add [OF ok(1)] entries_ok_add(2) [OF ok(2)] by simp
  qed
qed

lemma unschedule_backup_ok:
  assumes "scheduler_ok sd" and "entries_ok sd" and "unschedule_backup cn source tbl (sd, w) = (r, (sd', w'))"
  shows "scheduler_ok sd' \<and> entries_ok sd'"
proof (cases "map_of (sd_jobs sd) (job_key source tbl)")
  case None
  then show ?thesis using assms by (simp add: unschedule_backup_def)
next
  case (Some i)
  then have "sd' = sd\<lparr>sd_jobs := AList.delete (job_key source tbl) (sd_jobs sd),
      sd_scheduled := AList.delete (job_key source tbl) (sd_scheduled sd)\<rparr>"
    using assms(3) by (simp add: unschedule_backup_def)
  moreover have "\<forall>e \<in> set (AList.delete (job_key source tbl) (sd_scheduled sd)). entry_ok e"
  proof
    fix e assume "e \<in> set (AList.delete (job_key source tbl) (sd_scheduled sd))"
    from in_delete [OF this] assms(2) show "entry_ok e" by (simp add: entries_ok_def)
  qed
  ultimately show ?thesis using assms(1) by (auto simp: scheduler_ok_def entries_ok_def keys_delete distinct_delete)
qed

lemma execute_backup_ok:
  assumes "scheduler_ok sd" and "entries_ok sd" and "execute_backup rt api source tbl (sd, w) = (sd', w')"
  shows "scheduler_ok sd' \<and> entries_ok sd'"
proof (cases "sd' = sd")
  case False
  let ?k = "job_key source tbl"
  obtain b t where b: "map_of (sd_scheduled sd) ?k = Some b"
    and sd': "sd' = sd\<lparr>sd_scheduled := AList.update ?k (b\<lparr>sk_last := Some t\<rparr>) (sd_scheduled sd)\<rparr>"
    using assms(3) False by (auto simp: execute_backup_def split: prod.splits sum.splits option.splits)
  have "entry_ok (?k, b)" using assms(2) map_of_SomeD [OF b] by (simp add: entries_ok_def)
  then have "entry_ok (?k, b\<lparr>sk_last := Some t\<rparr>)" by (simp add: entry_ok_def)
  from entries_ok_add(1) [OF assms(2) this] have "entries_ok sd'" unfolding sd' .
  moreover have "scheduler_ok sd'" using assms(1) unfolding sd' by (auto simp: scheduler_ok_def distinct_update dom_update)
  ultimately show ?thesis by simp
qed (use assms(1,2) in auto)

definition demo_cron :: "plain_world cron_ops" where
  "demo_cron = \<lparr>cn_add = (\<lambda>schedule job w. (Inr 1, w)), cn_remove = (\<lambda>i w. w), cn_next = (\<lambda>i w. 0), cn_start = id, cn_stop = id\<rparr>"

text \<open>
  C23: whatever calls are made and whenever jobs run, every cron job of the scheduler has its entry in the list of
  scheduled backups, jobs and entries have one key each, and every entry is enabled and stands under the key made of
  its source and table.
\<close>

theorem scheduler_invariant:
  assumes "(scheduler_step rt api cn c)\<^sup>*\<^sup>* (new_backup_scheduler, w) (sd, w')"
  shows "scheduler_ok sd \<and> entries_ok sd"
  using assms
proof (induction "(sd, w')" arbitrary: sd w' rule: rtranclp_induct)
  case base
  then show ?case by (simp add: new_backup_scheduler_def scheduler_ok_def entries_ok_def)
next
  case (step s)
  obtain sd0 w0 where s: "s = (sd0, w0)" by (cases s)
  have ok: "scheduler_ok sd0" "entries_ok sd0" using step.hyps(3) [OF s] by simp_all
  from step.hyps(2) show ?case unfolding s
  proof cases
    case (schedule source tbl schedule)
    then show ?thesis using schedule_backup_ok [OF ok] by (metis surj_pair snd_conv)
  next
    case (unschedule source tbl)
    then show ?thesis using unschedule_backup_ok [OF ok] by (metis surj_pair snd_conv)
  next
    case (job source tbl)
    then show ?thesis using execute_backup_ok [OF ok] by metis
  qed (use ok in \<open>auto simp: start_scheduler_def stop_scheduler_def scheduler_ok_def entries_ok_def split: if_splits\<close>)
qed

theorem scheduler_invariant_witness:
  "\<exists>sd w'. (scheduler_step plain_rt (engine_api plain_rt demo_backup_engine id) demo_cron demo_backup_config)\<^sup>*\<^sup>*
      (new_backup_scheduler, demo_objects) (sd, w') \<and> sd_jobs sd = [(''s_t'', 1)] \<and> scheduler_ok sd"
proof -
  let ?s = "schedule_backup demo_cron demo_backup_config ''s'' ''t'' ''@daily'' (new_backup_scheduler, demo_objects)"
  obtain sd w' where s: "snd ?s = (sd, w')" by (metis surj_pair)
  have "(scheduler_step plain_rt (engine_api plain_rt demo_backup_engine id) demo_cron demo_backup_config)\<^sup>*\<^sup>*
      (new_backup_scheduler, demo_objects) (sd, w')"
    unfolding s [symmetric] by (rule r_into_rtranclp, rule scheduler_step.schedule)
  moreover from scheduler_invariant [OF this] have "scheduler_ok sd" by blast
  moreover have "sd_jobs sd = [(''s_t'', 1)]"
    using s by (auto simp: schedule_backup_def new_backup_scheduler_def demo_cron_def demo_backup_config_def job_key_def Let_def)
  ultimately show ?thesis by blast
qed

text \<open>
  when scheduling a table that has a job fails, the old job is gone all the same, while the table stays in the
  list of scheduled backups unchanged.
\<close>

theorem failed_reschedule_loses_job:
  assumes "schedule_backup cn c source tbl schedule (sd, w) = (Inl e, (sd', w'))" and "bg_enabled c"
  shows "map_of (sd_jobs sd') (job_key source tbl) = None \<and> sd_scheduled sd' = sd_scheduled sd"
  using assms by (auto simp: schedule_backup_def Let_def delete_conv' split: prod.splits sum.splits option.splits)

theorem failed_reschedule_loses_job_witness:
  "\<exists>e sd' w'. schedule_backup (demo_cron\<lparr>cn_add := (\<lambda>sc tb w. (Inl (Msg ''bad spec''), w))\<rparr>) demo_backup_config ''s'' ''t'' ''x''
      (\<lparr>sd_jobs = [(''s_t'', 1)], sd_scheduled = [(''s_t'', zero_scheduled_backup)], sd_running = True\<rparr>, demo_objects) = (Inl e, (sd', w'))
    \<and> map_of (sd_jobs sd') (job_key ''s'' ''t'') = None \<and> sd_scheduled sd' \<noteq> []"
proof -
  let ?run = "schedule_backup (demo_cron\<lparr>cn_add := (\<lambda>sc tb w. (Inl (Msg ''bad spec''), w))\<rparr>) demo_backup_config ''s'' ''t'' ''x''
      (\<lparr>sd_jobs = [(''s_t'', 1)], sd_scheduled = [(''s_t'', zero_scheduled_backup)], sd_running = True\<rparr>, demo_objects)"
  obtain e sd' w' where run: "?run = (Inl e, (sd', w'))"
    by (simp add: schedule_backup_def demo_backup_config_def Let_def job_key_def)
  from failed_reschedule_loses_job [OF this] show ?thesis using run by (auto simp: demo_backup_config_def)
qed

end
