(* ===== verification/RetryWiring.thy ===== *)
theory RetryWiring
  imports S3Client RetryConfig
begin

text \<open>
  How configured policies reach their users: \<open>SetRetryConfig\<close> of the S3 client (internal/storage/s3.go) and of
  the sync engine (internal/sync/engine.go). The client knows four of the six strategies the configuration
  accepts; the engine's executor is configured, and no phase of a run reads it.
\<close>

section \<open>The S3 client\<close>

definition section_policy :: "'w backoff \<Rightarrow> (go_error option \<Rightarrow> bool) \<Rightarrow> policy_config \<Rightarrow> 'w retry_policy" where
  "section_policy b f pc =
     \<lparr>rp_max_attempts = pc_max_attempts pc, rp_base_delay = pc_base_delay pc, rp_max_delay = pc_max_delay pc,
      rp_backoff = Some b, rp_retryable = Some f, rp_on_retry = None, rp_jitter = pc_jitter pc\<rparr>"

definition s3_backoff :: "'w runtime \<Rightarrow> string \<Rightarrow> go_error + 'w backoff" where
  "s3_backoff rt strategy =
     (if strategy = [] \<or> strategy = ''exponential'' then Inr (exponential_backoff rt)
      else if strategy = ''exponential_jitter'' then Inr (exponential_backoff_with_jitter rt)
      else if strategy = ''linear'' then Inr linear_backoff
      else if strategy = ''fixed'' then Inr fixed_backoff
      else Inl (Msg (''unknown backoff strategy: '' @ strategy)))"

definition convert_to_policy_config :: "'w runtime \<Rightarrow> policy_config \<Rightarrow> go_error + 'w retry_policy" where
  "convert_to_policy_config rt pc = map_sum id (\<lambda>b. section_policy b s3_retryable pc) (s3_backoff rt (pc_backoff_strategy pc))"

definition configured :: "('w runtime \<Rightarrow> policy_config \<Rightarrow> go_error + 'w retry_policy) \<Rightarrow> 'w runtime \<Rightarrow> string \<Rightarrow> retry_config
    \<Rightarrow> (go_error + 'w retry_policy) option" where
  "configured convert rt name c =
     (case map_of (case rc_operation_policies c of None \<Rightarrow> [] | Some m \<Rightarrow> m) name of
        None \<Rightarrow> None
      | Some pc \<Rightarrow> Some (case convert rt pc of Inl e \<Rightarrow> Inl (Wrap (''invalid '' @ name @ '' policy'') e) | Inr p \<Rightarrow> Inr p))"

text \<open>The breaker the configuration asks for, if it does.\<close>

definition s3_configured_breaker :: "retry_config \<Rightarrow> breaker \<Rightarrow> breaker" where
  "s3_configured_breaker c cb =
     (case map_of (case rc_circuit_breakers c of None \<Rightarrow> [] | Some m \<Rightarrow> m) ''s3_operations'' of
        Some bc \<Rightarrow> if bc_enabled bc then new_circuit_breaker ''s3_operations'' (bc_failure_threshold bc) (bc_reset_timeout bc) else cb
      | None \<Rightarrow> cb)"

text \<open>What was set before an error stays set.\<close>

definition s3_set_retry_config ::
  "'w runtime \<Rightarrow> retry_config option \<Rightarrow> 'w s3_client \<times> breaker \<Rightarrow> go_error option \<times> 'w s3_client \<times> breaker" where
  "s3_set_retry_config rt config = (\<lambda>(c, cb).
     case config of
       None \<Rightarrow> (None, c, cb)
     | Some r \<Rightarrow>
         (case configured convert_to_policy_config rt ''s3_upload'' r of
            Some (Inl e) \<Rightarrow> (Some e, c, cb)
          | up \<Rightarrow>
              let c1 = (case up of Some (Inr p) \<Rightarrow> c\<lparr>sc_upload_policy := Some p\<rparr> | _ \<Rightarrow> c)
              in case configured convert_to_policy_config rt ''s3_download'' r of
                   Some (Inl e) \<Rightarrow> (Some e, c1, cb)
                 | down \<Rightarrow>
                     (None, (case down of Some (Inr p) \<Rightarrow> c1\<lparr>sc_download_policy := Some p\<rparr> | _ \<Rightarrow> c1),
                      s3_configured_breaker r cb)))"

definition s3_breaker_metrics :: "breaker \<Rightarrow> breaker_metrics" where
  "s3_breaker_metrics cb = breaker_metrics_of cb"

section \<open>The sync engine\<close>

record 'w sync_retry_executor =
  sx_connect :: "'w retry_policy"
  sx_discover :: "'w retry_policy"
  sx_extract :: "'w retry_policy"
  sx_breakers :: "(string, breaker) gomap"

definition new_sync_retry_executor :: "'w runtime \<Rightarrow> string \<Rightarrow> 'w sync_retry_executor" where
  "new_sync_retry_executor rt source =
     \<lparr>sx_connect = network_policy rt, sx_discover = api_policy rt, sx_extract = default_retry_policy rt,
      sx_breakers =
        [(''connect'', new_circuit_breaker (''sync_connect_'' @ source) 3 (5 * minute)),
         (''discover'', new_circuit_breaker (''sync_discover_'' @ source) 5 (2 * minute)),
         (''extract'', new_circuit_breaker (''sync_extract_'' @ source) 10 minute)]\<rparr>"

definition convert_to_retry_policy :: "'w runtime \<Rightarrow> policy_config \<Rightarrow> go_error + 'w retry_policy" where
  "convert_to_retry_policy rt pc =
     (let s = pc_backoff_strategy pc; p = (\<lambda>b. Inr (section_policy b default_retryable pc))
      in if s = [] \<or> s = ''exponential'' then p (exponential_backoff rt)
         else if s = ''exponential_jitter'' then p (exponential_backoff_with_jitter rt)
         else if s = ''linear'' then p linear_backoff
         else if s = ''fixed'' then p fixed_backoff
         else if s = ''api_rate_limit'' then p (api_rate_limit_backoff rt)
         else if s = ''network'' then p (network_backoff rt)
         else Inl (Msg (''unknown backoff strategy: '' @ s)))"

definition engine_set_retry_config ::
  "'w runtime \<Rightarrow> retry_config option \<Rightarrow> 'w sync_retry_executor \<Rightarrow> go_error option \<times> 'w sync_retry_executor" where
  "engine_set_retry_config rt config x =
     (case config of
        None \<Rightarrow> (None, x)
      | Some r \<Rightarrow>
          (case configured convert_to_retry_policy rt ''sync_connect'' r of
             Some (Inl e) \<Rightarrow> (Some e, x)
           | connect \<Rightarrow>
               let x1 = (case connect of Some (Inr p) \<Rightarrow> x\<lparr>sx_connect := p\<rparr> | _ \<Rightarrow> x)
               in case configured convert_to_retry_policy rt ''sync_discover'' r of
                    Some (Inl e) \<Rightarrow> (Some e, x1)
                  | discover \<Rightarrow>
                      let x2 = (case discover of Some (Inr p) \<Rightarrow> x1\<lparr>sx_discover := p\<rparr> | _ \<Rightarrow> x1)
                      in case configured convert_to_retry_policy rt ''sync_extract'' r of
                           Some (Inl e) \<Rightarrow> (Some e, x2)
                         | extr \<Rightarrow> (None, case extr of Some (Inr p) \<Rightarrow> x2\<lparr>sx_extract := p\<rparr> | _ \<Rightarrow> x2)))"

definition engine_retry_metrics :: "'w sync_retry_executor \<Rightarrow> (string, breaker_metrics) gomap" where
  "engine_retry_metrics x = map (\<lambda>(name, cb). (name, breaker_metrics_of cb)) (sx_breakers x)"

section \<open>Which strategies are accepted\<close>

text \<open>The engine accepts what the retry configuration accepts; the client refuses two of its strategies.\<close>

lemma engine_accepts_iff:
  "(\<exists>p. convert_to_retry_policy rt pc = Inr p) \<longleftrightarrow> (\<exists>b. parse_backoff_strategy rt (pc_backoff_strategy pc) = Inr b)"
  by (simp add: convert_to_retry_policy_def parse_backoff_strategy_def Let_def)

lemma s3_accepts_iff:
  "(\<exists>p. convert_to_policy_config rt pc = Inr p) \<longleftrightarrow>
     (\<exists>b. parse_backoff_strategy rt (pc_backoff_strategy pc) = Inr b)
     \<and> pc_backoff_strategy pc \<noteq> ''api_rate_limit'' \<and> pc_backoff_strategy pc \<noteq> ''network''"
  by (simp add: convert_to_policy_config_def s3_backoff_def parse_backoff_strategy_def)

text \<open>A policy both accept comes from the same strategy, with the client's own view of what is retryable.\<close>

lemma converted_policies_agree:
  assumes "convert_to_policy_config rt pc = Inr p" and "convert_to_retry_policy rt pc = Inr q"
  shows "q = with_retryable_func (Some default_retryable) p"
  using assms
  by (auto simp: convert_to_policy_config_def s3_backoff_def convert_to_retry_policy_def Let_def section_policy_def
      with_retryable_func_def split: if_splits)

end
