(* ===== verification/RetryMetrics.thy ===== *)
theory RetryMetrics
  imports RetryConfig
begin

text \<open>
  internal/retry/metrics.go: the collector of retry and breaker statistics, its reports, the health
  status, and the instrumented policy. The collector is a component of the world. Proved: attempts
  are split into successes and failures without loss, whatever runs through an instrumented policy;
  an instrumented execution records exactly one success or none; the reports do not depend on the
  iteration order except for the order of names.
\<close>

record retry_stats =
  rs_operation :: string
  rs_total_attempts :: int
  rs_successful :: int
  rs_failed :: int
  rs_total_delay :: duration
  rs_max_delay :: duration
  rs_min_delay :: duration
  rs_last_attempt :: instant

record breaker_stats =
  bs_name :: string
  bs_state :: breaker_state
  bs_request_count :: int
  bs_success_count :: int
  bs_failure_count :: int
  bs_transitions :: int
  bs_last_failure :: instant
  bs_last_success :: instant
  bs_last_change :: instant
  bs_total_open :: duration
  bs_open_count :: int
  bs_half_open_count :: int
  bs_open_start :: instant

record metrics_collector =
  mc_retry :: "(string, retry_stats) gomap"
  mc_breaker :: "(string, breaker_stats) gomap"

definition new_metrics_collector :: metrics_collector where
  "new_metrics_collector = \<lparr>mc_retry = [], mc_breaker = []\<rparr>"

definition reset_metrics :: "metrics_collector \<Rightarrow> metrics_collector" where
  "reset_metrics mc = mc\<lparr>mc_retry := [], mc_breaker := []\<rparr>"

section \<open>Recording\<close>

definition new_retry_stats :: "string \<Rightarrow> duration \<Rightarrow> retry_stats" where
  "new_retry_stats operation delay =
     \<lparr>rs_operation = operation, rs_total_attempts = 0, rs_successful = 0, rs_failed = 0, rs_total_delay = 0,
      rs_max_delay = delay, rs_min_delay = delay, rs_last_attempt = zero_time\<rparr>"

definition add_attempt :: "duration \<Rightarrow> bool \<Rightarrow> instant \<Rightarrow> retry_stats \<Rightarrow> retry_stats" where
  "add_attempt delay success now s =
     s\<lparr>rs_total_attempts := rs_total_attempts s + 1,
       rs_total_delay := wrap64 (rs_total_delay s + delay), rs_last_attempt := now,
       rs_max_delay := (if rs_max_delay s < delay then delay else rs_max_delay s),
       rs_min_delay := (if delay < rs_min_delay s \<or> rs_min_delay s = 0 then delay else rs_min_delay s),
       rs_successful := (if success then rs_successful s + 1 else rs_successful s),
       rs_failed := (if success then rs_failed s else rs_failed s + 1)\<rparr>"

definition record_retry_attempt ::
  "'w runtime \<Rightarrow> string \<Rightarrow> duration \<Rightarrow> bool \<Rightarrow> metrics_collector \<times> 'w \<Rightarrow> metrics_collector \<times> 'w" where
  "record_retry_attempt rt operation delay success = (\<lambda>(mc, w).
     let s = (case map_of (mc_retry mc) operation of None \<Rightarrow> new_retry_stats operation delay | Some s \<Rightarrow> s);
         (now, w') = rt_now rt w
     in (mc\<lparr>mc_retry := AList.update operation (add_attempt delay success now s) (mc_retry mc)\<rparr>, w'))"

definition new_breaker_stats :: "string \<Rightarrow> breaker_state \<Rightarrow> breaker_stats" where
  "new_breaker_stats name st =
     \<lparr>bs_name = name, bs_state = st, bs_request_count = 0, bs_success_count = 0, bs_failure_count = 0,
      bs_transitions = 0, bs_last_failure = zero_time, bs_last_success = zero_time, bs_last_change = zero_time,
      bs_total_open = 0, bs_open_count = 0, bs_half_open_count = 0, bs_open_start = zero_time\<rparr>"

text \<open>A change of state: the clock is read for each of the fields it sets.\<close>

definition change_state :: "'w runtime \<Rightarrow> breaker_state \<Rightarrow> breaker_stats \<times> 'w \<Rightarrow> breaker_stats \<times> 'w" where
  "change_state rt st = (\<lambda>(s, w).
     let (t1, w1) = rt_now rt w;
         s1 = s\<lparr>bs_transitions := bs_transitions s + 1, bs_last_change := t1\<rparr>;
         (s2, w2) = (if bs_state s = StateOpen \<and> bs_open_start s \<noteq> zero_time
                     then let (t2, w2) = rt_now rt w1
                          in (s1\<lparr>bs_total_open := wrap64 (bs_total_open s1 + time_sub t2 (bs_open_start s))\<rparr>, w2)
                     else (s1, w1));
         (s3, w3) = (case st of
                       StateOpen \<Rightarrow> let (t3, w3) = rt_now rt w2
                                    in (s2\<lparr>bs_open_count := bs_open_count s2 + 1, bs_open_start := t3\<rparr>, w3)
                     | StateHalfOpen \<Rightarrow> (s2\<lparr>bs_half_open_count := bs_half_open_count s2 + 1\<rparr>, w2)
                     | StateClosed \<Rightarrow> (s2, w2))
     in (s3\<lparr>bs_state := st\<rparr>, w3))"

definition record_breaker_event ::
  "'w runtime \<Rightarrow> string \<Rightarrow> breaker_state \<Rightarrow> bool \<Rightarrow> metrics_collector \<times> 'w \<Rightarrow> metrics_collector \<times> 'w" where
  "record_breaker_event rt name st success = (\<lambda>(mc, w).
     let s0 = (case map_of (mc_breaker mc) name of None \<Rightarrow> new_breaker_stats name st | Some s \<Rightarrow> s);
         (s1, w1) = (if bs_state s0 \<noteq> st then change_state rt st (s0, w) else (s0, w));
         s2 = s1\<lparr>bs_request_count := bs_request_count s1 + 1\<rparr>;
         (now, w2) = rt_now rt w1;
         s3 = (if success then s2\<lparr>bs_success_count := bs_success_count s2 + 1, bs_last_success := now\<rparr>
               else s2\<lparr>bs_failure_count := bs_failure_count s2 + 1, bs_last_failure := now\<rparr>)
     in (mc\<lparr>mc_breaker := AList.update name s3 (mc_breaker mc)\<rparr>, w2))"

section \<open>Reports\<close>

record retry_report =
  rr_stats :: retry_stats
  rr_average_delay :: duration
  rr_success_rate :: f64

definition retry_report_of :: "retry_stats \<Rightarrow> retry_report" where
  "retry_report_of s =
     \<lparr>rr_stats = s,
      rr_average_delay = (if 0 < rs_total_attempts s then quot (rs_total_delay s) (rs_total_attempts s) else 0),
      rr_success_rate = ratio (rs_successful s) (rs_total_attempts s)\<rparr>"

definition get_retry_metrics :: "metrics_collector \<Rightarrow> (string, retry_report) gomap" where
  "get_retry_metrics mc = map (\<lambda>(n, s). (n, retry_report_of s)) (mc_retry mc)"

record breaker_report =
  br_stats :: breaker_stats
  br_success_rate :: f64
  br_failure_rate :: f64
  br_total_open :: duration

text \<open>
  One breaker's report; an open breaker's current period counts, up to the time the clock shows
  when the report is made. The entries are visited in the range order \<open>ord\<close>.
\<close>

definition breaker_report_of :: "'w runtime \<Rightarrow> breaker_stats \<Rightarrow> 'w \<Rightarrow> breaker_report \<times> 'w" where
  "breaker_report_of rt s w =
     (let (total_open, w') =
            (if bs_state s = StateOpen \<and> bs_open_start s \<noteq> zero_time
             then let (now, w1) = rt_now rt w
                  in (wrap64 (bs_total_open s + time_sub now (bs_open_start s)), w1)
             else (bs_total_open s, w))
      in (\<lparr>br_stats = s, br_success_rate = ratio (bs_success_count s) (bs_request_count s),
           br_failure_rate = ratio (bs_failure_count s) (bs_request_count s), br_total_open = total_open\<rparr>, w'))"

fun breaker_reports :: "'w runtime \<Rightarrow> (string \<times> breaker_stats) list \<Rightarrow> 'w \<Rightarrow> (string \<times> breaker_report) list \<times> 'w" where
  "breaker_reports rt [] w = ([], w)"
| "breaker_reports rt ((n, s) # xs) w =
     (let (r, w1) = breaker_report_of rt s w; (rs, w2) = breaker_reports rt xs w1 in ((n, r) # rs, w2))"

definition get_breaker_metrics ::
  "((string \<times> breaker_stats) list \<Rightarrow> (string \<times> breaker_stats) list) \<Rightarrow> 'w runtime \<Rightarrow> metrics_collector \<Rightarrow> 'w
   \<Rightarrow> (string, breaker_report) gomap \<times> 'w" where
  "get_breaker_metrics ord rt mc = breaker_reports rt (ord (mc_breaker mc))"

record aggregated_metrics =
  ag_retry :: "(string, retry_report) gomap"
  ag_breaker :: "(string, breaker_report) gomap"
  ag_generated_at :: instant
  ag_total_attempts :: int
  ag_total_successful :: int
  ag_total_failed :: int
  ag_success_rate :: f64

definition get_aggregated_metrics ::
  "((string \<times> breaker_stats) list \<Rightarrow> (string \<times> breaker_stats) list) \<Rightarrow> 'w runtime \<Rightarrow> metrics_collector \<Rightarrow> 'w
   \<Rightarrow> aggregated_metrics \<times> 'w" where
  "get_aggregated_metrics ord rt mc w =
     (let retry = get_retry_metrics mc;
          (breakers, w1) = get_breaker_metrics ord rt mc w;
          attempts = sum_list (map (\<lambda>(n, r). rs_total_attempts (rr_stats r)) retry);
          successful = sum_list (map (\<lambda>(n, r). rs_successful (rr_stats r)) retry);
          failed = sum_list (map (\<lambda>(n, r). rs_failed (rr_stats r)) retry);
          (now, w2) = rt_now rt w1
      in (\<lparr>ag_retry = retry, ag_breaker = breakers, ag_generated_at = now, ag_total_attempts = attempts,
           ag_total_successful = successful, ag_total_failed = failed,
           ag_success_rate = ratio successful attempts\<rparr>, w2))"

definition get_operation_metrics :: "metrics_collector \<Rightarrow> string \<Rightarrow> retry_report option" where
  "get_operation_metrics mc operation = map_of (get_retry_metrics mc) operation"

record health_status =
  hs_healthy :: bool
  hs_success_rate :: f64
  hs_breakers_open :: int
  hs_total_breakers :: int
  hs_high_failure_ops :: "string list"
  hs_last_update :: instant
  hs_actions :: "string list"

definition high_failure :: "retry_report \<Rightarrow> bool" where
  "high_failure r \<longleftrightarrow> f64_less (rr_success_rate r) (f64_of (8 / 10)) \<and> 10 < rs_total_attempts (rr_stats r)"

definition get_health_status ::
  "((string \<times> breaker_stats) list \<Rightarrow> (string \<times> breaker_stats) list)
   \<Rightarrow> ((string \<times> retry_report) list \<Rightarrow> (string \<times> retry_report) list) \<Rightarrow> 'w runtime \<Rightarrow> metrics_collector \<Rightarrow> 'w
   \<Rightarrow> health_status \<times> 'w" where
  "get_health_status ord1 ord2 rt mc w =
     (let (ag, w') = get_aggregated_metrics ord1 rt mc w;
          open_count = length (filter (\<lambda>(n, r). bs_state (br_stats r) = StateOpen) (ag_breaker ag));
          high = map fst (filter (\<lambda>(n, r). high_failure r) (ord2 (ag_retry ag)));
          low = f64_less (ag_success_rate ag) (f64_of (9 / 10));
          actions = (if 0 < open_count then [''Investigate services with open circuit breakers''] else [])
                  @ (if high \<noteq> [] then [''Review retry policies for high failure rate operations''] else [])
                  @ (if low then [''Overall success rate is below 90%, consider system health review''] else [])
      in (\<lparr>hs_healthy = (f64_le (f64_of (9 / 10)) (ag_success_rate ag) \<and> open_count = 0 \<and> high = []),
           hs_success_rate = ag_success_rate ag, hs_breakers_open = int open_count,
           hs_total_breakers = int (length (ag_breaker ag)), hs_high_failure_ops = high,
           hs_last_update = ag_generated_at ag, hs_actions = actions\<rparr>, w'))"

section \<open>Instrumented policies\<close>

text \<open>
  The wrapper replaces the callback of the policy it embeds: before the original callback it computes
  a delay of its own (a second draw when the policy has jitter) and records a failed attempt.
\<close>

definition instrument ::
  "'w runtime \<Rightarrow> string \<Rightarrow> 'w retry_policy \<Rightarrow> (metrics_collector \<times> 'w) retry_policy" where
  "instrument rt operation p =
     (policy_snd p)\<lparr>rp_on_retry := Some (\<lambda>n e (mc, w).
        let (delay, w1) = calculate_delay rt p n w;
            (mc2, w2) = record_retry_attempt rt operation delay False (mc, w1)
        in (mc2, case rp_on_retry p of None \<Rightarrow> w2 | Some f \<Rightarrow> f n e w2))\<rparr>"

definition execute_with_metrics ::
  "'w runtime \<Rightarrow> string \<Rightarrow> 'w retry_policy \<Rightarrow> ('w, 'a) io \<Rightarrow> (metrics_collector \<times> 'w, 'a) io" where
  "execute_with_metrics rt operation p fn = (\<lambda>(mc, w).
     let (start, w1) = rt_now rt w;
         (result, (mc2, w2)) = execute (rt_snd rt) (instrument rt operation p) (io_snd fn) (mc, w1);
         (now, w3) = rt_now rt w2
     in (result, record_retry_attempt rt operation (time_sub now start) (\<not> isl result) (mc2, w3)))"

section \<open>Nothing is lost\<close>

definition stats_inv :: "retry_stats \<Rightarrow> bool" where
  "stats_inv s \<longleftrightarrow> rs_total_attempts s = rs_successful s + rs_failed s \<and> 0 \<le> rs_successful s \<and> 0 \<le> rs_failed s"

definition breaker_counts :: "breaker_stats \<Rightarrow> bool" where
  "breaker_counts s \<longleftrightarrow> bs_request_count s = bs_success_count s + bs_failure_count s"

definition collector_inv :: "metrics_collector \<Rightarrow> bool" where
  "collector_inv mc \<longleftrightarrow> keys_distinct (mc_retry mc) \<and> keys_distinct (mc_breaker mc)
     \<and> (\<forall>n s. map_of (mc_retry mc) n = Some s \<longrightarrow> stats_inv s)
     \<and> (\<forall>n s. map_of (mc_breaker mc) n = Some s \<longrightarrow> breaker_counts s)"

lemma collector_inv_new: "collector_inv new_metrics_collector" "collector_inv (reset_metrics mc)"
  by (simp_all add: collector_inv_def new_metrics_collector_def reset_metrics_def)

lemma stats_inv_add: "stats_inv s \<Longrightarrow> stats_inv (add_attempt delay success now s)"
  by (simp add: stats_inv_def add_attempt_def)

lemma stats_inv_new: "stats_inv (new_retry_stats operation delay)"
  by (simp add: stats_inv_def new_retry_stats_def)

lemma collector_inv_record:
  assumes "collector_inv (fst s)"
  shows "collector_inv (fst (record_retry_attempt rt operation delay success s))"
proof (cases s)
  case (Pair mc w)
  define s0 where "s0 = (case map_of (mc_retry mc) operation of None \<Rightarrow> new_retry_stats operation delay | Some s \<Rightarrow> s)"
  obtain now w' where now: "rt_now rt w = (now, w')" by (metis surj_pair)
  have inv: "collector_inv mc" using assms Pair by simp
  have "stats_inv s0"
    using inv stats_inv_new unfolding s0_def collector_inv_def by (cases "map_of (mc_retry mc) operation") auto
  then have "stats_inv (add_attempt delay success now s0)" by (rule stats_inv_add)
  moreover have "fst (record_retry_attempt rt operation delay success s)
                 = mc\<lparr>mc_retry := AList.update operation (add_attempt delay success now s0) (mc_retry mc)\<rparr>"
    unfolding Pair record_retry_attempt_def s0_def by (simp add: now Let_def)
  ultimately show ?thesis
    using inv unfolding collector_inv_def by (simp add: update_conv' del: map_of_eq_Some_iff)
qed

lemma change_state_counts:
  "change_state rt st (s, w) = (s', w') \<Longrightarrow>
   bs_request_count s' = bs_request_count s \<and> bs_success_count s' = bs_success_count s
   \<and> bs_failure_count s' = bs_failure_count s \<and> bs_state s' = st"
  by (auto simp: change_state_def Let_def split: prod.splits if_splits breaker_state.splits)

lemma collector_inv_event:
  assumes "collector_inv (fst s)"
  shows "collector_inv (fst (record_breaker_event rt name st success s))"
proof (cases s)
  case (Pair mc w)
  have inv: "collector_inv mc" using assms Pair by simp
  define s0 where "s0 = (case map_of (mc_breaker mc) name of None \<Rightarrow> new_breaker_stats name st | Some s \<Rightarrow> s)"
  have s0: "breaker_counts s0"
    using inv unfolding s0_def collector_inv_def
    by (cases "map_of (mc_breaker mc) name") (auto simp: new_breaker_stats_def breaker_counts_def)
  obtain s1 w1 where s1: "(if bs_state s0 \<noteq> st then change_state rt st (s0, w) else (s0, w)) = (s1, w1)"
    by (metis surj_pair)
  have counts1: "breaker_counts s1"
    using s1 s0 change_state_counts [of rt st s0 w s1 w1] by (auto simp: breaker_counts_def split: if_splits)
  obtain now w2 where now: "rt_now rt w1 = (now, w2)" by (metis surj_pair)
  define s3 where "s3 = (let s2 = s1\<lparr>bs_request_count := bs_request_count s1 + 1\<rparr>
     in if success then s2\<lparr>bs_success_count := bs_success_count s2 + 1, bs_last_success := now\<rparr>
        else s2\<lparr>bs_failure_count := bs_failure_count s2 + 1, bs_last_failure := now\<rparr>)"
  have "breaker_counts s3" using counts1 by (auto simp: s3_def breaker_counts_def Let_def)
  moreover have "fst (record_breaker_event rt name st success s) = mc\<lparr>mc_breaker := AList.update name s3 (mc_breaker mc)\<rparr>"
    unfolding Pair record_breaker_event_def s3_def prod.case Let_def s0_def [symmetric] s1 now by simp
  ultimately show ?thesis
    using inv unfolding collector_inv_def by (simp add: update_conv' del: map_of_eq_Some_iff)
qed

text \<open>
  The number of attempts recorded for an operation. Each retry records one failure and the end of the
  execution one outcome, so an execution with at most \<open>MaxAttempts\<close> calls records at least one and at
  most \<open>MaxAttempts + 1\<close> attempts, of which at most one is a success.
\<close>

definition recorded :: "string \<Rightarrow> metrics_collector \<Rightarrow> int \<times> int" where
  "recorded operation mc =
     (case map_of (mc_retry mc) operation of None \<Rightarrow> (0, 0) | Some s \<Rightarrow> (rs_successful s, rs_failed s))"

lemma recorded_attempt:
  "recorded operation (fst (record_retry_attempt rt operation delay success s))
   = (fst (recorded operation (fst s)) + (if success then 1 else 0),
      snd (recorded operation (fst s)) + (if success then 0 else 1))"
  by (cases s) (auto simp: recorded_def record_retry_attempt_def Let_def add_attempt_def new_retry_stats_def
      split: prod.splits option.splits)

lemma instrument_simps [simp]:
  "rp_max_attempts (instrument rt operation p) = rp_max_attempts p"
  "rp_base_delay (instrument rt operation p) = rp_base_delay p"
  "rp_max_delay (instrument rt operation p) = rp_max_delay p"
  "rp_jitter (instrument rt operation p) = rp_jitter p"
  "rp_backoff (instrument rt operation p) = rp_backoff (policy_snd p)"
  "is_retryable (instrument rt operation p) = is_retryable p"
  by (simp_all add: instrument_def is_retryable_def policy_snd_def fun_eq_iff)

lemma calculate_delay_keeps_fst: "calculate_delay (rt_snd rt) (policy_snd p) n (c, w) = (d, (c', w')) \<Longrightarrow> c' = c"
  by (auto simp: calculate_delay_snd lift_snd_def split: prod.splits)

lemma instrument_before:
  assumes "before_next_attempt (rt_snd rt) (instrument rt operation p) n e (mc, w) = (x, (mc', w'))"
  shows "recorded operation mc' = (fst (recorded operation mc), snd (recorded operation mc) + 1)"
proof -
  obtain delay w1 where d: "calculate_delay rt p n w = (delay, w1)" by (metis surj_pair)
  obtain mc2 w2 where r: "record_retry_attempt rt operation delay False (mc, w1) = (mc2, w2)" by (metis surj_pair)
  obtain w3 where w3: "w3 = (case rp_on_retry p of None \<Rightarrow> w2 | Some f \<Rightarrow> f n e w2)" by simp
  have "calculate_delay (rt_snd rt) (instrument rt operation p) n s = calculate_delay (rt_snd rt) (policy_snd p) n s" for s
    by (cases "rp_backoff p") (simp_all add: calculate_delay_def policy_snd_def if_distrib cong: if_cong split: prod.split)
  then have "mc' = mc2"
    using assms d r w3
    by (auto simp: before_next_attempt_def instrument_def Let_def lift_snd_def calculate_delay_snd split: prod.splits)
  then show ?thesis using recorded_attempt [of operation rt delay False "(mc, w1)"] r by simp
qed

lemma instrumented_loop:
  assumes "execute_loop (rt_snd rt) (instrument rt operation p) (io_snd fn) i last_err (mc, w) = (result, (mc', w'))"
  shows "fst (recorded operation mc') = fst (recorded operation mc)
         \<and> snd (recorded operation mc) \<le> snd (recorded operation mc')
         \<and> snd (recorded operation mc') \<le> snd (recorded operation mc) + max 0 (rp_max_attempts p - i)"
  using assms
proof (induction "nat (rp_max_attempts p + 1 - i)" arbitrary: i last_err mc w)
  case 0
  then have "\<not> i \<le> rp_max_attempts p" by simp
  with 0 show ?case by (subst (asm) execute_loop.simps) simp
next
  case (Suc n)
  then have i: "i \<le> rp_max_attempts p" by simp
  obtain r w1 where fn: "fn w = (r, w1)" by (metis surj_pair)
  show ?case
  proof (cases "\<exists>err. r = Inl err \<and> is_retryable p (Some err) \<and> i \<noteq> rp_max_attempts p")
    case False
    then have "mc' = mc"
      using Suc.prems i fn by (subst (asm) execute_loop.simps) (auto simp: io_snd_def split: sum.splits if_splits)
    then show ?thesis by simp
  next
    case True
    then obtain err where err: "r = Inl err" "is_retryable p (Some err)" "i < rp_max_attempts p" using i by auto
    obtain d c mc2 w2 where b: "before_next_attempt (rt_snd rt) (instrument rt operation p) i err (mc, w1) = ((d, c), (mc2, w2))"
      by (metis surj_pair)
    have step: "recorded operation mc2 = (fst (recorded operation mc), snd (recorded operation mc) + 1)"
      using instrument_before [OF b] .
    show ?thesis
    proof (cases c)
      case (Some e)
      then have "mc' = mc2"
        using Suc.prems i fn err b by (subst (asm) execute_loop.simps) (auto simp: io_snd_def)
      then show ?thesis using step err(3) by simp
    next
      case None
      then have "execute_loop (rt_snd rt) (instrument rt operation p) (io_snd fn) (i + 1) (Some err) (mc2, w2) = (result, (mc', w'))"
        using Suc.prems i fn err b by (subst (asm) execute_loop.simps) (auto simp: io_snd_def)
      moreover have "n = nat (rp_max_attempts p + 1 - (i + 1))" using Suc.hyps(2) by simp
      ultimately show ?thesis using Suc.hyps(1) [of "i + 1" "Some err" mc2 w2] step err(3) by auto
    qed
  qed
qed

lemma execute_with_metrics_recorded:
  assumes run: "execute_with_metrics rt operation p fn (mc, w) = (result, (mc', w'))"
  shows "fst (recorded operation mc') = fst (recorded operation mc) + (if isl result then 0 else 1)
         \<and> snd (recorded operation mc') \<le> snd (recorded operation mc) + max 0 (rp_max_attempts p - 1) + (if isl result then 1 else 0)
         \<and> snd (recorded operation mc) + (if isl result then 1 else 0) \<le> snd (recorded operation mc')"
proof -
  obtain start w1 where n1: "rt_now rt w = (start, w1)" by (metis surj_pair)
  obtain r mc2 w2 where ex: "execute (rt_snd rt) (instrument rt operation p) (io_snd fn) (mc, w1) = (r, (mc2, w2))"
    by (metis surj_pair)
  obtain now w3 where n2: "rt_now rt w2 = (now, w3)" by (metis surj_pair)
  have "result = r" and "mc' = fst (record_retry_attempt rt operation (time_sub now start) (\<not> isl r) (mc2, w3))"
    using run n1 ex n2 by (auto simp: execute_with_metrics_def Let_def)
  then show ?thesis
    using instrumented_loop [OF ex [unfolded execute_def]] recorded_attempt [of operation rt "time_sub now start" "\<not> isl r" "(mc2, w3)"]
    by (auto split: if_splits)
qed

section \<open>The health status\<close>

lemma breaker_reports_stats:
  "map (\<lambda>(n, r). (n, br_stats r)) (fst (breaker_reports rt xs w)) = xs"
proof (induction xs arbitrary: w)
  case (Cons x xs)
  obtain n s where x: "x = (n, s)" by (cases x)
  obtain r w1 where r: "breaker_report_of rt s w = (r, w1)" by (metis surj_pair)
  have "br_stats r = s" using r by (auto simp: breaker_report_of_def Let_def split: prod.splits if_splits)
  then show ?case using Cons.IH [of w1] x r by (simp split: prod.splits) (metis fst_conv)
qed simp

text \<open>Healthy means: no open breaker, no operation with a high failure rate, 90 percent successes.\<close>

lemma health_status_exact:
  assumes "iteration_order ord1" and "iteration_order ord2"
  shows "hs_healthy (fst (get_health_status ord1 ord2 rt mc w)) \<longleftrightarrow>
     (\<forall>(n, s) \<in> set (mc_breaker mc). bs_state s \<noteq> StateOpen)
     \<and> (\<forall>(n, s) \<in> set (mc_retry mc). \<not> high_failure (retry_report_of s))
     \<and> f64_le (f64_of (9 / 10)) (ratio (sum_list (map (\<lambda>(n, s). rs_successful s) (mc_retry mc)))
                                       (sum_list (map (\<lambda>(n, s). rs_total_attempts s) (mc_retry mc))))"
proof -
  obtain reports w1 where rep: "breaker_reports rt (ord1 (mc_breaker mc)) w = (reports, w1)" by (metis surj_pair)
  have reports: "map (\<lambda>(n, r). (n, br_stats r)) reports = ord1 (mc_breaker mc)"
    using breaker_reports_stats [of rt "ord1 (mc_breaker mc)" w] rep by simp
  have "filter (\<lambda>(n, r). bs_state (br_stats r) = StateOpen) reports = []
        \<longleftrightarrow> (\<forall>(n, s) \<in> set (map (\<lambda>(n, r). (n, br_stats r)) reports). bs_state s \<noteq> StateOpen)"
    by (force simp: filter_empty_conv)
  then have closed: "filter (\<lambda>(n, r). bs_state (br_stats r) = StateOpen) reports = []
        \<longleftrightarrow> (\<forall>(n, s) \<in> set (mc_breaker mc). bs_state s \<noteq> StateOpen)"
    unfolding reports using assms(1) by simp
  have high: "filter (\<lambda>(n, r). high_failure r) (ord2 (get_retry_metrics mc)) = []
        \<longleftrightarrow> (\<forall>(n, s) \<in> set (mc_retry mc). \<not> high_failure (retry_report_of s))"
    using assms(2) by (force simp: filter_empty_conv get_retry_metrics_def)
  have sums: "map (\<lambda>(n, r). rs_successful (rr_stats r)) (get_retry_metrics mc) = map (\<lambda>(n, s). rs_successful s) (mc_retry mc)"
    "map (\<lambda>(n, r). rs_total_attempts (rr_stats r)) (get_retry_metrics mc) = map (\<lambda>(n, s). rs_total_attempts s) (mc_retry mc)"
    by (auto simp: get_retry_metrics_def retry_report_of_def)
  show ?thesis
    using closed high sums rep
    by (auto simp: get_health_status_def get_aggregated_metrics_def get_breaker_metrics_def Let_def split: prod.splits)
qed

text \<open>A service that has done nothing is reported unhealthy: its success rate counts as 0.\<close>

lemma idle_unhealthy: "\<not> hs_healthy (fst (get_health_status (\<lambda>x. x) (\<lambda>x. x) rt new_metrics_collector w))"
proof -
  have "\<not> f64_le (f64_of (9 / 10)) (Fin 0)" by code_simp
  then show ?thesis
    by (auto simp: health_status_exact new_metrics_collector_def ratio_def)
qed

end
