(* ===== verification/Spec2Isabelle.thy ===== *)
theory Spec2Isabelle
  imports SyncProperties ContractProperties BackupProperties RetryWiring RetryMetrics Config Sha256 "HOL-Library.Code_Target_Nat"
begin

text \<open>
  AgentBrain is a Go program that copies objects from connectors (Salesforce) into Delta Lake tables
  on S3. This development models its core and proves what makes the core correct.

  The parts, bottom up, and the theories that model them:
  - Prelude, GoText, GoFloat, GoFmt, GoError, Sha256: the Go values the code uses (64-bit integers,
    maps as association lists with a range order, doubles as rounded rationals, formatted text,
    hashes), the program's error values, operations on a world (\<open>io\<close>) and the runtime (clock, random
    numbers, waiting) as a record of operations.
  - RetryPolicy, CircuitBreaker, RetryExec, RetryConfig, RetryMetrics: internal/retry. Policies and
    backoffs, the breaker one lock section at a time and as a step relation, the executor with its
    statistics and batches, the configuration with its validation and defaults, the metrics.
  - Json, JsonCodec: encoding/json as far as it is used, with the decoders' rules for missing,
    unknown and null fields.
  - StoreApi (the locale \<open>s3_store\<close>, what the code expects of an object store), S3Client (storage/s3.go
    over the locale of the S3 service), MemBucket (a bucket that satisfies it), Layout (layout.go).
  - DeltaActions, DeltaLog, DeltaTable, CheckpointValidation, Checkpoints: internal/storage/delta.
    A table is a log of numbered entries; a snapshot is their replay; a checkpoint is a snapshot as
    actions. Lake composes them over the S3 client; Live adds that operations return when S3 answers.
  - GoTime, GoDuration, GoRegex, GoShow: the parts of time, fmt and reflection the later components
    use (RFC 3339 texts with their parser, \<open>Duration.String\<close> and \<open>ParseDuration\<close>, a regular-expression
    matcher, \<open>%v\<close>).
  - Schema, ParquetWriter: internal/schema and storage/parquet.go: schemas, hashes, their Delta and Parquet
    forms, the comparison of two schemas, the writer over the Parquet library.
  - SyncState, Planner, Engine, SyncRun: internal/sync. The state of a source and its store, the plan of
    one object on every branch, the extraction, writing and commit of an object, and the whole run.
    EngineLaws and EngineStore show what the run state and the bucket keep, EngineLive that a sync
    returns; Recovery and RecoveryExec are the recovery manager and its retries; Consistency is the
    consistency tracker; RetryWiring the use of the retry package by the engine. SyncDemo and
    SyncProperties hold a source to sync and the properties.
  - ValidationRules, Validator, Drift, ValidationReport: internal/validation: the rules on fields, records
    and batches, the drift of a field's statistics, the report of a run and its storage.
  - Contracts, ContractValidator, GithubContracts, ContractProperties: internal/contracts: JSON schemas and
    their validator, the validation of requests and responses, the contracts of the GitHub API.
  - Backup, BackupRestore, BackupScheduler: internal/backup: copies of a table with a manifest, restoring and
    validating them, and their schedule. BackupLaws (the locale \<open>backup_source\<close>), BackupCopy and
    BackupMade show what a restore and a backup promise, BackupDemo and BackupProperties hold a plain
    store and the properties.
  - Monitoring: internal/monitoring, the health rules, the alerts and the monitor. Config:
    internal/config, the program's configuration from its text to the defaults and checks.
  - Demo: concrete tables, breakers and configurations for the witnesses.

  How state and operations correspond to the code: a struct is a record, a method a definition that
  takes and returns it; a call that may fail and changes the outside world is an \<open>io\<close>, which returns
  the error or the result with the world after it; a nil pointer or a panic that the code can reach
  is \<open>None\<close>. Goroutines that share state are step relations (circuit breaker, batches, monitor, backup
  scheduler); those of a sync run or a backup take their turns in an order that is an argument, and
  so do the iterations over Go maps. Third-party services are arguments: the S3 SDK (\<open>aws_ops\<close> with
  the locale \<open>aws_bucket\<close>), the YAML decoder, the Parquet and cron libraries, \<open>regexp.MatchString\<close> of the
  contracts, the connector of a source, notification channels.

  The groups of lemmas: round trips of every persisted form; the log, snapshot and checkpoint of a
  table against the replay of its actions; commits against the log; the S3 client against the
  abstract store; the executor's attempts; breaker, batch, monitor and schedule invariants over every
  interleaving; what validation of configurations, checkpoints, batches and API calls accepts; what
  a sync run records, saves and leaves alone, and that it returns; what backups and restores verify.

  Bounds: loops that count (\<open>execute_loop\<close>, \<open>snapshot_loop\<close>) have a measure; the JSON parser
  recurses on fuel, the length of its input, which is enough because every call consumes a byte;
  versions stay below 2^63, which the theorems state where they need it.

  Not modelled: logging, tracing and metrics exporters; contexts other than their end while waiting;
  the messages of encoding/json errors; internal/migration and sync/state_migrator.go (conformity is
  checked by reflection on registered types); internal/scheduler (a wrapper of the cron library);
  the registry of connectors and the Salesforce connector (HTTP requests); internal/observability;
  internal/plugin, pkg/plugin and cmd (dynamic loading, templates); internal/profiler; the contract
  recorder; internal/security (scanning source trees); monitoring/metrics_analyzer.go; the
  constructors that load AWS credentials; loading validation reports and snapshots back.
\<close>

section \<open>The Delta tables\<close>

text \<open>
  C1: A commit that reports success is what the next snapshot shows. Over the S3 client, for any
  bucket that keeps the S3 contract, whatever errors and retries occur below, with or without the
  checkpoint manager's hook: if the log held versions 0 to n - 1, a snapshot gave s, and then
  Commit returned version v, the next snapshot is s with the commit's actions applied once (same
  files, protocol and metadata), and its version is v.
\<close>

theorem commit_snapshot:
  assumes "lake_env aws bucket bkt rt c"
    and "table_snapshot t (-1) w = (Inr s, w0)"
    and "table_commit (rt_snd (rt_snd rt)) t hook actions operation (Some cb, w0) = (Inr v, (cb', w1))"
    and "table_snapshot t (-1) w1 = (Inr s', w2)"
    and "t = new_delta_table (store_snd (s3_ops rt c)) source object p" and "wf_commit actions operation"
    and "hook = None \<or>
         hook = Some (maybe_checkpoint ord (rt_snd rt) (table_checkpoint_manager (s3_ops rt c) source object p config))"
    and "log_upto p (client_view c bkt (snd w)) n" and "n + 3 < 2 ^ 63"
  shows "same_table s' (replay actions s) \<and> sn_version s' = v"
proof -
  note T0 = lake_env.table_contract [OF assms(1)]
  note T = table_env_snd [OF T0]
  have w0: "(client_view c bkt \<circ> snd) w0 = (client_view c bkt \<circ> snd) w"
    using table_env.table_snapshot_view [OF T _ assms(2), of p] assms(5) by simp
  have m: "table_env.manager_of (s3_ops rt c) p (table_checkpoint_manager (s3_ops rt c) source object p config)"
    by (rule table_env.manager_of_table [OF T0 log_upto_directory [OF assms(8)]])
  have hook: "table_env.hook_ok (client_view c bkt \<circ> snd) p hook"
    using assms(7) table_env.checkpoint_hook_ok [OF T0 m] by (auto simp: table_env.hook_ok_def [OF T])
  show ?thesis
    by (rule table_env.commit_then_snapshot [where P = delta_retry_policy,
          OF T assms(3) _ _ hook table_env.delta_policy_ok [OF T] assms(6) _ _ assms(2) _ assms(4)])
       (use assms(5,8,9) w0 in simp_all)
qed

theorem commit_snapshot_witness:
  "\<exists>s s'. fst demo_before = Inr s \<and> fst demo_after = Inr s'
     \<and> same_table s' (replay demo_actions s) \<and> sn_version s' = 1"
proof -
  obtain s where s: "demo_before = (Inr s, snd demo_before)" by (rule demo_before_run)
  obtain cb where c: "demo_commit = (Inr 1, (cb, snd (snd demo_commit)))" by (rule demo_commit_run)
  obtain s' where s': "demo_after = (Inr s', snd demo_after)" by (rule demo_after_run)
  have upto: "log_upto demo_prefix (client_view lake_client mem_view (snd (snd demo_init))) 1"
    using demo_init_run by (auto simp: intact_def)
  have "same_table s' (replay demo_actions s) \<and> sn_version s' = 1"
  proof (rule commit_snapshot [OF lake.lake_env_axioms])
    show "table_snapshot demo_table (-1) (snd demo_init) = (Inr s, snd demo_before)"
      using s by (simp add: demo_before_def)
    show "table_commit (rt_snd (rt_snd mem_rt)) demo_table (Some (maybe_checkpoint rev (rt_snd mem_rt) demo_manager))
        demo_actions ''WRITE'' (Some delta_breaker, snd demo_before) = (Inr 1, (cb, snd (snd demo_commit)))"
      using c by (simp add: demo_commit_def demo_rt_def)
    show "table_snapshot demo_table (-1) (snd (snd demo_commit)) = (Inr s', snd demo_after)"
      using s' by (simp add: demo_after_def)
  qed (use upto in \<open>auto simp: demo_table_def demo_manager_def\<close>)
  then show ?thesis using s s' by (metis fst_conv)
qed

text \<open>
  C3: The calls return. If S3 answers every request and the breakers are closed, then on an intact
  log Commit succeeds at the first attempt with the next version, and Snapshot succeeds after it.
\<close>

theorem commit_and_snapshot_return:
  assumes "live_bucket aws bucket bkt rt c bup"
    and "live_bucket.client_up bup w" and "closed cb" and "intact p (client_view c bkt w) n" and "n + 3 < 2 ^ 63"
    and "t = new_delta_table (s3_ops rt c) source object p" and "wf_commit actions operation"
  shows "\<exists>cb' w' s w''. table_commit (rt_snd rt) t None actions operation (Some cb, w) = (Inr n, (Some cb', w'))
           \<and> closed cb' \<and> table_snapshot t (-1) w' = (Inr s, w'')"
proof -
  note L = live_bucket.live_table_up [OF assms(1)]
  note T = live_table.axioms(2) [OF L]
  have t: "dt_log t = \<lparr>tl_store = s3_ops rt c, tl_log_prefix = p\<rparr>" "dt_retry_policy t = Some delta_retry_policy"
    using assms(6) by simp_all
  have upto: "log_upto p (client_view c bkt w) n" using assms(4) by (simp add: intact_def)
  obtain cb' w' where run: "table_commit (rt_snd rt) t None actions operation (Some cb, w) = (Inr n, (Some cb', w'))"
    and up: "closed cb'" "live_bucket.client_up bup w'"
    using live_table.table_commit_up [OF L assms(2,3) upto _ t, of None actions operation] assms(5) by auto
  obtain k where k: "int k < 3" "n = n + int k"
      "appended p actions operation (Suc k) (client_view c bkt w) n (client_view c bkt w')"
    using table_env.table_commit_ok [OF T run t _ table_env.delta_policy_ok [OF T] upto] assms(5)
    by (auto simp: table_env.hook_ok_def [OF T])
  have "intact p (client_view c bkt w') (n + int (Suc k))"
    using intact_appended [OF k(3) assms(4) _ assms(7)] k(1) assms(5) by auto
  moreover have "0 < n + int (Suc k)" using upto by (simp add: log_upto_def)
  ultimately show ?thesis using live_table.snapshot_up [OF L up(2) _ _ t(1)] run up(1) by blast
qed

theorem commit_and_snapshot_return_witness:
  "\<exists>cb' w' s w''.
     table_commit (rt_snd mem_rt) (new_delta_table (s3_ops mem_rt lake_client) ''crm'' ''Account'' demo_prefix) None
       demo_actions ''WRITE'' (Some delta_breaker, demo_start) = (Inr 0, (Some cb', w'))
     \<and> closed cb'
     \<and> table_snapshot (new_delta_table (s3_ops mem_rt lake_client) ''crm'' ''Account'' demo_prefix) (-1) w' = (Inr s, w'')"
  by (rule commit_and_snapshot_return [OF lake_up.live_bucket_axioms _ _ _ _ refl demo_wf_commit])
     (use demo_start_up demo_start_intact in \<open>simp_all add: closed_def delta_breaker_def new_circuit_breaker_def\<close>)

text \<open>
  C5: A snapshot is the replay of the log. If Snapshot(version) returns s, every entry 0 to version
  is in the bucket and decodes, and s is what applying their actions in order to the empty table gives.
\<close>

theorem snapshot_is_replay:
  assumes "lake_env aws bucket bkt rt c" and "t = new_delta_table (s3_ops rt c) source object p"
    and "table_snapshot t version w = (Inr s, w')" and "0 \<le> version"
  shows "replay_log (log_actions p (client_view c bkt w)) (nat (version + 1)) (empty_snapshot version) = Some s
         \<and> client_view c bkt w' = client_view c bkt w"
  using table_env.table_snapshot_ok [OF lake_env.table_contract [OF assms(1)] assms(3), of p]
    table_env.table_snapshot_view [OF lake_env.table_contract [OF assms(1)] _ assms(3), of p] assms(2,4) by simp

theorem snapshot_is_replay_witness:
  "\<exists>s w'. table_snapshot demo_lake_table 0 demo_one_version = (Inr s, w')
     \<and> replay_log (log_actions demo_prefix (client_view lake_client mem_view demo_one_version)) (nat (0 + 1))
         (empty_snapshot 0) = Some s"
proof -
  obtain s w' where run: "table_snapshot demo_lake_table 0 demo_one_version = (Inr s, w')" by (rule demo_one_version_run)
  from snapshot_is_replay [OF lake.lake_env_axioms demo_lake_table_def run] run show ?thesis by auto
qed

text \<open>
  C6: A checkpoint that CreateCheckpoint reports written stands for the table: the object under its
  key decodes to actions which, replayed on an empty table and followed by the log entries after its
  version, give the table that the whole log gives; the marker decodes to its version.
\<close>

theorem checkpoint_stands_for_log:
  assumes "lake_env aws bucket bkt rt c" and "iteration_order ord" and "directory p" and "0 \<le> v" and "in_int64 v"
    and "create_checkpoint ord (rt_snd rt) (table_checkpoint_manager (s3_ops rt c) source object p config) v (k, w)
         = (Inr u, (k', w'))"
    and "replay_log (log_actions p (client_view c bkt w)) (nat (v + 1) + n) (empty_snapshot x) = Some s'"
    and "\<forall>i as. 0 \<le> i \<and> i \<le> v \<and> log_actions p (client_view c bkt w) i = Some as \<longrightarrow> list_all wf_action as"
  shows "\<exists>body as s''. client_view c bkt w' (checkpoint_key p v) = Some body \<and> decode_checkpoint body = Some as
           \<and> replay_log (\<lambda>i. log_actions p (client_view c bkt w) (v + 1 + i)) n (replay as (empty_snapshot v)) = Some s''
           \<and> same_table s'' s'"
proof -
  note T = lake_env.table_contract [OF assms(1)]
  let ?m = "table_checkpoint_manager (s3_ops rt c) source object p config"
  have m: "table_env.manager_of (s3_ops rt c) p ?m" by (rule table_env.manager_of_table [OF T assms(3)])
  obtain s where s: "replay_log (log_actions p (client_view c bkt w)) (nat (v + 1)) (empty_snapshot v) = Some s"
    and w': "client_view c bkt w' = (client_view c bkt w)(checkpoint_key p v \<mapsto>
        encode_checkpoint (build_checkpoint_actions ord s), cm_last_checkpoint_key ?m \<mapsto> json_indent (enc_last_checkpoint
          \<lparr>lc_version = v, lc_size = int (length (build_checkpoint_actions ord s))\<rparr>))"
    using table_env.create_checkpoint_ok [OF T assms(6) m assms(4)] by blast
  have key: "cm_last_checkpoint_key ?m \<noteq> checkpoint_key p v"
    using last_checkpoint_neq [OF assms(4)]
    by (simp add: table_checkpoint_manager_def new_checkpoint_manager_def)
  have "wf_snapshot s"
  proof (rule wf_snapshot_replay_log [OF s])
    fix i as assume "i < nat (v + 1)" and "log_actions p (client_view c bkt w) (int i) = Some as"
    then have "0 \<le> int i \<and> int i \<le> v \<and> log_actions p (client_view c bkt w) (int i) = Some as" by auto
    then show "list_all wf_action as" using assms(8) by blast
  qed
  then have "list_all wf_action (build_checkpoint_actions ord s)" by (rule wf_build_checkpoint_actions [OF _ assms(2)])
  then have "decode_checkpoint (encode_checkpoint (build_checkpoint_actions ord s)) = Some (build_checkpoint_actions ord s)"
    by simp
  moreover obtain s'' where "replay_log (\<lambda>i. log_actions p (client_view c bkt w) (int (nat (v + 1)) + i)) n
      (replay (build_checkpoint_actions ord s) (empty_snapshot v)) = Some s''" and "same_table s'' s'"
    using checkpoint_then_tail [OF assms(2) s assms(7)] by blast
  ultimately show ?thesis using w' key assms(4) by auto
qed

theorem checkpoint_stands_for_log_witness:
  "\<exists>k' w' body as s''.
     create_checkpoint rev (rt_snd mem_rt)
       (table_checkpoint_manager (s3_ops mem_rt lake_client) ''crm'' ''Account'' demo_prefix demo_config)
       0 (no_checkpoints, demo_one_version) = (Inr (), (k', w'))
     \<and> client_view lake_client mem_view w' (checkpoint_key demo_prefix 0) = Some body \<and> decode_checkpoint body = Some as
     \<and> replay_log (\<lambda>i. log_actions demo_prefix (client_view lake_client mem_view demo_one_version) (0 + 1 + i)) 0
         (replay as (empty_snapshot 0)) = Some s''"
proof -
  obtain k' w' where run: "create_checkpoint rev (rt_snd mem_rt)
       (table_checkpoint_manager (s3_ops mem_rt lake_client) ''crm'' ''Account'' demo_prefix demo_config)
       0 (no_checkpoints, demo_one_version) = (Inr (), (k', w'))" by (rule demo_checkpoint_run)
  obtain s' where "replay_log (log_actions demo_prefix (client_view lake_client mem_view demo_one_version)) 1
      (empty_snapshot 0) = Some s'" by (rule demo_one_version_replay)
  then have full: "replay_log (log_actions demo_prefix (client_view lake_client mem_view demo_one_version)) (nat (0 + 1) + 0)
      (empty_snapshot 0) = Some s'" by simp
  from checkpoint_stands_for_log [OF lake.lake_env_axioms iteration_order_rev demo_prefix_directory order_refl _ run full
      demo_one_version_wf] run
  show ?thesis by (auto simp: in_int64_def)
qed

text \<open>
  C16: Initialize writes version 0 exactly when the log is empty, and changes nothing otherwise: after
  it the log has at least one version, and a second Initialize leaves every object as it is.
\<close>

theorem initialize_idempotent:
  assumes "lake_env aws bucket bkt rt c" and "t = new_delta_table (s3_ops rt c) source object p"
    and "log_upto p (client_view c bkt w) n"
    and "table_initialize (rt_snd rt) t schema_string w = (Inr u, w1)"
    and "table_initialize (rt_snd rt) t schema_string w1 = (Inr u', w2)"
  shows "log_upto p (client_view c bkt w1) (max n 1)
         \<and> (0 < n \<longrightarrow> client_view c bkt w1 = client_view c bkt w)
         \<and> (\<forall>k. k \<noteq> version_key p 0 \<longrightarrow> client_view c bkt w1 k = client_view c bkt w k)
         \<and> client_view c bkt w2 = client_view c bkt w1"
proof -
  note T = lake_env.table_contract [OF assms(1)]
  have t: "dt_log t = \<lparr>tl_store = s3_ops rt c, tl_log_prefix = p\<rparr>" using assms(2) by simp
  have upto: "log_upto p (client_view c bkt w1) (max n 1)"
    by (rule table_env.table_initialize_upto [OF T assms(4) t assms(3)])
  show ?thesis
    using upto table_env.table_initialize_ok [OF T assms(4) t assms(3)]
      table_env.table_initialize_ok [OF T assms(5) t upto] by (auto split: if_splits)
qed

theorem initialize_idempotent_witness:
  "\<exists>w1 w2. table_initialize (rt_snd mem_rt) demo_lake_table ''{}'' demo_start = (Inr (), w1)
     \<and> table_initialize (rt_snd mem_rt) demo_lake_table ''{}'' w1 = (Inr (), w2)
     \<and> log_upto demo_prefix (client_view lake_client mem_view w1) (max 0 1)"
proof -
  obtain w1 w2 where run: "table_initialize (rt_snd mem_rt) demo_lake_table ''{}'' demo_start = (Inr (), w1)"
      "table_initialize (rt_snd mem_rt) demo_lake_table ''{}'' w1 = (Inr (), w2)"
    by (rule demo_initialize_twice)
  have upto: "log_upto demo_prefix (client_view lake_client mem_view demo_start) 0"
    using demo_start_intact by (simp add: intact_def)
  from initialize_idempotent [OF lake.lake_env_axioms demo_lake_table_def upto run] run show ?thesis by blast
qed

text \<open>
  C17: A commit never touches the versions that were there, and appends at least one and at most
  MaxAttempts copies of its entry, at consecutive versions, the last of which is the one it returns:
  an attempt whose upload took effect but reported an error leaves its entry behind.
\<close>

theorem commit_appends:
  assumes "lake_env aws bucket bkt rt c" and "t = new_delta_table (s3_ops rt c) source object p"
    and "table_commit (rt_snd rt) t None actions operation (Some cb, w) = (Inr v, (cb', w'))"
    and "log_upto p (client_view c bkt w) n" and "n + 3 < 2 ^ 63"
  shows "\<exists>k. int k < 3 \<and> v = n + int k
             \<and> appended p actions operation (Suc k) (client_view c bkt w) n (client_view c bkt w')
             \<and> log_upto p (client_view c bkt w') (v + 1)"
proof -
  note T = lake_env.table_contract [OF assms(1)]
  have t: "dt_log t = \<lparr>tl_store = s3_ops rt c, tl_log_prefix = p\<rparr>" "dt_retry_policy t = Some delta_retry_policy"
    using assms(2) by simp_all
  have hook: "table_env.hook_ok (client_view c bkt) p None" by (simp add: table_env.hook_ok_def [OF T])
  obtain k where k: "int k < 3" "v = n + int k"
      "appended p actions operation (Suc k) (client_view c bkt w) n (client_view c bkt w')"
    using table_env.table_commit_ok [OF T assms(3) t hook table_env.delta_policy_ok [OF T] assms(4)] assms(5) by auto
  then show ?thesis using appended_upto [OF k(3) assms(4)] assms(5) by (auto simp: ac_simps)
qed

theorem commit_appends_witness:
  "\<exists>v cb' w' k. table_commit (rt_snd mem_rt) demo_lake_table None demo_actions ''WRITE'' (Some delta_breaker, demo_start)
       = (Inr v, (cb', w'))
     \<and> appended demo_prefix demo_actions ''WRITE'' (Suc k) (client_view lake_client mem_view demo_start) 0
         (client_view lake_client mem_view w')"
proof -
  obtain cb' w' where run: "table_commit (rt_snd mem_rt) demo_lake_table None demo_actions ''WRITE''
      (Some delta_breaker, demo_start) = (Inr 0, (cb', w'))" by (rule demo_first_commit)
  have upto: "log_upto demo_prefix (client_view lake_client mem_view demo_start) 0"
    using demo_start_intact by (simp add: intact_def)
  from commit_appends [OF lake.lake_env_axioms demo_lake_table_def run upto] run show ?thesis by auto
qed

text \<open>
  C18: Commit does not detect a concurrent commit. If another commit succeeds between the moment a
  writer has read the latest version and the moment it writes, the writer's entry replaces the
  other's under the same version, and the other commit, which reported success, is gone.
\<close>

theorem concurrent_commit_lost:
  assumes "lake_env aws bucket bkt rt c" and "t = new_delta_table (s3_ops rt c) source object p"
    and "latest_version (dt_log t) w = (Inr latest, w1)"
    and "commit_op (rt_snd rt) t None actions' operation' w1 = (Inr v', w2)"
    and "write_version (dt_log t) (latest + 1) entry w2 = (Inr u, w3)"
    and "log_upto p (client_view c bkt w) n" and "n + 1 < 2 ^ 63" and "list_all wf_action entry"
  shows "v' = latest + 1 \<and> log_upto p (client_view c bkt w3) (v' + 1)
         \<and> log_actions p (client_view c bkt w3) v' = Some entry"
proof -
  have t: "dt_log t = \<lparr>tl_store = s3_ops rt c, tl_log_prefix = p\<rparr>" using assms(2) by simp
  show ?thesis
    by (rule table_env.commit_race [OF lake_env.table_contract [OF assms(1)] assms(3) [unfolded t] assms(4) t
          assms(5) [unfolded t] assms(6-8)])
qed

theorem concurrent_commit_lost_witness:
  "\<exists>latest w1 v' w2 w3. latest_version (dt_log demo_lake_table) demo_start = (Inr latest, w1)
     \<and> commit_op (rt_snd mem_rt) demo_lake_table None demo_actions ''WRITE'' w1 = (Inr v', w2)
     \<and> write_version (dt_log demo_lake_table) (latest + 1) [] w2 = (Inr (), w3)
     \<and> log_actions demo_prefix (client_view lake_client mem_view w3) v' = Some []"
proof -
  obtain latest w1 v' w2 w3 where run: "latest_version (dt_log demo_lake_table) demo_start = (Inr latest, w1)"
      "commit_op (rt_snd mem_rt) demo_lake_table None demo_actions ''WRITE'' w1 = (Inr v', w2)"
      "write_version (dt_log demo_lake_table) (latest + 1) [] w2 = (Inr (), w3)"
    by (rule demo_interleaving)
  have upto: "log_upto demo_prefix (client_view lake_client mem_view demo_start) 0"
    using demo_start_intact by (simp add: intact_def)
  have "log_actions demo_prefix (client_view lake_client mem_view w3) v' = Some []"
    using concurrent_commit_lost [OF lake.lake_env_axioms demo_lake_table_def run upto] by auto
  with run show ?thesis by blast
qed

text \<open>
  C25: Per path, the last action that names the file decides: an add leaves that file in the snapshot,
  a remove leaves none, and a path no action names keeps what it had.
\<close>

theorem replay_last_action_wins:
  "map_of (sn_files (replay actions s)) path =
     (case last_effect actions path of Some x \<Rightarrow> x | None \<Rightarrow> map_of (sn_files s) path)"
  by (rule map_of_replay)

section \<open>Checkpoints\<close>

text \<open>
  The checkpoint built from a snapshot passes both validations: it has one protocol and one
  metadata action and sound files, and its files match the snapshot, whatever order the map is
  visited in.
\<close>

theorem fresh_checkpoint_valid:
  assumes "iteration_order ord" and "keyed_by_path s" and "sn_protocol s \<noteq> None" and "sn_metadata s \<noteq> None"
    and "\<forall>(path, f) \<in> set (sn_files s). ad_path f \<noteq> [] \<and> 0 \<le> ad_size f"
  shows "sr_errors (validate_checkpoint_structure (build_checkpoint_actions ord s)) = []
         \<and> validate_against_snapshot ord (build_checkpoint_actions ord s) s = []"
  using fresh_checkpoint_structure [OF assms(1,3-5)] fresh_checkpoint_matches [OF assms(1,2)] by blast

theorem fresh_checkpoint_valid_witness:
  "sr_errors (validate_checkpoint_structure (build_checkpoint_actions rev demo_snapshot)) = []
   \<and> validate_against_snapshot rev (build_checkpoint_actions rev demo_snapshot) demo_snapshot = []"
  by (rule fresh_checkpoint_valid)
     (simp_all add: demo_snapshot_def keyed_by_path_def new_add_action_def new_metadata_action_def zero_action_def)

text \<open>
  C26: The structural validation finds no error exactly when the actions hold one protocol, one
  metadata and only sound actions.
\<close>

theorem structure_validation_exact:
  "sr_errors (validate_checkpoint_structure as) = [] \<longleftrightarrow>
     length (filter is_protocol as) = 1 \<and> length (filter is_metadata as) = 1 \<and> list_all sound_action as"
  by (rule structure_valid_iff)

text \<open>
  C27: The comparison with a snapshot reports nothing exactly when the checkpoint and the snapshot
  have the same paths, and the same size and modification time under each.
\<close>

theorem snapshot_validation_exact:
  assumes "iteration_order ord" and "keys_distinct (sn_files s)"
  shows "validate_against_snapshot ord as s = [] \<longleftrightarrow>
     (\<forall>path. case (map_of (checkpoint_files as) path, map_of (sn_files s) path) of
        (Some f', Some f) \<Rightarrow> ad_size f' = ad_size f \<and> ad_modification_time f' = ad_modification_time f
      | (None, None) \<Rightarrow> True
      | _ \<Rightarrow> False)"
  by (rule against_snapshot_silent [OF assms])

theorem snapshot_validation_exact_witness:
  "validate_against_snapshot rev [] demo_snapshot \<noteq> []"
proof -
  have "\<not> (\<forall>path. case (map_of (checkpoint_files []) path, map_of (sn_files demo_snapshot) path) of
        (Some f', Some f) \<Rightarrow> ad_size f' = ad_size f \<and> ad_modification_time f' = ad_modification_time f
      | (None, None) \<Rightarrow> True
      | _ \<Rightarrow> False)"
    by (auto simp: demo_snapshot_def checkpoint_files_def List.map_filter_simps intro!: exI [of _ "''a.parquet''"])
  then show ?thesis
    using snapshot_validation_exact [of rev demo_snapshot "[]"] by (simp add: demo_snapshot_def)
qed

text \<open>
  ValidateCheckpointFile, which FindValidCheckpoint uses, accepts every file that decodes, whatever
  the structural validation found: the errors are collected and dropped.
\<close>

theorem checkpoint_errors_dropped:
  assumes "st_download (cv_store v) key w = (Inr data, w')" and "decode_checkpoint data = Some actions"
  shows "validate_checkpoint_file v key w = (Inr (), w')"
  by (rule validate_checkpoint_file_ignores_errors [OF assms])

theorem checkpoint_errors_dropped_witness:
  "sr_errors (validate_checkpoint_structure []) \<noteq> []
   \<and> (\<exists>w'. validate_checkpoint_file \<lparr>cv_store = demo_file_store (encode_checkpoint []), cv_log_prefix = []\<rparr> ''k'' ()
          = (Inr (), w'))"
proof -
  have "validate_checkpoint_file \<lparr>cv_store = demo_file_store (encode_checkpoint []), cv_log_prefix = []\<rparr> ''k'' ()
      = (Inr (), ())"
    by (rule checkpoint_errors_dropped [where actions = "[]", OF _ decode_encode_checkpoint]) (simp_all add: demo_file_store_def)
  then show ?thesis by (simp add: structure_valid_iff)
qed



section \<open>Encodings\<close>

text \<open>C30: Log entries and checkpoint bodies decode to the actions they were written from.\<close>

theorem log_and_checkpoint_roundtrip:
  assumes "list_all wf_action as"
  shows "decode_actions (encode_actions as) = Inr as \<and> decode_checkpoint (encode_checkpoint as) = Some as"
  using assms by simp

theorem log_and_checkpoint_roundtrip_witness:
  "decode_actions (encode_actions demo_actions) = Inr demo_actions
   \<and> decode_checkpoint (encode_checkpoint demo_actions) = Some demo_actions"
  by (rule log_and_checkpoint_roundtrip) (use demo_wf_commit in \<open>simp add: wf_commit_def\<close>)

text \<open>
  encoding/json as the code uses it: a value printed by Marshal, by MarshalIndent, or line by line
  by Encoder is read back as it was.
\<close>

theorem json_roundtrip:
  assumes "wf_json v" and "list_all wf_json vs"
  shows "json_unmarshal (json_marshal v) = Some v \<and> json_unmarshal (json_indent v) = Some v
         \<and> json_decode_all (json_lines vs) = Some vs"
  using assms by simp

theorem json_roundtrip_witness:
  "json_unmarshal (json_marshal (enc_action (hd demo_actions))) = Some (enc_action (hd demo_actions))
   \<and> json_unmarshal (json_indent (enc_action (hd demo_actions))) = Some (enc_action (hd demo_actions))
   \<and> json_decode_all (json_lines (map enc_action demo_actions)) = Some (map enc_action demo_actions)"
  by (rule json_roundtrip)
     (use demo_wf_commit in \<open>auto simp: wf_commit_def demo_actions_def intro: wf_json_action\<close>)

section \<open>The object store and its keys\<close>

text \<open>
  C7: The S3 client implements the store interface the Delta code relies on, for any bucket that keeps
  the S3 contract: through retries, rejected calls and ambiguous failures, a successful upload
  replaces exactly its object, a failed one replaces it or nothing, reads change nothing and see the
  last write, a listing has exactly the keys under the prefix, once each.
\<close>

theorem client_implements_store:
  assumes "lake_env aws bucket bkt rt c"
  shows "s3_store (s3_ops rt c) (client_view c bkt)"
  by (rule lake_env.store_contract [OF assms])

theorem client_implements_store_witness:
  "s3_store (s3_ops mem_rt lake_client) (client_view lake_client mem_view)"
  by (rule client_implements_store [OF lake.lake_env_axioms])

text \<open>
  LatestVersion is -1 on an empty log and the greatest version otherwise, whatever other objects
  (checkpoints, the marker, files of other tables) the bucket holds.
\<close>

theorem latest_version_greatest:
  assumes "lake_env aws bucket bkt rt c" and "log_clean p (client_view c bkt w)"
    and "latest_version (new_transaction_log (s3_ops rt c) p) w = (Inr v, w')"
  shows "if log_versions p (client_view c bkt w) = {} then v = -1
         else v \<in> log_versions p (client_view c bkt w) \<and> (\<forall>v' \<in> log_versions p (client_view c bkt w). v' \<le> v)"
  by (rule s3_store.latest_version_ok [OF lake_env.store_contract [OF assms(1)] _ assms(2)])
     (use assms(3) in \<open>simp add: new_transaction_log_def\<close>)

theorem latest_version_greatest_witness:
  "\<exists>v w'. latest_version (new_transaction_log (s3_ops mem_rt lake_client) demo_prefix) demo_start = (Inr v, w')
     \<and> v = -1"
proof -
  have clean: "log_clean demo_prefix (client_view lake_client mem_view demo_start)"
    and empty: "log_versions demo_prefix (client_view lake_client mem_view demo_start) = {}"
    using demo_lake_start(2) by (auto simp: log_upto_def)
  obtain v w' where run: "latest_version (new_transaction_log (s3_ops mem_rt lake_client) demo_prefix) demo_start = (Inr v, w')"
    using live_table.latest_version_up [OF lake_up.live.live_table_axioms demo_lake_start(1)]
    unfolding new_transaction_log_def by blast
  from latest_version_greatest [OF lake.lake_env_axioms clean run] empty run show ?thesis by simp
qed

text \<open>
  The tables do not overlap: a key under the log prefixes of two tables with plain names belongs to
  one table, and no data file lies under a log prefix.
\<close>

theorem tables_disjoint:
  assumes "plain_name s" and "plain_name s'" and "plain_name ob" and "plain_name ob'" and "plain_name f"
    and "has_prefix k (delta_log_prefix s ob)" and "has_prefix k (delta_log_prefix s' ob')"
  shows "s = s' \<and> ob = ob' \<and> \<not> has_prefix (parquet_file s ob f) (delta_log_prefix s' ob')"
  using delta_log_prefix_disjoint [OF assms(1-4,6,7)] parquet_file_not_log [OF assms(1-5)] by blast

theorem tables_disjoint_witness:
  "\<not> has_prefix (parquet_file ''crm'' ''Account'' ''f'') (delta_log_prefix ''crm'' ''Account'')"
  using tables_disjoint [of "''crm''" "''crm''" "''Account''" "''Account''" "''f''" "delta_log_entry ''crm'' ''Account'' 0"]
  by (simp add: plain_name_def delta_log_entry_def delta_log_prefix_def has_prefix_def)

section \<open>Retries\<close>

text \<open>
  C14: Execute succeeds exactly when some attempt within MaxAttempts succeeds after attempts that all
  failed with retryable errors and whose waits ended; the result and the final state are that attempt's.
\<close>

theorem execute_succeeds_iff:
  "execute rt p operation w = (Inr a, w')
   \<longleftrightarrow> (\<exists>j w1. retried rt p operation 1 w j w1 \<and> j \<le> rp_max_attempts p \<and> operation w1 = (Inr a, w'))"
  by (rule execute_success_iff)

text \<open>
  C36: Execute calls the operation at least once when MaxAttempts is positive and never more often than
  MaxAttempts; counting the calls changes nothing else.
\<close>

theorem execute_call_bounds:
  "\<exists>k. execute (rt_snd rt) (policy_snd p) (counted operation) (0, w)
       = (fst (execute rt p operation w), (k, snd (execute rt p operation w)))
     \<and> int k \<le> max 0 (rp_max_attempts p) \<and> (1 \<le> rp_max_attempts p \<longrightarrow> 1 \<le> k)"
  by (rule execute_counted)

theorem execute_call_bounds_witness:
  "\<exists>k. execute (rt_snd mem_rt) (policy_snd delta_retry_policy) (counted (io_ret (7::int))) (0, snd demo_start)
       = (fst (execute mem_rt delta_retry_policy (io_ret (7::int)) (snd demo_start)),
          (k, snd (execute mem_rt delta_retry_policy (io_ret (7::int)) (snd demo_start))))
     \<and> k \<ge> 1"
  using execute_call_bounds [of mem_rt delta_retry_policy "io_ret (7::int)" "snd demo_start"] by auto

text \<open>
  ExecuteWithStats runs the same loop as Execute: same outcome, same final state, when reading the
  clock has no effect.
\<close>

theorem stats_same_run:
  assumes "\<forall>w. snd (rt_now rt w) = w"
  shows "er_outcome (fst (execute_with_stats rt p operation w)) = fst (execute rt p operation w)
         \<and> snd (execute_with_stats rt p operation w) = snd (execute rt p operation w)"
  using execute_with_stats_outcome [of rt p operation w] assms by blast

theorem stats_same_run_witness:
  "er_outcome (fst (execute_with_stats mem_rt delta_retry_policy (io_ret (7::int)) (snd demo_start)))
   = fst (execute mem_rt delta_retry_policy (io_ret 7) (snd demo_start))"
  using stats_same_run [of mem_rt delta_retry_policy "io_ret (7::int)" "snd demo_start"]
  by (simp add: mem_rt_def del: One_nat_def)



text \<open>
  A breaker leaves the open and half-open states for the closed one only by a success counted in
  the half-open state, or by an explicit Reset.
\<close>

theorem breaker_closes_on_success:
  assumes "cb_step s s'" and "cb_state (sys_cb s) \<noteq> StateClosed" and "cb_state (sys_cb s') = StateClosed"
  shows "(cb_state (sys_cb s) = StateHalfOpen
           \<and> cb_success_count (sys_cb s') = cb_success_count (sys_cb s) + 1)
         \<or> sys_cb s' = reset_breaker (sys_cb s)"
  by (rule cb_step_closes [OF assms])

theorem breaker_closes_on_success_witness:
  "cb_success_count (record_result None 9 (sys_cb demo_half_open)) = cb_success_count (sys_cb demo_half_open) + 1
   \<or> record_result None 9 (sys_cb demo_half_open) = reset_breaker (sys_cb demo_half_open)"
proof -
  have "cb_step demo_half_open (demo_half_open\<lparr>sys_cb := record_result None 9 (sys_cb demo_half_open),
      sys_pc := (sys_pc demo_half_open)(0 := Outside)\<rparr>)"
    using cb_step.finish [of demo_half_open 0 None] by (simp add: demo_half_open_def)
  from breaker_closes_on_success [OF this] show ?thesis
    by (simp add: demo_half_open_def record_result_def Let_def new_circuit_breaker_def)
qed

text \<open>
  C39: An open breaker stops a retried operation at once: before the reset timeout has passed the call is
  rejected without running the operation, and since the rejection is not retryable there is no second
  attempt.
\<close>

theorem open_breaker_stops_retries:
  assumes "cb_state cb = StateOpen" and "rt_now rt w = (now, w')"
    and "time_sub now (cb_last_failure_time cb) \<le> cb_reset_timeout cb"
    and "\<not> is_retryable p (Some (BreakerError (cb_name cb) StateOpen))" and "1 \<le> rp_max_attempts p"
  shows "execute_with_retry_and_circuit_breaker rt p operation (cb, w)
         = (Inl (non_retryable 1 (BreakerError (cb_name cb) StateOpen)), (cb, w'))"
  by (rule retry_stops_at_open_breaker [OF assms])

theorem open_breaker_stops_retries_witness:
  "execute_with_retry_and_circuit_breaker mem_rt delta_retry_policy (io_ret (1::int))
     (delta_breaker\<lparr>cb_state := StateOpen, cb_last_failure_time := 5000000\<rparr>, snd demo_start)
   = (Inl (non_retryable 1 (BreakerError ''delta_operations'' StateOpen)),
      (delta_breaker\<lparr>cb_state := StateOpen, cb_last_failure_time := 5000000\<rparr>, snd demo_start))"
proof -
  have nr: "\<not> is_retryable delta_retry_policy (Some (BreakerError ''delta_operations'' StateOpen))"
    by code_simp
  show ?thesis
    using open_breaker_stops_retries [of "delta_breaker\<lparr>cb_state := StateOpen, cb_last_failure_time := 5000000\<rparr>" mem_rt
        "snd demo_start" 5000000 "snd demo_start" delta_retry_policy "io_ret (1::int)"] nr
    by (simp add: mem_rt_def demo_start_def delta_breaker_def new_circuit_breaker_def time_sub_def)
qed



text \<open>
  C38: A batch with a positive limit cannot get stuck: while an operation has not finished, some goroutine
  can move, provided every operation can return something.
\<close>

theorem batch_never_stuck:
  assumes "batch_reachable limit may_return n b" and "0 < limit"
    and "\<forall>i < n. \<exists>r. may_return i r" and "\<exists>i < n. ba_workers b ! i \<noteq> Finished"
  shows "\<exists>b'. batch_step limit may_return b b'"
  by (rule batch_progress [OF batch_reachable_inv [OF assms(1)] assms(2) _ assms(4)]) (use assms(3) in blast)

theorem batch_never_stuck_witness:
  "\<exists>b'. batch_step (effective_concurrency 0 2) (\<lambda>i r. r = int i) (batch_start 2) b'"
  by (rule batch_never_stuck [OF batch_reachable.init])
     (auto simp: effective_concurrency_def batch_start_def intro!: exI [of _ 0])

text \<open>
  Jitter only lengthens a delay, and by at most a tenth of it and a nanosecond, in double precision,
  for delays below 2^53 nanoseconds.
\<close>

theorem jitter_bounded:
  assumes "0 \<le> d" and "d < 2 ^ 53" and "rt_rand rt w = (u, w')" and "0 \<le> u" and "u \<le> 1"
  shows "\<exists>j. add_jitter rt d w = (d + j, w') \<and> 0 \<le> j \<and> j \<le> d div 10 + 1"
  by (rule add_jitter_bounds [OF assms])

theorem jitter_bounded_witness:
  "\<exists>j. add_jitter mem_rt second (snd demo_start) = (second + j, snd demo_start) \<and> 0 \<le> j \<and> j \<le> second div 10 + 1"
  by (rule jitter_bounded [where u = 0]) (simp_all add: mem_rt_def)

text \<open>
  The exponential backoff doubles exactly: attempt n waits BaseDelay * 2^(n-1) while that fits an
  int64, although it is computed in floating point.
\<close>

theorem backoff_doubles:
  assumes "0 < attempt" and "0 < d" and "d < 2 ^ 53" and "d * 2 ^ nat (attempt - 1) < 2 ^ 63"
  shows "exponential_backoff rt attempt d w = (d * 2 ^ nat (attempt - 1), w)"
  using power_backoff_two [OF assms] by (simp add: exponential_backoff_def)

theorem backoff_doubles_witness:
  "exponential_backoff mem_rt 5 (100 * millisecond) (snd demo_start) = (100 * millisecond * 2 ^ nat (5 - 1), snd demo_start)"
  by (rule backoff_doubles) simp_all

text \<open>
  Whether an error is retryable is decided on its text, so wrapping it with more context keeps it
  retryable under each of the pattern lists.
\<close>

theorem wrapping_keeps_retryable:
  assumes "matches_any (err_text e) patterns"
  shows "matches_any (err_text (Wrap context e)) patterns"
  by (rule matches_any_err_text_Wrap [OF assms])

theorem wrapping_keeps_retryable_witness:
  "matches_any (err_text (Wrap ''upload'' CtxDeadline)) [''deadline'']"
  by (rule wrapping_keeps_retryable) code_simp

text \<open>The hand-written substring search agrees with the definition of a substring.\<close>

theorem string_contains_correct: "string_contains s sub \<longleftrightarrow> (\<exists>u v. s = u @ sub @ v)"
  by (simp add: string_contains_iff str_contains_iff)

end
